(* ===== verification/Prelude.thy ===== *)
theory Prelude
  imports Main "HOL-Library.Word"
begin

text \<open>
  The shared prelude: the widths of the emulated machine's integers, the ways the emulator's
  C++ code can fail (exceptions and undefined behaviour as values of \<open>error\<close>), sequencing of
  fallible code, little-endian byte access, and the lemmas on words, carries and signed
  overflow that the component theories share.
\<close>

unbundle bit_operations_syntax

section \<open>Machine integers and failures\<close>

type_synonym u8 = "8 word"
type_synonym u16 = "16 word"
type_synonym u32 = "32 word"
type_synonym u64 = "64 word"

text \<open>
  The exceptions the modelled code throws, one constructor per kind of \<open>throw\<close>, and undefined
  behaviour of C++ (a shift by the operand's width, an access past the end of an array, signed
  overflow), which is kept apart from every defined result.
\<close>

datatype error =
    UnknownInstruction u32          \<comment> \<open>\<open>HandlerStub*\<close>: unknown, unpredictable or unimplemented\<close>
  | UnknownThumbInstruction u16     \<comment> \<open>\<open>HandlerStubThumb\<close>\<close>
  | UnknownUnconditional u32        \<comment> \<open>unconditional space of \<open>StepWithDispatchTable\<close>\<close>
  | ConditionNotImplemented         \<comment> \<open>\<open>EvalCond\<close>\<close>
  | UnexpectedDispatch              \<comment> \<open>"Should not be hit anymore with new dispatcher"\<close>
  | InvalidMode                     \<comment> \<open>\<open>MakeNative\<close>\<close>
  | InvalidOperation                \<comment> \<open>\<open>Mikage::Exceptions::Invalid\<close>\<close>
  | NotImplementedError             \<comment> \<open>\<open>Mikage::Exceptions::NotImplemented\<close>\<close>
  | UnmappedVirtual u32             \<comment> \<open>virtual address without a page table entry\<close>
  | UnknownPhysical u32             \<comment> \<open>physical address outside every bus\<close>
  | ContractViolation               \<comment> \<open>\<open>ValidateContract\<close>, \<open>assert\<close>\<close>
  | HookError                       \<comment> \<open>overlapping or missing memory hooks\<close>
  | PageTableError                  \<comment> \<open>page table cache inconsistencies\<close>
  | DeviceError u32                 \<comment> \<open>raised by a memory-mapped device\<close>
  | RuntimeError                    \<comment> \<open>\<open>std::runtime_error\<close> of the kernel\<close>
  | UndefinedBehaviour              \<comment> \<open>undefined behaviour of C++\<close>
  | ProcessExit                     \<comment> \<open>\<open>exit\<close>\<close>

type_synonym 'a res = "error + 'a"

text \<open>Sequencing: the first exception ends the computation.\<close>

definition bindE :: "'a res \<Rightarrow> ('a \<Rightarrow> 'b res) \<Rightarrow> 'b res" where
  "bindE m f = (case m of Inl e \<Rightarrow> Inl e | Inr a \<Rightarrow> f a)"

lemma bindE_simps [simp]:
  "bindE (Inl e) f = Inl e"
  "bindE (Inr a) f = f a"
  by (simp_all add: bindE_def)

lemma bindE_eq_Inr:
  "bindE m f = Inr r \<longleftrightarrow> (\<exists>a. m = Inr a \<and> f a = Inr r)"
  by (cases m) simp_all

lemma bindE_assoc: "bindE (bindE m f) g = bindE m (\<lambda>a. bindE (f a) g)"
  by (cases m) simp_all

lemma bindE_cong [fundef_cong]:
  "m = m' \<Longrightarrow> (\<And>a. m' = Inr a \<Longrightarrow> f a = f' a) \<Longrightarrow> bindE m f = bindE m' f'"
  by (cases m') simp_all

text \<open>A loop over a list whose body may throw (C++ range-based for).\<close>

fun foldE :: "('a \<Rightarrow> 's \<Rightarrow> 's res) \<Rightarrow> 'a list \<Rightarrow> 's \<Rightarrow> 's res" where
  "foldE f [] s = Inr s"
| "foldE f (x # xs) s = bindE (f x s) (foldE f xs)"

lemma foldE_append: "foldE f (xs @ ys) s = bindE (foldE f xs s) (foldE f ys)"
proof (induction xs arbitrary: s)
  case (Cons x xs)
  then have "foldE f (xs @ ys) = (\<lambda>s. bindE (foldE f xs s) (foldE f ys))" by blast
  then show ?case by (simp add: bindE_assoc)
qed simp

text \<open>The rule for invariants of such a loop.\<close>

lemma foldE_invariant:
  assumes "foldE f xs s = Inr s'" and "P s"
    and step: "\<And>x s s'. x \<in> set xs \<Longrightarrow> P s \<Longrightarrow> f x s = Inr s' \<Longrightarrow> P s'"
  shows "P s'"
  using assms
proof (induction xs arbitrary: s)
  case Nil
  then show ?case by simp
next
  case (Cons x xs)
  from Cons.prems(1) obtain t where t: "f x s = Inr t" "foldE f xs t = Inr s'"
    by (auto simp: bindE_eq_Inr)
  have "P t" using Cons.prems(2,3) t(1) by (meson list.set_intros(1))
  with t(2) show ?case
    by (rule Cons.IH) (meson Cons.prems(3) list.set_intros(2))
qed

section \<open>Collections of facts\<close>

text \<open>
  \<open>arm_fields\<close>: the bit-field accessors of instructions and status registers;
  \<open>handler_defs\<close>: the small helpers every instruction handler is built from;
  \<open>psr_simps\<close>: how reading one status field reacts to writing another.
\<close>

named_theorems arm_fields
named_theorems handler_defs
named_theorems psr_simps

section \<open>Words\<close>

lemma bit_word_msb_iff: "bit (w :: u32) 31 \<longleftrightarrow> 2 ^ 31 \<le> unat w"
proof -
  have "bit w 31 \<longleftrightarrow> bit (unat w) 31" by (simp add: bit_unsigned_iff)
  also have "\<dots> \<longleftrightarrow> odd (unat w div 2 ^ 31)" by (simp only: bit_iff_odd)
  also have "\<dots> \<longleftrightarrow> 2 ^ 31 \<le> unat w"
  proof -
    have "unat w < 2 ^ 32" using unsigned_less [of w, where 'a = nat] by simp
    then have "unat w div 2 ^ 31 = (if 2 ^ 31 \<le> unat w then 1 else 0)" by auto
    then show ?thesis by simp
  qed
  finally show ?thesis .
qed

lemma bit_word_msb_sint: "bit (w :: u32) 31 \<longleftrightarrow> sint w < 0"
  using bit_last_iff [of w] by simp

lemma unat_u32_less: "unat (w :: u32) < 4294967296"
  using unsigned_less [of w, where 'a = nat] by simp

lemma uint_u32_less: "uint (w :: u32) < 4294967296"
  using unsigned_less [of w, where 'a = int] by simp

lemma bit_word_msb_uint: "bit (w :: u32) 31 \<longleftrightarrow> 2147483648 \<le> uint w"
proof -
  have "bit w 31 \<longleftrightarrow> 2147483648 \<le> unat w" by (simp add: bit_word_msb_iff)
  also have "\<dots> \<longleftrightarrow> 2147483648 \<le> int (unat w)" by linarith
  finally show ?thesis by simp
qed

text \<open>The signed value, from the unsigned one and the sign.\<close>

lemma sint_u32: "sint (w :: u32) = (if bit w 31 then uint w - 4294967296 else uint w)"
  by (simp add: sint_uint signed_take_bit_eq_take_bit_minus bit_uint_iff take_bit_int_eq_self
      uint_u32_less)

text \<open>Wrap-around of 32-bit sums and differences, read unsigned.\<close>

lemma uint_add_u32:
  "uint (a + b :: u32) =
    (if uint a + uint b < 4294967296 then uint a + uint b else uint a + uint b - 4294967296)"
  using uint_plus_if' [of a b] by simp

lemma uint_sub_u32:
  "uint (a - b :: u32) =
    (if uint b \<le> uint a then uint a - uint b else uint a - uint b + 4294967296)"
  using uint_sub_if' [of a b] by simp

lemma uint_not_u32: "uint (NOT a :: u32) = 4294967295 - uint a"
proof -
  have "uint (- 1 - a) = 4294967295 - uint a"
    using uint_u32_less [of a] by (simp add: uint_sub_u32 unsigned_minus_1_eq_mask mask_numeral)
  moreover have "NOT a = - 1 - a" by (simp add: not_eq_complement)
  ultimately show ?thesis by metis
qed

lemma uint_of_bool [simp]: "uint (of_bool b :: 'a::len word) = of_bool b"
  by (cases b) simp_all

text \<open>The most significant bit as the result of a shift to the right by 31.\<close>

lemma drop_bit_31: "drop_bit 31 (w :: u32) = of_bool (bit w 31)"
proof (rule bit_word_eqI)
  fix n assume "n < LENGTH(32)"
  show "bit (drop_bit 31 w) n \<longleftrightarrow> bit (of_bool (bit w 31) :: u32) n"
    by (cases n) (auto simp: bit_simps dest: bit_imp_le_length)
qed

lemmas u32_arith = uint_add_u32 uint_sub_u32 uint_not_u32 bit_word_msb_uint sint_u32

lemma uint_u32_bounds: "- 1 < uint (w :: u32) \<and> uint w < 4294967296"
  using uint_ge_0 [of w] uint_u32_less [of w] by linarith

lemma uint_ucast_u64 [simp]: "uint (ucast (w :: u32) :: u64) = uint w"
  by (simp add: unsigned_ucast_eq take_bit_int_eq_self uint_u32_less order_less_trans [OF uint_u32_less])

lemma sint_scast_u64 [simp]: "sint (scast (w :: u32) :: u64) = sint w"
  by (rule sint_up_scast) (simp add: is_up)

lemma sint_not_u32: "sint (NOT (r :: u32)) = - sint r - 1"
  using uint_u32_bounds [of r] by (auto simp: u32_arith bit_not_iff)

lemma sint_u32_bounds: "- 2147483648 \<le> sint (w :: u32) \<and> sint w < 2147483648"
  using sint_ge [of w] sint_lt [of w] by simp

end
