(* ===== verification/KernelObjects.thy ===== *)
theory KernelObjects
  imports Prelude "HOL-Library.AList"
begin

text \<open>
  The objects of the kernel that threads wait for, and its scheduler (\<open>os.hpp\<close> and \<open>os.cpp\<close>): mutexes, semaphores,
  events, timers, ports and sessions, the threads with the lists of objects they wait for, the lists of threads that
  observe an object, the queues of the scheduler, and the kernel's clock.

  A \<open>std::shared_ptr\<close> to an object is its number. Threads and processes are objects, too; the state of a thread is kept in
  \<open>threads\<close>, where \<open>None\<close> means that it was destroyed, so that locking a \<open>std::weak_ptr\<close> to it fails.
\<close>

section \<open>Objects and threads\<close>

datatype reset_type = OneShot | Sticky | Pulse | OtherReset u32

datatype thread_status = Ready | Sleeping | WaitingForTimeout | WaitingForArbitration | Stopped

datatype process_status = Created | Running | Stopping

type_synonym i32 = "32 word"
type_synonym i64 = "64 word"

record mutex =
  lock_count :: u32
  mutex_owner :: "nat option"

record semaphore =
  available_count :: i32
  max_available :: i32

record event =
  signalled :: bool
  event_type :: reset_type

record timer =
  active :: bool
  timer_type :: reset_type
  timeout_time_ns :: u64
  period_ns :: u64

record server_port =
  available_sessions :: u32
  session_queue :: "nat list"
  server_port_port :: nat

record server_session =
  ipc_commands_pending :: u32
  server_session_session :: nat
  server_session_port :: "nat option"

record client_session =
  client_session_session :: nat
  client_session_threads :: "nat list"

record process_state =
  process_threads :: "nat list"
  process_status :: process_status

text \<open>The physical memory of a program image: ranges of pages, and the memory behind the data.\<close>

record code_set =
  text_phys :: "(u32 \<times> u32) list"
  ro_phys :: "(u32 \<times> u32) list"
  data_phys :: "(u32 \<times> u32) list"
  bss_paddr :: u32
  bss_size :: u32

record shared_memory_block =
  phys_address :: u32
  block_size :: u32
  owns_memory :: bool

text \<open>\<open>Port\<close> and \<open>Session\<close> are the pairs of weak references to their two endpoints.\<close>

datatype kobject =
    is_Mutex: Mutex mutex
  | Semaphore semaphore
  | is_Event: Event event
  | Timer timer
  | DMAObject
  | ServerPort server_port
  | ClientPort nat
  | ServerSession server_session
  | ClientSession client_session
  | Port "nat option" "nat option"
  | Session "nat option" "nat option"
  | AddressArbiter
  | SharedMemoryBlock shared_memory_block
  | CodeSet code_set
  | ThreadObject
  | ProcessObject process_state

record thread =
  parent_process :: nat
  status :: thread_status
  priority :: u32
  timeout_at :: i64
  arbitration_address :: u32
  promised_result :: u32
  wait_list :: "nat list"
  wait_for_all :: bool
  wake_index :: u32
  woken_object :: "nat option"

text \<open>
  A handle table (\<open>std::unordered_map\<close>) is a list of its entries in the order in which they are visited.
\<close>

record handle_table =
  handles :: "(u32 \<times> nat) list"
  cur_handle :: u32

record kernel =
  next_object :: nat
  handle_tables :: "nat \<Rightarrow> handle_table"
  threads :: "nat \<Rightarrow> thread option"
  objects :: "nat \<Rightarrow> kobject option"
  observers :: "nat \<Rightarrow> nat list"
  os_threads :: "nat list"
  ready_queue :: "nat list"
  waiting_queue :: "nat list"
  active_timers :: "nat list"
  bound_interrupts :: "nat \<Rightarrow> nat list"
  system_tick :: u64

definition put_thread :: "nat \<Rightarrow> thread \<Rightarrow> kernel \<Rightarrow> kernel" where
  "put_thread t th k = k\<lparr>threads := (threads k)(t := Some th)\<rparr>"

definition put_object :: "nat \<Rightarrow> kobject \<Rightarrow> kernel \<Rightarrow> kernel" where
  "put_object ob x k = k\<lparr>objects := (objects k)(ob := Some x)\<rparr>"

text \<open>\<open>std::make_shared\<close>.\<close>

definition make_shared :: "kobject \<Rightarrow> kernel \<Rightarrow> nat \<times> kernel" where
  "make_shared x k = (next_object k, put_object (next_object k) x (k\<lparr>next_object := Suc (next_object k)\<rparr>))"

definition put_observers :: "nat \<Rightarrow> nat list \<Rightarrow> kernel \<Rightarrow> kernel" where
  "put_observers ob ts k = k\<lparr>observers := (observers k)(ob := ts)\<rparr>"

text \<open>Access through a reference that must be valid.\<close>

definition get_thread :: "nat \<Rightarrow> kernel \<Rightarrow> thread res" where
  "get_thread t k = (case threads k t of None \<Rightarrow> Inl UndefinedBehaviour | Some th \<Rightarrow> Inr th)"

definition get_object :: "nat \<Rightarrow> kernel \<Rightarrow> kobject res" where
  "get_object ob k = (case objects k ob of None \<Rightarrow> Inl UndefinedBehaviour | Some x \<Rightarrow> Inr x)"

section \<open>The clock\<close>

text \<open>
  A tick is \<open>1/268111856\<close> seconds. \<open>std::chrono::duration_cast\<close> multiplies by the numerator of the ratio of the two
  units in lowest terms and divides by its denominator, in the common type of the counts, here 64 bits without sign.
\<close>

definition ticks_of_ns :: "u64 \<Rightarrow> u64" where
  "ticks_of_ns ns = (ns * 16756991) div 62500000"

definition ns_of_ticks :: "u64 \<Rightarrow> u64" where
  "ns_of_ticks t = (t * 62500000) div 16756991"

definition vblanks_of_ticks :: "u64 \<Rightarrow> u64" where
  "vblanks_of_ticks t = t div 4481136"

definition GetTimeInNanoSeconds :: "kernel \<Rightarrow> u64" where
  "GetTimeInNanoSeconds k = ns_of_ticks (system_tick k)"

section \<open>Acquiring an object\<close>

definition Mutex_TryAcquire :: "nat \<Rightarrow> mutex \<Rightarrow> kernel \<Rightarrow> (bool \<times> mutex) res" where
  "Mutex_TryAcquire t m k =
    (let taken = Inr (True, m\<lparr>mutex_owner := Some t, lock_count := lock_count m + 1\<rparr>) in
     if lock_count m \<noteq> 0
     then (case mutex_owner m of
         None \<Rightarrow> Inl RuntimeError
       | Some w \<Rightarrow> if threads k w = None then Inl RuntimeError else if w \<noteq> t then Inr (False, m) else taken)
     else taken)"

definition Mutex_Release :: "mutex \<Rightarrow> mutex res" where
  "Mutex_Release m =
    (if lock_count m = 0 then Inl ContractViolation
     else let m1 = m\<lparr>lock_count := lock_count m - 1\<rparr>
          in Inr (if lock_count m1 = 0 then m1\<lparr>mutex_owner := None\<rparr> else m1))"

definition Mutex_IsOwner :: "nat \<Rightarrow> mutex \<Rightarrow> kernel \<Rightarrow> bool" where
  "Mutex_IsOwner t m k \<longleftrightarrow> lock_count m \<noteq> 0 \<and> mutex_owner m = Some t \<and> threads k t \<noteq> None"

definition Mutex_IsReady :: "mutex \<Rightarrow> bool" where
  "Mutex_IsReady m \<longleftrightarrow> lock_count m = 0"

definition Semaphore_TryAcquire :: "semaphore \<Rightarrow> (bool \<times> semaphore) res" where
  "Semaphore_TryAcquire s =
    (if sint (available_count s) < 0 then Inl ContractViolation
     else if available_count s = 0 then Inr (False, s)
     else Inr (True, s\<lparr>available_count := available_count s - 1\<rparr>))"

definition RESULT_OK :: u32 where
  "RESULT_OK = 0"

text \<open>Signed overflow in \<open>max_available - times\<close> and in the addition is undefined.\<close>

definition Semaphore_Release :: "i32 \<Rightarrow> semaphore \<Rightarrow> (u32 \<times> semaphore) res" where
  "Semaphore_Release n s =
    (if sint n < 0 then Inr (0xe0e01bfd, s)
     else let room = sint (max_available s) - sint n in
       if room < - (2 ^ 31) then Inl UndefinedBehaviour
       else if room < sint (available_count s) then Inr (0xd8e007fd, s)
       else let count = sint (available_count s) + sint n in
         if 2 ^ 31 \<le> count then Inl UndefinedBehaviour
         else if count < 0 then Inl ContractViolation
         else Inr (RESULT_OK, s\<lparr>available_count := word_of_int count\<rparr>))"

definition Event_TryAcquire :: "event \<Rightarrow> (bool \<times> event) res" where
  "Event_TryAcquire e =
    (if \<not> signalled e then Inr (False, e)
     else case event_type e of
         OneShot \<Rightarrow> Inr (True, e\<lparr>signalled := False\<rparr>)
       | Sticky \<Rightarrow> Inr (True, e)
       | _ \<Rightarrow> Inl RuntimeError)"

definition SignalEvent :: "event \<Rightarrow> event" where
  "SignalEvent e = e\<lparr>signalled := True\<rparr>"

definition ResetEvent :: "event \<Rightarrow> event" where
  "ResetEvent e = e\<lparr>signalled := False\<rparr>"

definition Timer_Run :: "u64 \<Rightarrow> u64 \<Rightarrow> timer \<Rightarrow> timer" where
  "Timer_Run timeout_time period tm = tm\<lparr>timeout_time_ns := timeout_time, period_ns := period, active := True\<rparr>"

definition Timer_Reset :: "timer \<Rightarrow> timer" where
  "Timer_Reset tm = tm\<lparr>active := False\<rparr>"

definition Timer_Expired :: "u64 \<Rightarrow> timer \<Rightarrow> bool" where
  "Timer_Expired current_time tm \<longleftrightarrow> active tm \<and> timeout_time_ns tm \<le> current_time"

definition Timer_TryAcquire :: "u64 \<Rightarrow> timer \<Rightarrow> (bool \<times> timer) res" where
  "Timer_TryAcquire current_time tm =
    (if \<not> active tm \<or> current_time < timeout_time_ns tm then Inr (False, tm)
     else case timer_type tm of
         OneShot \<Rightarrow> Inr (True, Timer_Reset tm)
       | Sticky \<Rightarrow> Inr (True, tm)
       | Pulse \<Rightarrow> Inr (True, Timer_Run (current_time + period_ns tm) (period_ns tm) tm)
       | OtherReset _ \<Rightarrow> Inl RuntimeError)"

definition ServerSession_TryAcquire :: "server_session \<Rightarrow> kernel \<Rightarrow> (bool \<times> server_session) res" where
  "ServerSession_TryAcquire s k = (case objects k (server_session_session s) of
      Some (Session client server) \<Rightarrow>
        if (case client of None \<Rightarrow> True | Some c \<Rightarrow> objects k c = None) then Inr (True, s)
        else if ipc_commands_pending s \<noteq> 0
        then Inr (True, s\<lparr>ipc_commands_pending := ipc_commands_pending s - 1\<rparr>)
        else Inr (False, s)
    | _ \<Rightarrow> Inl UndefinedBehaviour)"

definition ClientPort_TryAcquire :: "nat \<Rightarrow> kernel \<Rightarrow> bool res" where
  "ClientPort_TryAcquire port k = (case objects k port of
      Some (Port server client) \<Rightarrow> (case server of
          None \<Rightarrow> Inl RuntimeError
        | Some sp \<Rightarrow> (case objects k sp of
            Some (ServerPort s) \<Rightarrow> Inr (available_sessions s \<noteq> 0)
          | _ \<Rightarrow> Inl UndefinedBehaviour))
    | _ \<Rightarrow> Inl UndefinedBehaviour)"

definition ClientSession_TryAcquire :: "nat \<Rightarrow> client_session \<Rightarrow> bool" where
  "ClientSession_TryAcquire t s \<longleftrightarrow> t \<notin> set (client_session_threads s)"

definition ClientSession_SetReady :: "nat \<Rightarrow> client_session \<Rightarrow> client_session res" where
  "ClientSession_SetReady t s =
    (if t \<in> set (client_session_threads s)
     then Inr (s\<lparr>client_session_threads := remove1 t (client_session_threads s)\<rparr>) else Inl RuntimeError)"

definition Thread_TryAcquire :: "nat \<Rightarrow> kernel \<Rightarrow> bool res" where
  "Thread_TryAcquire ob k = bindE (get_thread ob k) (\<lambda>th. Inr (status th = Stopped))"

fun all_stopped :: "nat list \<Rightarrow> kernel \<Rightarrow> bool res" where
  "all_stopped [] k = Inr True"
| "all_stopped (t # ts) k = bindE (get_thread t k) (\<lambda>th. if status th \<noteq> Stopped then Inr False else all_stopped ts k)"

definition Process_TryAcquire :: "process_state \<Rightarrow> kernel \<Rightarrow> bool res" where
  "Process_TryAcquire p k = bindE (all_stopped (process_threads p) k) (\<lambda>b. Inr (b \<and> process_status p \<noteq> Created))"

definition with_object :: "('a \<Rightarrow> kobject) \<Rightarrow> nat \<Rightarrow> kernel \<Rightarrow> (bool \<times> 'a) res \<Rightarrow> (bool \<times> kernel) res" where
  "with_object C ob k r = bindE r (\<lambda>(b, x). Inr (b, put_object ob (C x) k))"

text \<open>The virtual method \<open>TryAcquireImpl\<close>; objects that are not \<open>ObserverSubject\<close>s have none.\<close>

definition TryAcquireImpl :: "nat \<Rightarrow> nat \<Rightarrow> kernel \<Rightarrow> (bool \<times> kernel) res" where
  "TryAcquireImpl ob t k = bindE (get_object ob k) (\<lambda>x. case x of
      Mutex m \<Rightarrow> with_object Mutex ob k (Mutex_TryAcquire t m k)
    | Semaphore s \<Rightarrow> with_object Semaphore ob k (Semaphore_TryAcquire s)
    | Event e \<Rightarrow> with_object Event ob k (Event_TryAcquire e)
    | Timer tm \<Rightarrow> with_object Timer ob k (Timer_TryAcquire (GetTimeInNanoSeconds k) tm)
    | DMAObject \<Rightarrow> Inr (True, k)
    | ServerPort p \<Rightarrow> Inr (session_queue p \<noteq> [], k)
    | ClientPort port \<Rightarrow> bindE (ClientPort_TryAcquire port k) (\<lambda>b. Inr (b, k))
    | ServerSession s \<Rightarrow> with_object ServerSession ob k (ServerSession_TryAcquire s k)
    | ClientSession s \<Rightarrow> Inr (ClientSession_TryAcquire t s, k)
    | ThreadObject \<Rightarrow> bindE (Thread_TryAcquire ob k) (\<lambda>b. Inr (b, k))
    | ProcessObject p \<Rightarrow> bindE (Process_TryAcquire p k) (\<lambda>b. Inr (b, k))
    | _ \<Rightarrow> Inl UndefinedBehaviour)"

section \<open>Observers\<close>

definition Register :: "nat \<Rightarrow> nat \<Rightarrow> kernel \<Rightarrow> kernel" where
  "Register ob t k = put_observers ob (observers k ob @ [t]) k"

definition Unregister :: "nat \<Rightarrow> nat \<Rightarrow> kernel \<Rightarrow> kernel res" where
  "Unregister ob t k =
    (if t \<in> set (observers k ob) then Inr (put_observers ob (remove1 t (observers k ob)) k) else Inl ContractViolation)"

definition TryAcquire :: "nat \<Rightarrow> nat \<Rightarrow> kernel \<Rightarrow> (bool \<times> kernel) res" where
  "TryAcquire ob t k = bindE (TryAcquireImpl ob t k) (\<lambda>(acquired, k1).
    if acquired then bindE (Unregister ob t k1) (\<lambda>k2. Inr (True, k2)) else Inr (False, k1))"

definition unregister_all :: "nat \<Rightarrow> nat list \<Rightarrow> kernel \<Rightarrow> kernel res" where
  "unregister_all t obs k = foldE (\<lambda>ob. Unregister ob t) obs k"

fun index_of :: "'a \<Rightarrow> 'a list \<Rightarrow> nat" where
  "index_of x [] = 0"
| "index_of x (y # ys) = (if x = y then 0 else Suc (index_of x ys))"

definition OnResourceAcquired :: "nat \<Rightarrow> nat \<Rightarrow> kernel \<Rightarrow> kernel res" where
  "OnResourceAcquired t ob k = bindE (get_thread t k) (\<lambda>th.
    if status th \<noteq> Sleeping then Inl ContractViolation
    else if ob \<notin> set (wait_list th) then Inl RuntimeError
    else
      let th1 = th\<lparr>wake_index := of_nat (index_of ob (wait_list th)), woken_object := Some ob,
                   wait_list := remove1 ob (wait_list th)\<rparr>
      in if \<not> wait_for_all th
         then bindE (unregister_all t (wait_list th1) k) (\<lambda>k1.
           Inr (put_thread t (th1\<lparr>wait_list := [], status := Ready\<rparr>) (k1\<lparr>ready_queue := t # ready_queue k1\<rparr>)))
         else if wait_list th1 = []
         then Inr (put_thread t (th1\<lparr>status := Ready\<rparr>) (k\<lparr>ready_queue := t # ready_queue k\<rparr>))
         else Inr (put_thread t th1 k))"


section \<open>Handles\<close>

definition handle_table_of :: "nat \<Rightarrow> kernel \<Rightarrow> handle_table res" where
  "handle_table_of t k = bindE (get_thread t k) (\<lambda>th. Inr (handle_tables k (parent_process th)))"

definition put_handle_table :: "nat \<Rightarrow> handle_table \<Rightarrow> kernel \<Rightarrow> kernel res" where
  "put_handle_table t ht k = bindE (get_thread t k) (\<lambda>th.
    Inr (k\<lparr>handle_tables := (handle_tables k)(parent_process th := ht)\<rparr>))"

definition CreateHandle :: "nat \<Rightarrow> handle_table \<Rightarrow> u32 \<times> handle_table" where
  "CreateHandle ob ht =
    (let h = cur_handle ht + 1 in (h, ht\<lparr>cur_handle := h, handles := AList.update h ob (handles ht)\<rparr>))"

definition CreateEntry :: "u32 \<Rightarrow> nat \<Rightarrow> handle_table \<Rightarrow> handle_table res" where
  "CreateEntry h ob ht =
    (if map_of (handles ht) h \<noteq> None then Inl RuntimeError
     else Inr (ht\<lparr>handles := AList.update h ob (handles ht)\<rparr>))"

text \<open>\<open>FindObject<Type>\<close>, where \<open>has_type\<close> tells whether the cast to \<open>Type\<close> succeeds.\<close>

definition FindObject :: "(kobject \<Rightarrow> bool) \<Rightarrow> u32 \<Rightarrow> bool \<Rightarrow> handle_table \<Rightarrow> kernel \<Rightarrow> nat option res" where
  "FindObject has_type h fail_expected ht k = (case map_of (handles ht) h of
      None \<Rightarrow> if fail_expected then Inr None else Inl InvalidOperation
    | Some ob \<Rightarrow> bindE (get_object ob k) (\<lambda>x.
        if has_type x then Inr (Some ob) else if fail_expected then Inr None else Inl RuntimeError))"

definition FindHandle :: "nat \<Rightarrow> handle_table \<Rightarrow> u32" where
  "FindHandle ob ht = (case filter (\<lambda>(h, x). x = ob) (handles ht) of [] \<Rightarrow> 0 | (h, _) # _ \<Rightarrow> h)"

definition SetCurrentThread :: "nat option \<Rightarrow> handle_table \<Rightarrow> handle_table" where
  "SetCurrentThread t ht = (case t of
      None \<Rightarrow> ht\<lparr>handles := AList.delete 0xFFFF8000 (handles ht)\<rparr>
    | Some x \<Rightarrow> ht\<lparr>handles := AList.update 0xFFFF8000 x (handles ht)\<rparr>)"

definition HandleTable_CloseHandle :: "u32 \<Rightarrow> handle_table \<Rightarrow> handle_table" where
  "HandleTable_CloseHandle h ht = ht\<lparr>handles := AList.delete h (handles ht)\<rparr>"

end
