(* ===== verification/KernelScheduler.thy ===== *)
theory KernelScheduler
  imports KernelObjects
begin

text \<open>
  The scheduler of the kernel and the system calls that synchronise threads (\<open>OS\<close> in \<open>os.cpp\<close>): waking the threads
  that wait for an object, the passage of time with its timers, interrupts and timeouts, and the calls that create,
  wait for, signal and release objects. What the code writes to its log, to the profiler and to the hypervisor, which
  watches system calls for debugging, is left out, as is drawing the frame at a vertical blank.
\<close>

section \<open>Waking up threads\<close>

lemma Unregister_observers: "Unregister ob t k = Inr k' \<Longrightarrow> length (observers k' x) \<le> length (observers k x)"
  by (auto simp: Unregister_def put_observers_def length_remove1 split: if_splits)

lemma unregister_all_observers: "unregister_all t obs k = Inr k' \<Longrightarrow> length (observers k' x) \<le> length (observers k x)"
  unfolding unregister_all_def
  by (induction obs arbitrary: k) (auto simp: bindE_eq_Inr dest!: Unregister_observers [of _ _ _ _ x] intro: order_trans)

lemma OnResourceAcquired_observers: "OnResourceAcquired t ob k = Inr k' \<Longrightarrow> length (observers k' x) \<le> length (observers k x)"
  by (auto simp: OnResourceAcquired_def Let_def bindE_eq_Inr put_thread_def split: if_splits dest!: unregister_all_observers [of _ _ _ _ x])

lemma TryAcquireImpl_frame:
  assumes "TryAcquireImpl ob t k = Inr (b, k')"
  shows "k' = k \<or> (\<exists>x. k' = put_object ob x k)"
proof -
  obtain x where "get_object ob k = Inr x" using assms by (auto simp: TryAcquireImpl_def bindE_eq_Inr)
  then show ?thesis using assms by (cases x) (auto simp: TryAcquireImpl_def bindE_eq_Inr with_object_def)
qed

lemma put_object_simps [simp]:
  "observers (put_object ob x k) = observers k" "threads (put_object ob x k) = threads k"
  "ready_queue (put_object ob x k) = ready_queue k" "waiting_queue (put_object ob x k) = waiting_queue k"
  "active_timers (put_object ob x k) = active_timers k" "bound_interrupts (put_object ob x k) = bound_interrupts k"
  "system_tick (put_object ob x k) = system_tick k" "handle_tables (put_object ob x k) = handle_tables k"
  "os_threads (put_object ob x k) = os_threads k" "objects (put_object ob x k) = (objects k)(ob := Some x)"
  "next_object (put_object ob x k) = next_object k"
  by (simp_all add: put_object_def)

lemma TryAcquire_observers:
  assumes "TryAcquire ob t k = Inr (True, k')"
  shows "length (observers k' ob) < length (observers k ob)"
proof -
  obtain k1 where k1: "TryAcquireImpl ob t k = Inr (True, k1)" "Unregister ob t k1 = Inr k'"
    using assms by (auto simp: TryAcquire_def bindE_eq_Inr split: if_splits)
  have same: "observers k1 = observers k" using TryAcquireImpl_frame [OF k1(1)] by auto
  have "t \<in> set (observers k1 ob)" "observers k' ob = remove1 t (observers k1 ob)"
    using k1(2) by (auto simp: Unregister_def put_observers_def split: if_splits)
  then show ?thesis using length_pos_if_in_set by (fastforce simp: same length_remove1)
qed

function OnResourceReady :: "nat \<Rightarrow> kernel \<Rightarrow> kernel res" where
  "OnResourceReady ob k = (case observers k ob of
      [] \<Rightarrow> Inr k
    | t # ts \<Rightarrow> (case threads k t of
        None \<Rightarrow> OnResourceReady ob (put_observers ob ts k)
      | Some th \<Rightarrow>
          if status th \<noteq> Sleeping then Inl ContractViolation
          else (case TryAcquire ob t k of
              Inl e \<Rightarrow> Inl e
            | Inr (acquired, k1) \<Rightarrow>
                if \<not> acquired then Inr k1
                else (case OnResourceAcquired t ob k1 of Inl e \<Rightarrow> Inl e | Inr k2 \<Rightarrow> OnResourceReady ob k2))))"
  by pat_completeness auto
termination
proof (relation "measure (\<lambda>(ob, k). length (observers k ob))")
  fix ob :: nat and k k1 k2 :: kernel and t ts th r acquired
  show "observers k ob = t # ts \<Longrightarrow> ((ob, put_observers ob ts k), (ob, k)) \<in> measure (\<lambda>(ob, k). length (observers k ob))"
    by (simp add: put_observers_def)
  assume "TryAcquire ob t k = Inr r" "(acquired, k1) = r" "\<not> \<not> acquired" "OnResourceAcquired t ob k1 = Inr k2"
  then have "length (observers k1 ob) < length (observers k ob)" "length (observers k2 ob) \<le> length (observers k1 ob)"
    using TryAcquire_observers [of ob t k k1] OnResourceAcquired_observers [of t ob k1 k2 ob] by auto
  then show "((ob, k2), (ob, k)) \<in> measure (\<lambda>(ob, k). length (observers k ob))" by simp
qed auto

declare OnResourceReady.simps [simp del]

definition NotifyInterrupt :: "nat \<Rightarrow> kernel \<Rightarrow> kernel res" where
  "NotifyInterrupt index k =
    (if 0x76 \<le> index then Inl UndefinedBehaviour
     else foldE (\<lambda>ob k. bindE (get_object ob k) (\<lambda>x. case x of
         Event e \<Rightarrow> OnResourceReady ob (put_object ob (Event (SignalEvent e)) k)
       | _ \<Rightarrow> Inl UndefinedBehaviour)) (bound_interrupts k index) k)"

section \<open>Time\<close>

definition check_timer :: "u64 \<Rightarrow> nat \<Rightarrow> kernel \<Rightarrow> kernel res" where
  "check_timer nanoseconds ob k = (case objects k ob of
      Some (Timer tm) \<Rightarrow> if Timer_Expired nanoseconds tm then OnResourceReady ob k else Inr k
    | _ \<Rightarrow> Inr k)"

text \<open>The loop of \<open>ElapseTime\<close> over the threads with a timeout; those that are left are the new queue.\<close>

definition wake_after_timeout :: "nat \<Rightarrow> thread \<Rightarrow> kernel \<Rightarrow> kernel res" where
  "wake_after_timeout t th k =
    bindE (if status th = Sleeping
           then bindE (unregister_all t (wait_list th) k) (\<lambda>k1. Inr (th\<lparr>promised_result := 0x09401BFE, wait_list := []\<rparr>, k1))
           else Inr (th, k))
      (\<lambda>(th1, k1). Inr (put_thread t (th1\<lparr>status := Ready\<rparr>) (k1\<lparr>ready_queue := ready_queue k1 @ [t]\<rparr>)))"

fun check_timeouts :: "nat list \<Rightarrow> kernel \<Rightarrow> (nat list \<times> kernel) res" where
  "check_timeouts [] k = Inr ([], k)"
| "check_timeouts (t # ts) k = (case threads k t of
      None \<Rightarrow> check_timeouts ts k
    | Some th \<Rightarrow>
        if timeout_at th \<le> GetTimeInNanoSeconds k
        then bindE (wake_after_timeout t th k) (check_timeouts ts)
        else bindE (check_timeouts ts k) (\<lambda>(rest, k1). Inr (t # rest, k1)))"

definition ElapseTime :: "u64 \<Rightarrow> kernel \<Rightarrow> kernel res" where
  "ElapseTime ns k =
    (let old = system_tick k;
         k1 = k\<lparr>system_tick := old + ticks_of_ns ns\<rparr>
     in bindE (foldE (check_timer (GetTimeInNanoSeconds k1)) (active_timers k1) k1) (\<lambda>k2.
        bindE (if vblanks_of_ticks (system_tick k2) \<noteq> vblanks_of_ticks old
               then bindE (NotifyInterrupt 0x2a k2) (\<lambda>k. bindE (NotifyInterrupt 0x2b k) (NotifyInterrupt 0x64))
               else Inr k2) (\<lambda>k3.
        bindE (check_timeouts (waiting_queue k3) k3) (\<lambda>(rest, k4). Inr (k4\<lparr>waiting_queue := rest\<rparr>)))))"

text \<open>
  The time of a reschedule; then the front of the ready queue goes to its end. For an empty queue the code steps past the
  end of the list, which in the circular list of the library leads back to its end; nothing moves then.
\<close>

definition Reschedule :: "nat \<Rightarrow> kernel \<Rightarrow> kernel res" where
  "Reschedule t k = bindE (ElapseTime 500 k) (\<lambda>k1. Inr (k1\<lparr>ready_queue := rotate1 (ready_queue k1)\<rparr>))"

definition RescheduleImmediately :: "nat \<Rightarrow> kernel \<Rightarrow> kernel" where
  "RescheduleImmediately t k = k"

definition RegisterToScheduler :: "nat \<Rightarrow> kernel \<Rightarrow> kernel res" where
  "RegisterToScheduler t k = bindE (get_thread t k) (\<lambda>th.
    let k1 = k\<lparr>os_threads := os_threads k @ [t]\<rparr>
    in Inr (if status th = Ready then k1\<lparr>ready_queue := ready_queue k1 @ [t]\<rparr> else k1))"

definition unschedule :: "nat \<Rightarrow> kernel \<Rightarrow> kernel" where
  "unschedule t k = k\<lparr>ready_queue := filter (\<lambda>x. \<not> (x = t \<and> threads k x \<noteq> None)) (ready_queue k)\<rparr>"

text \<open>
  One round of \<open>EnterExecutionLoop\<close> up to the point where a thread is resumed: either time passes, or the front of the
  queue is dropped, or the thread to run is found.
\<close>

datatype dispatch = Idle | Dropped | Run nat

definition dispatch_next :: "kernel \<Rightarrow> (dispatch \<times> kernel) res" where
  "dispatch_next k = (case ready_queue k of
      [] \<Rightarrow> bindE (ElapseTime 100000 k) (\<lambda>k1. Inr (Idle, k1))
    | t # ts \<Rightarrow> bindE (get_thread t k) (\<lambda>th.
        if wait_list th \<noteq> [] then Inl RuntimeError
        else if status th \<noteq> Ready then Inr (Dropped, k\<lparr>ready_queue := ts\<rparr>)
        else let ht = handle_tables k (parent_process th)
             in Inr (Run t, k\<lparr>handle_tables := (handle_tables k)(parent_process th := SetCurrentThread (Some t) ht)\<rparr>)))"

section \<open>System calls\<close>

definition new_handle :: "nat \<Rightarrow> kobject \<Rightarrow> kernel \<Rightarrow> (u32 \<times> nat \<times> kernel) res" where
  "new_handle source x k =
    (let (ob, k1) = make_shared x k in
     bindE (handle_table_of source k1) (\<lambda>ht.
     let (h, ht1) = CreateHandle ob ht in
     bindE (put_handle_table source ht1 k1) (\<lambda>k2. Inr (h, ob, k2))))"

definition SVCCreateMutex :: "nat \<Rightarrow> bool \<Rightarrow> kernel \<Rightarrow> (u32 \<times> u32 \<times> kernel) res" where
  "SVCCreateMutex source lock k =
    bindE (new_handle source (Mutex \<lparr>lock_count = (if lock then 1 else 0), mutex_owner = Some source\<rparr>) k) (\<lambda>(h, ob, k1).
    bindE (Reschedule source k1) (\<lambda>k2. Inr (RESULT_OK, h, k2)))"

definition SVCReleaseMutex :: "nat \<Rightarrow> u32 \<Rightarrow> kernel \<Rightarrow> (u32 \<times> kernel) res" where
  "SVCReleaseMutex source h k =
    bindE (handle_table_of source k) (\<lambda>ht.
    bindE (FindObject is_Mutex h False ht k) (\<lambda>found. case found of None \<Rightarrow> Inl RuntimeError | Some ob \<Rightarrow>
    bindE (get_object ob k) (\<lambda>x. case x of Mutex m \<Rightarrow>
      if \<not> Mutex_IsOwner source m k then Inl RuntimeError
      else bindE (Mutex_Release m) (\<lambda>m1.
           let k1 = put_object ob (Mutex m1) k in
           bindE (if Mutex_IsReady m1 then OnResourceReady ob k1 else Inr k1) (\<lambda>k2.
           bindE (Reschedule source k2) (\<lambda>k3. Inr (RESULT_OK, k3))))
      | _ \<Rightarrow> Inl UndefinedBehaviour)))"

definition SVCCreateSemaphore :: "nat \<Rightarrow> i32 \<Rightarrow> i32 \<Rightarrow> kernel \<Rightarrow> (u32 \<times> u32 \<times> kernel) res" where
  "SVCCreateSemaphore source initial_count max_count k =
    bindE (new_handle source (Semaphore \<lparr>available_count = initial_count, max_available = max_count\<rparr>) k) (\<lambda>(h, ob, k1).
    bindE (Reschedule source k1) (\<lambda>k2. Inr (RESULT_OK, h, k2)))"

definition SVCReleaseSemaphore :: "nat \<Rightarrow> nat \<Rightarrow> i32 \<Rightarrow> kernel \<Rightarrow> (u32 \<times> i32 \<times> kernel) res" where
  "SVCReleaseSemaphore source ob release_count k =
    bindE (get_object ob k) (\<lambda>x. case x of Semaphore s \<Rightarrow>
      bindE (Semaphore_Release release_count s) (\<lambda>(r, s1).
      bindE (OnResourceReady ob (put_object ob (Semaphore s1) k)) (\<lambda>k1.
      bindE (Reschedule source k1) (\<lambda>k2. Inr (r, available_count s, k2))))
    | _ \<Rightarrow> Inl UndefinedBehaviour)"

definition SVCCreateEvent :: "nat \<Rightarrow> reset_type \<Rightarrow> kernel \<Rightarrow> (u32 \<times> u32 \<times> kernel) res" where
  "SVCCreateEvent source typ k =
    (if typ \<noteq> OneShot \<and> typ \<noteq> Sticky then Inl InvalidOperation
     else bindE (new_handle source (Event \<lparr>signalled = False, event_type = typ\<rparr>) k) (\<lambda>(h, ob, k1).
          bindE (Reschedule source k1) (\<lambda>k2. Inr (RESULT_OK, h, k2))))"

definition SVCSignalEvent :: "nat \<Rightarrow> u32 \<Rightarrow> kernel \<Rightarrow> (u32 \<times> kernel) res" where
  "SVCSignalEvent source h k =
    bindE (handle_table_of source k) (\<lambda>ht.
    bindE (FindObject is_Event h True ht k) (\<lambda>found. case found of None \<Rightarrow> Inl InvalidOperation | Some ob \<Rightarrow>
    bindE (get_object ob k) (\<lambda>x. case x of Event e \<Rightarrow>
      bindE (OnResourceReady ob (put_object ob (Event (SignalEvent e)) k)) (\<lambda>k1.
      bindE (Reschedule source k1) (\<lambda>k2. Inr (RESULT_OK, k2)))
    | _ \<Rightarrow> Inl UndefinedBehaviour)))"

definition SVCClearEvent :: "nat \<Rightarrow> u32 \<Rightarrow> kernel \<Rightarrow> (u32 \<times> kernel) res" where
  "SVCClearEvent source h k =
    bindE (handle_table_of source k) (\<lambda>ht.
    bindE (FindObject is_Event h True ht k) (\<lambda>found. case found of None \<Rightarrow> Inl InvalidOperation | Some ob \<Rightarrow>
    bindE (get_object ob k) (\<lambda>x. case x of Event e \<Rightarrow>
      bindE (Reschedule source (put_object ob (Event (ResetEvent e)) k)) (\<lambda>k1. Inr (RESULT_OK, k1))
    | _ \<Rightarrow> Inl UndefinedBehaviour)))"

definition SVCCreateTimer :: "nat \<Rightarrow> reset_type \<Rightarrow> kernel \<Rightarrow> (u32 \<times> u32 \<times> kernel) res" where
  "SVCCreateTimer source typ k =
    (if typ \<noteq> OneShot \<and> typ \<noteq> Sticky \<and> typ \<noteq> Pulse then Inl InvalidOperation
     else bindE (new_handle source (Timer \<lparr>active = False, timer_type = typ, timeout_time_ns = 0, period_ns = 0\<rparr>) k) (\<lambda>(h, ob, k1).
          bindE (Reschedule source (k1\<lparr>active_timers := active_timers k1 @ [ob]\<rparr>)) (\<lambda>k2. Inr (RESULT_OK, h, k2))))"

definition SVCSetTimer :: "nat \<Rightarrow> nat \<Rightarrow> i64 \<Rightarrow> i64 \<Rightarrow> kernel \<Rightarrow> (u32 \<times> kernel) res" where
  "SVCSetTimer source ob initial period k =
    (if sint initial < 0 \<or> sint period < 0 then Inl InvalidOperation
     else bindE (get_object ob k) (\<lambda>x. case x of Timer tm \<Rightarrow>
       let tm1 = Timer_Run (GetTimeInNanoSeconds k + initial) period tm;
           k1 = put_object ob (Timer tm1) k
       in bindE (if Timer_Expired (GetTimeInNanoSeconds k1) tm1 then OnResourceReady ob k1 else Inr k1) (\<lambda>k2.
          bindE (Reschedule source k2) (\<lambda>k3. Inr (RESULT_OK, k3)))
     | _ \<Rightarrow> Inl UndefinedBehaviour))"

definition SVCSleepThread :: "nat \<Rightarrow> i64 \<Rightarrow> kernel \<Rightarrow> kernel res" where
  "SVCSleepThread source duration k =
    bindE (get_thread source k) (\<lambda>th.
    let k1 = put_thread source (th\<lparr>timeout_at := GetTimeInNanoSeconds k + duration, status := WaitingForTimeout\<rparr>) k;
        k2 = unschedule source k1
    in Inr (k2\<lparr>waiting_queue := waiting_queue k2 @ [source]\<rparr>))"

definition SVCGetSystemTick :: "nat \<Rightarrow> kernel \<Rightarrow> u64 \<times> kernel" where
  "SVCGetSystemTick source k = (system_tick k, RescheduleImmediately source (k\<lparr>system_tick := system_tick k + 1000\<rparr>))"

definition SVCDuplicateHandle :: "nat \<Rightarrow> u32 \<Rightarrow> kernel \<Rightarrow> (u32 \<times> u32 \<times> kernel) res" where
  "SVCDuplicateHandle source h k =
    bindE (handle_table_of source k) (\<lambda>ht.
    bindE (FindObject (\<lambda>_. True) h False ht k) (\<lambda>found. case found of None \<Rightarrow> Inl RuntimeError | Some ob \<Rightarrow>
    let (h', ht1) = CreateHandle ob ht in
    bindE (put_handle_table source ht1 k) (\<lambda>k1.
    bindE (Reschedule source k1) (\<lambda>k2. Inr (RESULT_OK, h', k2)))))"

definition SVCBindInterrupt :: "nat \<Rightarrow> nat \<Rightarrow> nat \<Rightarrow> kernel \<Rightarrow> (u32 \<times> kernel) res" where
  "SVCBindInterrupt source index signal_event k =
    (if 0x76 \<le> index then Inl UndefinedBehaviour
     else bindE (Reschedule source (k\<lparr>bound_interrupts := (bound_interrupts k)(index := bound_interrupts k index @ [signal_event])\<rparr>))
       (\<lambda>k1. Inr (RESULT_OK, k1)))"

section \<open>Waiting\<close>

definition is_subject :: "kobject \<Rightarrow> bool" where
  "is_subject x = (case x of Port _ _ \<Rightarrow> False | Session _ _ \<Rightarrow> False | AddressArbiter \<Rightarrow> False
      | SharedMemoryBlock _ \<Rightarrow> False | CodeSet _ \<Rightarrow> False | _ \<Rightarrow> True)"

text \<open>The registration with every object waited for, in order.\<close>

definition register_handle :: "nat \<Rightarrow> u32 \<Rightarrow> kernel \<Rightarrow> kernel res" where
  "register_handle source h k =
    bindE (handle_table_of source k) (\<lambda>ht.
    bindE (FindObject is_subject h False ht k) (\<lambda>found. case found of None \<Rightarrow> Inl RuntimeError | Some ob \<Rightarrow>
    bindE (get_thread source (Register ob source k)) (\<lambda>th.
    Inr (put_thread source (th\<lparr>wait_list := wait_list th @ [ob]\<rparr>) (Register ob source k)))))"

text \<open>
  The loop that tries every object of the wait list once: \<open>tried\<close> are the objects before the iterator, which could not
  be acquired, and \<open>rest\<close> those from it on.
\<close>

fun acquire_ready :: "nat \<Rightarrow> bool \<Rightarrow> nat list \<Rightarrow> nat list \<Rightarrow> kernel \<Rightarrow> kernel res" where
  "acquire_ready source all tried [] k = Inr k"
| "acquire_ready source all tried (ob # rest) k =
    (case TryAcquire ob source k of
       Inl e \<Rightarrow> Inl e
     | Inr (acquired, k1) \<Rightarrow>
         if \<not> acquired then acquire_ready source all (tried @ [ob]) rest k1
         else bindE (get_thread source k1) (\<lambda>th.
           let th1 = th\<lparr>wake_index := of_nat (length tried), woken_object := Some ob, wait_list := tried @ rest\<rparr> in
           if \<not> all
           then bindE (unregister_all source (tried @ rest) k1) (\<lambda>k2. Inr (put_thread source (th1\<lparr>wait_list := []\<rparr>) k2))
           else if tried @ rest = [] then Inr (put_thread source th1 k1)
           else acquire_ready source all tried rest (put_thread source th1 k1)))"

definition SVCWaitSynchronizationN :: "nat \<Rightarrow> u32 list \<Rightarrow> bool \<Rightarrow> i64 \<Rightarrow> kernel \<Rightarrow> kernel res" where
  "SVCWaitSynchronizationN source hs all timeout k =
    (let hs1 = (if length hs = 3 \<and> hs ! 2 = 0 then take 2 hs else hs) in
     bindE (get_thread source k) (\<lambda>th.
     let th1 = th\<lparr>timeout_at := (if timeout \<noteq> - 1 then GetTimeInNanoSeconds k + timeout else - 1), promised_result := RESULT_OK\<rparr>
     in if wait_list th \<noteq> [] then Inl RuntimeError
     else bindE (foldE (register_handle source) hs1 (put_thread source th1 k)) (\<lambda>k1.
          bindE (get_thread source k1) (\<lambda>th2.
          bindE (acquire_ready source all [] (wait_list th2) k1) (\<lambda>k2.
          bindE (get_thread source k2) (\<lambda>th3.
          if wait_list th3 \<noteq> []
          then let k3 = unschedule source (put_thread source (th3\<lparr>wait_for_all := all, status := Sleeping\<rparr>) k2);
                   k4 = (if timeout_at th3 \<noteq> - 1 then k3\<lparr>waiting_queue := waiting_queue k3 @ [source]\<rparr> else k3)
               in Reschedule source k4
          else Inr (RescheduleImmediately source k2)))))))"

definition SVCWaitSynchronization :: "nat \<Rightarrow> u32 \<Rightarrow> i64 \<Rightarrow> kernel \<Rightarrow> kernel res" where
  "SVCWaitSynchronization source h timeout k = SVCWaitSynchronizationN source [h] False timeout k"

section \<open>The end of a thread\<close>

text \<open>
  Releasing a mutex the thread owns, for one entry of the handle table. Only one level of a recursive lock is released;
  a mutex that is still locked then ends the emulation.
\<close>

definition release_owned :: "nat \<Rightarrow> u32 \<times> nat \<Rightarrow> kernel \<Rightarrow> kernel res" where
  "release_owned t entry k = bindE (get_object (snd entry) k) (\<lambda>x. case x of
      Mutex m \<Rightarrow>
        if Mutex_IsOwner t m k
        then bindE (Mutex_Release m) (\<lambda>m1.
          if \<not> Mutex_IsReady m1 then Inl RuntimeError
          else OnResourceReady (snd entry) (put_object (snd entry) (Mutex m1) k))
        else Inr k
    | _ \<Rightarrow> Inr k)"

definition ExitThread :: "nat \<Rightarrow> kernel \<Rightarrow> kernel res" where
  "ExitThread t k = bindE (get_thread t k) (\<lambda>th0.
    if status th0 = Stopped then Inr k
    else
      bindE (foldE (release_owned t) (handles (handle_tables k (parent_process th0))) k) (\<lambda>k1.
      bindE (get_thread t k1) (\<lambda>th.
      bindE (unregister_all t (wait_list th) k1) (\<lambda>k2.
      let ht = handle_tables k2 (parent_process th);
          k3 = k2\<lparr>handle_tables := (handle_tables k2)(parent_process th := SetCurrentThread None ht)\<rparr>;
          k4 = put_thread t (th\<lparr>wait_list := [], status := Stopped\<rparr>) k3
      in OnResourceReady t (unschedule t k4)))))"

definition SVCExitThread :: "nat \<Rightarrow> kernel \<Rightarrow> kernel res" where
  "SVCExitThread source k = bindE (ExitThread source k) (Reschedule source)"

end
