(* ===== verification/KernelInvariant.thy ===== *)
theory KernelInvariant
  imports KernelScheduler
begin

text \<open>
  The invariant of the kernel's scheduler: the objects' lists of observers mirror the threads' lists of objects they wait
  for, threads sleep exactly while they wait, and the ready queue holds ready threads. Every operation keeps it, and so
  it holds in all states the kernel can reach. The rule \<open>OnResourceReady_rule\<close> carries the reasoning about the loop that
  wakes threads.
\<close>

section \<open>The wait graph\<close>

text \<open>
  What holds of a live thread: it observes exactly the objects it waits for, as often as it waits for them, it waits for
  something exactly when it sleeps, and in the ready queue it is ready.
\<close>

definition thread_inv :: "kernel \<Rightarrow> nat \<Rightarrow> thread \<Rightarrow> bool" where
  "thread_inv k t th \<longleftrightarrow> (\<forall>ob. count_list (observers k ob) t = count_list (wait_list th) ob)
    \<and> (wait_list th \<noteq> [] \<longleftrightarrow> status th = Sleeping) \<and> (t \<in> set (ready_queue k) \<longrightarrow> status th = Ready)"

definition kernel_inv :: "kernel \<Rightarrow> bool" where
  "kernel_inv k \<longleftrightarrow> (\<forall>t th. threads k t = Some th \<longrightarrow> thread_inv k t th)"

text \<open>The same for all threads but one, which an operation is working on.\<close>

definition others_inv :: "kernel \<Rightarrow> nat \<Rightarrow> bool" where
  "others_inv k t \<longleftrightarrow> (\<forall>u th. u \<noteq> t \<longrightarrow> threads k u = Some th \<longrightarrow> thread_inv k u th)"

lemma kernel_inv_others: "kernel_inv k \<Longrightarrow> others_inv k t"
  by (simp add: kernel_inv_def others_inv_def)

lemma kernel_inv_thread: "kernel_inv k \<Longrightarrow> threads k t = Some th \<Longrightarrow> thread_inv k t th"
  by (simp add: kernel_inv_def)

lemma kernel_inv_split: "others_inv k t \<Longrightarrow> (\<And>th. threads k t = Some th \<Longrightarrow> thread_inv k t th) \<Longrightarrow> kernel_inv k"
  unfolding kernel_inv_def others_inv_def by metis

lemma thread_inv_cong:
  "(\<And>ob. count_list (observers k ob) t = count_list (observers k' ob) t) \<Longrightarrow> (t \<in> set (ready_queue k') \<longleftrightarrow> t \<in> set (ready_queue k)) \<Longrightarrow>
    thread_inv k' t th = thread_inv k t th"
  by (simp add: thread_inv_def)

lemma others_inv_cong:
  assumes "others_inv k t" "\<And>u. u \<noteq> t \<Longrightarrow> threads k' u = threads k u"
    and "\<And>u ob. u \<noteq> t \<Longrightarrow> count_list (observers k' ob) u = count_list (observers k ob) u"
    and "\<And>u. u \<noteq> t \<Longrightarrow> u \<in> set (ready_queue k') \<longleftrightarrow> u \<in> set (ready_queue k)"
  shows "others_inv k' t"
  using assms by (simp add: others_inv_def thread_inv_def)

lemma kernel_inv_same:
  "kernel_inv k \<Longrightarrow> threads k' = threads k \<Longrightarrow> observers k' = observers k \<Longrightarrow> set (ready_queue k') = set (ready_queue k) \<Longrightarrow> kernel_inv k'"
  by (simp add: kernel_inv_def thread_inv_def)

lemma count_remove1: "count_list (remove1 x xs) y = (if x = y then count_list xs y - 1 else count_list xs y)"
  by (induction xs) auto

lemma observers_put_observers [simp]: "observers (put_observers ob ts k) = (observers k)(ob := ts)"
  and put_observers_simps [simp]: "threads (put_observers ob ts k) = threads k" "ready_queue (put_observers ob ts k) = ready_queue k"
    "objects (put_observers ob ts k) = objects k"
  by (simp_all add: put_observers_def)

lemma put_thread_simps [simp]: "threads (put_thread t th k) = (threads k)(t := Some th)" "observers (put_thread t th k) = observers k"
  "ready_queue (put_thread t th k) = ready_queue k" "objects (put_thread t th k) = objects k"
  by (simp_all add: put_thread_def)

text \<open>Leaving all the objects of a list touches nothing but their observers, and of those only the thread itself.\<close>

lemma unregister_all_spec:
  assumes "\<And>ob. count_list ws ob \<le> count_list (observers k ob) t"
  shows "\<exists>obs. unregister_all t ws k = Inr (k\<lparr>observers := obs\<rparr>) \<and>
    (\<forall>ob u. count_list (obs ob) u = (if u = t then count_list (observers k ob) t - count_list ws ob else count_list (observers k ob) u))"
  using assms
proof (induction ws arbitrary: k)
  case Nil
  then show ?case by (intro exI [of _ "observers k"]) (simp add: unregister_all_def)
next
  case (Cons w ws)
  have "0 < count_list (observers k w) t" using Cons.prems [of w] by simp
  then have w: "t \<in> set (observers k w)" by (metis count_notin less_numeral_extra(3))
  let ?k = "put_observers w (remove1 t (observers k w)) k"
  have "count_list ws ob \<le> count_list (observers ?k ob) t" for ob
    using Cons.prems [of ob] by (cases "ob = w") (auto simp: count_remove1)
  from Cons.IH [OF this] obtain obs where obs: "unregister_all t ws ?k = Inr (?k\<lparr>observers := obs\<rparr>)"
    "\<And>ob u. count_list (obs ob) u = (if u = t then count_list (observers ?k ob) t - count_list ws ob else count_list (observers ?k ob) u)"
    by blast
  have "unregister_all t (w # ws) k = Inr (k\<lparr>observers := obs\<rparr>)"
    using obs(1) w by (simp add: unregister_all_def Unregister_def put_observers_def)
  moreover have "count_list (obs ob) u = (if u = t then count_list (observers k ob) t - count_list (w # ws) ob else count_list (observers k ob) u)" for ob u
    by (auto simp: obs(2) count_remove1)
  ultimately show ?case by blast
qed

lemma in_set_count: "x \<in> set xs \<longleftrightarrow> 0 < count_list xs x"
  by (metis count_list_0_iff neq0_conv)

section \<open>Waking up\<close>

text \<open>A thread that acquired an object it waited for, and no longer observes it.\<close>

lemma OnResourceAcquired_spec:
  assumes others: "others_inv k t" and th: "threads k t = Some th" "status th = Sleeping" "ob \<in> set (wait_list th)"
    and obs: "\<And>x. count_list (observers k x) t = count_list (remove1 ob (wait_list th)) x" and q: "t \<notin> set (ready_queue k)"
  shows "\<exists>k'. OnResourceAcquired t ob k = Inr k' \<and> kernel_inv k' \<and> objects k' = objects k \<and> (\<forall>x u. count_list (observers k' x) u \<le> count_list (observers k x) u)
    \<and> (\<forall>x u. u \<noteq> t \<longrightarrow> count_list (observers k' x) u = count_list (observers k x) u)
    \<and> (\<forall>u. u \<noteq> t \<longrightarrow> threads k' u = threads k u) \<and> (\<exists>th'. threads k' t = Some th' \<and> status th' = (if wait_for_all th \<and> remove1 ob (wait_list th) \<noteq> [] then Sleeping else Ready))"
proof -
  let ?ws = "remove1 ob (wait_list th)"
  let ?th = "th\<lparr>wake_index := of_nat (index_of ob (wait_list th)), woken_object := Some ob, wait_list := ?ws\<rparr>"
  show ?thesis
  proof (cases "wait_for_all th \<and> ?ws \<noteq> []")
    case True
    let ?k = "put_thread t ?th k"
    have "kernel_inv ?k"
      by (rule kernel_inv_split [of _ t], rule others_inv_cong [OF others])
        (use True th obs q in \<open>auto simp: thread_inv_def\<close>)
    moreover have "OnResourceAcquired t ob k = Inr ?k" using True th by (simp add: OnResourceAcquired_def get_thread_def Let_def)
    ultimately show ?thesis using True th(2) by (intro exI [of _ ?k]) simp
  next
    case False
    obtain obs' where obs': "unregister_all t ?ws k = Inr (k\<lparr>observers := obs'\<rparr>)"
      "\<And>ob u. count_list (obs' ob) u = (if u = t then count_list (observers k ob) t - count_list ?ws ob else count_list (observers k ob) u)"
      using unregister_all_spec [of ?ws k t] obs by (metis order_refl)
    have none: "?ws = [] \<Longrightarrow> obs' = observers k" using obs'(1) by (simp add: unregister_all_def) (metis kernel.select_convs(5) kernel.surjective kernel.update_convs(5))
    let ?k = "put_thread t (?th\<lparr>wait_list := [], status := Ready\<rparr>) (k\<lparr>observers := obs', ready_queue := t # ready_queue k\<rparr>)"
    have "kernel_inv ?k"
      by (rule kernel_inv_split [of _ t], rule others_inv_cong [OF others]) (auto simp: thread_inv_def obs'(2) obs)
    moreover have "OnResourceAcquired t ob k = Inr ?k"
      using False th obs'(1) none by (auto simp: OnResourceAcquired_def get_thread_def Let_def put_thread_def)
    ultimately show ?thesis using False obs'(2) by (intro exI [of _ ?k]) simp
  qed
qed

lemma OnResourceReady_empty: "observers k ob = [] \<Longrightarrow> OnResourceReady ob k = Inr k"
  by (subst OnResourceReady.simps) simp

lemma OnResourceReady_dead: "observers k ob = t # ts \<Longrightarrow> threads k t = None \<Longrightarrow> OnResourceReady ob k = OnResourceReady ob (put_observers ob ts k)"
  by (subst OnResourceReady.simps) simp

lemma OnResourceReady_fails:
  "observers k ob = t # ts \<Longrightarrow> threads k t = Some th \<Longrightarrow> status th = Sleeping \<Longrightarrow> TryAcquireImpl ob t k = Inr (False, k1) \<Longrightarrow>
    OnResourceReady ob k = Inr k1"
  by (subst OnResourceReady.simps) (simp add: TryAcquire_def)

lemma OnResourceReady_error:
  "observers k ob = t # ts \<Longrightarrow> threads k t = Some th \<Longrightarrow> status th = Sleeping \<Longrightarrow> TryAcquireImpl ob t k = Inl e \<Longrightarrow>
    OnResourceReady ob k = Inl e"
  by (subst OnResourceReady.simps) (simp add: TryAcquire_def)

lemma OnResourceReady_acquires:
  assumes "observers k ob = t # ts" "threads k t = Some th" "status th = Sleeping" "TryAcquireImpl ob t k = Inr (True, k1)"
  shows "OnResourceReady ob k = bindE (OnResourceAcquired t ob (put_observers ob ts k1)) (OnResourceReady ob)"
proof -
  have "observers k1 = observers k" using TryAcquireImpl_frame [OF assms(4)] by auto
  then have "TryAcquire ob t k = Inr (True, put_observers ob ts k1)" using assms(1,4) by (simp add: TryAcquire_def Unregister_def)
  then show ?thesis using assms(1-3) by (subst OnResourceReady.simps) (simp add: bindE_def)
qed

text \<open>In a kernel that keeps the invariant, observers that are alive sleep and wait for what they observe.\<close>

lemma observer_sleeps:
  assumes "kernel_inv k" "t \<in> set (observers k ob)" "threads k t = Some th"
  shows "status th = Sleeping" "ob \<in> set (wait_list th)" "t \<notin> set (ready_queue k)"
proof -
  have inv: "thread_inv k t th" by (rule kernel_inv_thread [OF assms(1,3)])
  then show "ob \<in> set (wait_list th)" using assms(2) by (simp add: thread_inv_def in_set_count)
  then show "status th = Sleeping" using inv by (auto simp: thread_inv_def)
  then show "t \<notin> set (ready_queue k)" using inv by (auto simp: thread_inv_def)
qed

text \<open>The first observer acquires the object: the invariant holds again when it has been told.\<close>

lemma first_acquires:
  assumes inv: "kernel_inv k" and ob: "observers k ob = t # ts" and th: "threads k t = Some th" and acq: "TryAcquireImpl ob t k = Inr (True, k1)"
  shows "\<exists>k'. OnResourceAcquired t ob (put_observers ob ts k1) = Inr k' \<and> kernel_inv k' \<and> objects k' = objects k1
    \<and> (\<forall>x u. count_list (observers k' x) u \<le> count_list (((observers k)(ob := ts)) x) u)
    \<and> (\<forall>x u. u \<noteq> t \<longrightarrow> count_list (observers k' x) u = count_list (observers k x) u)
    \<and> (\<forall>u. u \<noteq> t \<longrightarrow> threads k' u = threads k u) \<and> (\<exists>th'. threads k' t = Some th' \<and> status th' = (if wait_for_all th \<and> remove1 ob (wait_list th) \<noteq> [] then Sleeping else Ready))"
proof -
  note frame = TryAcquireImpl_frame [OF acq]
  have same: "observers k1 = observers k" "threads k1 = threads k" "ready_queue k1 = ready_queue k" using frame by auto
  have t: "t \<in> set (observers k ob)" by (simp add: ob)
  note sleeps = observer_sleeps [OF inv t th]
  let ?k = "put_observers ob ts k1"
  have "others_inv ?k t" by (rule others_inv_cong [OF kernel_inv_others [OF inv]]) (auto simp: same ob)
  moreover have obs: "count_list (observers ?k x) t = count_list (remove1 ob (wait_list th)) x" for x
  proof -
    have "count_list (observers k x) t = count_list (wait_list th) x" using kernel_inv_thread [OF inv th] by (simp add: thread_inv_def)
    then show ?thesis by (cases "x = ob") (auto simp: same count_remove1 ob)
  qed
  ultimately obtain k' where k': "OnResourceAcquired t ob ?k = Inr k'" "kernel_inv k'" "objects k' = objects ?k"
    "\<forall>x u. count_list (observers k' x) u \<le> count_list (observers ?k x) u" "\<forall>x u. u \<noteq> t \<longrightarrow> count_list (observers k' x) u = count_list (observers ?k x) u"
    "\<forall>u. u \<noteq> t \<longrightarrow> threads k' u = threads ?k u" "\<exists>th'. threads k' t = Some th' \<and> status th' = (if wait_for_all th \<and> remove1 ob (wait_list th) \<noteq> [] then Sleeping else Ready)"
    using OnResourceAcquired_spec [of ?k t th ob] th sleeps by (auto simp: same)
  have "u \<noteq> t \<Longrightarrow> count_list (observers ?k x) u = count_list (observers k x) u" for x u by (auto simp: same ob)
  then show ?thesis using k' by (intro exI [of _ k']) (simp add: same)
qed

text \<open>
  The rule for the loop of \<open>OnResourceReady\<close>: what is kept when a destroyed thread is dropped and when a thread acquires
  the object holds when the loop ends, because nobody observes the object any more, because the first observer cannot
  acquire it, or because trying to failed.
\<close>

lemma OnResourceReady_rule:
  assumes "kernel_inv k" "P k"
    and dead: "\<And>k t ts. kernel_inv k \<Longrightarrow> P k \<Longrightarrow> observers k ob = t # ts \<Longrightarrow> threads k t = None \<Longrightarrow> P (put_observers ob ts k)"
    and acquires: "\<And>k t ts th k1 k2. kernel_inv k \<Longrightarrow> P k \<Longrightarrow> observers k ob = t # ts \<Longrightarrow> threads k t = Some th \<Longrightarrow>
      TryAcquireImpl ob t k = Inr (True, k1) \<Longrightarrow> OnResourceAcquired t ob (put_observers ob ts k1) = Inr k2 \<Longrightarrow> kernel_inv k2 \<Longrightarrow> P k2"
  shows "\<exists>k0. P k0 \<and> kernel_inv k0 \<and> (observers k0 ob = [] \<and> OnResourceReady ob k = Inr k0
    \<or> (\<exists>t ts th. observers k0 ob = t # ts \<and> threads k0 t = Some th \<and>
        ((\<exists>k'. TryAcquireImpl ob t k0 = Inr (False, k') \<and> OnResourceReady ob k = Inr k' \<and> kernel_inv k')
        \<or> (\<exists>e. TryAcquireImpl ob t k0 = Inl e \<and> OnResourceReady ob k = Inl e))))"
  using assms(1,2)
proof (induction "length (observers k ob)" arbitrary: k rule: less_induct)
  case less
  show ?case
  proof (cases "observers k ob")
    case Nil
    then show ?thesis using less.prems OnResourceReady_empty by blast
  next
    case (Cons t ts)
    show ?thesis
    proof (cases "threads k t")
      case None
      let ?k = "put_observers ob ts k"
      have "others_inv ?k t" by (rule others_inv_cong [OF kernel_inv_others [OF less.prems(1)]]) (auto simp: Cons)
      then have "kernel_inv ?k" by (rule kernel_inv_split) (simp add: None)
      then show ?thesis using less.hyps [of ?k] dead [OF less.prems Cons None] OnResourceReady_dead [OF Cons None] by (simp add: Cons)
    next
      case (Some th)
      have sleeps: "status th = Sleeping" using observer_sleeps(1) [OF less.prems(1) _ Some, of ob] Cons by simp
      consider (error) e where "TryAcquireImpl ob t k = Inl e" | (fails) k1 where "TryAcquireImpl ob t k = Inr (False, k1)"
        | (acquires) k1 where "TryAcquireImpl ob t k = Inr (True, k1)" by (cases "TryAcquireImpl ob t k", simp, metis (full_types) surj_pair)
      then show ?thesis
      proof cases
        case error
        then show ?thesis using less.prems Cons Some OnResourceReady_error [OF Cons Some sleeps error] by blast
      next
        case fails
        have "kernel_inv k1" using TryAcquireImpl_frame [OF fails] less.prems(1) by (auto intro: kernel_inv_same)
        then show ?thesis using less.prems Cons Some OnResourceReady_fails [OF Cons Some sleeps fails] fails by blast
      next
        case acquires
        obtain k2 where k2: "OnResourceAcquired t ob (put_observers ob ts k1) = Inr k2" "kernel_inv k2"
          using first_acquires [OF less.prems(1) Cons Some acquires] by blast
        have "length (observers k2 ob) < length (observers k ob)"
          using OnResourceAcquired_observers [OF k2(1), of ob] by (simp add: Cons)
        then show ?thesis using less.hyps [of k2] k2 assms(4) [OF less.prems Cons Some acquires k2]
          OnResourceReady_acquires [OF Cons Some sleeps acquires] by simp
      qed
    qed
  qed
qed

lemma OnResourceReady_inv: "OnResourceReady ob k = Inr k' \<Longrightarrow> kernel_inv k \<Longrightarrow> kernel_inv k'"
  using OnResourceReady_rule [of k "\<lambda>_. True" ob] by auto

section \<open>Time\<close>

lemma put_object_inv [simp]: "kernel_inv (put_object ob x k) = kernel_inv k"
  by (simp add: kernel_inv_def thread_inv_def)

lemma kernel_inv_fields [simp]:
  "kernel_inv (k\<lparr>system_tick := n\<rparr>) = kernel_inv k" "kernel_inv (k\<lparr>waiting_queue := q\<rparr>) = kernel_inv k"
  "kernel_inv (k\<lparr>handle_tables := h\<rparr>) = kernel_inv k" "kernel_inv (k\<lparr>active_timers := ts\<rparr>) = kernel_inv k"
  "kernel_inv (k\<lparr>bound_interrupts := bi\<rparr>) = kernel_inv k" "kernel_inv (k\<lparr>os_threads := os\<rparr>) = kernel_inv k"
  "kernel_inv (k\<lparr>next_object := nx\<rparr>) = kernel_inv k" "kernel_inv (k\<lparr>ready_queue := rotate1 (ready_queue k)\<rparr>) = kernel_inv k"
  by (simp_all add: kernel_inv_def thread_inv_def)

text \<open>Code that works on one kind of object.\<close>

lemma object_cases:
  "(case x of Mutex m \<Rightarrow> f m | _ \<Rightarrow> Inl er) = Inr r \<longleftrightarrow> (\<exists>m. x = Mutex m \<and> f m = Inr r)"
  "(case x of Semaphore s \<Rightarrow> g s | _ \<Rightarrow> Inl er) = Inr r \<longleftrightarrow> (\<exists>s. x = Semaphore s \<and> g s = Inr r)"
  "(case x of Event e \<Rightarrow> h e | _ \<Rightarrow> Inl er) = Inr r \<longleftrightarrow> (\<exists>e. x = Event e \<and> h e = Inr r)"
  "(case x of Timer tm \<Rightarrow> i tm | _ \<Rightarrow> Inl er) = Inr r \<longleftrightarrow> (\<exists>tm. x = Timer tm \<and> i tm = Inr r)"
  "(case x of Mutex m \<Rightarrow> f m | _ \<Rightarrow> Inr d) = Inr r \<longleftrightarrow> (\<exists>m. x = Mutex m \<and> f m = Inr r) \<or> \<not> is_Mutex x \<and> r = d"
  by (cases x; auto)+

lemma found_cases: "(case m of None \<Rightarrow> Inl er | Some x \<Rightarrow> f x) = Inr r \<longleftrightarrow> (\<exists>x. m = Some x \<and> f x = Inr r)"
  by (cases m) auto

lemma NotifyInterrupt_inv: "NotifyInterrupt i k = Inr k' \<Longrightarrow> kernel_inv k \<Longrightarrow> kernel_inv k'"
proof -
  assume "NotifyInterrupt i k = Inr k'" and inv: "kernel_inv k"
  then have "foldE (\<lambda>ob k. bindE (get_object ob k) (\<lambda>x. case x of Event e \<Rightarrow> OnResourceReady ob (put_object ob (Event (SignalEvent e)) k)
    | _ \<Rightarrow> Inl UndefinedBehaviour)) (bound_interrupts k i) k = Inr k'" by (simp add: NotifyInterrupt_def split: if_splits)
  then show ?thesis using inv
    by (rule foldE_invariant) (auto simp: bindE_eq_Inr object_cases intro: OnResourceReady_inv)
qed

lemma check_timers_inv: "foldE (check_timer ns) obs k = Inr k' \<Longrightarrow> kernel_inv k \<Longrightarrow> kernel_inv k'"
  by (erule foldE_invariant) (auto simp: check_timer_def split: option.splits kobject.splits if_splits intro: OnResourceReady_inv)

lemma unregister_own:
  assumes "thread_inv k t th"
  shows "\<exists>obs. unregister_all t (wait_list th) k = Inr (k\<lparr>observers := obs\<rparr>) \<and>
    (\<forall>ob u. count_list (obs ob) u = (if u = t then 0 else count_list (observers k ob) u))"
proof -
  have "count_list (observers k ob) t = count_list (wait_list th) ob" for ob using assms by (simp add: thread_inv_def)
  then show ?thesis using unregister_all_spec [of "wait_list th" k t] by (metis diff_self_eq_0 order_refl)
qed

lemma wake_after_timeout_spec:
  assumes inv: "kernel_inv k" and th: "threads k t = Some th"
  shows "\<exists>k'. wake_after_timeout t th k = Inr k' \<and> kernel_inv k'"
proof (cases "status th = Sleeping")
  case True
  obtain obs where obs: "unregister_all t (wait_list th) k = Inr (k\<lparr>observers := obs\<rparr>)"
    "\<And>ob u. count_list (obs ob) u = (if u = t then 0 else count_list (observers k ob) u)"
    using unregister_own [OF kernel_inv_thread [OF inv th]] by blast
  let ?k = "put_thread t (th\<lparr>promised_result := 0x09401BFE, wait_list := [], status := Ready\<rparr>)
    (k\<lparr>observers := obs, ready_queue := ready_queue k @ [t]\<rparr>)"
  have "kernel_inv ?k"
    by (rule kernel_inv_split [of _ t], rule others_inv_cong [OF kernel_inv_others [OF inv]]) (auto simp: thread_inv_def obs(2))
  then show ?thesis using True obs(1) by (simp add: wake_after_timeout_def)
next
  case False
  let ?k = "put_thread t (th\<lparr>status := Ready\<rparr>) (k\<lparr>ready_queue := ready_queue k @ [t]\<rparr>)"
  have "kernel_inv ?k" by (rule kernel_inv_split [of _ t], rule others_inv_cong [OF kernel_inv_others [OF inv]])
    (use False kernel_inv_thread [OF inv th] in \<open>auto simp: thread_inv_def\<close>)
  then show ?thesis using False by (simp add: wake_after_timeout_def)
qed

text \<open>Waking the threads whose time is up never fails.\<close>

lemma check_timeouts_spec: "kernel_inv k \<Longrightarrow> \<exists>rest k'. check_timeouts ts k = Inr (rest, k') \<and> kernel_inv k'"
proof (induction ts arbitrary: k)
  case (Cons t ts)
  show ?case
  proof (cases "threads k t")
    case (Some th)
    obtain k1 where "wake_after_timeout t th k = Inr k1" "kernel_inv k1" using wake_after_timeout_spec [OF Cons.prems Some] by blast
    then show ?thesis using Cons.IH [of k1] Cons.IH [OF Cons.prems] Some by auto
  qed (use Cons in simp)
qed simp

lemma ElapseTime_inv: "ElapseTime ns k = Inr k' \<Longrightarrow> kernel_inv k \<Longrightarrow> kernel_inv k'"
proof -
  assume elapse: "ElapseTime ns k = Inr k'" and inv: "kernel_inv k"
  let ?k1 = "k\<lparr>system_tick := system_tick k + ticks_of_ns ns\<rparr>"
  obtain k2 k3 rest k4 where steps: "foldE (check_timer (GetTimeInNanoSeconds ?k1)) (active_timers ?k1) ?k1 = Inr k2"
    "(if vblanks_of_ticks (system_tick k2) \<noteq> vblanks_of_ticks (system_tick k)
      then bindE (NotifyInterrupt 0x2a k2) (\<lambda>k. bindE (NotifyInterrupt 0x2b k) (NotifyInterrupt 0x64)) else Inr k2) = Inr k3"
    "check_timeouts (waiting_queue k3) k3 = Inr (rest, k4)" "k' = k4\<lparr>waiting_queue := rest\<rparr>"
    using elapse by (auto simp: ElapseTime_def Let_def bindE_eq_Inr)
  have "kernel_inv k2" using check_timers_inv [OF steps(1)] inv by simp
  then have "kernel_inv k3" using steps(2) by (auto simp: bindE_eq_Inr dest: NotifyInterrupt_inv split: if_splits)
  then show "kernel_inv k'" using check_timeouts_spec [of k3 "waiting_queue k3"] steps(3,4) by auto
qed

lemma Reschedule_inv: "Reschedule t k = Inr k' \<Longrightarrow> kernel_inv k \<Longrightarrow> kernel_inv k'"
  by (auto simp: Reschedule_def bindE_eq_Inr dest: ElapseTime_inv)

section \<open>System calls\<close>

lemma put_handle_table_inv: "put_handle_table t ht k = Inr k' \<Longrightarrow> kernel_inv k \<Longrightarrow> kernel_inv k'"
  by (auto simp: put_handle_table_def bindE_eq_Inr)

lemma new_handle_inv: "new_handle t x k = Inr (h, ob, k') \<Longrightarrow> kernel_inv k \<Longrightarrow> kernel_inv k'"
  by (auto simp: new_handle_def make_shared_def Let_def bindE_eq_Inr case_prod_beta dest!: put_handle_table_inv)

lemmas call_inv = OnResourceReady_inv Reschedule_inv new_handle_inv put_handle_table_inv

lemma unschedule_simps [simp]: "threads (unschedule t k) = threads k" "observers (unschedule t k) = observers k" "objects (unschedule t k) = objects k"
  "t \<in> set (ready_queue (unschedule t k)) \<longleftrightarrow> t \<in> set (ready_queue k) \<and> threads k t = None"
  "u \<noteq> t \<Longrightarrow> u \<in> set (ready_queue (unschedule t k)) \<longleftrightarrow> u \<in> set (ready_queue k)"
  "waiting_queue (unschedule t k) = waiting_queue k"
  by (auto simp: unschedule_def)

lemma SVCCreateMutex_inv: "SVCCreateMutex s b k = Inr (r, h, k') \<Longrightarrow> kernel_inv k \<Longrightarrow> kernel_inv k'"
  by (auto simp: SVCCreateMutex_def bindE_eq_Inr dest!: call_inv)

lemma SVCReleaseMutex_inv: "SVCReleaseMutex s h k = Inr (r, k') \<Longrightarrow> kernel_inv k \<Longrightarrow> kernel_inv k'"
  by (auto simp: SVCReleaseMutex_def bindE_eq_Inr Let_def object_cases found_cases split: if_splits dest!: call_inv)

lemma SVCCreateSemaphore_inv: "SVCCreateSemaphore s n m k = Inr (r, h, k') \<Longrightarrow> kernel_inv k \<Longrightarrow> kernel_inv k'"
  by (auto simp: SVCCreateSemaphore_def bindE_eq_Inr dest!: call_inv)

lemma SVCReleaseSemaphore_inv: "SVCReleaseSemaphore s ob n k = Inr (r, c, k') \<Longrightarrow> kernel_inv k \<Longrightarrow> kernel_inv k'"
  by (auto simp: SVCReleaseSemaphore_def bindE_eq_Inr object_cases found_cases dest!: call_inv)

lemma SVCCreateEvent_inv: "SVCCreateEvent s typ k = Inr (r, h, k') \<Longrightarrow> kernel_inv k \<Longrightarrow> kernel_inv k'"
  by (auto simp: SVCCreateEvent_def bindE_eq_Inr split: if_splits dest!: call_inv)

lemma SVCSignalEvent_inv: "SVCSignalEvent s h k = Inr (r, k') \<Longrightarrow> kernel_inv k \<Longrightarrow> kernel_inv k'"
  by (auto simp: SVCSignalEvent_def bindE_eq_Inr object_cases found_cases dest!: call_inv)

lemma SVCClearEvent_inv: "SVCClearEvent s h k = Inr (r, k') \<Longrightarrow> kernel_inv k \<Longrightarrow> kernel_inv k'"
  by (auto simp: SVCClearEvent_def bindE_eq_Inr object_cases found_cases dest!: call_inv)

lemma SVCCreateTimer_inv: "SVCCreateTimer s typ k = Inr (r, h, k') \<Longrightarrow> kernel_inv k \<Longrightarrow> kernel_inv k'"
  by (auto simp: SVCCreateTimer_def bindE_eq_Inr split: if_splits dest!: new_handle_inv intro: Reschedule_inv)

lemma SVCSetTimer_inv: "SVCSetTimer s ob i p k = Inr (r, k') \<Longrightarrow> kernel_inv k \<Longrightarrow> kernel_inv k'"
  by (auto simp: SVCSetTimer_def bindE_eq_Inr Let_def object_cases found_cases split: if_splits dest!: call_inv)

lemma SVCDuplicateHandle_inv: "SVCDuplicateHandle s h k = Inr (r, h', k') \<Longrightarrow> kernel_inv k \<Longrightarrow> kernel_inv k'"
  by (auto simp: SVCDuplicateHandle_def bindE_eq_Inr Let_def case_prod_beta found_cases dest!: call_inv)

lemma SVCBindInterrupt_inv: "SVCBindInterrupt s i ob k = Inr (r, k') \<Longrightarrow> kernel_inv k \<Longrightarrow> kernel_inv k'"
  by (auto simp: SVCBindInterrupt_def bindE_eq_Inr split: if_splits dest!: Reschedule_inv)

lemma SVCSleepThread_inv:
  assumes "SVCSleepThread s d k = Inr k'" "kernel_inv k" "threads k s = Some th" "status th = Ready"
  shows "kernel_inv k'"
proof -
  let ?th = "th\<lparr>timeout_at := GetTimeInNanoSeconds k + d, status := WaitingForTimeout\<rparr>"
  have "kernel_inv (unschedule s (put_thread s ?th k))"
    by (rule kernel_inv_split [of _ s], rule others_inv_cong [OF kernel_inv_others [OF assms(2)]])
      (use kernel_inv_thread [OF assms(2,3)] assms(4) in \<open>auto simp: thread_inv_def\<close>)
  then show ?thesis using assms(1,3) by (auto simp: SVCSleepThread_def get_thread_def Let_def)
qed

text \<open>The thread that makes the call, while the call changes what it waits for.\<close>

definition calling :: "kernel \<Rightarrow> nat \<Rightarrow> thread \<Rightarrow> bool" where
  "calling k s th \<longleftrightarrow> others_inv k s \<and> threads k s = Some th
    \<and> (\<forall>ob. count_list (observers k ob) s = count_list (wait_list th) ob)"

lemma calling_thread: "calling k s th \<Longrightarrow> get_thread s k = Inr th"
  by (simp add: calling_def get_thread_def)

lemma calling_put:
  assumes "calling k s th" "wait_list th' = wait_list th"
  shows "calling (put_thread s th' k) s th'"
proof -
  have "others_inv (put_thread s th' k) s" by (rule others_inv_cong [of k]) (use assms in \<open>auto simp: calling_def\<close>)
  then show ?thesis using assms by (simp add: calling_def)
qed

lemma register_handle_calling:
  assumes "calling k s th" "register_handle s h k = Inr k'"
  shows "\<exists>th'. calling k' s th' \<and> status th' = status th \<and> timeout_at th' = timeout_at th"
proof -
  obtain ob where k': "k' = put_thread s (th\<lparr>wait_list := wait_list th @ [ob]\<rparr>) (Register ob s k)"
    using assms by (auto simp: register_handle_def bindE_eq_Inr found_cases calling_def get_thread_def Register_def)
  have "others_inv k' s" unfolding k'
    by (rule others_inv_cong [of k]) (use assms(1) in \<open>auto simp: calling_def Register_def\<close>)
  then have "calling k' s (th\<lparr>wait_list := wait_list th @ [ob]\<rparr>)"
    using assms(1) by (auto simp: k' calling_def Register_def)
  then show ?thesis by (rule exI [of _ "th\<lparr>wait_list := wait_list th @ [ob]\<rparr>", OF conjI]) simp
qed

lemma register_handles_calling:
  assumes "calling k s th" "foldE (register_handle s) hs k = Inr k'"
  shows "\<exists>th'. calling k' s th' \<and> status th' = status th \<and> timeout_at th' = timeout_at th"
proof (rule foldE_invariant [OF assms(2), of "\<lambda>k. \<exists>th'. calling k s th' \<and> status th' = status th \<and> timeout_at th' = timeout_at th"])
  fix h k k' assume "\<exists>th'. calling k s th' \<and> status th' = status th \<and> timeout_at th' = timeout_at th" "register_handle s h k = Inr k'"
  then show "\<exists>th'. calling k' s th' \<and> status th' = status th \<and> timeout_at th' = timeout_at th"
    using register_handle_calling by metis
qed (use assms(1) in blast)

lemma TryAcquireImpl_calling: "TryAcquireImpl ob t k = Inr (b, k') \<Longrightarrow> calling k s th \<Longrightarrow> calling k' s th"
  using TryAcquireImpl_frame [of ob t k b k'] by (auto simp: calling_def intro: others_inv_cong)

lemma acquire_ready_calling:
  "acquire_ready s all tried rest k = Inr k' \<Longrightarrow> calling k s th \<Longrightarrow> wait_list th = tried @ rest \<Longrightarrow>
    \<exists>th'. calling k' s th' \<and> status th' = status th"
proof (induction s all tried rest k arbitrary: th rule: acquire_ready.induct)
  case (2 s all tried ob rest k)
  obtain acquired k1 where try_acquire: "TryAcquire ob s k = Inr (acquired, k1)" using "2.prems"(1) by (auto split: sum.splits)
  obtain a k0 where impl: "TryAcquireImpl ob s k = Inr (a, k0)" using try_acquire by (auto simp: TryAcquire_def bindE_eq_Inr)
  have calling0: "calling k0 s th" by (rule TryAcquireImpl_calling [OF impl "2.prems"(2)])
  show ?case
  proof (cases acquired)
    case False
    then have "k1 = k0" using try_acquire impl by (auto simp: TryAcquire_def bindE_eq_Inr split: if_splits)
    then show ?thesis using "2.IH"(1) [OF try_acquire refl] False "2.prems"(1,3) try_acquire calling0 by simp
  next
    case True
    then have k1: "k1 = put_observers ob (remove1 s (observers k0 ob)) k0"
      using try_acquire impl by (auto simp: TryAcquire_def Unregister_def bindE_eq_Inr split: if_splits)
    have th1: "threads k1 s = Some th" using calling0 by (simp add: k1 calling_def)
    let ?th = "th\<lparr>wake_index := of_nat (length tried), woken_object := Some ob, wait_list := tried @ rest\<rparr>"
    have others: "others_inv k1 s"
      by (rule others_inv_cong [of k0]) (use calling0 in \<open>auto simp: calling_def k1 count_remove1\<close>)
    have counts: "count_list (observers k1 x) s = count_list (tried @ rest) x" for x
      using calling0 "2.prems"(3) by (auto simp: calling_def k1 count_remove1)
    have next1: "calling (put_thread s ?th k1) s ?th"
      unfolding calling_def using counts by (auto intro: others_inv_cong [OF others])
    obtain obs where obs: "unregister_all s (tried @ rest) k1 = Inr (k1\<lparr>observers := obs\<rparr>)"
      "\<And>ob u. count_list (obs ob) u = (if u = s then count_list (observers k1 ob) s - count_list (tried @ rest) ob else count_list (observers k1 ob) u)"
      using unregister_all_spec [of "tried @ rest" k1 s] counts by (metis order_refl)
    have next2: "calling (put_thread s (?th\<lparr>wait_list := []\<rparr>) (k1\<lparr>observers := obs\<rparr>)) s (?th\<lparr>wait_list := []\<rparr>)"
      unfolding calling_def using obs(2) counts by (auto intro: others_inv_cong [OF others])
    consider "\<not> all" | "all" "tried @ rest = []" | "all" "tried @ rest \<noteq> []" by blast
    then show ?thesis
    proof cases
      case 1
      then have "k' = put_thread s (?th\<lparr>wait_list := []\<rparr>) (k1\<lparr>observers := obs\<rparr>)" using "2.prems"(1) try_acquire True th1 obs(1) by (simp add: get_thread_def Let_def)
      then show ?thesis using next2 by (intro exI [of _ "?th\<lparr>wait_list := []\<rparr>"]) simp
    next
      case 2
      then have "k' = put_thread s ?th k1" using "2.prems"(1) try_acquire True th1 obs(1) by (simp add: get_thread_def Let_def)
      then show ?thesis using next1 by (intro exI [of _ ?th]) simp
    next
      case 3
      then have "acquire_ready s all tried rest (put_thread s ?th k1) = Inr k'"
        using "2.prems"(1) try_acquire True th1 by (auto simp: get_thread_def Let_def)
      then show ?thesis using "2.IH"(2) [OF try_acquire refl _ _ refl _ _ _ next1] True 3 th1 by (simp add: get_thread_def)
    qed
  qed
qed auto

lemma SVCWaitSynchronizationN_inv:
  assumes call: "SVCWaitSynchronizationN s hs all timeout k = Inr k'" and inv: "kernel_inv k" and th: "threads k s = Some th" "status th = Ready"
  shows "kernel_inv k'"
proof -
  let ?hs = "if length hs = 3 \<and> hs ! 2 = 0 then take 2 hs else hs"
  let ?th = "th\<lparr>timeout_at := (if timeout \<noteq> - 1 then GetTimeInNanoSeconds k + timeout else - 1), promised_result := RESULT_OK\<rparr>"
  have "calling k s th" using inv th kernel_inv_thread [OF inv th(1)] by (simp add: calling_def kernel_inv_others thread_inv_def)
  then have start: "calling (put_thread s ?th k) s ?th" by (rule calling_put) simp
  obtain k1 th2 k2 th3 where steps: "foldE (register_handle s) ?hs (put_thread s ?th k) = Inr k1" "get_thread s k1 = Inr th2"
    "acquire_ready s all [] (wait_list th2) k1 = Inr k2" "get_thread s k2 = Inr th3"
    "(if wait_list th3 \<noteq> []
      then let k3 = unschedule s (put_thread s (th3\<lparr>wait_for_all := all, status := Sleeping\<rparr>) k2);
               k4 = (if timeout_at th3 \<noteq> - 1 then k3\<lparr>waiting_queue := waiting_queue k3 @ [s]\<rparr> else k3)
           in Reschedule s k4
      else Inr (RescheduleImmediately s k2)) = Inr k'"
    using call th by (auto simp: SVCWaitSynchronizationN_def Let_def bindE_eq_Inr get_thread_def split: if_splits)
  obtain th2' where "calling k1 s th2'" "status th2' = Ready" using register_handles_calling [OF start steps(1)] th(2) by auto
  then have th2: "calling k1 s th2" "status th2 = Ready" using steps(2) calling_thread by fastforce+
  obtain th3' where "calling k2 s th3'" "status th3' = Ready" using acquire_ready_calling [OF steps(3) th2(1)] th2(2) by auto
  then have th3: "calling k2 s th3" "status th3 = Ready" using steps(4) calling_thread by fastforce+
  have others: "others_inv k2 s" using th3(1) by (simp add: calling_def)
  show ?thesis
  proof (cases "wait_list th3 = []")
    case True
    then have "k' = k2" using steps(5) by (simp add: RescheduleImmediately_def)
    moreover have "kernel_inv k2" by (rule kernel_inv_split [OF others]) (use th3 True in \<open>auto simp: calling_def thread_inv_def\<close>)
    ultimately show ?thesis by simp
  next
    case False
    let ?k3 = "unschedule s (put_thread s (th3\<lparr>wait_for_all := all, status := Sleeping\<rparr>) k2)"
    have "kernel_inv ?k3"
      by (rule kernel_inv_split [of _ s], rule others_inv_cong [OF others]) (use th3 False in \<open>auto simp: calling_def thread_inv_def\<close>)
    then show ?thesis using steps(5) False by (auto simp: Let_def split: if_splits dest!: Reschedule_inv)
  qed
qed

lemma release_owned_inv: "release_owned t e k = Inr k' \<Longrightarrow> kernel_inv k \<Longrightarrow> kernel_inv k'"
  by (auto simp: release_owned_def bindE_eq_Inr object_cases split: if_splits dest!: OnResourceReady_inv)

lemma ExitThread_inv:
  assumes "ExitThread t k = Inr k'" "kernel_inv k"
  shows "kernel_inv k'"
proof -
  obtain th0 where th0: "get_thread t k = Inr th0" using assms(1) by (auto simp: ExitThread_def bindE_eq_Inr)
  show ?thesis
  proof (cases "status th0 = Stopped")
    case True
    then show ?thesis using assms th0 by (simp add: ExitThread_def)
  next
    case False
    obtain k1 th k2 where steps: "foldE (release_owned t) (handles (handle_tables k (parent_process th0))) k = Inr k1"
      "get_thread t k1 = Inr th" "unregister_all t (wait_list th) k1 = Inr k2"
      "OnResourceReady t (unschedule t (put_thread t (th\<lparr>wait_list := [], status := Stopped\<rparr>)
        (k2\<lparr>handle_tables := (handle_tables k2)(parent_process th := SetCurrentThread None (handle_tables k2 (parent_process th)))\<rparr>))) = Inr k'"
      using assms(1) th0 False by (auto simp: ExitThread_def bindE_eq_Inr Let_def)
    have inv1: "kernel_inv k1" by (rule foldE_invariant [OF steps(1)]) (use assms(2) release_owned_inv in auto)
    have th: "threads k1 t = Some th" using steps(2) by (auto simp: get_thread_def split: option.splits)
    obtain obs where obs: "k2 = k1\<lparr>observers := obs\<rparr>" "\<And>ob u. count_list (obs ob) u = (if u = t then 0 else count_list (observers k1 ob) u)"
      using unregister_own [OF kernel_inv_thread [OF inv1 th]] steps(3) by auto
    have "kernel_inv (unschedule t (put_thread t (th\<lparr>wait_list := [], status := Stopped\<rparr>)
        (k2\<lparr>handle_tables := (handle_tables k2)(parent_process th := SetCurrentThread None (handle_tables k2 (parent_process th)))\<rparr>)))"
      by (rule kernel_inv_split [of _ t], rule others_inv_cong [OF kernel_inv_others [OF inv1]]) (auto simp: thread_inv_def obs)
    then show ?thesis by (rule OnResourceReady_inv [OF steps(4)])
  qed
qed

section \<open>All that can happen\<close>

text \<open>The calls a thread can make, by their arguments.\<close>

datatype kernel_call =
    CreateMutex bool
  | ReleaseMutex u32
  | CreateSemaphore i32 i32
  | ReleaseSemaphore nat i32
  | CreateEvent reset_type
  | SignalEventCall u32
  | ClearEvent u32
  | CreateTimer reset_type
  | SetTimer nat i64 i64
  | SleepThread i64
  | GetSystemTick
  | DuplicateHandle u32
  | BindInterrupt nat nat
  | WaitSynchronizationN "u32 list" bool i64
  | ExitThreadCall

fun perform :: "nat \<Rightarrow> kernel_call \<Rightarrow> kernel \<Rightarrow> kernel res" where
  "perform s (CreateMutex lock) k = bindE (SVCCreateMutex s lock k) (\<lambda>(r, h, k'). Inr k')"
| "perform s (ReleaseMutex h) k = bindE (SVCReleaseMutex s h k) (\<lambda>(r, k'). Inr k')"
| "perform s (CreateSemaphore n m) k = bindE (SVCCreateSemaphore s n m k) (\<lambda>(r, h, k'). Inr k')"
| "perform s (ReleaseSemaphore ob n) k = bindE (SVCReleaseSemaphore s ob n k) (\<lambda>(r, c, k'). Inr k')"
| "perform s (CreateEvent typ) k = bindE (SVCCreateEvent s typ k) (\<lambda>(r, h, k'). Inr k')"
| "perform s (SignalEventCall h) k = bindE (SVCSignalEvent s h k) (\<lambda>(r, k'). Inr k')"
| "perform s (ClearEvent h) k = bindE (SVCClearEvent s h k) (\<lambda>(r, k'). Inr k')"
| "perform s (CreateTimer typ) k = bindE (SVCCreateTimer s typ k) (\<lambda>(r, h, k'). Inr k')"
| "perform s (SetTimer ob i p) k = bindE (SVCSetTimer s ob i p k) (\<lambda>(r, k'). Inr k')"
| "perform s (SleepThread d) k = SVCSleepThread s d k"
| "perform s GetSystemTick k = Inr (snd (SVCGetSystemTick s k))"
| "perform s (DuplicateHandle h) k = bindE (SVCDuplicateHandle s h k) (\<lambda>(r, h', k'). Inr k')"
| "perform s (BindInterrupt i ob) k = bindE (SVCBindInterrupt s i ob k) (\<lambda>(r, k'). Inr k')"
| "perform s (WaitSynchronizationN hs all timeout) k = SVCWaitSynchronizationN s hs all timeout k"
| "perform s ExitThreadCall k = SVCExitThread s k"

text \<open>
  The states the kernel can reach: time passes, the dispatcher picks a thread, the thread that runs, which is ready, makes a
  call, threads are created and registered, and threads are destroyed.
\<close>

inductive kernel_reachable :: "kernel \<Rightarrow> bool" where
  boot: "(\<And>ob. observers k ob = []) \<Longrightarrow> (\<And>t. threads k t = None) \<Longrightarrow> kernel_reachable k"
| time: "kernel_reachable k \<Longrightarrow> ElapseTime ns k = Inr k' \<Longrightarrow> kernel_reachable k'"
| dispatched: "kernel_reachable k \<Longrightarrow> dispatch_next k = Inr (d, k') \<Longrightarrow> kernel_reachable k'"
| call: "kernel_reachable k \<Longrightarrow> threads k s = Some th \<Longrightarrow> status th = Ready \<Longrightarrow> perform s c k = Inr k' \<Longrightarrow> kernel_reachable k'"
| spawn: "kernel_reachable k \<Longrightarrow> threads k t = None \<Longrightarrow> (\<And>ob. t \<notin> set (observers k ob)) \<Longrightarrow>
    wait_list th = [] \<Longrightarrow> status th = Ready \<Longrightarrow> RegisterToScheduler t (put_thread t th k) = Inr k' \<Longrightarrow> kernel_reachable k'"
| destroy: "kernel_reachable k \<Longrightarrow> kernel_reachable (k\<lparr>threads := (threads k)(t := None)\<rparr>)"

lemma perform_inv:
  assumes "perform s c k = Inr k'" "kernel_inv k" "threads k s = Some th" "status th = Ready"
  shows "kernel_inv k'"
  using assms
proof (cases c)
  case (SleepThread d)
  then show ?thesis using assms SVCSleepThread_inv by simp
next
  case (WaitSynchronizationN hs all timeout)
  then show ?thesis using assms SVCWaitSynchronizationN_inv by simp
qed (auto simp: bindE_eq_Inr SVCGetSystemTick_def RescheduleImmediately_def SVCExitThread_def
  dest: SVCCreateMutex_inv SVCReleaseMutex_inv SVCCreateSemaphore_inv SVCReleaseSemaphore_inv SVCCreateEvent_inv SVCSignalEvent_inv
    SVCClearEvent_inv SVCCreateTimer_inv SVCSetTimer_inv SVCDuplicateHandle_inv SVCBindInterrupt_inv ExitThread_inv Reschedule_inv)

lemma dispatch_inv:
  assumes "dispatch_next k = Inr (d, k')" "kernel_inv k"
  shows "kernel_inv k'"
proof (cases "ready_queue k")
  case Nil
  then show ?thesis using assms by (auto simp: dispatch_next_def bindE_eq_Inr dest: ElapseTime_inv)
next
  case (Cons t ts)
  then consider "k' = k\<lparr>ready_queue := ts\<rparr>" | h where "k' = k\<lparr>handle_tables := h\<rparr>"
    using assms(1) by (auto simp: dispatch_next_def bindE_eq_Inr Let_def split: if_splits)
  then show ?thesis using assms(2) Cons by cases (auto simp: kernel_inv_def thread_inv_def)
qed

lemma kernel_reachable_inv: "kernel_reachable k \<Longrightarrow> kernel_inv k"
proof (induction rule: kernel_reachable.induct)
  case (boot k)
  then show ?case by (simp add: kernel_inv_def)
next
  case (spawn k t th k')
  let ?k = "(put_thread t th k)\<lparr>os_threads := os_threads (put_thread t th k) @ [t], ready_queue := ready_queue k @ [t]\<rparr>"
  have k': "k' = ?k" using spawn(6) spawn.hyps(5) by (simp add: RegisterToScheduler_def get_thread_def Let_def)
  have "count_list (observers k ob) t = 0" for ob using spawn.hyps(3) by (simp add: count_list_0_iff)
  then show ?case unfolding k'
    by (intro kernel_inv_split [of _ t] others_inv_cong [OF kernel_inv_others [OF spawn.IH]]) (use spawn.hyps in \<open>auto simp: thread_inv_def\<close>)
next
  case (destroy k t)
  then show ?case by (simp add: kernel_inv_def thread_inv_def)
qed (auto dest: ElapseTime_inv dispatch_inv perform_inv)

end
