(* ===== verification/KernelCorrect.thy ===== *)
theory KernelCorrect
  imports KernelInvariant
begin

text \<open>
  What synchronisation in the kernel promises: objects stay well-formed, no wake-up is lost, objects that one thread at a
  time can get go to the thread that waited longest, timeouts are served; and two things that go wrong, a stopped thread
  that a stale timeout makes ready again, and the clock, which starts anew after eighteen minutes.
\<close>

section \<open>Objects that can be acquired\<close>

text \<open>
  Well-formed objects: a locked mutex has an owner that is alive, the count of a semaphore is between zero and its
  maximum, and events and timers have one of the types that can be created. What is said here holds of mutexes, semaphores,
  events, timers, transfers by DMA and the servers' ends of ports; of sessions, clients' ends of ports, threads and processes
  it does not.
\<close>

definition object_ok :: "kernel \<Rightarrow> kobject \<Rightarrow> bool" where
  "object_ok k x = (case x of
      Mutex m \<Rightarrow> lock_count m = 0 \<or> (\<exists>w. mutex_owner m = Some w \<and> threads k w \<noteq> None)
    | Semaphore s \<Rightarrow> 0 \<le> sint (available_count s) \<and> sint (available_count s) \<le> sint (max_available s)
    | Event e \<Rightarrow> event_type e = OneShot \<or> event_type e = Sticky
    | Timer tm \<Rightarrow> timer_type tm = OneShot \<or> timer_type tm = Sticky \<or> timer_type tm = Pulse
    | DMAObject \<Rightarrow> True
    | ServerPort p \<Rightarrow> True
    | _ \<Rightarrow> False)"

lemma sint_pred: "0 < sint (x :: i32) \<Longrightarrow> sint (x - 1) = sint x - 1"
proof -
  assume pos: "0 < sint x"
  have "sint x < 2 ^ 31" "- (2 ^ 31) \<le> sint x" using sint_lt [of x] sint_ge [of x] by simp_all
  then show ?thesis using pos by (simp add: sint_word_ariths signed_take_bit_int_eq_self)
qed

lemma put_same: "objects k ob = Some x \<Longrightarrow> put_object ob x k = k"
  by (simp add: put_object_def fun_upd_idem)

lemma TryAcquireImpl_kinds:
  "objects k ob = Some (Mutex m) \<Longrightarrow> TryAcquireImpl ob t k = with_object Mutex ob k (Mutex_TryAcquire t m k)"
  "objects k ob = Some (Semaphore s) \<Longrightarrow> TryAcquireImpl ob t k = with_object Semaphore ob k (Semaphore_TryAcquire s)"
  "objects k ob = Some (Event e) \<Longrightarrow> TryAcquireImpl ob t k = with_object Event ob k (Event_TryAcquire e)"
  "objects k ob = Some (Timer tm) \<Longrightarrow> TryAcquireImpl ob t k = with_object Timer ob k (Timer_TryAcquire (GetTimeInNanoSeconds k) tm)"
  "objects k ob = Some DMAObject \<Longrightarrow> TryAcquireImpl ob t k = Inr (True, k)"
  "objects k ob = Some (ServerPort p) \<Longrightarrow> TryAcquireImpl ob t k = Inr (session_queue p \<noteq> [], k)"
  by (simp_all add: TryAcquireImpl_def get_object_def)

lemma Mutex_TryAcquire_free:
  "lock_count m = 0 \<or> mutex_owner m = Some t \<and> threads k t \<noteq> None \<Longrightarrow>
    Mutex_TryAcquire t m k = Inr (True, m\<lparr>mutex_owner := Some t, lock_count := lock_count m + 1\<rparr>)"
  by (auto simp: Mutex_TryAcquire_def Let_def)

lemma Mutex_TryAcquire_taken:
  "lock_count m \<noteq> 0 \<Longrightarrow> mutex_owner m = Some w \<Longrightarrow> threads k w \<noteq> None \<Longrightarrow> w \<noteq> t \<Longrightarrow> Mutex_TryAcquire t m k = Inr (False, m)"
  by (auto simp: Mutex_TryAcquire_def)

text \<open>
  Trying to acquire a well-formed object never fails with an error and leaves it well-formed. It changes the object only
  when it succeeds.
\<close>

lemma try_acquire_ok:
  assumes ob: "objects k ob = Some x" and ok: "object_ok k x" and t: "threads k t \<noteq> None"
  shows "(\<exists>x'. TryAcquireImpl ob t k = Inr (True, put_object ob x' k) \<and> object_ok k x') \<or> TryAcquireImpl ob t k = Inr (False, k)"
proof (cases x)
  case (Mutex m)
  note kind = TryAcquireImpl_kinds(1) [OF ob [unfolded Mutex], of t] and same = put_same [OF ob [unfolded Mutex]]
  show ?thesis
  proof (cases "lock_count m = 0 \<or> mutex_owner m = Some t")
    case True
    let ?m = "m\<lparr>mutex_owner := Some t, lock_count := lock_count m + 1\<rparr>"
    have "TryAcquireImpl ob t k = Inr (True, put_object ob (Mutex ?m) k)"
      using True t by (simp add: kind with_object_def Mutex_TryAcquire_free)
    moreover have "object_ok k (Mutex ?m)" using t by (simp add: object_ok_def)
    ultimately show ?thesis by blast
  next
    case False
    then obtain w where "mutex_owner m = Some w" "threads k w \<noteq> None" "w \<noteq> t" using ok by (auto simp: object_ok_def Mutex)
    then show ?thesis using False by (simp add: kind with_object_def Mutex_TryAcquire_taken same)
  qed
next
  case (Semaphore s)
  note kind = TryAcquireImpl_kinds(2) [OF ob [unfolded Semaphore], of t] and same = put_same [OF ob [unfolded Semaphore]]
  have bounds: "0 \<le> sint (available_count s)" "sint (available_count s) \<le> sint (max_available s)" using ok by (simp_all add: object_ok_def Semaphore)
  show ?thesis
  proof (cases "available_count s = 0")
    case True
    then show ?thesis by (simp add: kind with_object_def Semaphore_TryAcquire_def same)
  next
    case False
    then have "sint (available_count s) \<noteq> 0" using signed_word_eqI [of "available_count s" 0, where ?'a = int] by (auto simp: sint_0)
    then have "0 < sint (available_count s)" using bounds by linarith
    let ?s = "s\<lparr>available_count := available_count s - 1\<rparr>"
    have "TryAcquireImpl ob t k = Inr (True, put_object ob (Semaphore ?s) k)"
      using False bounds by (simp add: kind with_object_def Semaphore_TryAcquire_def)
    moreover have "object_ok k (Semaphore ?s)" using bounds sint_pred \<open>0 < sint (available_count s)\<close> by (simp add: object_ok_def)
    ultimately show ?thesis by blast
  qed
next
  case (Event e)
  note kind = TryAcquireImpl_kinds(3) [OF ob [unfolded Event], of t] and same = put_same [OF ob [unfolded Event]]
  show ?thesis
  proof (cases "signalled e")
    case True
    then have "TryAcquireImpl ob t k = Inr (True, put_object ob (Event (if event_type e = OneShot then e\<lparr>signalled := False\<rparr> else e)) k)"
      using ok by (auto simp: kind with_object_def Event_TryAcquire_def object_ok_def Event)
    then show ?thesis using ok by (auto simp: object_ok_def Event)
  qed (simp add: kind with_object_def Event_TryAcquire_def same)
next
  case (Timer tm)
  note kind = TryAcquireImpl_kinds(4) [OF ob [unfolded Timer], of t] and same = put_same [OF ob [unfolded Timer]]
  show ?thesis
  proof (cases "active tm \<and> timeout_time_ns tm \<le> GetTimeInNanoSeconds k")
    case True
    then have "\<exists>tm'. timer_type tm' = timer_type tm \<and> Timer_TryAcquire (GetTimeInNanoSeconds k) tm = Inr (True, tm')"
      using ok by (auto simp: Timer_TryAcquire_def object_ok_def Timer Timer_Reset_def Timer_Run_def)
    then show ?thesis using ok by (fastforce simp: kind with_object_def object_ok_def Timer)
  qed (auto simp: kind with_object_def Timer_TryAcquire_def same)
next
  case DMAObject
  then show ?thesis using ob put_same [OF ob] ok by (auto simp: TryAcquireImpl_kinds intro!: exI [of _ x])
next
  case (ServerPort p)
  then show ?thesis using ob put_same [OF ob] ok by (cases "session_queue p = []") (auto simp: TryAcquireImpl_kinds intro!: exI [of _ x])
qed (use ok in \<open>simp_all add: object_ok_def\<close>)

text \<open>Failing for one thread, acquisition fails for every other but the owner of a mutex.\<close>

lemma try_acquire_uniform:
  assumes ob: "objects k ob = Some x" and ok: "object_ok k x" and fails: "TryAcquireImpl ob t k = Inr (False, k)"
    and u: "threads k u \<noteq> None" "\<And>m. x = Mutex m \<Longrightarrow> lock_count m \<noteq> 0 \<Longrightarrow> mutex_owner m \<noteq> Some u"
  shows "TryAcquireImpl ob u k = Inr (False, k)"
proof (cases x)
  case (Mutex m)
  note kind = TryAcquireImpl_kinds(1) [OF ob [unfolded Mutex]] and same = put_same [OF ob [unfolded Mutex]]
  have "lock_count m \<noteq> 0" using fails by (auto simp: kind with_object_def Mutex_TryAcquire_def bindE_eq_Inr)
  moreover from this obtain w where "mutex_owner m = Some w" "threads k w \<noteq> None" using ok by (auto simp: object_ok_def Mutex)
  ultimately show ?thesis using u(2) [OF Mutex] by (simp add: kind with_object_def Mutex_TryAcquire_taken same)
next
  case (Event e)
  then show ?thesis using fails TryAcquireImpl_kinds(3) ob by simp
qed (use fails ob ok in \<open>simp_all add: TryAcquireImpl_kinds object_ok_def\<close>)

section \<open>Waking up is complete\<close>

lemma distinct_count: "distinct xs \<longleftrightarrow> (\<forall>x. count_list xs x \<le> 1)"
proof (induction xs)
  case (Cons y ys)
  have "(\<forall>x. count_list (y # ys) x \<le> 1) \<longleftrightarrow> (\<forall>x. count_list ys x \<le> 1) \<and> count_list ys y = 0"
  proof
    assume once: "\<forall>x. count_list (y # ys) x \<le> 1"
    have "count_list ys x \<le> 1" for x using once [rule_format, of x] by (cases "y = x") auto
    moreover have "count_list ys y = 0" using once [rule_format, of y] by simp
    ultimately show "(\<forall>x. count_list ys x \<le> 1) \<and> count_list ys y = 0" by blast
  qed auto
  then show ?case using Cons by (auto simp: count_list_0_iff)
qed simp

lemma acquired_owner:
  assumes "TryAcquireImpl ob t k = Inr (True, k1)" "objects k1 ob = Some (Mutex m)"
  shows "mutex_owner m = Some t"
proof -
  obtain x where x: "objects k ob = Some x" using assms(1) by (auto simp: TryAcquireImpl_def get_object_def bindE_eq_Inr split: option.splits)
  show ?thesis
  proof (cases x)
    case (Mutex m0)
    then obtain m1 where "Mutex_TryAcquire t m0 k = Inr (True, m1)" "k1 = put_object ob (Mutex m1) k"
      using assms(1) x by (auto simp: TryAcquireImpl_kinds with_object_def bindE_eq_Inr)
    then show ?thesis using assms(2) by (auto simp: Mutex_TryAcquire_def Let_def split: if_splits option.splits)
  qed (use assms x in \<open>auto simp: TryAcquireImpl_def get_object_def with_object_def bindE_eq_Inr\<close>)
qed

text \<open>The state of the object while its observers are being woken.\<close>

definition handing_out :: "nat \<Rightarrow> kernel \<Rightarrow> bool" where
  "handing_out ob k \<longleftrightarrow> distinct (observers k ob) \<and> (\<exists>x. objects k ob = Some x \<and> object_ok k x
    \<and> (\<forall>m w. x = Mutex m \<longrightarrow> lock_count m \<noteq> 0 \<longrightarrow> mutex_owner m = Some w \<longrightarrow> w \<notin> set (observers k ob)))"

lemma object_ok_alive: "object_ok k x \<Longrightarrow> (\<And>t. threads k t \<noteq> None \<Longrightarrow> threads k' t \<noteq> None) \<Longrightarrow> object_ok k' x"
  by (auto simp: object_ok_def split: kobject.splits)

lemma handing_out_acquired:
  assumes inv: "kernel_inv k" and P: "handing_out ob k" and ob: "observers k ob = t # ts" and th: "threads k t = Some th"
    and acq: "TryAcquireImpl ob t k = Inr (True, k1)" and k2: "OnResourceAcquired t ob (put_observers ob ts k1) = Inr k2"
  shows "handing_out ob k2"
proof -
  obtain x where x: "objects k ob = Some x" "object_ok k x" using P by (auto simp: handing_out_def)
  obtain x' where x': "k1 = put_object ob x' k" "object_ok k x'" using try_acquire_ok [OF x, of t] th acq by auto
  have k2': "objects k2 = objects k1" "\<forall>x u. count_list (observers k2 x) u \<le> count_list (((observers k)(ob := ts)) x) u"
    "\<forall>u. u \<noteq> t \<longrightarrow> threads k2 u = threads k u" "threads k2 t \<noteq> None"
    using first_acquires [OF inv ob th acq] k2 by auto
  have counts: "count_list (observers k2 ob) u \<le> count_list ts u" for u using k2'(2) [rule_format, of ob u] by simp
  have d: "distinct ts" "t \<notin> set ts" using P by (simp_all add: handing_out_def ob)
  have "count_list (observers k2 ob) u \<le> 1" for u using counts [of u] d(1) unfolding distinct_count by (metis order_trans)
  then have "distinct (observers k2 ob)" by (simp add: distinct_count)
  moreover have "object_ok k2 x'" by (rule object_ok_alive [OF x'(2)]) (metis k2'(3,4))
  moreover have "t \<notin> set (observers k2 ob)" using counts [of t] d(2) by (simp add: count_list_0_iff [symmetric])
  ultimately show ?thesis using k2'(1) x'(1) acquired_owner [OF acq] by (auto simp: handing_out_def)
qed

lemma handing_out_dead:
  assumes "handing_out ob k" "observers k ob = t # ts"
  shows "handing_out ob (put_observers ob ts k)"
  using assms by (auto simp: handing_out_def object_ok_def split: kobject.splits)

lemma handing_out_rule:
  assumes "kernel_inv k" "handing_out ob k"
  shows "\<exists>k0. handing_out ob k0 \<and> kernel_inv k0 \<and> (observers k0 ob = [] \<and> OnResourceReady ob k = Inr k0
    \<or> (\<exists>t ts th. observers k0 ob = t # ts \<and> threads k0 t = Some th \<and>
        ((\<exists>k'. TryAcquireImpl ob t k0 = Inr (False, k') \<and> OnResourceReady ob k = Inr k' \<and> kernel_inv k')
        \<or> (\<exists>e. TryAcquireImpl ob t k0 = Inl e \<and> OnResourceReady ob k = Inl e))))"
  by (rule OnResourceReady_rule [where P = "handing_out ob", OF assms]) (rule handing_out_dead handing_out_acquired; assumption)+

lemma OnResourceReady_complete:
  assumes inv: "kernel_inv k" and P: "handing_out ob k"
  shows "\<exists>k'. OnResourceReady ob k = Inr k' \<and> kernel_inv k'
    \<and> (\<forall>t \<in> set (observers k' ob). threads k' t \<noteq> None \<longrightarrow> TryAcquireImpl ob t k' = Inr (False, k'))"
proof -
  obtain k0 where k0: "handing_out ob k0" "kernel_inv k0" "observers k0 ob = [] \<and> OnResourceReady ob k = Inr k0
    \<or> (\<exists>t ts th. observers k0 ob = t # ts \<and> threads k0 t = Some th \<and>
        ((\<exists>k'. TryAcquireImpl ob t k0 = Inr (False, k') \<and> OnResourceReady ob k = Inr k' \<and> kernel_inv k')
        \<or> (\<exists>e. TryAcquireImpl ob t k0 = Inl e \<and> OnResourceReady ob k = Inl e)))"
    using handing_out_rule [OF assms] by (elim exE conjE)
  obtain x where x: "objects k0 ob = Some x" "object_ok k0 x"
    "\<And>m w. x = Mutex m \<Longrightarrow> lock_count m \<noteq> 0 \<Longrightarrow> mutex_owner m = Some w \<Longrightarrow> w \<notin> set (observers k0 ob)"
    using k0(1) by (auto simp: handing_out_def)
  show ?thesis
  proof (cases "observers k0 ob")
    case Nil
    then show ?thesis using k0 by auto
  next
    case (Cons t ts)
    then obtain th where th: "threads k0 t = Some th" using k0(3) by auto
    consider "TryAcquireImpl ob t k0 = Inr (False, k0)" | k1 where "TryAcquireImpl ob t k0 = Inr (True, k1)"
      using try_acquire_ok [OF x(1,2), of t] th by auto
    then show ?thesis
    proof cases
      case 1
      then have "OnResourceReady ob k = Inr k0" using k0(3) Cons by auto
      moreover have "TryAcquireImpl ob u k0 = Inr (False, k0)" if "u \<in> set (observers k0 ob)" "threads k0 u \<noteq> None" for u
        using try_acquire_uniform [OF x(1,2) 1 that(2)] x(3) that(1) by auto
      ultimately show ?thesis using k0(2) by blast
    next
      case 2
      then show ?thesis using k0(3) Cons by auto
    qed
  qed
qed

section \<open>Timeouts\<close>

lemma unregister_all_frame: "unregister_all t obs k = Inr k' \<Longrightarrow> \<exists>os. k' = k\<lparr>observers := os\<rparr>"
  unfolding unregister_all_def
proof (induction obs arbitrary: k)
  case Nil
  then show ?case by (intro exI [of _ "observers k"]) simp
next
  case (Cons ob obs)
  then obtain k1 where "Unregister ob t k = Inr k1" "foldE (\<lambda>ob. Unregister ob t) obs k1 = Inr k'" by (auto simp: bindE_eq_Inr)
  then show ?case using Cons.IH by (fastforce simp: Unregister_def put_observers_def split: if_splits)
qed

lemma wake_after_timeout_frame:
  assumes "wake_after_timeout t th k = Inr k'"
  shows "\<exists>th' os. k' = (k\<lparr>observers := os, ready_queue := ready_queue k @ [t], threads := (threads k)(t := Some th')\<rparr>)
    \<and> status th' = Ready \<and> timeout_at th' = timeout_at th"
proof (cases "status th = Sleeping")
  case True
  then obtain k1 where k1: "unregister_all t (wait_list th) k = Inr k1"
    "k' = put_thread t (th\<lparr>promised_result := 0x09401BFE, wait_list := [], status := Ready\<rparr>) (k1\<lparr>ready_queue := ready_queue k1 @ [t]\<rparr>)"
    using assms by (auto simp: wake_after_timeout_def bindE_eq_Inr)
  from unregister_all_frame [OF this(1)] obtain os where "k1 = k\<lparr>observers := os\<rparr>" by blast
  then show ?thesis using k1(2) by (fastforce simp: put_thread_def)
next
  case False
  then show ?thesis using assms by (intro exI [of _ "th\<lparr>status := Ready\<rparr>"] exI [of _ "observers k"]) (auto simp: wake_after_timeout_def put_thread_def)
qed

text \<open>
  What \<open>check_timeouts\<close> does to the threads: \<open>woken\<close> are those of the queue whose time is up.
\<close>

definition woken :: "nat list \<Rightarrow> kernel \<Rightarrow> nat set" where
  "woken ts k = {t \<in> set ts. \<exists>th. threads k t = Some th \<and> timeout_at th \<le> GetTimeInNanoSeconds k}"

lemma check_timeouts_frame:
  assumes "check_timeouts ts k = Inr (rest, k')"
  shows "system_tick k' = system_tick k \<and> rest = filter (\<lambda>t. threads k t \<noteq> None \<and> t \<notin> woken ts k) ts
    \<and> set (ready_queue k') = set (ready_queue k) \<union> woken ts k \<and> (\<forall>t. t \<notin> woken ts k \<longrightarrow> threads k' t = threads k t)
    \<and> (\<forall>t \<in> woken ts k. \<exists>th'. threads k' t = Some th' \<and> status th' = Ready)"
  using assms
proof (induction ts arbitrary: k rest)
  case Nil
  then show ?case by (simp add: woken_def)
next
  case (Cons t ts)
  show ?case
  proof (cases "threads k t")
    case None
    then have "woken (t # ts) k = woken ts k" by (auto simp: woken_def)
    then show ?thesis using Cons None by simp
  next
    case (Some th)
    show ?thesis
    proof (cases "timeout_at th \<le> GetTimeInNanoSeconds k")
      case True
      then obtain k1 where k1: "wake_after_timeout t th k = Inr k1" "check_timeouts ts k1 = Inr (rest, k')"
        using Cons.prems Some by (auto simp: bindE_eq_Inr)
      obtain th' os where th': "k1 = (k\<lparr>observers := os, ready_queue := ready_queue k @ [t], threads := (threads k)(t := Some th')\<rparr>)"
        "status th' = Ready" "timeout_at th' = timeout_at th" using wake_after_timeout_frame [OF k1(1)] by blast
      have w: "woken (t # ts) k = insert t (woken ts k1)" using th' Some True by (auto simp: woken_def GetTimeInNanoSeconds_def)
      have alive: "threads k1 u = None \<longleftrightarrow> threads k u = None" for u using th'(1) Some by auto
      have t: "\<exists>th'. threads k' t = Some th' \<and> status th' = Ready"
        using Cons.IH [OF k1(2)] th' by (cases "t \<in> woken ts k1") auto
      have "t \<in> set ts \<Longrightarrow> t \<in> woken ts k1" using th' True by (auto simp: woken_def GetTimeInNanoSeconds_def)
      then show ?thesis using Cons.IH [OF k1(2)] th'(1) t by (auto simp: w alive intro!: filter_cong)
    next
      case False
      then obtain rest1 where r: "check_timeouts ts k = Inr (rest1, k')" "rest = t # rest1" using Cons.prems Some by (auto simp: bindE_eq_Inr)
      have "woken (t # ts) k = woken ts k" "t \<notin> woken ts k" using False Some by (auto simp: woken_def)
      then show ?thesis using Cons.IH [OF r(1)] r(2) Some by simp
    qed
  qed
qed


text \<open>Waking threads changes neither the waiting queue nor the time nor any timeout.\<close>

definition same_timeouts :: "kernel \<Rightarrow> kernel \<Rightarrow> bool" where
  "same_timeouts k' k \<longleftrightarrow> waiting_queue k' = waiting_queue k \<and> system_tick k' = system_tick k
    \<and> (\<forall>t. map_option timeout_at (threads k' t) = map_option timeout_at (threads k t))"

lemma same_timeouts_refl [simp]: "same_timeouts k k"
  and same_timeouts_trans: "same_timeouts k'' k' \<Longrightarrow> same_timeouts k' k \<Longrightarrow> same_timeouts k'' k"
  by (simp_all add: same_timeouts_def)

lemma same_timeouts_simps [simp]: "same_timeouts (put_object ob x k') k = same_timeouts k' k" "same_timeouts (put_observers ob ts k') k = same_timeouts k' k"
  "same_timeouts k' (put_object ob x k) = same_timeouts k' k" "same_timeouts k' (put_observers ob ts k) = same_timeouts k' k"
  by (simp_all add: same_timeouts_def put_observers_def)

lemma unregister_all_timeouts: "unregister_all t obs k = Inr k' \<Longrightarrow> same_timeouts k' k"
  by (drule unregister_all_frame) (auto simp: same_timeouts_def)

lemma TryAcquire_timeouts: "TryAcquire ob t k = Inr (b, k') \<Longrightarrow> same_timeouts k' k"
  by (auto simp: TryAcquire_def Unregister_def bindE_eq_Inr split: if_splits dest!: TryAcquireImpl_frame intro: same_timeouts_trans)

lemma OnResourceAcquired_timeouts: "OnResourceAcquired t ob k = Inr k' \<Longrightarrow> same_timeouts k' k"
  by (auto simp: OnResourceAcquired_def get_thread_def Let_def bindE_eq_Inr put_thread_def same_timeouts_def
      split: if_splits option.splits dest!: unregister_all_frame)

lemma OnResourceReady_timeouts: "OnResourceReady ob k = Inr k' \<Longrightarrow> same_timeouts k' k"
proof (induction ob k rule: OnResourceReady.induct)
  case (1 ob k)
  show ?case
  proof (cases "observers k ob")
    case Nil
    then show ?thesis using 1(3) by (simp add: OnResourceReady_empty)
  next
    case (Cons t ts)
    show ?thesis
    proof (cases "threads k t")
      case None
      then show ?thesis using 1(1) [OF Cons None] 1(3) Cons by (auto simp: OnResourceReady_dead intro: same_timeouts_trans)
    next
      case (Some th)
      have "status th = Sleeping" using 1(3) Cons Some by (subst (asm) OnResourceReady.simps) (auto split: if_splits)
      then obtain b k1 where k1: "TryAcquire ob t k = Inr (b, k1)" "if b then bindE (OnResourceAcquired t ob k1) (OnResourceReady ob) = Inr k' else k' = k1"
        using 1(3) Cons Some by (subst (asm) OnResourceReady.simps) (auto simp: bindE_def split: if_splits sum.splits)
      show ?thesis
      proof (cases b)
        case True
        then obtain k2 where k2: "OnResourceAcquired t ob k1 = Inr k2" "OnResourceReady ob k2 = Inr k'" using k1(2) by (auto simp: bindE_eq_Inr)
        have "same_timeouts k' k2" using 1(2) [OF Cons Some _ k1(1) refl _ k2(1,2)] \<open>status th = Sleeping\<close> True by simp
        then show ?thesis using OnResourceAcquired_timeouts [OF k2(1)] TryAcquire_timeouts [OF k1(1)] by (blast intro: same_timeouts_trans)
      qed (use k1 TryAcquire_timeouts in simp)
    qed
  qed
qed

lemma foldE_timeouts: "foldE f xs k = Inr k' \<Longrightarrow> (\<And>x k k'. f x k = Inr k' \<Longrightarrow> same_timeouts k' k) \<Longrightarrow> same_timeouts k' k"
  by (rule foldE_invariant [where P = "\<lambda>k'. same_timeouts k' k"]) (auto intro: same_timeouts_trans)

lemma NotifyInterrupt_timeouts: "NotifyInterrupt i k = Inr k' \<Longrightarrow> same_timeouts k' k"
  by (auto simp: NotifyInterrupt_def bindE_eq_Inr object_cases split: if_splits dest!: OnResourceReady_timeouts
      elim!: foldE_timeouts intro: same_timeouts_trans)

lemma check_timer_timeouts: "check_timer ns ob k = Inr k' \<Longrightarrow> same_timeouts k' k"
  by (auto simp: check_timer_def split: option.splits kobject.splits if_splits dest: OnResourceReady_timeouts)

lemma ElapseTime_steps:
  assumes "ElapseTime ns k = Inr k'"
  shows "\<exists>k3 rest k4. same_timeouts k3 (k\<lparr>system_tick := system_tick k + ticks_of_ns ns\<rparr>)
    \<and> check_timeouts (waiting_queue k3) k3 = Inr (rest, k4) \<and> k' = k4\<lparr>waiting_queue := rest\<rparr>"
proof -
  let ?k1 = "k\<lparr>system_tick := system_tick k + ticks_of_ns ns\<rparr>"
  obtain k2 k3 rest k4 where steps: "foldE (check_timer (GetTimeInNanoSeconds ?k1)) (active_timers ?k1) ?k1 = Inr k2"
    "(if vblanks_of_ticks (system_tick k2) \<noteq> vblanks_of_ticks (system_tick k)
      then bindE (NotifyInterrupt 0x2a k2) (\<lambda>k. bindE (NotifyInterrupt 0x2b k) (NotifyInterrupt 0x64)) else Inr k2) = Inr k3"
    "check_timeouts (waiting_queue k3) k3 = Inr (rest, k4)" "k' = k4\<lparr>waiting_queue := rest\<rparr>"
    using assms by (auto simp: ElapseTime_def Let_def bindE_eq_Inr)
  have "same_timeouts k2 ?k1" using foldE_timeouts [OF steps(1)] check_timer_timeouts by blast
  moreover have "same_timeouts k3 k2"
    using steps(2) by (auto simp: bindE_eq_Inr split: if_splits dest!: NotifyInterrupt_timeouts intro: same_timeouts_trans)
  ultimately show ?thesis using steps(3,4) by (blast intro: same_timeouts_trans)
qed

section \<open>The order of waking\<close>

lemma filter_remove1_other: "filter (\<lambda>u. u \<noteq> t) (remove1 t xs) = filter (\<lambda>u. u \<noteq> t) xs"
  by (induction xs) auto

lemma same_without: "u \<notin> set xs \<Longrightarrow> u \<notin> set ys \<Longrightarrow> filter (\<lambda>v. v \<noteq> u) xs = filter (\<lambda>v. v \<noteq> u) (observers (put_observers ob ys k) ob) \<Longrightarrow> xs = ys"
  by (metis (mono_tags, lifting) filter_True observers_put_observers fun_upd_same)

lemma unregister_all_others:
  "unregister_all t obs k = Inr k' \<Longrightarrow> filter (\<lambda>u. u \<noteq> t) (observers k' x) = filter (\<lambda>u. u \<noteq> t) (observers k x)"
  unfolding unregister_all_def
proof (induction obs arbitrary: k)
  case (Cons ob obs)
  then obtain k1 where "Unregister ob t k = Inr k1" "foldE (\<lambda>ob. Unregister ob t) obs k1 = Inr k'" by (auto simp: bindE_eq_Inr)
  moreover from this(1) have "filter (\<lambda>u. u \<noteq> t) (observers k1 x) = filter (\<lambda>u. u \<noteq> t) (observers k x)"
    by (auto simp: Unregister_def filter_remove1_other split: if_splits)
  ultimately show ?case using Cons.IH [of k1] by simp
qed simp

lemma OnResourceAcquired_others:
  "OnResourceAcquired t ob k = Inr k' \<Longrightarrow> filter (\<lambda>u. u \<noteq> t) (observers k' x) = filter (\<lambda>u. u \<noteq> t) (observers k x)"
  by (auto simp: OnResourceAcquired_def Let_def bindE_eq_Inr dest: unregister_all_others split: if_splits)

text \<open>
  What the scheduler relies on of an object that one thread at a time can get: \<open>available\<close> is its state when any thread
  can acquire it, \<open>held u\<close> its state when \<open>u\<close> did. Such an object goes to the thread that waited longest, and the others
  keep their places.
\<close>

locale exclusive_object =
  fixes available :: kobject and held :: "nat \<Rightarrow> kobject"
  assumes acquire: "objects k ob = Some available \<Longrightarrow> TryAcquireImpl ob u k = Inr (True, put_object ob (held u) k)"
    and taken: "objects k ob = Some (held u) \<Longrightarrow> threads k u \<noteq> None \<Longrightarrow> v \<noteq> u \<Longrightarrow> TryAcquireImpl ob v k = Inr (False, k)"
begin

lemma goes_to_first:
  assumes inv: "kernel_inv k" and is_free: "objects k ob = Some available" and ob: "observers k ob = u # us" "distinct (u # us)" "\<forall>v \<in> set (u # us). threads k v \<noteq> None"
  shows "\<exists>k'. OnResourceReady ob k = Inr k' \<and> kernel_inv k' \<and> objects k' ob = Some (held u) \<and> observers k' ob = us
    \<and> (\<forall>v. v \<noteq> u \<longrightarrow> threads k' v = threads k v)
    \<and> (\<forall>thu. threads k u = Some thu \<longrightarrow> (\<exists>th'. threads k' u = Some th'
      \<and> status th' = (if wait_for_all thu \<and> remove1 ob (wait_list thu) \<noteq> [] then Sleeping else Ready)))"
proof -
  let ?k1 = "put_object ob (held u) k"
  have acq: "TryAcquireImpl ob u k = Inr (True, ?k1)" using acquire [OF is_free] by simp
  obtain thu where thu: "threads k u = Some thu" using ob(3) by auto
  have sleeps: "status thu = Sleeping" using observer_sleeps(1) [OF inv _ thu, of ob] ob(1) by simp
  obtain k2 where k2: "OnResourceAcquired u ob (put_observers ob us ?k1) = Inr k2" "kernel_inv k2" "objects k2 = objects ?k1"
    "\<And>x v. count_list (observers k2 x) v \<le> count_list (((observers k)(ob := us)) x) v" "\<And>v. v \<noteq> u \<Longrightarrow> threads k2 v = threads k v"
    "\<exists>th'. threads k2 u = Some th' \<and> status th' = (if wait_for_all thu \<and> remove1 ob (wait_list thu) \<noteq> [] then Sleeping else Ready)"
    using first_acquires [OF inv ob(1) thu acq] by blast
  have "count_list us u = 0" using ob(2) by (simp add: count_list_0_iff)
  then have "u \<notin> set (observers k2 ob)" using k2(4) [of ob u] count_list_0_iff [of "observers k2 ob" u] by simp
  moreover have "u \<notin> set us" using ob(2) by simp
  ultimately have "observers k2 ob = us" using OnResourceAcquired_others [OF k2(1), of ob] by (rule same_without)
  moreover have "OnResourceReady ob k2 = Inr k2"
  proof (cases us)
    case Nil
    then show ?thesis using \<open>observers k2 ob = us\<close> by (simp add: OnResourceReady_empty)
  next
    case (Cons v vs)
    then obtain thv where thv: "threads k2 v = Some thv" using ob(2,3) k2(5) [of v] by auto
    have "status thv = Sleeping" using observer_sleeps(1) [OF k2(2) _ thv, of ob] Cons \<open>observers k2 ob = us\<close> by simp
    moreover have "TryAcquireImpl ob v k2 = Inr (False, k2)" using taken [of k2 ob u v] k2(3,6) Cons ob(2) by auto
    ultimately show ?thesis using OnResourceReady_fails [OF _ thv] Cons \<open>observers k2 ob = us\<close> by simp
  qed
  ultimately show ?thesis using k2 OnResourceReady_acquires [OF ob(1) thu sleeps acq] thu by (intro exI [of _ k2]) auto
qed

end

interpretation one_shot: exclusive_object "Event \<lparr>signalled = True, event_type = OneShot\<rparr>" "\<lambda>_. Event \<lparr>signalled = False, event_type = OneShot\<rparr>"
  by unfold_locales (simp_all add: TryAcquireImpl_def get_object_def with_object_def Event_TryAcquire_def put_object_def fun_upd_idem)

interpretation unlocked: exclusive_object "Mutex \<lparr>lock_count = 0, mutex_owner = w\<rparr>" "\<lambda>u. Mutex \<lparr>lock_count = 1, mutex_owner = Some u\<rparr>" for w
  by unfold_locales (auto simp: TryAcquireImpl_def get_object_def with_object_def Mutex_TryAcquire_def put_object_def fun_upd_idem)

interpretation binary_semaphore: exclusive_object "Semaphore \<lparr>available_count = 1, max_available = n\<rparr>" "\<lambda>_. Semaphore \<lparr>available_count = 0, max_available = n\<rparr>" for n
  by unfold_locales (simp_all add: TryAcquireImpl_def get_object_def with_object_def Semaphore_TryAcquire_def put_object_def fun_upd_idem)

section \<open>A small system\<close>

text \<open>Two threads of one process, which create an event; the first then waits for it.\<close>

definition demo_thread :: thread where
  "demo_thread = \<lparr>parent_process = 0, status = Ready, priority = 0x30, timeout_at = 0, arbitration_address = 0, promised_result = 0,
    wait_list = [], wait_for_all = False, wake_index = 0, woken_object = None\<rparr>"

definition booted :: kernel where
  "booted = \<lparr>next_object = 10, handle_tables = (\<lambda>_. \<lparr>handles = [], cur_handle = 0\<rparr>), threads = (\<lambda>_. None), objects = (\<lambda>_. None),
    observers = (\<lambda>_. []), os_threads = [], ready_queue = [], waiting_queue = [], active_timers = [], bound_interrupts = (\<lambda>_. []), system_tick = 0\<rparr>"

definition demo_spawn :: "nat \<Rightarrow> kernel \<Rightarrow> kernel res" where
  "demo_spawn t k = RegisterToScheduler t (put_thread t demo_thread k)"

text \<open>A call of a thread that is ready.\<close>

definition demo_call :: "nat \<times> kernel_call \<Rightarrow> kernel \<Rightarrow> kernel res" where
  "demo_call sc k = (case threads k (fst sc) of
      Some th \<Rightarrow> if status th = Ready then perform (fst sc) (snd sc) k else Inl InvalidOperation
    | None \<Rightarrow> Inl InvalidOperation)"

definition demo_system :: "(nat \<times> kernel_call) list \<Rightarrow> kernel res" where
  "demo_system calls = bindE (demo_spawn 1 booted) (\<lambda>k. bindE (demo_spawn 2 k) (foldE demo_call calls))"

lemma demo_calls_reachable: "foldE demo_call calls k = Inr k' \<Longrightarrow> kernel_reachable k \<Longrightarrow> kernel_reachable k'"
  by (erule foldE_invariant) (auto simp: demo_call_def split: option.splits if_splits intro: kernel_reachable.call)

lemma booted_reachable: "kernel_reachable booted"
  by (rule kernel_reachable.boot) (simp_all add: booted_def)

lemma demo_reachable: "demo_system calls = Inr k \<Longrightarrow> kernel_reachable k"
proof -
  assume run: "demo_system calls = Inr k"
  then obtain k1 k2 where k1: "demo_spawn 1 booted = Inr k1" and k2: "demo_spawn 2 k1 = Inr k2" and k: "foldE demo_call calls k2 = Inr k"
    by (auto simp: demo_system_def bindE_eq_Inr)
  have "kernel_reachable k1" by (rule kernel_reachable.spawn [OF booted_reachable _ _ _ _ k1 [unfolded demo_spawn_def]]) (simp_all add: booted_def demo_thread_def)
  moreover have "threads k1 2 = None" "\<And>ob. 2 \<notin> set (observers k1 ob)"
    using k1 by (auto simp: demo_spawn_def RegisterToScheduler_def get_thread_def booted_def demo_thread_def)
  ultimately have "kernel_reachable k2"
    by (intro kernel_reachable.spawn [OF _ _ _ _ _ k2 [unfolded demo_spawn_def]]) (simp_all add: demo_thread_def)
  then show ?thesis by (rule demo_calls_reachable [OF k])
qed

definition demo_waiting :: kernel where
  "demo_waiting = projr (demo_system [(1, CreateEvent OneShot), (2, GetSystemTick), (1, WaitSynchronizationN [1] False (- 1))])"

lemma demo_waiting_runs: "demo_system [(1, CreateEvent OneShot), (2, GetSystemTick), (1, WaitSynchronizationN [1] False (- 1))] = Inr demo_waiting"
proof -
  have "\<not> isl (demo_system [(1, CreateEvent OneShot), (2, GetSystemTick), (1, WaitSynchronizationN [1] False (- 1))])" by code_simp
  then show ?thesis by (simp add: demo_waiting_def)
qed

lemmas demo_waiting_reachable = demo_reachable [OF demo_waiting_runs]

lemma demo_waiting_state: "map_option status (threads demo_waiting 1) = Some Sleeping" "map_option wait_list (threads demo_waiting 1) = Some [10]"
  "map_option wait_for_all (threads demo_waiting 1) = Some False"
  "map_option status (threads demo_waiting 2) = Some Ready" "observers demo_waiting 10 = [1]" "ready_queue demo_waiting = [2]"
  "objects demo_waiting 10 = Some (Event \<lparr>signalled = False, event_type = OneShot\<rparr>)"
  by code_simp+

section \<open>Properties\<close>

text \<open>C3: In every state the kernel can reach, a live thread observes each object exactly as often as it waits for it, it
  waits for something exactly when it sleeps, and in the ready queue it is ready. The states are those reached by the
  calls \<open>kernel_reachable\<close> lists: synchronisation, creation and end of threads, dispatching, interrupts and time.\<close>

theorem wait_graph:
  assumes "kernel_reachable k" "threads k t = Some th"
  shows "(\<forall>ob. count_list (observers k ob) t = count_list (wait_list th) ob) \<and> (wait_list th \<noteq> [] \<longleftrightarrow> status th = Sleeping)
    \<and> (t \<in> set (ready_queue k) \<longrightarrow> status th = Ready)"
  using kernel_inv_thread [OF kernel_reachable_inv [OF assms(1)] assms(2)] by (simp add: thread_inv_def)

theorem wait_graph_witness: "\<exists>th. threads demo_waiting 1 = Some th \<and> status th = Sleeping \<and> count_list (wait_list th) 10 = 1"
proof -
  obtain th where th: "threads demo_waiting 1 = Some th" "status th = Sleeping" using demo_waiting_state(1) by auto
  have "count_list (observers demo_waiting 10) 1 = count_list (wait_list th) 10" using wait_graph [OF demo_waiting_reachable th(1)] by blast
  then show ?thesis using th by (simp add: demo_waiting_state(5))
qed

text \<open>C28: The dispatcher runs the front of the ready queue whenever that thread is alive: the exception for a thread in the
  queue that waits for something is never thrown, and no live thread is dropped from the queue. The thread becomes the
  current one in the handle table of its process.\<close>

theorem dispatcher_runs_front:
  assumes "kernel_reachable k" "ready_queue k = t # ts" "threads k t = Some th"
  shows "\<exists>k'. dispatch_next k = Inr (Run t, k') \<and> threads k' = threads k \<and> ready_queue k' = ready_queue k
    \<and> map_of (handles (handle_tables k' (parent_process th))) 0xFFFF8000 = Some t"
proof -
  have "thread_inv k t th" by (rule kernel_inv_thread [OF kernel_reachable_inv [OF assms(1)] assms(3)])
  then have "wait_list th = []" "status th = Ready" using assms(2) by (auto simp: thread_inv_def)
  then show ?thesis using assms(2,3) by (simp add: dispatch_next_def get_thread_def Let_def SetCurrentThread_def update_Some_unfold)
qed

theorem dispatcher_runs_front_witness: "\<exists>k'. dispatch_next demo_waiting = Inr (Run 2, k') \<and> ready_queue k' = [2]"
proof -
  obtain th where "threads demo_waiting 2 = Some th" using demo_waiting_state(4) by auto
  from dispatcher_runs_front [OF demo_waiting_reachable demo_waiting_state(6) this] show ?thesis using demo_waiting_state(6) by auto
qed

text \<open>C27: Trying to acquire a well-formed object on behalf of a live thread raises no exception and fails no assertion; it
  leaves the object well-formed, and unchanged when the thread does not get it.\<close>

theorem acquire_type_sound:
  assumes "objects k ob = Some x" "object_ok k x" "threads k t \<noteq> None"
  shows "(\<exists>x'. TryAcquireImpl ob t k = Inr (True, put_object ob x' k) \<and> object_ok k x') \<or> TryAcquireImpl ob t k = Inr (False, k)"
  by (rule try_acquire_ok [OF assms])

theorem acquire_type_sound_witness:
  "(\<exists>x'. TryAcquireImpl 10 2 demo_waiting = Inr (True, put_object 10 x' demo_waiting) \<and> object_ok demo_waiting x')
    \<or> TryAcquireImpl 10 2 demo_waiting = Inr (False, demo_waiting)"
proof -
  have "threads demo_waiting 2 \<noteq> None" using demo_waiting_state(4) by auto
  then show ?thesis by (intro acquire_type_sound [OF demo_waiting_state(7)]) (simp_all add: object_ok_def)
qed

text \<open>C7: No wake-up is lost, for mutexes, semaphores, events, timers, transfers by DMA and the servers' ends of ports that are
  well-formed, whose observers are distinct and, for a mutex, do not own it. When such an object of a reachable kernel has
  changed, \<open>OnResourceReady\<close> returns, and of the threads that still observe the object then, none could acquire it. For the
  client's end of a session this is false, see \<open>session_wakeup_lost\<close>.\<close>

theorem no_lost_wakeup:
  assumes "kernel_reachable k" "handing_out ob (put_object ob x k)"
  shows "\<exists>k'. OnResourceReady ob (put_object ob x k) = Inr k' \<and> kernel_inv k'
    \<and> (\<forall>t. t \<in> set (observers k' ob) \<longrightarrow> threads k' t \<noteq> None \<longrightarrow> TryAcquireImpl ob t k' = Inr (False, k'))"
  using OnResourceReady_complete [of "put_object ob x k" ob] kernel_reachable_inv [OF assms(1)] assms(2) by (simp add: Ball_def)

theorem no_lost_wakeup_witness: "\<exists>k'. OnResourceReady 10 (put_object 10 (Event \<lparr>signalled = True, event_type = Sticky\<rparr>) demo_waiting) = Inr k' \<and> kernel_inv k'"
  using no_lost_wakeup [OF demo_waiting_reachable, of 10 "Event \<lparr>signalled = True, event_type = Sticky\<rparr>"]
  by (simp add: handing_out_def object_ok_def demo_waiting_state(5)) blast

text \<open>C29: Signalling a one-shot event, when the threads that observe it are alive and none waits for it twice, gives it to
  the thread that waited longest and to no other: the event is not signalled afterwards, and the other observers keep their
  order and their state. The thread becomes ready, unless it waits for all of several objects: then it sleeps on for the
  rest of them, although it has used up the signal.\<close>

theorem one_shot_event_wakes_first:
  assumes "kernel_reachable k" "objects k ob = Some (Event e)" "event_type e = OneShot"
    and "observers k ob = u # us" "distinct (u # us)" "\<forall>v \<in> set (u # us). threads k v \<noteq> None" "threads k u = Some th"
  shows "\<exists>k'. OnResourceReady ob (put_object ob (Event (SignalEvent e)) k) = Inr k' \<and> objects k' ob = Some (Event (ResetEvent e))
    \<and> observers k' ob = us
    \<and> (\<exists>th'. threads k' u = Some th' \<and> status th' = (if wait_for_all th \<and> remove1 ob (wait_list th) \<noteq> [] then Sleeping else Ready))
    \<and> (\<forall>v. v \<noteq> u \<longrightarrow> threads k' v = threads k v)"
proof -
  have "SignalEvent e = \<lparr>signalled = True, event_type = OneShot\<rparr>" "ResetEvent e = \<lparr>signalled = False, event_type = OneShot\<rparr>"
    using assms(3) by (simp_all add: SignalEvent_def ResetEvent_def)
  then have "\<exists>k'. OnResourceReady ob (put_object ob (Event (SignalEvent e)) k) = Inr k' \<and> kernel_inv k' \<and> objects k' ob = Some (Event (ResetEvent e))
    \<and> observers k' ob = us \<and> (\<forall>v. v \<noteq> u \<longrightarrow> threads k' v = threads k v)
    \<and> (\<exists>th'. threads k' u = Some th' \<and> status th' = (if wait_for_all th \<and> remove1 ob (wait_list th) \<noteq> [] then Sleeping else Ready))"
    using one_shot.goes_to_first [of "put_object ob (Event (SignalEvent e)) k" ob u us] kernel_reachable_inv [OF assms(1)] assms(4-7)
    by (simp del: not_None_eq split del: if_split)
  then show ?thesis by blast
qed

theorem one_shot_event_wakes_first_witness:
  "\<exists>k' th'. OnResourceReady 10 (put_object 10 (Event \<lparr>signalled = True, event_type = OneShot\<rparr>) demo_waiting) = Inr k' \<and> observers k' 10 = []
    \<and> threads k' 1 = Some th' \<and> status th' = Ready"
proof -
  obtain th where th: "threads demo_waiting 1 = Some th" "\<not> wait_for_all th" using demo_waiting_state(3) by auto
  have "\<forall>v \<in> set [1]. threads demo_waiting v \<noteq> None" using th(1) by simp
  from one_shot_event_wakes_first [OF demo_waiting_reachable demo_waiting_state(7) _ demo_waiting_state(5) _ this th(1)] show ?thesis
    using th(2) by (auto simp: SignalEvent_def)
qed

text \<open>When the last lock of a mutex is released, the thread that waited longest owns it, locked once; all others wait on.\<close>

theorem mutex_goes_to_first:
  assumes "kernel_reachable k" "Mutex_Release m = Inr m'" "Mutex_IsReady m'"
    and "observers k ob = u # us" "distinct (u # us)" "\<forall>v \<in> set (u # us). threads k v \<noteq> None" "threads k u = Some th" "\<not> wait_for_all th"
  shows "\<exists>k'. OnResourceReady ob (put_object ob (Mutex m') k) = Inr k' \<and> objects k' ob = Some (Mutex \<lparr>lock_count = 1, mutex_owner = Some u\<rparr>)
    \<and> observers k' ob = us \<and> (\<exists>th'. threads k' u = Some th' \<and> status th' = Ready) \<and> (\<forall>v. v \<noteq> u \<longrightarrow> threads k' v = threads k v)"
proof -
  have "m' = \<lparr>lock_count = 0, mutex_owner = None\<rparr>" using assms(2,3) by (cases m) (auto simp: Mutex_Release_def Mutex_IsReady_def Let_def split: if_splits)
  then show ?thesis using unlocked.goes_to_first [of "put_object ob (Mutex m') k" ob None u us] kernel_reachable_inv [OF assms(1)] assms(4-8)
    by simp blast
qed

definition demo_locked :: kernel where
  "demo_locked = projr (demo_system [(2, CreateMutex True), (1, WaitSynchronizationN [1] False (- 1))])"

lemma demo_locked_runs: "demo_system [(2, CreateMutex True), (1, WaitSynchronizationN [1] False (- 1))] = Inr demo_locked"
proof -
  have "\<not> isl (demo_system [(2, CreateMutex True), (1, WaitSynchronizationN [1] False (- 1))])" by code_simp
  then show ?thesis by (simp add: demo_locked_def)
qed

lemma demo_locked_state: "map_option wait_for_all (threads demo_locked 1) = Some False" "observers demo_locked 10 = [1]"
  by code_simp+

theorem mutex_goes_to_first_witness:
  "\<exists>k'. OnResourceReady 10 (put_object 10 (Mutex \<lparr>lock_count = 0, mutex_owner = None\<rparr>) demo_locked) = Inr k'
    \<and> objects k' 10 = Some (Mutex \<lparr>lock_count = 1, mutex_owner = Some 1\<rparr>)"
proof -
  obtain th where th: "threads demo_locked 1 = Some th" "\<not> wait_for_all th" using demo_locked_state(1) by auto
  have "Mutex_Release \<lparr>lock_count = 1, mutex_owner = Some 2\<rparr> = Inr \<lparr>lock_count = 0, mutex_owner = None\<rparr>" by (simp add: Mutex_Release_def)
  from mutex_goes_to_first [OF demo_reachable [OF demo_locked_runs] this _ demo_locked_state(2) _ _ th] show ?thesis
    using th(1) by (simp add: Mutex_IsReady_def) blast
qed

text \<open>C39: Releasing a well-formed semaphore fails no assertion and overflows nothing. It succeeds exactly when the count is not
  negative and there is room for it, and adds the count then; otherwise the error code tells which, and nothing changes.\<close>

theorem semaphore_release:
  assumes "object_ok k (Semaphore s)"
  shows "if sint n < 0 then Semaphore_Release n s = Inr (0xe0e01bfd, s)
    else if sint (max_available s) < sint (available_count s) + sint n then Semaphore_Release n s = Inr (0xd8e007fd, s)
    else \<exists>s'. Semaphore_Release n s = Inr (RESULT_OK, s') \<and> object_ok k (Semaphore s')
      \<and> sint (available_count s') = sint (available_count s) + sint n \<and> max_available s' = max_available s"
proof -
  have bounds: "0 \<le> sint (available_count s)" "sint (available_count s) \<le> sint (max_available s)" using assms by (simp_all add: object_ok_def)
  have range: "sint (max_available s) < 2 ^ 31" "sint n < 2 ^ 31" using sint_lt [of "max_available s"] sint_lt [of n] by simp_all
  have "sint (word_of_int (sint (available_count s) + sint n) :: i32) = sint (available_count s) + sint n"
    if "0 \<le> sint n" "sint (available_count s) + sint n \<le> sint (max_available s)"
    using that bounds range unfolding sint_sbintrunc' by (simp add: signed_take_bit_int_eq_self)
  then show ?thesis using bounds range by (auto simp: Semaphore_Release_def Let_def object_ok_def)
qed

theorem semaphore_release_witness: "\<exists>s'. Semaphore_Release 2 \<lparr>available_count = 1, max_available = 3\<rparr> = Inr (RESULT_OK, s') \<and> sint (available_count s') = 3"
  using semaphore_release [of booted "\<lparr>available_count = 1, max_available = 3\<rparr>" 2] by (auto simp: object_ok_def)

text \<open>C30: A thread in the waiting queue whose timeout has passed when the clock advances is ready and queued to run, and has
  left the waiting queue; a thread whose timeout is ahead stays in it.\<close>

theorem timeouts_served:
  assumes "ElapseTime ns k = Inr k'" "t \<in> set (waiting_queue k)" "threads k t = Some th"
  shows "if timeout_at th \<le> GetTimeInNanoSeconds k'
    then t \<in> set (ready_queue k') \<and> t \<notin> set (waiting_queue k') \<and> (\<exists>th'. threads k' t = Some th' \<and> status th' = Ready)
    else t \<in> set (waiting_queue k')"
proof -
  obtain k3 rest k4 where k3: "same_timeouts k3 (k\<lparr>system_tick := system_tick k + ticks_of_ns ns\<rparr>)"
    "check_timeouts (waiting_queue k3) k3 = Inr (rest, k4)" "k' = k4\<lparr>waiting_queue := rest\<rparr>"
    using ElapseTime_steps [OF assms(1)] by blast
  obtain th3 where th3: "threads k3 t = Some th3" "timeout_at th3 = timeout_at th" "t \<in> set (waiting_queue k3)"
  proof -
    have "map_option timeout_at (threads k3 t) = Some (timeout_at th)" "t \<in> set (waiting_queue k3)"
      using k3(1) assms(2,3) by (simp_all add: same_timeouts_def)
    then show thesis using that by auto
  qed
  note frame = check_timeouts_frame [OF k3(2)]
  have now: "GetTimeInNanoSeconds k' = GetTimeInNanoSeconds k3" using frame k3(3) by (simp add: GetTimeInNanoSeconds_def)
  have "t \<in> woken (waiting_queue k3) k3 \<longleftrightarrow> timeout_at th \<le> GetTimeInNanoSeconds k'" using th3 by (simp add: woken_def now)
  then show ?thesis using frame k3(3) th3 by auto
qed

definition demo_sleeping :: kernel where
  "demo_sleeping = projr (demo_system [(1, SleepThread 400)])"

lemma demo_sleeping_state: "map_option timeout_at (threads demo_sleeping 1) = Some 400" "waiting_queue demo_sleeping = [1]"
  "\<not> isl (ElapseTime 500 demo_sleeping)" "GetTimeInNanoSeconds (projr (ElapseTime 500 demo_sleeping)) = 499"
  by code_simp+

theorem timeouts_served_witness: "1 \<in> set (ready_queue (projr (ElapseTime 500 demo_sleeping)))"
proof -
  obtain th where th: "threads demo_sleeping 1 = Some th" "timeout_at th = 400" using demo_sleeping_state(1) by auto
  have "ElapseTime 500 demo_sleeping = Inr (projr (ElapseTime 500 demo_sleeping))" using demo_sleeping_state(3) by simp
  from timeouts_served [OF this _ th(1)] show ?thesis by (simp add: th demo_sleeping_state(2,4))
qed

text \<open>The loop of \<open>OnResourceReady\<close> ends at the first thread that cannot acquire the object. The client's end of a session is
  the one kind of object that one thread can acquire and an earlier observer cannot: thread 1 still waits for its reply,
  thread 2 has got its own, but stays asleep.\<close>

theorem session_wakeup_lost:
  "let sleeping = demo_thread\<lparr>status := Sleeping, wait_list := [10]\<rparr>;
       k = booted\<lparr>objects := [10 \<mapsto> ClientSession \<lparr>client_session_session = 11, client_session_threads = [1]\<rparr>],
             threads := [1 \<mapsto> sleeping, 2 \<mapsto> sleeping], observers := (\<lambda>_. [])(10 := [1, 2])\<rparr>
   in kernel_inv k \<and> OnResourceReady 10 k = Inr k \<and> TryAcquireImpl 10 2 k = Inr (True, k) \<and> 2 \<in> set (observers k 10)"
  unfolding Let_def
  by (subst OnResourceReady_fails [where t = 1 and ts = "[2]" and th = "demo_thread\<lparr>status := Sleeping, wait_list := [10]\<rparr>"])
    (auto simp: kernel_inv_def thread_inv_def demo_thread_def booted_def TryAcquireImpl_def get_object_def ClientSession_TryAcquire_def)

text \<open>A thread that waited with a timeout, was woken in time and then ended is stopped; when its old timeout passes, the
  kernel makes it ready again, because it never left the waiting queue.\<close>

theorem stopped_thread_revived:
  "\<exists>k k'. demo_system [(1, CreateEvent OneShot), (1, WaitSynchronizationN [1] False 1000000), (2, SignalEventCall 1), (1, ExitThreadCall)] = Inr k
    \<and> map_option status (threads k 1) = Some Stopped \<and> 1 \<notin> set (ready_queue k)
    \<and> ElapseTime 1000000 k = Inr k' \<and> map_option status (threads k' 1) = Some Ready \<and> 1 \<in> set (ready_queue k')"
proof -
  let ?r = "demo_system [(1, CreateEvent OneShot), (1, WaitSynchronizationN [1] False 1000000), (2, SignalEventCall 1), (1, ExitThreadCall)]"
  have "\<not> isl ?r" "map_option status (threads (projr ?r) 1) = Some Stopped" "1 \<notin> set (ready_queue (projr ?r))"
    "\<not> isl (ElapseTime 1000000 (projr ?r))" "map_option status (threads (projr (ElapseTime 1000000 (projr ?r))) 1) = Some Ready"
    "1 \<in> set (ready_queue (projr (ElapseTime 1000000 (projr ?r))))"
    by code_simp+
  then show ?thesis by (intro exI [of _ "projr ?r"] exI [of _ "projr (ElapseTime 1000000 (projr ?r))"]) simp
qed

text \<open>The clock runs backwards: one tick after eighteen minutes and twenty seconds of emulated time, the time in nanoseconds
  starts from zero, because the product in its conversion overflows 64 bits.\<close>

theorem clock_wraps:
  "GetTimeInNanoSeconds (booted\<lparr>system_tick := 295147905179\<rparr>) = 1100838693157 \<and> GetTimeInNanoSeconds (booted\<lparr>system_tick := 295147905180\<rparr>) = 2"
  by code_simp

end
