(* ===== verification/OrderedMap.thy ===== *)
theory OrderedMap
  imports Prelude
begin

text \<open>
  \<open>std::map\<close> with 32-bit keys, as the kernel uses it for ranges of memory: an association list in ascending order
  of keys, so that iteration order is list order; and blocks of memory, entries of such a map that stretch from
  their key over the number of bytes \<open>sz\<close> gives for their value.
\<close>

section \<open>Operations\<close>

type_synonym 'v omap = "(u32 \<times> 'v) list"

text \<open>\<open>m[k] = v\<close> and \<open>m.insert({k, v})\<close>, which keeps an existing entry.\<close>

fun om_assign :: "u32 \<Rightarrow> 'v \<Rightarrow> 'v omap \<Rightarrow> 'v omap" where
  "om_assign k v [] = [(k, v)]"
| "om_assign k v ((a, w) # m) =
    (if k < a then (k, v) # (a, w) # m else if k = a then (k, v) # m else (a, w) # om_assign k v m)"

definition om_insert :: "u32 \<Rightarrow> 'v \<Rightarrow> 'v omap \<Rightarrow> 'v omap" where
  "om_insert k v m = (if k \<in> fst ` set m then m else om_assign k v m)"

definition om_erase :: "u32 \<Rightarrow> 'v omap \<Rightarrow> 'v omap" where
  "om_erase k m = filter (\<lambda>(a, _). a \<noteq> k) m"

text \<open>The entries from \<open>lower_bound\<close> and \<open>upper_bound\<close> on, and those before; \<open>std::prev\<close> is the last of the latter.\<close>

definition from_lower :: "u32 \<Rightarrow> 'v omap \<Rightarrow> 'v omap" where
  "from_lower k m = dropWhile (\<lambda>(a, _). a < k) m"

definition before_lower :: "u32 \<Rightarrow> 'v omap \<Rightarrow> 'v omap" where
  "before_lower k m = takeWhile (\<lambda>(a, _). a < k) m"

definition from_upper :: "u32 \<Rightarrow> 'v omap \<Rightarrow> 'v omap" where
  "from_upper k m = dropWhile (\<lambda>(a, _). a \<le> k) m"

definition before_upper :: "u32 \<Rightarrow> 'v omap \<Rightarrow> 'v omap" where
  "before_upper k m = takeWhile (\<lambda>(a, _). a \<le> k) m"

section \<open>Blocks\<close>

definition blocks_ok :: "('v \<Rightarrow> u32) \<Rightarrow> 'v omap \<Rightarrow> bool" where
  "blocks_ok sz m \<longleftrightarrow> (\<forall>(a, v) \<in> set m. 0 < uint (sz v) \<and> uint a + uint (sz v) < 4294967296)
    \<and> sorted_wrt (\<lambda>(a, v) (b, w). uint a + uint (sz v) \<le> uint b) m"

definition in_block :: "('v \<Rightarrow> u32) \<Rightarrow> u32 \<Rightarrow> u32 \<times> 'v \<Rightarrow> bool" where
  "in_block sz x = (\<lambda>(a, v). uint a \<le> uint x \<and> uint x < uint a + uint (sz v))"

text \<open>The block an address lies in.\<close>

definition cell :: "('v \<Rightarrow> u32) \<Rightarrow> 'v omap \<Rightarrow> u32 \<Rightarrow> (u32 \<times> 'v) option" where
  "cell sz m x = find (in_block sz x) m"

definition block_range :: "u32 \<Rightarrow> u32 \<Rightarrow> bool" where
  "block_range a n \<longleftrightarrow> 0 < uint n \<and> uint a + uint n < 4294967296"

definition in_range :: "u32 \<Rightarrow> u32 \<Rightarrow> u32 \<Rightarrow> bool" where
  "in_range a n x \<longleftrightarrow> uint a \<le> uint x \<and> uint x < uint a + uint n"

lemma in_block_simp [simp]: "in_block sz x (a, v) = in_range a (sz v) x"
  by (simp add: in_block_def in_range_def)

lemma uint_block_end: "block_range a n \<Longrightarrow> uint (a + n) = uint a + uint n"
  by (simp add: block_range_def uint_add_u32)

lemma blocks_ok_simps [simp]:
  "blocks_ok sz []"
  "blocks_ok sz ((a, v) # m) \<longleftrightarrow> block_range a (sz v) \<and> (\<forall>(b, w) \<in> set m. uint a + uint (sz v) \<le> uint b) \<and> blocks_ok sz m"
  by (auto simp: blocks_ok_def block_range_def)

lemma blocks_ok_append:
  "blocks_ok sz (m @ m') \<longleftrightarrow> blocks_ok sz m \<and> blocks_ok sz m' \<and>
    (\<forall>(a, v) \<in> set m. \<forall>(b, w) \<in> set m'. uint a + uint (sz v) \<le> uint b)"
  by (fastforce simp: blocks_ok_def sorted_wrt_append)

lemma cell_simps [simp]:
  "cell sz [] x = None"
  "cell sz ((a, v) # m) x = (if in_range a (sz v) x then Some (a, v) else cell sz m x)"
  by (simp_all add: cell_def)

lemma cell_append: "cell sz (m @ m') x = (case cell sz m x of None \<Rightarrow> cell sz m' x | Some c \<Rightarrow> Some c)"
  by (induction m) auto

lemma cell_Some: "cell sz m x = Some (a, v) \<Longrightarrow> (a, v) \<in> set m \<and> in_range a (sz v) x"
  by (induction m) (auto split: if_splits)

lemma cell_None: "cell sz m x = None \<longleftrightarrow> (\<forall>(a, v) \<in> set m. \<not> in_range a (sz v) x)"
  by (auto simp: cell_def find_None_iff)

lemma blocks_range: "blocks_ok sz m \<Longrightarrow> (a, v) \<in> set m \<Longrightarrow> block_range a (sz v)"
  by (auto simp: blocks_ok_def block_range_def)

lemma cell_member:
  assumes "blocks_ok sz m" "(a, v) \<in> set m" "in_range a (sz v) x"
  shows "cell sz m x = Some (a, v)"
  using assms
proof (induction m)
  case (Cons c m)
  obtain b w where c: "c = (b, w)" by (cases c)
  show ?case
  proof (cases "(a, v) = c")
    case False
    then have "(a, v) \<in> set m" using Cons.prems(2) by simp
    moreover from this have "uint b + uint (sz w) \<le> uint a" using Cons.prems(1) by (auto simp: c)
    then have "\<not> in_range b (sz w) x" using Cons.prems(3) by (simp add: in_range_def)
    ultimately show ?thesis using Cons by (simp add: c)
  qed (use Cons.prems(3) in \<open>simp add: c\<close>)
qed simp

lemma cell_iff: "blocks_ok sz m \<Longrightarrow> cell sz m x = Some (a, v) \<longleftrightarrow> (a, v) \<in> set m \<and> in_range a (sz v) x"
  using cell_member [of sz m a v x] cell_Some [of sz m x a v] by blast

text \<open>Two blocks of a map that share an address are the same.\<close>

lemma blocks_unique:
  "blocks_ok sz m \<Longrightarrow> (a, v) \<in> set m \<Longrightarrow> (b, w) \<in> set m \<Longrightarrow> in_range a (sz v) x \<Longrightarrow> in_range b (sz w) x \<Longrightarrow> a = b \<and> v = w"
  using cell_member [of sz m a v x] cell_member [of sz m b w x] by simp

lemma block_start: "block_range a n \<Longrightarrow> in_range a n a"
  by (simp add: block_range_def in_range_def)

lemma blocks_key: "blocks_ok sz m \<Longrightarrow> (a, v) \<in> set m \<Longrightarrow> (a, w) \<in> set m \<Longrightarrow> v = w"
  by (meson block_start blocks_range blocks_unique)

section \<open>Erasing and adding blocks\<close>

lemma set_om_erase: "set (om_erase k m) = {(a, v) \<in> set m. a \<noteq> k}"
  by (auto simp: om_erase_def)

lemma om_erase_ok: "blocks_ok sz m \<Longrightarrow> blocks_ok sz (om_erase k m)"
  by (auto simp: blocks_ok_def om_erase_def sorted_wrt_filter)

lemma cell_erase:
  assumes "blocks_ok sz m" "(k, v) \<in> set m"
  shows "cell sz (om_erase k m) x = (if in_range k (sz v) x then None else cell sz m x)"
proof (cases "cell sz m x")
  case None
  then have "cell sz (om_erase k m) x = None" by (auto simp: cell_None set_om_erase)
  then show ?thesis using None by simp
next
  case (Some c)
  obtain a w where c: "c = (a, w)" by (cases c)
  have aw: "(a, w) \<in> set m" "in_range a (sz w) x" using cell_Some Some c by metis+
  show ?thesis
  proof (cases "a = k")
    case True
    then have "w = v" using blocks_key assms aw by metis
    moreover have "cell sz (om_erase k m) x = None"
      using blocks_unique [OF assms(1) _ aw(1) _ aw(2)] True by (fastforce simp: cell_None set_om_erase)
    ultimately show ?thesis using True aw by simp
  next
    case False
    then have "\<not> in_range k (sz v) x" using blocks_unique [OF assms(1) aw(1) assms(2) aw(2)] by blast
    moreover have "cell sz (om_erase k m) x = Some (a, w)"
      using aw False by (intro cell_member om_erase_ok assms(1)) (simp_all add: set_om_erase)
    ultimately show ?thesis using Some c by simp
  qed
qed

lemma set_om_assign: "k \<notin> fst ` set m \<Longrightarrow> set (om_assign k v m) = insert (k, v) (set m)"
  by (induction k v m rule: om_assign.induct) auto

text \<open>A new block that meets no other.\<close>

definition apart_from :: "u32 \<Rightarrow> u32 \<Rightarrow> ('v \<Rightarrow> u32) \<Rightarrow> 'v omap \<Rightarrow> bool" where
  "apart_from k n sz m \<longleftrightarrow> (\<forall>(a, v) \<in> set m. uint a + uint (sz v) \<le> uint k \<or> uint k + uint n \<le> uint a)"

text \<open>A range without an entry at any of its addresses is apart from all blocks.\<close>

lemma apart_from_cells:
  assumes "blocks_ok sz m" "block_range k n" and none: "\<And>x. in_range k n x \<Longrightarrow> cell sz m x = None"
  shows "apart_from k n sz m"
  unfolding apart_from_def
proof clarify
  fix a v assume av: "(a, v) \<in> set m" "\<not> uint k + uint n \<le> uint a"
  have range: "block_range a (sz v)" by (rule blocks_range [OF assms(1) av(1)])
  show "uint a + uint (sz v) \<le> uint k"
  proof (rule ccontr)
    assume meets: "\<not> uint a + uint (sz v) \<le> uint k"
    let ?x = "if uint a \<le> uint k then k else a"
    have "in_range a (sz v) ?x" "in_range k n ?x"
      using av(2) meets range assms(2) by (auto simp: in_range_def block_range_def)
    then show False using none [of ?x] cell_member [OF assms(1) av(1)] by simp
  qed
qed

lemma apart_key: "blocks_ok sz m \<Longrightarrow> block_range k n \<Longrightarrow> apart_from k n sz m \<Longrightarrow> k \<notin> fst ` set m"
  by (fastforce simp: apart_from_def block_range_def blocks_ok_def)

lemma om_assign_ok:
  "blocks_ok sz m \<Longrightarrow> block_range k (sz v) \<Longrightarrow> apart_from k (sz v) sz m \<Longrightarrow> blocks_ok sz (om_assign k v m)"
proof (induction k v m rule: om_assign.induct)
  case (2 k v a w m)
  have ne: "k \<notin> fst ` set ((a, w) # m)" by (rule apart_key [OF 2(2,3,4)])
  have aw: "uint a + uint (sz w) \<le> uint k \<or> uint k + uint (sz v) \<le> uint a" "apart_from k (sz v) sz m" "block_range a (sz w)"
    using 2(2,4) by (simp_all add: apart_from_def)
  show ?case
  proof (cases "k < a")
    case True
    then have "uint k + uint (sz v) \<le> uint a" using aw by (auto simp: word_less_def block_range_def)
    then show ?thesis using True 2(2,3) by (force simp: block_range_def)
  next
    case False
    then have "uint a + uint (sz w) \<le> uint k" using aw 2(3) ne by (auto simp: word_less_def block_range_def word_uint_eq_iff)
    moreover have "k \<notin> fst ` set m" using ne by simp
    ultimately show ?thesis using False ne 2 aw(2) by (auto simp: set_om_assign)
  qed
qed simp

lemma cell_assign:
  assumes "blocks_ok sz m" "block_range k (sz v)" "apart_from k (sz v) sz m"
  shows "cell sz (om_assign k v m) x = (if in_range k (sz v) x then Some (k, v) else cell sz m x)"
proof -
  note ok = om_assign_ok [OF assms] and set = set_om_assign [OF apart_key [OF assms]]
  show ?thesis
  proof (cases "in_range k (sz v) x")
    case True
    then show ?thesis using cell_member [OF ok, of k v] by (simp add: set)
  next
    case False
    show ?thesis
    proof (cases "cell sz m x")
      case None
      then have "cell sz (om_assign k v m) x = None" using False unfolding cell_None set by auto
      then show ?thesis using None False by simp
    next
      case (Some c)
      then show ?thesis using cell_member [OF ok, of "fst c" "snd c"] cell_Some [of sz m x "fst c" "snd c"] False by (simp add: set)
    qed
  qed
qed

lemma om_insert_apart: "blocks_ok sz m \<Longrightarrow> block_range k (sz v) \<Longrightarrow> apart_from k (sz v) sz m \<Longrightarrow> om_insert k v m = om_assign k v m"
  by (simp add: om_insert_def apart_key)

section \<open>The last entry at or below an address\<close>

lemma cell_before_upper:
  assumes "blocks_ok sz m"
  shows "cell sz m x = (if before_upper x m = [] then None
    else case last (before_upper x m) of (a, v) \<Rightarrow> if uint a + uint (sz v) \<le> uint x then None else Some (a, v))"
  using assms
proof (induction m)
  case (Cons c m)
  obtain a v where c: "c = (a, v)" by (cases c)
  have ok: "block_range a (sz v)" "\<forall>(b, w) \<in> set m. uint a + uint (sz v) \<le> uint b" "blocks_ok sz m" using Cons.prems by (simp_all add: c)
  show ?case
  proof (cases "a \<le> x")
    case False
    then have "\<not> in_range a (sz v) x" "\<forall>(b, w) \<in> set m. \<not> in_range b (sz w) x"
      using ok(1,2) by (auto simp: in_range_def word_le_def block_range_def)
    then show ?thesis using False by (simp add: c before_upper_def cell_None)
  next
    case True
    then have "before_upper x (c # m) = (a, v) # before_upper x m" by (simp add: c before_upper_def)
    note eq = this [unfolded c]
    show ?thesis
    proof (cases "before_upper x m = []")
      case True
      have "in_range a (sz v) x \<longleftrightarrow> \<not> uint a + uint (sz v) \<le> uint x" using \<open>a \<le> x\<close> by (auto simp: in_range_def word_le_def)
      then show ?thesis using Cons.IH [OF ok(3)] True by (simp add: eq c)
    next
      case False
      obtain d w where last: "last (before_upper x m) = (d, w)" by (cases "last (before_upper x m)")
      then have "(d, w) \<in> set (before_upper x m)" using False last_in_set by metis
      then have "(d, w) \<in> set m" "d \<le> x" unfolding before_upper_def using set_takeWhileD by fastforce+
      then have "\<not> in_range a (sz v) x" using ok(2) by (auto simp: in_range_def word_le_def)
      then show ?thesis using Cons.IH [OF ok(3)] False by (simp add: eq c last)
    qed
  qed
qed (simp add: before_upper_def)

lemma last_before_upper:
  assumes "blocks_ok sz m" "before_upper x m \<noteq> []"
  shows "case last (before_upper x m) of (a, v) \<Rightarrow> (a, v) \<in> set m \<and> a \<le> x \<and> uint (a + sz v) = uint a + uint (sz v)"
proof -
  obtain a v where last: "last (before_upper x m) = (a, v)" by (cases "last (before_upper x m)")
  then have "(a, v) \<in> set (before_upper x m)" using assms(2) last_in_set by metis
  then have "(a, v) \<in> set m" "a \<le> x" unfolding before_upper_def using set_takeWhileD by fastforce+
  then show ?thesis using uint_block_end [OF blocks_range [OF assms(1)]] by (simp add: last)
qed

end
