(* ===== verification/MemoryManager.thy ===== *)
theory MemoryManager
  imports OrderedMap
begin

text \<open>
  The allocator of physical memory of the kernel (\<open>MemoryManager\<close> in \<open>os.hpp\<close> and \<open>os.cpp\<close>): two ordered maps from
  physical addresses to free and to taken blocks of a region, first-fit allocation, deallocation and transfer of
  parts of a block, and the merging of neighbouring blocks after each of them.

  An owner is a number; \<open>alive\<close> tells which owners still exist. A \<open>std::weak_ptr\<close> is an optional owner, and locking
  it gives the owner if it is alive.
\<close>

section \<open>Definitions\<close>

record memory_block =
  size_bytes :: u32
  owner :: "nat option"

record memory_manager =
  region_start_paddr :: u32
  region_size_bytes :: u32
  free :: "memory_block omap"
  taken :: "memory_block omap"

definition MemoryManager_init :: "u32 \<Rightarrow> u32 \<Rightarrow> memory_manager" where
  "MemoryManager_init start_address bytes =
    \<lparr>region_start_paddr = start_address, region_size_bytes = bytes,
     free = [(start_address, \<lparr>size_bytes = bytes, owner = None\<rparr>)], taken = []\<rparr>"

definition owner_lock :: "(nat \<Rightarrow> bool) \<Rightarrow> memory_block \<Rightarrow> nat option" where
  "owner_lock alive b = (case owner b of None \<Rightarrow> None | Some p \<Rightarrow> if alive p then Some p else None)"

text \<open>The loops that merge neighbouring blocks with the same owner.\<close>

fun defragment :: "(nat \<Rightarrow> bool) \<Rightarrow> memory_block omap \<Rightarrow> memory_block omap" where
  "defragment alive [] = []"
| "defragment alive [c] = [c]"
| "defragment alive ((a, b) # (a2, b2) # m) =
    (if a + size_bytes b = a2 \<and> owner_lock alive b = owner_lock alive b2
     then defragment alive ((a, b\<lparr>size_bytes := size_bytes b + size_bytes b2\<rparr>) # m)
     else (a, b) # defragment alive ((a2, b2) # m))"

text \<open>The search of \<open>AllocateBlock\<close>, which insists that free blocks have no owner.\<close>

fun find_free :: "(nat \<Rightarrow> bool) \<Rightarrow> u32 \<Rightarrow> memory_block omap \<Rightarrow> (u32 \<times> memory_block) option res" where
  "find_free alive n [] = Inr None"
| "find_free alive n ((addr, b) # m) =
    (if owner_lock alive b \<noteq> None then Inl ContractViolation
     else if size_bytes b < n then find_free alive n m
     else Inr (Some (addr, b)))"

definition AllocateBlock :: "(nat \<Rightarrow> bool) \<Rightarrow> nat \<Rightarrow> u32 \<Rightarrow> memory_manager \<Rightarrow> (u32 option \<times> memory_manager) res" where
  "AllocateBlock alive p n mm =
    bindE (find_free alive n (free mm)) (\<lambda>found. case found of
        None \<Rightarrow> Inr (None, mm)
      | Some (addr, b) \<Rightarrow>
          let free_size = size_bytes b;
              free1 = om_erase addr (free mm);
              taken1 = om_assign addr \<lparr>size_bytes = n, owner = Some p\<rparr> (taken mm);
              free2 = (if free_size \<noteq> n
                       then om_assign (addr + n) \<lparr>size_bytes = free_size - n, owner = None\<rparr> free1 else free1)
          in Inr (Some addr, mm\<lparr>free := defragment alive free2, taken := defragment alive taken1\<rparr>))"

text \<open>The search of \<open>DeallocateBlock\<close> and \<open>TransferOwnership\<close>, which insists that the owners of taken blocks exist.\<close>

fun find_taken :: "(nat \<Rightarrow> bool) \<Rightarrow> (u32 \<Rightarrow> u32 \<Rightarrow> bool) \<Rightarrow> memory_block omap \<Rightarrow> (u32 \<times> memory_block) res" where
  "find_taken alive P [] = Inl RuntimeError"
| "find_taken alive P ((chunk_addr, b) # m) =
    (if owner_lock alive b = None then Inl ContractViolation
     else if P chunk_addr (size_bytes b) then Inr (chunk_addr, b)
     else find_taken alive P m)"

text \<open>The taken blocks for what is left of a chunk around a range, both with the owner \<open>p\<close>.\<close>

definition keep_remainders ::
  "nat \<Rightarrow> u32 \<Rightarrow> u32 \<Rightarrow> u32 \<Rightarrow> u32 \<Rightarrow> memory_block omap \<Rightarrow> memory_block omap" where
  "keep_remainders p chunk_addr chunk_size start_addr n m =
    (let m1 = (if chunk_addr < start_addr
               then om_assign chunk_addr \<lparr>size_bytes = start_addr - chunk_addr, owner = Some p\<rparr> m else m)
     in if start_addr + n < chunk_addr + chunk_size
        then om_assign (start_addr + n) \<lparr>size_bytes = chunk_addr + chunk_size - start_addr - n, owner = Some p\<rparr> m1
        else m1)"

definition DeallocateBlock :: "(nat \<Rightarrow> bool) \<Rightarrow> nat \<Rightarrow> u32 \<Rightarrow> u32 \<Rightarrow> memory_manager \<Rightarrow> memory_manager res" where
  "DeallocateBlock alive p start_addr n mm =
    bindE (find_taken alive (\<lambda>chunk_addr chunk_size. chunk_addr \<le> start_addr \<and> start_addr < chunk_addr + chunk_size) (taken mm))
      (\<lambda>(chunk_addr, b).
        if owner_lock alive b \<noteq> Some p then Inl ContractViolation
        else if chunk_addr + size_bytes b < start_addr + n then Inl InvalidOperation
        else Inr (mm\<lparr>free := defragment alive (om_assign start_addr \<lparr>size_bytes = n, owner = None\<rparr> (free mm)),
                     taken := defragment alive (keep_remainders p chunk_addr (size_bytes b) start_addr n
                                (om_erase chunk_addr (taken mm)))\<rparr>))"

definition TransferOwnership :: "(nat \<Rightarrow> bool) \<Rightarrow> nat \<Rightarrow> nat \<Rightarrow> u32 \<Rightarrow> u32 \<Rightarrow> memory_manager \<Rightarrow> memory_manager res" where
  "TransferOwnership alive old_owner new_owner start_addr n mm =
    bindE (find_taken alive (\<lambda>chunk_addr chunk_size. chunk_addr \<le> start_addr \<and> start_addr + n \<le> chunk_addr + chunk_size) (taken mm))
      (\<lambda>(chunk_addr, b).
        if owner_lock alive b \<noteq> Some old_owner then Inl ContractViolation
        else if chunk_addr + size_bytes b < start_addr + n then Inl InvalidOperation
        else Inr (mm\<lparr>taken := defragment alive (keep_remainders old_owner chunk_addr (size_bytes b) start_addr n
                       (om_assign start_addr \<lparr>size_bytes = n, owner = Some new_owner\<rparr> (om_erase chunk_addr (taken mm))))\<rparr>))"

definition GetTotalSizeOfMemoryBlocks :: "memory_block omap \<Rightarrow> u32" where
  "GetTotalSizeOfMemoryBlocks m = sum_list (map (\<lambda>(a, b). size_bytes b) m)"

definition UsedMemory :: "memory_manager \<Rightarrow> u32" where
  "UsedMemory mm = GetTotalSizeOfMemoryBlocks (taken mm)"

definition TotalSize :: "memory_manager \<Rightarrow> u32" where
  "TotalSize mm = UsedMemory mm + GetTotalSizeOfMemoryBlocks (free mm)"

definition RegionStart :: "memory_manager \<Rightarrow> u32" where
  "RegionStart mm = region_start_paddr mm"

definition RegionEnd :: "memory_manager \<Rightarrow> u32" where
  "RegionEnd mm = region_start_paddr mm + region_size_bytes mm"

end
