(* ===== verification/Busses.thy ===== *)
theory Busses
  imports Prelude
begin

text \<open>
  The physical address space of the console (\<open>memory.h\<close>): the memory busses with their start and
  size, in the order of \<open>PhysicalMemory::Busses\<close> in which they are searched, and the lookup of the
  host memory behind a physical page. A host pointer into \<open>MemoryBus::data\<close> is a pair of a bus and
  an offset into its array; \<open>nullptr\<close> is \<open>None\<close>.
\<close>

section \<open>Address map\<close>

datatype bus =
    FCRAM | VRAM | DSP | AXI | IO_HID | IO_LCD | IO_AXI | IO_GPU | IO_HASH
  | IO_CONFIG11 | IO_DSP1 | IO_SPIBUS2 | IO_SPIBUS3 | IO_HASH2 | IO_GPIO | IO_SPIBUS1
  | IO_DSP2 | MPCorePrivateBus

fun bus_start :: "bus \<Rightarrow> u32" where
  "bus_start FCRAM = 0x20000000"
| "bus_start VRAM = 0x18000000"
| "bus_start DSP = 0x1ff00000"
| "bus_start AXI = 0x1ff80000"
| "bus_start IO_HID = 0x10146000"
| "bus_start IO_LCD = 0x10202000"
| "bus_start IO_AXI = 0x1020F000"
| "bus_start IO_GPU = 0x10400000"
| "bus_start IO_HASH = 0x10101000"
| "bus_start IO_CONFIG11 = 0x10140000"
| "bus_start IO_DSP1 = 0x10103000"
| "bus_start IO_SPIBUS2 = 0x10142000"
| "bus_start IO_SPIBUS3 = 0x10143000"
| "bus_start IO_HASH2 = 0x10301000"
| "bus_start IO_GPIO = 0x10147000"
| "bus_start IO_SPIBUS1 = 0x10160000"
| "bus_start IO_DSP2 = 0x10203000"
| "bus_start MPCorePrivateBus = 0x17e00000"

fun bus_size :: "bus \<Rightarrow> u32" where
  "bus_size FCRAM = 0x08000000"
| "bus_size VRAM = 0x00600000"
| "bus_size DSP = 0x00080000"
| "bus_size AXI = 0x00080000"
| "bus_size IO_HID = 0x1000"
| "bus_size IO_LCD = 0x1000"
| "bus_size IO_AXI = 0x1000"
| "bus_size IO_GPU = 0x2000"
| "bus_size IO_HASH = 0x1000"
| "bus_size IO_CONFIG11 = 0x2000"
| "bus_size IO_DSP1 = 0x1000"
| "bus_size IO_SPIBUS2 = 0x1000"
| "bus_size IO_SPIBUS3 = 0x1000"
| "bus_size IO_HASH2 = 0x1000"
| "bus_size IO_GPIO = 0x1000"
| "bus_size IO_SPIBUS1 = 0x1000"
| "bus_size IO_DSP2 = 0x1000"
| "bus_size MPCorePrivateBus = 0x00002000"

definition bus_end :: "bus \<Rightarrow> u32" where
  "bus_end b = bus_start b + bus_size b"

definition Busses :: "bus list" where
  "Busses = [FCRAM, VRAM, DSP, AXI, IO_HID, IO_LCD, IO_AXI, IO_GPU, IO_HASH, IO_CONFIG11, IO_DSP1,
     IO_SPIBUS2, IO_SPIBUS3, IO_HASH2, IO_GPIO, IO_SPIBUS1, IO_DSP2, MPCorePrivateBus]"

text \<open>
  Overload resolution of \<open>IsMemoryBus\<close>: exactly the busses of type \<open>MemoryBus\<close>; a \<open>ProxyBus\<close>
  derives from \<open>MemoryBus\<close> and prefers the generic overload.
\<close>

definition IsMemoryBus :: "bus \<Rightarrow> bool" where
  "IsMemoryBus b \<longleftrightarrow> b \<in> {FCRAM, VRAM, AXI}"

definition IsInside :: "u32 \<Rightarrow> bus \<Rightarrow> bool" where
  "IsInside address b \<longleftrightarrow> bus_start b \<le> address \<and> address < bus_end b"

text \<open>The short-circuiting search over the tuple of busses.\<close>

definition find_bus :: "u32 \<Rightarrow> bus option" where
  "find_bus address = find (IsInside address) Busses"

section \<open>Host memory\<close>

type_synonym host_page = "(bus \<times> u32) option"

definition GetMemoryBackedPageFor :: "bus \<Rightarrow> u32 \<Rightarrow> host_page" where
  "GetMemoryBackedPageFor b address = Some (b, address - bus_start b)"

definition LookupMemoryBackedPage :: "u32 \<Rightarrow> host_page" where
  "LookupMemoryBackedPage address =
    (case find_bus address of
       None \<Rightarrow> None
     | Some b \<Rightarrow> if IsMemoryBus b then GetMemoryBackedPageFor b address else None)"

section \<open>The address map is well-formed\<close>

lemma set_Busses: "set Busses = UNIV"
proof -
  have "b \<in> set Busses" for b by (cases b) (simp_all add: Busses_def)
  then show ?thesis by blast
qed

text \<open>No two busses claim an address, so the order of the search does not matter.\<close>

lemma bus_ranges_disjoint: "IsInside a b \<Longrightarrow> IsInside a c \<Longrightarrow> b = c"
  by (cases b; cases c) (simp_all add: IsInside_def bus_end_def word_le_nat_alt word_less_nat_alt)

lemma find_bus_eq_Some: "find_bus a = Some b \<longleftrightarrow> IsInside a b"
proof
  show "find_bus a = Some b \<Longrightarrow> IsInside a b"
    by (auto simp: find_bus_def find_Some_iff)
next
  assume inside: "IsInside a b"
  then have "\<not> (\<forall>c \<in> set Busses. \<not> IsInside a c)" by (auto simp: set_Busses)
  then obtain c where "find_bus a = Some c"
    by (metis find_None_iff find_bus_def not_Some_eq)
  moreover from this have "IsInside a c" by (auto simp: find_bus_def find_Some_iff)
  ultimately show "find_bus a = Some b" using inside bus_ranges_disjoint by blast
qed

lemma find_bus_eq_None: "find_bus a = None \<longleftrightarrow> (\<forall>b. \<not> IsInside a b)"
  by (auto simp: find_bus_def find_None_iff set_Busses)

text \<open>The offset of an address in its bus.\<close>

lemma IsInside_offset: "IsInside a b \<Longrightarrow> unat (a - bus_start b) < unat (bus_size b)"
proof -
  assume inside: "IsInside a b"
  have "uint (bus_start b) + uint (bus_size b) < 4294967296" by (cases b) simp_all
  with inside have "uint (a - bus_start b) < uint (bus_size b)"
    by (simp add: IsInside_def bus_end_def word_le_def word_less_def uint_add_u32 uint_sub_u32)
  then have "a - bus_start b < bus_size b" by (simp add: word_less_def)
  then show ?thesis by (simp add: word_less_nat_alt)
qed

lemma bus_size_pages: "bus_size b = push_bit 12 (drop_bit 12 (bus_size b))"
  by (cases b) simp_all

end
