(* ===== verification/PageTable.thy ===== *)
theory PageTable
  imports Busses
begin

text \<open>
  The page table of a processor (\<open>PageTable\<close> in \<open>arm/processor_default\<close>): for every virtual page its
  physical address, the host memory cached for it, and for every physical page the virtual pages
  that map to it; with the notifications it gets from the kernel (mapping, unmapping) and from
  physical memory (a page gains or loses host backing). An index past the \<open>num_pages\<close> entries of
  the arrays is undefined behaviour.
\<close>

section \<open>Definitions\<close>

record page_table =
  host_memory :: "nat \<Rightarrow> host_page"
  physical_addresses :: "nat \<Rightarrow> u32"
  virtual_addresses_for :: "nat \<Rightarrow> u32 list"

definition num_pages :: nat where
  "num_pages = 2 ^ 20"

definition unmapped :: u32 where
  "unmapped = 0xffffffff"

definition PageTable_init :: page_table where
  "PageTable_init = \<lparr>host_memory = (\<lambda>_. None), physical_addresses = (\<lambda>_. unmapped),
     virtual_addresses_for = (\<lambda>_. [])\<rparr>"

abbreviation page_index :: "u32 \<Rightarrow> nat" where
  "page_index address \<equiv> unat (drop_bit 12 address)"

definition LookupHostMemory :: "page_table \<Rightarrow> u32 \<Rightarrow> host_page" where
  "LookupHostMemory pt vaddr = host_memory pt (page_index vaddr)"

text \<open>The body of the loop of \<open>PageTable::Insert\<close>, for one page.\<close>

definition PageTable_Insert_page :: "nat \<Rightarrow> u32 \<Rightarrow> nat \<Rightarrow> page_table \<Rightarrow> page_table res" where
  "PageTable_Insert_page first_page_index pstart page_offset pt =
    (let physical_address = pstart + of_nat page_offset * 0x1000;
         page = first_page_index + page_offset;
         ppage = page_index physical_address
     in if num_pages \<le> page then Inl UndefinedBehaviour
        else Inr (pt\<lparr>
          physical_addresses := (physical_addresses pt)(page := physical_address),
          virtual_addresses_for := (virtual_addresses_for pt)
            (ppage := virtual_addresses_for pt ppage @ [push_bit 12 (of_nat page)]),
          host_memory := (case LookupMemoryBackedPage physical_address of
              None \<Rightarrow> host_memory pt
            | Some p \<Rightarrow> (host_memory pt)(page := Some p))\<rparr>))"

definition PageTable_Insert :: "u32 \<Rightarrow> u32 \<Rightarrow> u32 \<Rightarrow> page_table \<Rightarrow> page_table res" where
  "PageTable_Insert vstart pstart bytes pt =
    (let first_page_index = drop_bit 12 vstart;
         last_page_index = drop_bit 12 (vstart + bytes - 1)
     in foldE (PageTable_Insert_page (unat first_page_index) pstart)
          [0 ..< Suc (unat (last_page_index - first_page_index))] pt)"

text \<open>One element of the \<open>std::transform\<close> of \<open>PageTable::Remove\<close>.\<close>

definition PageTable_Remove_page :: "nat \<Rightarrow> page_table \<Rightarrow> page_table res" where
  "PageTable_Remove_page page pt =
    (let paddr = physical_addresses pt page
     in if paddr = unmapped then Inl PageTableError
        else Inr (pt\<lparr>
          virtual_addresses_for := (virtual_addresses_for pt)(page_index paddr := []),
          physical_addresses := (physical_addresses pt)(page := unmapped)\<rparr>))"

definition PageTable_Remove :: "u32 \<Rightarrow> u32 \<Rightarrow> page_table \<Rightarrow> page_table res" where
  "PageTable_Remove vstart bytes pt =
    (let first = page_index vstart; last = page_index (vstart + bytes)
     in if last < first then Inl UndefinedBehaviour
        else bindE (foldE PageTable_Remove_page [first ..< last] pt)
          (\<lambda>pt. Inr (pt\<lparr>host_memory :=
             (\<lambda>i. if first \<le> i \<and> i < last then None else host_memory pt i)\<rparr>)))"

definition TranslateVirtualAddress :: "page_table \<Rightarrow> u32 \<Rightarrow> u32 res" where
  "TranslateVirtualAddress pt vaddr =
    (let paddr_start = physical_addresses pt (page_index vaddr)
     in if paddr_start = unmapped then Inl (UnmappedVirtual vaddr)
        else Inr (paddr_start + (vaddr AND 0xfff)))"

definition OnBackedByHostMemory :: "host_page \<Rightarrow> u32 \<Rightarrow> page_table \<Rightarrow> page_table" where
  "OnBackedByHostMemory page physical_address pt =
    fold (\<lambda>virtual_address pt. pt\<lparr>host_memory := (host_memory pt)(page_index virtual_address := page)\<rparr>)
      (virtual_addresses_for pt (page_index physical_address)) pt"

definition OnUnbackedByHostMemory :: "u32 \<Rightarrow> page_table \<Rightarrow> page_table res" where
  "OnUnbackedByHostMemory physical_address pt =
    foldE (\<lambda>virtual_address pt.
        if host_memory pt (page_index virtual_address) = None then Inl PageTableError
        else Inr (pt\<lparr>host_memory := (host_memory pt)(page_index virtual_address := None)\<rparr>))
      (virtual_addresses_for pt (page_index physical_address)) pt"

section \<open>The contract of an address space\<close>

text \<open>A page-aligned range that ends below the top of the address space.\<close>

definition valid_range :: "u32 \<Rightarrow> u32 \<Rightarrow> bool" where
  "valid_range vstart bytes \<longleftrightarrow> 4096 dvd uint vstart \<and> 4096 dvd uint bytes \<and> 0 < uint bytes
    \<and> uint vstart + uint bytes < 4294967296"

definition range_pages :: "u32 \<Rightarrow> u32 \<Rightarrow> nat set" where
  "range_pages vstart bytes = {page_index vstart ..< page_index vstart + unat bytes div 4096}"

text \<open>
  What the kernel relies on when it maps and unmaps memory: mapping a range sets the physical
  address of exactly its pages, unmapping a mapped range clears exactly its pages.
\<close>

locale address_space =
  fixes insert :: "u32 \<Rightarrow> u32 \<Rightarrow> u32 \<Rightarrow> 's \<Rightarrow> 's res"
    and remove :: "u32 \<Rightarrow> u32 \<Rightarrow> 's \<Rightarrow> 's res"
    and paddr :: "'s \<Rightarrow> nat \<Rightarrow> u32"
  assumes insert_paddr: "valid_range v n \<Longrightarrow>
      \<exists>s'. insert v p n s = Inr s' \<and>
        (\<forall>i. paddr s' i = (if i \<in> range_pages v n then p + of_nat (i - page_index v) * 0x1000 else paddr s i))"
    and remove_paddr: "valid_range v n \<Longrightarrow> \<forall>i \<in> range_pages v n. paddr s i \<noteq> unmapped \<Longrightarrow>
      \<exists>s'. remove v n s = Inr s' \<and>
        (\<forall>i. paddr s' i = (if i \<in> range_pages v n then unmapped else paddr s i))"
begin

text \<open>Mapping a range that was unmapped, then unmapping it, gives back the old translation.\<close>

lemma map_unmap:
  assumes valid: "valid_range v n"
    and free: "\<forall>i \<in> range_pages v n. paddr s i = unmapped"
    and target: "\<forall>i < unat n div 4096. p + of_nat i * 0x1000 \<noteq> unmapped"
  shows "\<exists>s' s''. insert v p n s = Inr s' \<and> remove v n s' = Inr s'' \<and> paddr s'' = paddr s"
proof -
  obtain s' where s': "insert v p n s = Inr s'"
    "\<forall>i. paddr s' i = (if i \<in> range_pages v n then p + of_nat (i - page_index v) * 0x1000 else paddr s i)"
    using insert_paddr [OF valid] by blast
  have "\<forall>i \<in> range_pages v n. paddr s' i \<noteq> unmapped"
  proof
    fix i assume i: "i \<in> range_pages v n"
    then have "i - page_index v < unat n div 4096" by (auto simp: range_pages_def)
    with target i show "paddr s' i \<noteq> unmapped" by (simp only: s'(2) if_True) blast
  qed
  from remove_paddr [OF valid this] obtain s'' where
    s'': "remove v n s' = Inr s''" "\<forall>i. paddr s'' i = (if i \<in> range_pages v n then unmapped else paddr s' i)"
    by blast
  then have "paddr s'' = paddr s" using s'(2) free by (intro ext) auto
  with s'(1) s''(1) show ?thesis by blast
qed

text \<open>Two disjoint ranges can be mapped in either order.\<close>

lemma map_commute:
  assumes "valid_range v n" "valid_range v' n'" "range_pages v n \<inter> range_pages v' n' = {}"
    and "bindE (insert v p n s) (insert v' p' n') = Inr s1"
    and "bindE (insert v' p' n' s) (insert v p n) = Inr s2"
  shows "paddr s1 = paddr s2"
proof
  fix i
  obtain t u where t: "insert v p n s = Inr t" "insert v' p' n' t = Inr s1"
    and u: "insert v' p' n' s = Inr u" "insert v p n u = Inr s2"
    using assms(4,5) by (auto simp: bindE_eq_Inr)
  show "paddr s1 i = paddr s2 i"
    using insert_paddr [OF assms(1), of p s] insert_paddr [OF assms(2), of p' t]
      insert_paddr [OF assms(2), of p' s] insert_paddr [OF assms(1), of p u] t u assms(3) by auto
qed

end

section \<open>Inserting pages\<close>

lemma Insert_pages:
  "first + n \<le> num_pages \<Longrightarrow>
    \<exists>pt'. foldE (PageTable_Insert_page first p) [0 ..< n] pt = Inr pt'
      \<and> (\<forall>i. physical_addresses pt' i =
           (if first \<le> i \<and> i < first + n then p + of_nat (i - first) * 0x1000 else physical_addresses pt i))
      \<and> (\<forall>i. host_memory pt' i =
           (if first \<le> i \<and> i < first + n \<and> LookupMemoryBackedPage (p + of_nat (i - first) * 0x1000) \<noteq> None
            then LookupMemoryBackedPage (p + of_nat (i - first) * 0x1000) else host_memory pt i))
      \<and> (\<forall>pp. virtual_addresses_for pt' pp = virtual_addresses_for pt pp
           @ map (\<lambda>k. push_bit 12 (of_nat (first + k)))
               (filter (\<lambda>k. page_index (p + of_nat k * 0x1000) = pp) [0 ..< n]))"
proof (induction n)
  case (Suc n)
  then obtain pt' where IH: "foldE (PageTable_Insert_page first p) [0 ..< n] pt = Inr pt'"
    "\<And>i. physical_addresses pt' i =
       (if first \<le> i \<and> i < first + n then p + of_nat (i - first) * 0x1000 else physical_addresses pt i)"
    "\<And>i. host_memory pt' i =
       (if first \<le> i \<and> i < first + n \<and> LookupMemoryBackedPage (p + of_nat (i - first) * 0x1000) \<noteq> None
        then LookupMemoryBackedPage (p + of_nat (i - first) * 0x1000) else host_memory pt i)"
    "\<And>pp. virtual_addresses_for pt' pp = virtual_addresses_for pt pp
       @ map (\<lambda>k. push_bit 12 (of_nat (first + k)))
           (filter (\<lambda>k. page_index (p + of_nat k * 0x1000) = pp) [0 ..< n])"
    by auto
  let ?a = "p + of_nat n * 0x1000"
  obtain pt'' where step: "PageTable_Insert_page first p n pt' = Inr pt''"
    "physical_addresses pt'' = (physical_addresses pt')(first + n := ?a)"
    "host_memory pt'' = (case LookupMemoryBackedPage ?a of None \<Rightarrow> host_memory pt'
       | Some h \<Rightarrow> (host_memory pt')(first + n := Some h))"
    "virtual_addresses_for pt'' = (virtual_addresses_for pt')
       (page_index ?a := virtual_addresses_for pt' (page_index ?a) @ [push_bit 12 (of_nat (first + n))])"
    using Suc.prems unfolding PageTable_Insert_page_def Let_def by (fastforce simp: not_le Suc_le_eq)
  have "foldE (PageTable_Insert_page first p) [0 ..< Suc n] pt = Inr pt''"
    by (simp add: foldE_append IH(1) step(1))
  moreover have "physical_addresses pt'' i = (if first \<le> i \<and> i < first + Suc n
      then p + of_nat (i - first) * 0x1000 else physical_addresses pt i)" for i
    by (cases "i = first + n") (auto simp: step(2) IH(2))
  moreover have "host_memory pt'' i =
      (if first \<le> i \<and> i < first + Suc n \<and> LookupMemoryBackedPage (p + of_nat (i - first) * 0x1000) \<noteq> None
       then LookupMemoryBackedPage (p + of_nat (i - first) * 0x1000) else host_memory pt i)" for i
  proof (cases "i = first + n")
    case True
    then show ?thesis by (cases "LookupMemoryBackedPage ?a") (simp_all add: step(3) IH(3))
  next
    case False
    then have "host_memory pt'' i = host_memory pt' i" "i < first + Suc n \<longleftrightarrow> i < first + n"
      by (auto simp: step(3) split: option.splits)
    then show ?thesis by (simp only: IH(3))
  qed
  moreover have "virtual_addresses_for pt'' pp = virtual_addresses_for pt pp
      @ map (\<lambda>k. push_bit 12 (of_nat (first + k)))
          (filter (\<lambda>k. page_index (p + of_nat k * 0x1000) = pp) [0 ..< Suc n])" for pp
    by (simp add: step(4) IH(4))
  ultimately show ?case by blast
qed auto

lemma uint_page: "uint (drop_bit 12 (v :: u32)) = uint v div 4096"
  "int (page_index v) = uint v div 4096"
proof -
  show "uint (drop_bit 12 v) = uint v div 4096"
    by (simp add: drop_bit_eq_div uint_div)
  then show "int (page_index v) = uint v div 4096" by simp
qed

lemma page_range_arith:
  assumes "valid_range v n"
  shows "Suc (unat (drop_bit 12 (v + n - 1) - drop_bit 12 v)) = unat n div 4096"
    and "page_index (v + n) = page_index v + unat n div 4096"
    and "0 < unat n div 4096"
    and "page_index v + unat n div 4096 < num_pages"
proof -
  from assms obtain a b where ab: "uint v = 4096 * a" "uint n = 4096 * b"
    by (auto simp: valid_range_def elim!: dvdE)
  have bounds: "0 \<le> a" "0 < b" "a + b < 1048576"
    using assms uint_u32_bounds [of v] by (simp_all add: valid_range_def ab)
  have n: "int (unat n div 4096) = b" using ab(2) by (simp add: zdiv_int)
  have vn: "uint (v + n) = 4096 * (a + b)" using bounds by (simp add: uint_add_u32 ab)
  then have vn1: "uint (v + n - 1) = 4096 * (a + b - 1) + 4095" using bounds by (simp add: uint_sub_u32)
  have pv: "int (page_index v) = a" by (simp only: uint_page) (simp add: ab)
  have "int (page_index (v + n)) = a + b" by (simp only: uint_page) (simp add: vn)
  with n pv show "page_index (v + n) = page_index v + unat n div 4096" by linarith
  show "0 < unat n div 4096" using n bounds by linarith
  have "uint (drop_bit 12 (v + n - 1)) = a + b - 1" by (simp only: uint_page vn1) simp
  moreover have "uint (drop_bit 12 v) = a" by (simp only: uint_page) (simp add: ab)
  ultimately have "uint (drop_bit 12 (v + n - 1) - drop_bit 12 v) = b - 1"
    using bounds by (simp add: uint_sub_u32)
  then have "int (unat (drop_bit 12 (v + n - 1) - drop_bit 12 v)) = b - 1" by simp
  with n show "Suc (unat (drop_bit 12 (v + n - 1) - drop_bit 12 v)) = unat n div 4096" by linarith
  show "page_index v + unat n div 4096 < num_pages"
  proof -
    have "num_pages = 1048576" by (simp add: num_pages_def)
    then show ?thesis using n pv bounds by linarith
  qed
qed

section \<open>Removing pages\<close>

lemma Remove_pages:
  "distinct ps \<Longrightarrow> \<forall>i \<in> set ps. physical_addresses pt i \<noteq> unmapped \<Longrightarrow>
    \<exists>pt'. foldE PageTable_Remove_page ps pt = Inr pt'
      \<and> (\<forall>i. physical_addresses pt' i = (if i \<in> set ps then unmapped else physical_addresses pt i))
      \<and> host_memory pt' = host_memory pt
      \<and> (\<forall>pp. virtual_addresses_for pt' pp =
          (if \<exists>i \<in> set ps. page_index (physical_addresses pt i) = pp then [] else virtual_addresses_for pt pp))"
proof (induction ps arbitrary: pt)
  case (Cons a ps)
  let ?pt = "pt\<lparr>virtual_addresses_for := (virtual_addresses_for pt)(page_index (physical_addresses pt a) := []),
    physical_addresses := (physical_addresses pt)(a := unmapped)\<rparr>"
  have step: "PageTable_Remove_page a pt = Inr ?pt"
    using Cons.prems by (simp add: PageTable_Remove_page_def Let_def)
  have "\<forall>i \<in> set ps. physical_addresses ?pt i \<noteq> unmapped" using Cons.prems by auto
  from Cons.IH [OF _ this] Cons.prems(1) obtain pt' where IH: "foldE PageTable_Remove_page ps ?pt = Inr pt'"
    "\<forall>i. physical_addresses pt' i = (if i \<in> set ps then unmapped else physical_addresses ?pt i)"
    "host_memory pt' = host_memory ?pt"
    "\<forall>pp. virtual_addresses_for pt' pp =
      (if \<exists>i \<in> set ps. page_index (physical_addresses ?pt i) = pp then [] else virtual_addresses_for ?pt pp)"
    by auto
  have "a \<notin> set ps" using Cons.prems(1) by simp
  then have "(\<exists>i \<in> set ps. page_index (physical_addresses ?pt i) = pp)
      \<longleftrightarrow> (\<exists>i \<in> set ps. page_index (physical_addresses pt i) = pp)" for pp
    by (auto simp: fun_upd_def)
  with IH step show ?case by (intro exI [of _ pt']) auto
qed simp

lemma PageTable_Insert_spec:
  assumes "valid_range v n"
  shows "\<exists>pt'. PageTable_Insert v p n pt = Inr pt'
    \<and> (\<forall>i. physical_addresses pt' i =
        (if i \<in> range_pages v n then p + of_nat (i - page_index v) * 0x1000 else physical_addresses pt i))
    \<and> (\<forall>i. host_memory pt' i =
        (if i \<in> range_pages v n \<and> LookupMemoryBackedPage (p + of_nat (i - page_index v) * 0x1000) \<noteq> None
         then LookupMemoryBackedPage (p + of_nat (i - page_index v) * 0x1000) else host_memory pt i))
    \<and> (\<forall>pp. virtual_addresses_for pt' pp = virtual_addresses_for pt pp
        @ map (\<lambda>k. push_bit 12 (of_nat (page_index v + k)))
            (filter (\<lambda>k. page_index (p + of_nat k * 0x1000) = pp) [0 ..< unat n div 4096]))"
proof -
  note arith = page_range_arith [OF assms]
  have "page_index v + unat n div 4096 \<le> num_pages" using arith(4) by simp
  from Insert_pages [OF this] show ?thesis
    unfolding PageTable_Insert_def Let_def arith(1) range_pages_def atLeastLessThan_iff conj_assoc by blast
qed

lemma PageTable_Remove_spec:
  assumes "valid_range v n" and mapped: "\<forall>i \<in> range_pages v n. physical_addresses pt i \<noteq> unmapped"
  shows "\<exists>pt'. PageTable_Remove v n pt = Inr pt'
    \<and> (\<forall>i. physical_addresses pt' i = (if i \<in> range_pages v n then unmapped else physical_addresses pt i))
    \<and> (\<forall>i. host_memory pt' i = (if i \<in> range_pages v n then None else host_memory pt i))
    \<and> (\<forall>pp. virtual_addresses_for pt' pp =
        (if \<exists>i \<in> range_pages v n. page_index (physical_addresses pt i) = pp then [] else virtual_addresses_for pt pp))"
proof -
  note arith = page_range_arith [OF assms(1)]
  have set: "set [page_index v ..< page_index (v + n)] = range_pages v n"
    by (simp add: range_pages_def arith(2))
  have "\<forall>i \<in> set [page_index v ..< page_index (v + n)]. physical_addresses pt i \<noteq> unmapped"
    unfolding set by (rule mapped)
  from Remove_pages [OF distinct_upt this] obtain pt' where pt':
    "foldE PageTable_Remove_page [page_index v ..< page_index (v + n)] pt = Inr pt'"
    "\<forall>i. physical_addresses pt' i = (if i \<in> range_pages v n then unmapped else physical_addresses pt i)"
    "host_memory pt' = host_memory pt"
    "\<forall>pp. virtual_addresses_for pt' pp =
        (if \<exists>i \<in> range_pages v n. page_index (physical_addresses pt i) = pp then [] else virtual_addresses_for pt pp)"
    unfolding set by blast
  have "\<not> page_index (v + n) < page_index v" using arith(2,3) by simp
  then show ?thesis
    using pt' unfolding PageTable_Remove_def Let_def
    by (auto simp: range_pages_def arith(2))
qed

interpretation pt: address_space PageTable_Insert PageTable_Remove physical_addresses
  by unfold_locales (use PageTable_Insert_spec PageTable_Remove_spec in blast)+

section \<open>Invariant of the page table\<close>

text \<open>
  Mapped pages have aligned physical addresses; a cached host page is the one of the page's physical
  address; the virtual pages recorded for a physical page are mapped to it.
\<close>

definition pt_inv :: "page_table \<Rightarrow> bool" where
  "pt_inv pt \<longleftrightarrow>
    (\<forall>i. physical_addresses pt i = unmapped \<or> 4096 dvd uint (physical_addresses pt i)) \<and>
    (\<forall>i h. host_memory pt i = Some h \<longrightarrow>
       physical_addresses pt i \<noteq> unmapped \<and> LookupMemoryBackedPage (physical_addresses pt i) = Some h) \<and>
    (\<forall>pp. \<forall>v \<in> set (virtual_addresses_for pt pp).
       physical_addresses pt (page_index v) \<noteq> unmapped \<and>
       page_index (physical_addresses pt (page_index v)) = pp)"

text \<open>The page tables the notifications of the kernel and of physical memory lead to.\<close>

inductive pt_reachable :: "page_table \<Rightarrow> bool" where
  init: "pt_reachable PageTable_init"
| map: "pt_reachable pt \<Longrightarrow> valid_range v n \<Longrightarrow> valid_range p n \<Longrightarrow>
    \<forall>i \<in> range_pages v n. physical_addresses pt i = unmapped \<Longrightarrow>
    PageTable_Insert v p n pt = Inr pt' \<Longrightarrow> pt_reachable pt'"
| unmap: "pt_reachable pt \<Longrightarrow> valid_range v n \<Longrightarrow> PageTable_Remove v n pt = Inr pt' \<Longrightarrow> pt_reachable pt'"
| backed: "pt_reachable pt \<Longrightarrow> 4096 dvd uint a \<Longrightarrow> LookupMemoryBackedPage a = Some h \<Longrightarrow>
    pt_reachable (OnBackedByHostMemory (Some h) a pt)"
| unbacked: "pt_reachable pt \<Longrightarrow> OnUnbackedByHostMemory a pt = Inr pt' \<Longrightarrow> pt_reachable pt'"

lemma Remove_pages_mapped:
  "distinct ps \<Longrightarrow> foldE PageTable_Remove_page ps pt = Inr pt' \<Longrightarrow>
    \<forall>i \<in> set ps. physical_addresses pt i \<noteq> unmapped"
proof (induction ps arbitrary: pt)
  case (Cons a ps)
  from Cons.prems(2) obtain t where t: "PageTable_Remove_page a pt = Inr t" "foldE PageTable_Remove_page ps t = Inr pt'"
    by (auto simp: bindE_eq_Inr)
  have "\<forall>i \<in> set ps. physical_addresses t i \<noteq> unmapped" using Cons.IH [OF _ t(2)] Cons.prems(1) by simp
  with t(1) Cons.prems(1) show ?case
    by (auto simp: PageTable_Remove_page_def Let_def split: if_splits)
qed simp

lemma PageTable_Remove_mapped:
  assumes "valid_range v n" and "PageTable_Remove v n pt = Inr pt'"
  shows "\<forall>i \<in> range_pages v n. physical_addresses pt i \<noteq> unmapped"
proof -
  have "set [page_index v ..< page_index (v + n)] = range_pages v n"
    by (simp add: range_pages_def page_range_arith(2) [OF assms(1)])
  moreover obtain t where "foldE PageTable_Remove_page [page_index v ..< page_index (v + n)] pt = Inr t"
    using assms(2) by (auto simp: PageTable_Remove_def Let_def bindE_eq_Inr split: if_splits)
  ultimately show ?thesis using Remove_pages_mapped [OF distinct_upt] by blast
qed

lemma aligned_pages:
  assumes "valid_range p n" and "k < unat n div 4096"
  shows "uint (p + of_nat k * 0x1000) = uint p + 4096 * int k"
    and "4096 dvd uint (p + of_nat k * 0x1000)"
    and "p + of_nat k * 0x1000 \<noteq> unmapped"
proof -
  have "4096 * (int k + 1) \<le> uint n"
  proof -
    have "4096 * (k + 1) \<le> unat n" using assms(2) by (simp add: less_eq_div_iff_mult_less_eq Suc_le_eq [symmetric] mult.commute)
    then have "int (4096 * (k + 1)) \<le> int (unat n)" by (simp only: of_nat_le_iff)
    then show ?thesis by simp
  qed
  moreover have "uint p + uint n < 4294967296" "4096 dvd uint p" using assms(1) by (simp_all add: valid_range_def)
  moreover have "p + of_nat k * 0x1000 = word_of_int (uint p + 4096 * int k)" by simp
  ultimately show eq: "uint (p + of_nat k * 0x1000) = uint p + 4096 * int k"
    using uint_u32_bounds [of p] by (simp only:) (intro word_of_int_inverse [OF refl]; simp)
  with \<open>4096 dvd uint p\<close> show dvd: "4096 dvd uint (p + of_nat k * 0x1000)" by simp
  show "p + of_nat k * 0x1000 \<noteq> unmapped"
  proof
    assume "p + of_nat k * 0x1000 = unmapped"
    with dvd show False by (simp add: unmapped_def)
  qed
qed

lemma page_index_page: "i < num_pages \<Longrightarrow> page_index (push_bit 12 (of_nat i)) = i"
proof -
  assume "i < num_pages"
  then have "take_bit 20 i = i" by (simp add: num_pages_def take_bit_nat_eq_self)
  then have "bit i n \<Longrightarrow> n < 20" for n by (metis bit_take_bit_iff)
  then have "drop_bit 12 (push_bit 12 (of_nat i :: u32)) = of_nat i"
    by (intro bit_word_eqI) (fastforce simp: bit_simps)
  moreover have "unat (of_nat i :: u32) = i"
    using \<open>i < num_pages\<close> by (simp add: num_pages_def unsigned_of_nat take_bit_nat_eq_self)
  ultimately show ?thesis by simp
qed


lemma pt_inv_init: "pt_inv PageTable_init"
  by (simp add: pt_inv_def PageTable_init_def)

lemma pt_inv_Insert:
  assumes inv: "pt_inv pt" and v: "valid_range v n" and p: "valid_range p n"
    and free: "\<forall>i \<in> range_pages v n. physical_addresses pt i = unmapped"
    and ins: "PageTable_Insert v p n pt = Inr pt'"
  shows "pt_inv pt'"
proof -
  note spec = PageTable_Insert_spec [OF v, of p pt, unfolded ins]
  have phys: "physical_addresses pt' i =
      (if i \<in> range_pages v n then p + of_nat (i - page_index v) * 0x1000 else physical_addresses pt i)" for i
    using spec by simp
  have host: "host_memory pt' i =
      (if i \<in> range_pages v n \<and> LookupMemoryBackedPage (p + of_nat (i - page_index v) * 0x1000) \<noteq> None
       then LookupMemoryBackedPage (p + of_nat (i - page_index v) * 0x1000) else host_memory pt i)" for i
    using spec by simp
  have virt: "virtual_addresses_for pt' pp = virtual_addresses_for pt pp
      @ map (\<lambda>k. push_bit 12 (of_nat (page_index v + k)))
          (filter (\<lambda>k. page_index (p + of_nat k * 0x1000) = pp) [0 ..< unat n div 4096])" for pp
    using spec by simp
  have new: "4096 dvd uint (p + of_nat (i - page_index v) * 0x1000)" "p + of_nat (i - page_index v) * 0x1000 \<noteq> unmapped"
    if "i \<in> range_pages v n" for i
  proof -
    have "i - page_index v < unat n div 4096" using that by (auto simp: range_pages_def)
    then show "4096 dvd uint (p + of_nat (i - page_index v) * 0x1000)" "p + of_nat (i - page_index v) * 0x1000 \<noteq> unmapped"
      by (fact aligned_pages(2) [OF p], fact aligned_pages(3) [OF p])
  qed
  have none: "host_memory pt i = None" if "i \<in> range_pages v n" for i
    using inv free that unfolding pt_inv_def by (metis option.exhaust)
  have old: "page_index w \<notin> range_pages v n" if "w \<in> set (virtual_addresses_for pt pp)" for w pp
    using inv free that unfolding pt_inv_def by blast
  have idx: "page_index (push_bit 12 (of_nat (page_index v + k))) = page_index v + k"
    if "k < unat n div 4096" for k
    using page_range_arith(4) [OF v] that by (intro page_index_page) simp
  have "physical_addresses pt' i = unmapped \<or> 4096 dvd uint (physical_addresses pt' i)" for i
    using inv new(1) by (auto simp: phys pt_inv_def)
  moreover have "physical_addresses pt' i \<noteq> unmapped \<and> LookupMemoryBackedPage (physical_addresses pt' i) = Some h"
    if "host_memory pt' i = Some h" for i h
  proof (cases "i \<in> range_pages v n")
    case True
    then have "LookupMemoryBackedPage (p + of_nat (i - page_index v) * 0x1000) = Some h"
      using that none [of i] by (simp only: host split: if_splits) simp
    then show ?thesis using True new(2) [OF True] by (simp only: phys if_True) simp
  next
    case False
    then have "host_memory pt i = Some h" using that by (simp add: host)
    then show ?thesis using False inv by (cases h) (simp add: phys pt_inv_def)
  qed
  moreover have "physical_addresses pt' (page_index w) \<noteq> unmapped
      \<and> page_index (physical_addresses pt' (page_index w)) = pp"
    if w: "w \<in> set (virtual_addresses_for pt' pp)" for w pp
  proof (cases "w \<in> set (virtual_addresses_for pt pp)")
    case True
    then show ?thesis using inv old [OF True] by (simp add: phys pt_inv_def)
  next
    case False
    then obtain k where k: "w = push_bit 12 (of_nat (page_index v + k))" "k < unat n div 4096"
      "page_index (p + of_nat k * 0x1000) = pp"
      using w by (auto simp: virt)
    have "page_index w = page_index v + k" unfolding k(1) by (rule idx [OF k(2)])
    moreover from this have "page_index w \<in> range_pages v n" using k(2) by (simp add: range_pages_def)
    ultimately show ?thesis using new(2) [of "page_index w"] k(3) by (simp only: phys if_True) simp
  qed
  ultimately show ?thesis unfolding pt_inv_def by blast
qed

lemma pt_inv_Remove:
  assumes inv: "pt_inv pt" and v: "valid_range v n" and rem: "PageTable_Remove v n pt = Inr pt'"
  shows "pt_inv pt'"
proof -
  note spec = PageTable_Remove_spec [OF v PageTable_Remove_mapped [OF v rem], unfolded rem]
  have phys: "physical_addresses pt' i = (if i \<in> range_pages v n then unmapped else physical_addresses pt i)" for i
    using spec by simp
  have host: "host_memory pt' i = (if i \<in> range_pages v n then None else host_memory pt i)" for i
    using spec by simp
  have virt: "virtual_addresses_for pt' pp =
      (if \<exists>i \<in> range_pages v n. page_index (physical_addresses pt i) = pp then [] else virtual_addresses_for pt pp)" for pp
    using spec by simp
  have "page_index w \<notin> range_pages v n" if "w \<in> set (virtual_addresses_for pt' pp)" for w pp
    using that inv unfolding virt pt_inv_def by (auto split: if_splits)
  then show ?thesis
    using inv unfolding pt_inv_def phys host by (auto simp: virt split: if_splits)
qed


text \<open>Notifications from physical memory change cached host pages only.\<close>

lemma OnBacked_fields:
  "physical_addresses (OnBackedByHostMemory h a pt) = physical_addresses pt"
  "virtual_addresses_for (OnBackedByHostMemory h a pt) = virtual_addresses_for pt"
  "host_memory (OnBackedByHostMemory h a pt) i =
    (if \<exists>v \<in> set (virtual_addresses_for pt (page_index a)). page_index v = i then h else host_memory pt i)"
proof -
  have "physical_addresses (fold (\<lambda>v pt. pt\<lparr>host_memory := (host_memory pt)(page_index v := h)\<rparr>) vs pt) = physical_addresses pt
      \<and> virtual_addresses_for (fold (\<lambda>v pt. pt\<lparr>host_memory := (host_memory pt)(page_index v := h)\<rparr>) vs pt) = virtual_addresses_for pt
      \<and> host_memory (fold (\<lambda>v pt. pt\<lparr>host_memory := (host_memory pt)(page_index v := h)\<rparr>) vs pt) i =
        (if \<exists>v \<in> set vs. page_index v = i then h else host_memory pt i)" for vs
    by (induction vs arbitrary: pt) auto
  then show "physical_addresses (OnBackedByHostMemory h a pt) = physical_addresses pt"
    "virtual_addresses_for (OnBackedByHostMemory h a pt) = virtual_addresses_for pt"
    "host_memory (OnBackedByHostMemory h a pt) i =
      (if \<exists>v \<in> set (virtual_addresses_for pt (page_index a)). page_index v = i then h else host_memory pt i)"
    by (simp_all add: OnBackedByHostMemory_def)
qed

lemma OnUnbacked_fields:
  assumes "OnUnbackedByHostMemory a pt = Inr pt'"
  shows "physical_addresses pt' = physical_addresses pt"
    and "virtual_addresses_for pt' = virtual_addresses_for pt"
    and "host_memory pt' i =
      (if \<exists>v \<in> set (virtual_addresses_for pt (page_index a)). page_index v = i then None else host_memory pt i)"
proof -
  let ?f = "\<lambda>v pt. if host_memory pt (page_index v) = None then Inl PageTableError
        else Inr (pt\<lparr>host_memory := (host_memory pt)(page_index v := None)\<rparr>)"
  have "physical_addresses t' = physical_addresses t \<and> virtual_addresses_for t' = virtual_addresses_for t
      \<and> host_memory t' i = (if \<exists>v \<in> set vs. page_index v = i then None else host_memory t i)"
    if "foldE ?f vs t = Inr t'" for vs t t'
    using that by (induction vs arbitrary: t) (force simp: bindE_eq_Inr split: if_splits)+
  from this [OF assms [unfolded OnUnbackedByHostMemory_def]]
  show "physical_addresses pt' = physical_addresses pt" "virtual_addresses_for pt' = virtual_addresses_for pt"
    "host_memory pt' i =
      (if \<exists>v \<in> set (virtual_addresses_for pt (page_index a)). page_index v = i then None else host_memory pt i)"
    by simp_all
qed

lemma same_page:
  assumes "page_index a = page_index b" "4096 dvd uint a" "4096 dvd uint b"
  shows "a = b"
proof -
  have "uint a div 4096 = uint b div 4096" using assms(1) uint_page(2) by metis
  with assms(2,3) have "uint a = uint b" by (metis dvd_mult_div_cancel)
  then show ?thesis by (simp add: word_uint_eq_iff)
qed

lemma pt_inv_OnBacked:
  assumes inv: "pt_inv pt" and "4096 dvd uint a" and "LookupMemoryBackedPage a = Some h"
  shows "pt_inv (OnBackedByHostMemory (Some h) a pt)"
proof -
  have "physical_addresses pt (page_index v) = a" if "v \<in> set (virtual_addresses_for pt (page_index a))" for v
    using inv that assms(2) same_page unfolding pt_inv_def by metis
  moreover have "a \<noteq> unmapped" using assms(2) by (auto simp: unmapped_def)
  ultimately show ?thesis
    using inv assms(3) unfolding pt_inv_def OnBacked_fields by auto
qed

lemma pt_inv_OnUnbacked: "pt_inv pt \<Longrightarrow> OnUnbackedByHostMemory a pt = Inr pt' \<Longrightarrow> pt_inv pt'"
  unfolding pt_inv_def by (auto simp: OnUnbacked_fields split: if_splits)

text \<open>
  C5: every page table reached by mapping free page ranges, unmapping, and by the notifications of
  physical memory keeps its invariant: mapped pages are aligned, every cached host page is the host
  memory of the page's physical address, and every virtual page recorded for a physical page maps
  to it.
\<close>

theorem page_table_invariant: "pt_reachable pt \<Longrightarrow> pt_inv pt"
  by (induction rule: pt_reachable.induct)
    (auto intro: pt_inv_init pt_inv_Insert pt_inv_Remove pt_inv_OnBacked pt_inv_OnUnbacked)

text \<open>Mapping two pages of FCRAM at \<open>0x00100000\<close>.\<close>

lemma example_range: "valid_range 0x00100000 0x2000" "valid_range 0x20000000 0x2000"
  "range_pages 0x00100000 0x2000 = {256, 257}"
  by (auto simp: valid_range_def range_pages_def)

theorem page_table_invariant_witness:
  "\<exists>pt. PageTable_Insert 0x00100000 0x20000000 0x2000 PageTable_init = Inr pt \<and> pt_inv pt"
proof -
  obtain pt where pt: "PageTable_Insert 0x00100000 0x20000000 0x2000 PageTable_init = Inr pt"
    using PageTable_Insert_spec [OF example_range(1), of "0x20000000" PageTable_init] by blast
  have "\<forall>i \<in> range_pages 0x00100000 0x2000. physical_addresses PageTable_init i = unmapped"
    by (simp add: PageTable_init_def)
  from page_table_invariant [OF pt_reachable.map [OF pt_reachable.init example_range(1,2) this pt]] pt
  show ?thesis by blast
qed


section \<open>Translation\<close>

lemma in_range_page:
  assumes v: "valid_range v n" and k: "uint k < uint n"
  shows "page_index (v + k) \<in> range_pages v n"
    and "page_index (v + k) - page_index v = page_index k"
    and "(v + k) AND 0xfff = k AND 0xfff"
proof -
  obtain a where a: "uint v = 4096 * a" using v by (auto simp: valid_range_def elim!: dvdE)
  have sum: "uint (v + k) = uint v + uint k"
    using v k by (simp add: valid_range_def uint_add_u32)
  then have pk: "int (page_index (v + k)) = int (page_index v) + int (page_index k)"
    by (simp only: uint_page) (simp add: a)
  then have pn: "page_index (v + k) = page_index v + page_index k" by linarith
  have "4096 dvd uint n" using v by (simp add: valid_range_def)
  then have "uint k div 4096 < uint n div 4096"
    using k by (auto elim!: dvdE)
  then have "int (page_index k) < int (unat n div 4096)"
    by (simp only: uint_page) (simp add: zdiv_int)
  then have "page_index k < unat n div 4096" by (simp only: of_nat_less_iff)
  with pn show "page_index (v + k) \<in> range_pages v n" "page_index (v + k) - page_index v = page_index k"
    by (simp_all add: range_pages_def)
  have mask: "w AND 0xfff = take_bit 12 w" for w :: u32
  proof -
    have "(0xfff :: u32) = mask 12" by (simp add: mask_numeral)
    then show ?thesis by (simp only: take_bit_eq_mask)
  qed
  have "uint (take_bit 12 (v + k)) = uint (take_bit 12 k)"
    by (simp only: unsigned_take_bit_eq sum a) (simp add: take_bit_eq_mod)
  then show "(v + k) AND 0xfff = k AND 0xfff" by (simp add: mask word_uint_eq_iff)
qed

lemma page_split: "of_nat (page_index k) * 0x1000 + (k AND 0xfff) = (k :: u32)"
proof -
  have "(0xfff :: u32) = mask 12" by (simp add: mask_numeral)
  then have "of_nat (page_index k) * 0x1000 + (k AND 0xfff) = push_bit 12 (drop_bit 12 k) + take_bit 12 k"
    by (simp only: take_bit_eq_mask push_bit_eq_mult) simp
  then show ?thesis by (simp only: bits_ident)
qed

text \<open>
  After mapping a page-aligned range, every virtual address in it translates to the physical
  address at the same offset, and translation outside the range is unchanged; addresses of pages
  that are not mapped are refused.
\<close>

theorem translate_after_map:
  assumes v: "valid_range v n" and p: "valid_range p n"
  shows "\<exists>pt'. PageTable_Insert v p n pt = Inr pt'
    \<and> (\<forall>k. uint k < uint n \<longrightarrow> TranslateVirtualAddress pt' (v + k) = Inr (p + k))
    \<and> (\<forall>a. page_index a \<notin> range_pages v n \<longrightarrow> TranslateVirtualAddress pt' a = TranslateVirtualAddress pt a)"
proof -
  obtain pt' where pt': "PageTable_Insert v p n pt = Inr pt'"
    and phys: "\<And>i. physical_addresses pt' i =
      (if i \<in> range_pages v n then p + of_nat (i - page_index v) * 0x1000 else physical_addresses pt i)"
    using PageTable_Insert_spec [OF v, of p pt] by blast
  have "TranslateVirtualAddress pt' (v + k) = Inr (p + k)" if k: "uint k < uint n" for k
  proof -
    note in_range = in_range_page [OF v k]
    have "physical_addresses pt' (page_index (v + k)) = p + of_nat (page_index k) * 0x1000"
      by (simp only: phys in_range(1,2) if_True)
    moreover have "page_index k < unat n div 4096"
      using in_range(1,2) by (auto simp: range_pages_def)
    ultimately have "TranslateVirtualAddress pt' (v + k) = Inr (p + of_nat (page_index k) * 0x1000 + (k AND 0xfff))"
      using aligned_pages(3) [OF p] in_range(3) by (simp only: TranslateVirtualAddress_def Let_def if_False)
    then show ?thesis by (simp only: add.assoc page_split)
  qed
  moreover have "TranslateVirtualAddress pt' a = TranslateVirtualAddress pt a" if "page_index a \<notin> range_pages v n" for a
    using that by (simp add: TranslateVirtualAddress_def phys)
  ultimately show ?thesis using pt' by blast
qed

theorem translate_after_map_witness:
  "\<exists>pt'. PageTable_Insert 0x00100000 0x20000000 0x2000 PageTable_init = Inr pt'
    \<and> TranslateVirtualAddress pt' (0x00100000 + 0x1234) = Inr (0x20000000 + 0x1234)"
proof -
  have "uint (0x1234 :: u32) < uint (0x2000 :: u32)" by simp
  then show ?thesis using translate_after_map [OF example_range(1,2), of PageTable_init] by blast
qed

text \<open>
  C33: mapping a free range and unmapping it again restores the translation of the whole address
  space.
\<close>

theorem map_unmap_roundtrip:
  assumes v: "valid_range v n" and p: "valid_range p n"
    and free: "\<forall>i \<in> range_pages v n. physical_addresses pt i = unmapped"
  shows "\<exists>pt' pt''. PageTable_Insert v p n pt = Inr pt' \<and> PageTable_Remove v n pt' = Inr pt''
    \<and> TranslateVirtualAddress pt'' = TranslateVirtualAddress pt"
proof -
  have "\<forall>i < unat n div 4096. p + of_nat i * 0x1000 \<noteq> unmapped" using aligned_pages(3) [OF p] by blast
  from pt.map_unmap [OF v free this] obtain pt' pt'' where
    *: "PageTable_Insert v p n pt = Inr pt'" "PageTable_Remove v n pt' = Inr pt''"
    "physical_addresses pt'' = physical_addresses pt" by blast
  then have "TranslateVirtualAddress pt'' = TranslateVirtualAddress pt"
    by (intro ext) (simp add: TranslateVirtualAddress_def)
  with * show ?thesis by blast
qed

theorem map_unmap_roundtrip_witness:
  "\<exists>pt' pt''. PageTable_Insert 0x00100000 0x20000000 0x2000 PageTable_init = Inr pt'
    \<and> PageTable_Remove 0x00100000 0x2000 pt' = Inr pt''
    \<and> TranslateVirtualAddress pt'' = TranslateVirtualAddress PageTable_init"
  by (rule map_unmap_roundtrip [OF example_range(1,2)]) (simp add: PageTable_init_def)

text \<open>
  Unmapping forgets other mappings of the same physical page. When two virtual pages are mapped
  to one physical page and one of them is unmapped, the other stays mapped but is no longer
  recorded for the physical page, so the page table will not learn that its host memory was revoked.
\<close>

theorem unmap_forgets_aliases:
  assumes v: "valid_range v n" and rem: "PageTable_Remove v n pt = Inr pt'"
    and i: "i \<in> range_pages v n" and j: "j \<notin> range_pages v n"
    and shared: "physical_addresses pt j = physical_addresses pt i"
  shows "physical_addresses pt' j = physical_addresses pt j
    \<and> host_memory pt' j = host_memory pt j
    \<and> virtual_addresses_for pt' (page_index (physical_addresses pt j)) = []"
proof -
  note spec = PageTable_Remove_spec [OF v PageTable_Remove_mapped [OF v rem], unfolded rem]
  have "\<exists>k \<in> range_pages v n. page_index (physical_addresses pt k) = page_index (physical_addresses pt j)"
    using i shared by metis
  with spec j show ?thesis by simp
qed


theorem unmap_forgets_aliases_witness:
  "\<exists>pt1 pt2 pt3. PageTable_Insert 0x00100000 0x20000000 0x1000 PageTable_init = Inr pt1
    \<and> PageTable_Insert 0x00200000 0x20000000 0x1000 pt1 = Inr pt2
    \<and> PageTable_Remove 0x00100000 0x1000 pt2 = Inr pt3
    \<and> physical_addresses pt3 512 = 0x20000000
    \<and> virtual_addresses_for pt3 (page_index 0x20000000) = []"
proof -
  have v: "valid_range 0x00100000 0x1000" "valid_range 0x00200000 0x1000" "range_pages 0x00100000 0x1000 = {256}"
    "range_pages 0x00200000 0x1000 = {512}"
    by (auto simp: valid_range_def range_pages_def)
  obtain pt1 where 1: "PageTable_Insert 0x00100000 0x20000000 0x1000 PageTable_init = Inr pt1"
    "physical_addresses pt1 256 = 0x20000000"
    using PageTable_Insert_spec [OF v(1), of "0x20000000" PageTable_init] by (auto simp: v)
  obtain pt2 where 2: "PageTable_Insert 0x00200000 0x20000000 0x1000 pt1 = Inr pt2"
    "physical_addresses pt2 256 = 0x20000000" "physical_addresses pt2 512 = 0x20000000"
    using PageTable_Insert_spec [OF v(2), of "0x20000000" pt1] 1(2) by (auto simp: v)
  obtain pt3 where 3: "PageTable_Remove 0x00100000 0x1000 pt2 = Inr pt3"
    using PageTable_Remove_spec [OF v(1), of pt2] 2 by (auto simp: v unmapped_def)
  show ?thesis
    using unmap_forgets_aliases [OF v(1) 3, of 256 512] 1(1) 2 3 by (auto simp: v)
qed

end
