(* ===== verification/VirtualMemory.thy ===== *)
theory VirtualMemory
  imports OrderedMap PageTable
begin

text \<open>
  The address space of a process in the kernel (\<open>Process\<close> in \<open>os.hpp\<close> and \<open>os.cpp\<close>): an ordered map from virtual
  addresses to blocks of memory, kept beside the page table of the processor that runs the process. An emulated
  process (\<open>EmuProcess\<close>) forwards every change to its processor; a \<open>FakeProcess\<close>, whose threads are host
  functions, has none.
\<close>

section \<open>Definitions\<close>

record virtual_memory_block =
  phys_start :: u32
  vsize :: u32
  permissions :: u32

record process_memory =
  virtual_memory :: "virtual_memory_block omap"
  processor :: "page_table option"

definition OnVirtualMemoryMapped :: "u32 \<Rightarrow> u32 \<Rightarrow> u32 \<Rightarrow> process_memory \<Rightarrow> process_memory res" where
  "OnVirtualMemoryMapped phys_addr n vaddr p = (case processor p of
      None \<Rightarrow> Inr p
    | Some pt \<Rightarrow> bindE (PageTable_Insert vaddr phys_addr n pt) (\<lambda>pt'. Inr (p\<lparr>processor := Some pt'\<rparr>)))"

definition OnVirtualMemoryUnmapped :: "u32 \<Rightarrow> u32 \<Rightarrow> process_memory \<Rightarrow> process_memory res" where
  "OnVirtualMemoryUnmapped vaddr n p = (case processor p of
      None \<Rightarrow> Inr p
    | Some pt \<Rightarrow> bindE (PageTable_Remove vaddr n pt) (\<lambda>pt'. Inr (p\<lparr>processor := Some pt'\<rparr>)))"

definition MapVirtualMemory :: "u32 \<Rightarrow> u32 \<Rightarrow> u32 \<Rightarrow> u32 \<Rightarrow> process_memory \<Rightarrow> (bool \<times> process_memory) res" where
  "MapVirtualMemory phys_addr n vaddr perms p =
    (let m = virtual_memory p in
     if n = 0 then Inl RuntimeError
     else if from_lower vaddr m \<noteq> [] \<and> fst (hd (from_lower vaddr m)) < vaddr + n then Inr (False, p)
     else if before_lower vaddr m \<noteq> [] \<and>
         (case last (before_lower vaddr m) of (a, b) \<Rightarrow> vaddr < a + vsize b) then Inr (False, p)
     else bindE (OnVirtualMemoryMapped phys_addr n vaddr
            (p\<lparr>virtual_memory := om_insert vaddr \<lparr>phys_start = phys_addr, vsize = n, permissions = perms\<rparr> m\<rparr>))
          (\<lambda>p'. Inr (True, p')))"

text \<open>
  \<open>UnmapVirtualMemory\<close> handles one block and calls itself for what is left of the range. \<open>unmap_block\<close> is its body up
  to that call: the block it takes, its removal with what remains of it, and the rest of the range, if any.
\<close>

definition unmap_target :: "u32 \<Rightarrow> u32 \<Rightarrow> virtual_memory_block omap \<Rightarrow> (u32 \<times> virtual_memory_block) option" where
  "unmap_target vaddr n m =
    (if before_upper vaddr m \<noteq> [] \<and>
        (case last (before_upper vaddr m) of (a, b) \<Rightarrow> vaddr < a + vsize b \<and> a < vaddr + n)
     then Some (last (before_upper vaddr m))
     else case from_upper vaddr m of [] \<Rightarrow> None | c # _ \<Rightarrow> Some c)"

definition unmap_block :: "u32 \<Rightarrow> u32 \<Rightarrow> process_memory \<Rightarrow> (bool \<times> (u32 \<times> u32) option \<times> process_memory) res" where
  "unmap_block vaddr n p =
    (if n = 0 then Inl RuntimeError
     else case unmap_target vaddr n (virtual_memory p) of
       None \<Rightarrow> Inr (False, None, p)
     | Some (vstart, b) \<Rightarrow>
         if vaddr + n < vstart then Inr (False, None, p)
         else if vstart + vsize b < vaddr then Inr (False, None, p)
         else if \<not> vstart < vaddr + n \<or> \<not> vaddr < vstart + vsize b then Inl ContractViolation
         else
           let m0 = om_erase vstart (virtual_memory p);
               delta = vaddr - vstart;
               m1 = (if vstart < vaddr then om_insert vstart (b\<lparr>vsize := delta\<rparr>) m0 else m0);
               vstart1 = (if vstart < vaddr then vstart + delta else vstart);
               b1 = (if vstart < vaddr then b\<lparr>phys_start := phys_start b + delta, vsize := vsize b - delta\<rparr> else b);
               m2 = (if n < vsize b1
                     then om_insert (vaddr + n) (b1\<lparr>phys_start := phys_start b1 + n, vsize := vsize b1 - n\<rparr>) m1 else m1);
               chunk_size = (if n < vsize b1 then n else vsize b1)
           in bindE (OnVirtualMemoryUnmapped vstart1 chunk_size (p\<lparr>virtual_memory := m2\<rparr>)) (\<lambda>p'.
              Inr (True, if chunk_size < n then Some (vaddr + chunk_size, n - chunk_size) else None, p')))"

text \<open>Each call either shortens the range or removes a block of the map for good.\<close>

lemma length_om_erase: "(k, v) \<in> set m \<Longrightarrow> length (om_erase k m) < length m"
  unfolding om_erase_def by (rule length_filter_less) auto

lemma length_om_assign: "length (om_assign k v m) \<le> Suc (length m)"
  by (induction k v m rule: om_assign.induct) auto

lemma length_om_insert: "length (om_insert k v m) \<le> Suc (length m)"
  by (simp add: om_insert_def length_om_assign)

lemma unmap_target_member:
  assumes "unmap_target vaddr n m = Some c"
  shows "c \<in> set m"
proof -
  have "before_upper vaddr m \<noteq> [] \<Longrightarrow> last (before_upper vaddr m) \<in> set m"
    unfolding before_upper_def using last_in_set set_takeWhileD by metis
  moreover have "from_upper vaddr m = c # m' \<Longrightarrow> c \<in> set m" for m'
    unfolding from_upper_def using set_dropWhileD list.set_intros(1) by metis
  ultimately show ?thesis using assms by (auto simp: unmap_target_def split: if_splits list.splits)
qed

lemma OnVirtualMemoryUnmapped_map: "OnVirtualMemoryUnmapped a n p = Inr p' \<Longrightarrow> virtual_memory p' = virtual_memory p"
  by (auto simp: OnVirtualMemoryUnmapped_def bindE_eq_Inr split: option.splits)

lemma unmap_block_decreases:
  assumes "unmap_block vaddr n p = Inr (b, Some (vaddr', n'), p')"
  shows "unat n' < unat n \<or> unat n' \<le> unat n \<and> length (virtual_memory p') < length (virtual_memory p)"
proof -
  obtain vstart c where target: "unmap_target vaddr n (virtual_memory p) = Some (vstart, c)"
    and inside: "vaddr < vstart + vsize c"
    using assms by (auto simp: unmap_block_def Let_def split: if_splits option.splits)
  let ?size = "if vstart < vaddr then vsize c - (vaddr - vstart) else vsize c"
  have rest: "?size < n" "n' = n - ?size"
    and map: "virtual_memory p' = (if vstart < vaddr then om_insert vstart (c\<lparr>vsize := vaddr - vstart\<rparr>) (om_erase vstart (virtual_memory p))
      else om_erase vstart (virtual_memory p))"
    using assms target by (auto simp: unmap_block_def Let_def bindE_eq_Inr split: if_splits dest!: OnVirtualMemoryUnmapped_map)
  have n': "unat n' = unat n - unat ?size" using rest by (simp add: unat_sub_if' word_less_nat_alt word_le_nat_alt)
  show ?thesis
  proof (cases "vstart < vaddr")
    case True
    then have "?size \<noteq> 0" using inside by (auto simp: algebra_simps)
    then have "0 < unat ?size" by (simp add: unat_gt_0)
    moreover have "unat ?size < unat n" using rest(1) by (simp only: word_less_nat_alt)
    ultimately have "unat n' < unat n" unfolding n' by linarith
    then show ?thesis by simp
  next
    case False
    then show ?thesis using n' map length_om_erase unmap_target_member [OF target] by fastforce
  qed
qed

function UnmapVirtualMemory :: "u32 \<Rightarrow> u32 \<Rightarrow> process_memory \<Rightarrow> (bool \<times> process_memory) res" where
  "UnmapVirtualMemory vaddr n p =
    (case unmap_block vaddr n p of
       Inl e \<Rightarrow> Inl e
     | Inr (ok, rest, p') \<Rightarrow> (case rest of
         None \<Rightarrow> Inr (ok, p')
       | Some (vaddr', n') \<Rightarrow> UnmapVirtualMemory vaddr' n' p'))"
  by pat_completeness auto
termination
  by (relation "measures [\<lambda>(vaddr, n, p). unat n, \<lambda>(vaddr, n, p). length (virtual_memory p)]")
    (auto dest: unmap_block_decreases)

declare UnmapVirtualMemory.simps [simp del]

definition ResolveVirtualAddr :: "u32 \<Rightarrow> process_memory \<Rightarrow> u32 option" where
  "ResolveVirtualAddr addr p =
    (if before_upper addr (virtual_memory p) = [] then None
     else case last (before_upper addr (virtual_memory p)) of (vstart, b) \<Rightarrow>
       if vstart + vsize b \<le> addr then None else Some (phys_start b + (addr - vstart)))"

definition ResolveVirtualAddrWithSize :: "u32 \<Rightarrow> process_memory \<Rightarrow> (u32 \<times> u32) option" where
  "ResolveVirtualAddrWithSize addr p =
    (if before_upper addr (virtual_memory p) = [] then None
     else case last (before_upper addr (virtual_memory p)) of (vstart, b) \<Rightarrow>
       if vstart + vsize b \<le> addr then None
       else Some (phys_start b + (addr - vstart), vsize b - (addr - vstart)))"

text \<open>The loop of \<open>FindAvailableVirtualMemory\<close> over the mappings, which moves the candidate behind those in its way.\<close>

fun move_candidate :: "u32 \<Rightarrow> u32 \<Rightarrow> virtual_memory_block omap \<Rightarrow> u32" where
  "move_candidate n candidate [] = candidate"
| "move_candidate n candidate ((vstart, b) # m) =
    (if vstart + vsize b < candidate then move_candidate n candidate m
     else if vstart < candidate + n then move_candidate n (vstart + vsize b) m
     else candidate)"

definition FindAvailableVirtualMemory :: "u32 \<Rightarrow> u32 \<Rightarrow> u32 \<Rightarrow> process_memory \<Rightarrow> u32 option" where
  "FindAvailableVirtualMemory n vaddr_start vaddr_end p =
    (let candidate = move_candidate n vaddr_start (virtual_memory p)
     in if vaddr_end < candidate + n then None else Some candidate)"

end
