(* ===== verification/PhysicalMemory.thy ===== *)
theory PhysicalMemory
  imports PageTable
begin

text \<open>
  Physical and virtual memory accesses (\<open>memory.h\<close>, \<open>memory.cpp\<close>, \<open>arm/processor_default\<close>): the byte
  arrays of the memory busses with the access hooks of their pages, the device handlers behind
  proxy busses, the search for the bus of an address (\<open>ReadLegacy\<close>, \<open>WriteLegacy\<close>), and the
  processor's accesses by virtual address, which use the cached host page when there is one.

  Device handlers (the template argument of \<open>ProxyBus\<close>) and hook handlers (the virtual functions
  \<open>OnRead\<close> and \<open>OnWrite\<close>) are given by a record of functions on the memory state; \<open>'d\<close> is the state of
  the devices. An access of one, two or four bytes is described by its width, and its value by a
  32-bit word of which only the low bytes count.
\<close>

section \<open>State\<close>

datatype width = W8 | W16 | W32

fun nbytes :: "width \<Rightarrow> nat" where
  "nbytes W8 = 1"
| "nbytes W16 = 2"
| "nbytes W32 = 4"

text \<open>\<open>HookBase\<close> with its \<open>MemoryRange\<close>; the \<open>next\<close> chain of a page is a list.\<close>

record hook =
  range_start :: u32
  range_bytes :: u32
  hook_handler :: nat

record 'd physmem =
  bus_data :: "bus \<Rightarrow> nat \<Rightarrow> u8"
  read_hooks :: "bus \<Rightarrow> nat \<Rightarrow> hook list"
  write_hooks :: "bus \<Rightarrow> nat \<Rightarrow> hook list"
  subscribers :: "page_table list"
  devices :: 'd

record 'd handlers =
  dev_read :: "bus \<Rightarrow> width \<Rightarrow> u32 \<Rightarrow> 'd physmem \<Rightarrow> (u32 \<times> 'd physmem) res"
  dev_write :: "bus \<Rightarrow> width \<Rightarrow> u32 \<Rightarrow> u32 \<Rightarrow> 'd physmem \<Rightarrow> 'd physmem res"
  hook_OnRead :: "nat \<Rightarrow> u32 \<Rightarrow> u32 \<Rightarrow> 'd physmem \<Rightarrow> 'd physmem res"
  hook_OnWrite :: "nat \<Rightarrow> u32 \<Rightarrow> u32 \<Rightarrow> u32 \<Rightarrow> 'd physmem \<Rightarrow> 'd physmem res"

section \<open>Bytes\<close>

text \<open>\<open>memcpy\<close> from and to a byte array, least significant byte first.\<close>

fun load_le :: "(nat \<Rightarrow> u8) \<Rightarrow> nat \<Rightarrow> nat \<Rightarrow> u32" where
  "load_le f a 0 = 0"
| "load_le f a (Suc n) = ucast (f a) OR push_bit 8 (load_le f (Suc a) n)"

fun store_le :: "(nat \<Rightarrow> u8) \<Rightarrow> nat \<Rightarrow> nat \<Rightarrow> u32 \<Rightarrow> (nat \<Rightarrow> u8)" where
  "store_le f a 0 v = f"
| "store_le f a (Suc n) v = store_le (f(a := ucast v)) (Suc a) n (drop_bit 8 v)"

definition trunc_width :: "width \<Rightarrow> u32 \<Rightarrow> u32" where
  "trunc_width w v = take_bit (8 * nbytes w) v"

text \<open>Access to \<open>data\<close> at an offset; past the end of the array it is undefined behaviour.\<close>

definition data_read :: "bus \<Rightarrow> nat \<Rightarrow> width \<Rightarrow> 'd physmem \<Rightarrow> u32 res" where
  "data_read b off w m =
    (if unat (bus_size b) < off + nbytes w then Inl UndefinedBehaviour
     else Inr (load_le (bus_data m b) off (nbytes w)))"

definition data_write :: "bus \<Rightarrow> nat \<Rightarrow> width \<Rightarrow> u32 \<Rightarrow> 'd physmem \<Rightarrow> 'd physmem res" where
  "data_write b off w v m =
    (if unat (bus_size b) < off + nbytes w then Inl UndefinedBehaviour
     else Inr (m\<lparr>bus_data := (bus_data m)(b := store_le (bus_data m b) off (nbytes w) v)\<rparr>))"

section \<open>Busses\<close>

abbreviation bus_page :: "bus \<Rightarrow> u32 \<Rightarrow> nat" where
  "bus_page b address \<equiv> unat (drop_bit 12 (address - bus_start b))"

text \<open>\<open>MemoryBus::Read*\<close> and \<open>Write*\<close>: the first hook of the page runs before the access.\<close>

definition MemoryBus_Read :: "'d handlers \<Rightarrow> bus \<Rightarrow> width \<Rightarrow> u32 \<Rightarrow> 'd physmem \<Rightarrow> (u32 \<times> 'd physmem) res" where
  "MemoryBus_Read h b w address m =
    bindE (case read_hooks m b (bus_page b address) of
             [] \<Rightarrow> Inr m
           | hk # _ \<Rightarrow> hook_OnRead h (hook_handler hk) address (of_nat (nbytes w)) m)
      (\<lambda>m. bindE (data_read b (unat (address - bus_start b)) w m) (\<lambda>v. Inr (v, m)))"

definition MemoryBus_Write :: "'d handlers \<Rightarrow> bus \<Rightarrow> width \<Rightarrow> u32 \<Rightarrow> u32 \<Rightarrow> 'd physmem \<Rightarrow> 'd physmem res" where
  "MemoryBus_Write h b w address v m =
    bindE (case write_hooks m b (bus_page b address) of
             [] \<Rightarrow> Inr m
           | hk # _ \<Rightarrow> hook_OnWrite h (hook_handler hk) address (of_nat (nbytes w)) (trunc_width w v) m)
      (data_write b (unat (address - bus_start b)) w v)"

text \<open>\<open>ProxyBus\<close> forwards to its handler, by the offset in the bus.\<close>

definition ProxyBus_Read :: "'d handlers \<Rightarrow> bus \<Rightarrow> width \<Rightarrow> u32 \<Rightarrow> 'd physmem \<Rightarrow> (u32 \<times> 'd physmem) res" where
  "ProxyBus_Read h b w address m =
    bindE (dev_read h b w (address - bus_start b) m) (\<lambda>(v, m). Inr (trunc_width w v, m))"

definition ProxyBus_Write :: "'d handlers \<Rightarrow> bus \<Rightarrow> width \<Rightarrow> u32 \<Rightarrow> u32 \<Rightarrow> 'd physmem \<Rightarrow> 'd physmem res" where
  "ProxyBus_Write h b w address v m = dev_write h b w (address - bus_start b) (trunc_width w v) m"

definition ReadLegacy :: "'d handlers \<Rightarrow> width \<Rightarrow> u32 \<Rightarrow> 'd physmem \<Rightarrow> (u32 \<times> 'd physmem) res" where
  "ReadLegacy h w address m = (case find_bus address of
      None \<Rightarrow> Inl (UnknownPhysical address)
    | Some b \<Rightarrow> if IsMemoryBus b then MemoryBus_Read h b w address m else ProxyBus_Read h b w address m)"

definition WriteLegacy :: "'d handlers \<Rightarrow> width \<Rightarrow> u32 \<Rightarrow> u32 \<Rightarrow> 'd physmem \<Rightarrow> 'd physmem res" where
  "WriteLegacy h w address v m = (case find_bus address of
      None \<Rightarrow> Inl (UnknownPhysical address)
    | Some b \<Rightarrow> if IsMemoryBus b then MemoryBus_Write h b w address v m
                else ProxyBus_Write h b w address v m)"

section \<open>Accesses by virtual address\<close>

text \<open>\<open>Memory::Read\<close> and \<open>Memory::Write\<close> through a host page pointer.\<close>

definition HostPage_Read :: "bus \<times> u32 \<Rightarrow> width \<Rightarrow> u32 \<Rightarrow> 'd physmem \<Rightarrow> u32 res" where
  "HostPage_Read page w offset m = data_read (fst page) (unat (snd page) + unat offset) w m"

definition HostPage_Write :: "bus \<times> u32 \<Rightarrow> width \<Rightarrow> u32 \<Rightarrow> u32 \<Rightarrow> 'd physmem \<Rightarrow> 'd physmem res" where
  "HostPage_Write page w offset v m = data_write (fst page) (unat (snd page) + unat offset) w v m"

definition VM_Read :: "'d handlers \<Rightarrow> page_table \<Rightarrow> width \<Rightarrow> u32 \<Rightarrow> 'd physmem \<Rightarrow> (u32 \<times> 'd physmem) res" where
  "VM_Read h pt w address m = (case LookupHostMemory pt address of
      Some page \<Rightarrow> bindE (HostPage_Read page w (address AND 0xfff) m) (\<lambda>v. Inr (v, m))
    | None \<Rightarrow> bindE (TranslateVirtualAddress pt address) (\<lambda>paddr. ReadLegacy h w paddr m))"

definition VM_Write :: "'d handlers \<Rightarrow> page_table \<Rightarrow> width \<Rightarrow> u32 \<Rightarrow> u32 \<Rightarrow> 'd physmem \<Rightarrow> 'd physmem res" where
  "VM_Write h pt w address v m = (case LookupHostMemory pt address of
      Some page \<Rightarrow> HostPage_Write page w (address AND 0xfff) v m
    | None \<Rightarrow> bindE (TranslateVirtualAddress pt address) (\<lambda>paddr. WriteLegacy h w paddr v m))"

section \<open>Bytes stored and loaded\<close>

lemma store_le_outside: "i < a \<or> a + n \<le> i \<Longrightarrow> store_le f a n v i = f i"
  by (induction f a n v rule: store_le.induct) auto

lemma load_le_cong: "(\<And>i. a \<le> i \<Longrightarrow> i < a + n \<Longrightarrow> f i = g i) \<Longrightarrow> load_le f a n = load_le g a n"
proof (induction n arbitrary: a)
  case (Suc n)
  have "load_le f (Suc a) n = load_le g (Suc a) n" by (rule Suc.IH) (simp add: Suc.prems)
  then show ?case by (simp add: Suc.prems)
qed simp

lemma load_store_le_other:
  "b + m \<le> a \<or> a + n \<le> b \<Longrightarrow> load_le (store_le f a n v) b m = load_le f b m"
  by (rule load_le_cong) (auto intro: store_le_outside)

lemma load_store_le: "n \<le> 4 \<Longrightarrow> load_le (store_le f a n v) a n = take_bit (8 * n) v"
proof (induction n arbitrary: f a v)
  case (Suc n)
  have "load_le (store_le f a (Suc n) v) a (Suc n) =
      ucast (ucast v :: u8) OR push_bit 8 (load_le (store_le (f(a := ucast v)) (Suc a) n (drop_bit 8 v)) (Suc a) n)"
    by (simp add: store_le_outside)
  also have "\<dots> = ucast (ucast v :: u8) OR push_bit 8 (take_bit (8 * n) (drop_bit 8 v))"
    using Suc by simp
  also have "\<dots> = take_bit (8 * Suc n) v"
    by (rule bit_word_eqI) (auto simp: bit_simps)
  finally show ?case .
qed simp

section \<open>Read after write\<close>

lemma nbytes_bounds: "0 < nbytes w" "nbytes w \<le> 4"
  by (cases w; simp)+

lemma data_read_write:
  "data_write b off w v m = Inr m' \<Longrightarrow> data_read b off w m' = Inr (trunc_width w v)"
  using nbytes_bounds [of w]
  by (auto simp: data_read_def data_write_def trunc_width_def load_store_le split: if_splits)

lemma data_read_write_other:
  "data_write b off w v m = Inr m' \<Longrightarrow>
    c \<noteq> b \<or> off' + nbytes w' \<le> off \<or> off + nbytes w \<le> off' \<Longrightarrow>
    data_read c off' w' m' = data_read c off' w' m"
  by (auto simp: data_read_def data_write_def load_store_le_other split: if_splits)

lemma data_write_frame:
  "data_write b off w v m = Inr m' \<Longrightarrow>
    subscribers m' = subscribers m \<and> read_hooks m' = read_hooks m \<and> write_hooks m' = write_hooks m
    \<and> devices m' = devices m"
  by (auto simp: data_write_def split: if_splits)

lemma data_access_ok:
  "off + nbytes w \<le> unat (bus_size b) \<Longrightarrow> \<exists>m'. data_write b off w v m = Inr m'"
  "off + nbytes w \<le> unat (bus_size b) \<Longrightarrow> \<exists>v. data_read b off w m = Inr v"
  by (auto simp: data_write_def data_read_def)

text \<open>
  An access to plain memory: inside a memory bus, away from its end, on a page without hooks.
\<close>

definition plain_access :: "width \<Rightarrow> u32 \<Rightarrow> 'd physmem \<Rightarrow> bool" where
  "plain_access w a m = (case find_bus a of
      None \<Rightarrow> False
    | Some b \<Rightarrow> IsMemoryBus b \<and> read_hooks m b (bus_page b a) = [] \<and> write_hooks m b (bus_page b a) = []
        \<and> unat (a - bus_start b) + nbytes w \<le> unat (bus_size b))"

text \<open>The location in host memory of a physical address.\<close>

definition phys_loc :: "u32 \<Rightarrow> (bus \<times> nat) option" where
  "phys_loc a = (case find_bus a of None \<Rightarrow> None | Some b \<Rightarrow> Some (b, unat (a - bus_start b)))"

lemma ReadLegacy_plain:
  assumes "plain_access w a m" and "phys_loc a = Some (b, off)"
  shows "ReadLegacy h w a m = bindE (data_read b off w m) (\<lambda>v. Inr (v, m))"
  using assms by (auto simp: plain_access_def phys_loc_def ReadLegacy_def MemoryBus_Read_def split: option.splits)

lemma WriteLegacy_plain:
  assumes "plain_access w a m" and "phys_loc a = Some (b, off)"
  shows "WriteLegacy h w a v m = data_write b off w v m"
  using assms by (auto simp: plain_access_def phys_loc_def WriteLegacy_def MemoryBus_Write_def split: option.splits)

lemma plain_loc: "plain_access w a m \<Longrightarrow> \<exists>b off. phys_loc a = Some (b, off) \<and> off + nbytes w \<le> unat (bus_size b)"
  by (auto simp: plain_access_def phys_loc_def split: option.splits)

lemma plain_access_write: "data_write b off w v m = Inr m' \<Longrightarrow> plain_access w' a m' = plain_access w' a m"
  by (frule data_write_frame) (simp add: plain_access_def split: option.splits)

text \<open>Distinct addresses of the map have distinct locations, and words apart do not overlap.\<close>

lemma phys_loc_offset:
  assumes "phys_loc a = Some (b, off)"
  shows "int off = uint a - uint (bus_start b)" "uint (bus_start b) \<le> uint a"
proof -
  from assms have "IsInside a b" "off = unat (a - bus_start b)"
    by (auto simp: phys_loc_def find_bus_eq_Some split: option.splits)
  then show "int off = uint a - uint (bus_start b)" "uint (bus_start b) \<le> uint a"
    by (simp_all add: IsInside_def word_le_def uint_sub_u32)
qed

lemma phys_loc_apart:
  assumes "phys_loc a = Some (b, off)" "phys_loc a' = Some (b', off')"
    and "uint a + int (nbytes w) \<le> uint a' \<or> uint a' + int (nbytes w') \<le> uint a"
  shows "b' \<noteq> b \<or> off' + nbytes w' \<le> off \<or> off + nbytes w \<le> off'"
  using phys_loc_offset [OF assms(1)] phys_loc_offset [OF assms(2)] assms(3) by fastforce

text \<open>Reads after a write to plain memory.\<close>

lemma plain_write_read:
  assumes a: "plain_access w a m"
  shows "\<exists>m'. WriteLegacy h w a v m = Inr m'
    \<and> ReadLegacy h w a m' = Inr (trunc_width w v, m')
    \<and> (\<forall>a' w'. plain_access w' a' m \<and> (uint a + int (nbytes w) \<le> uint a' \<or> uint a' + int (nbytes w') \<le> uint a)
        \<longrightarrow> (\<exists>x. ReadLegacy h w' a' m = Inr (x, m) \<and> ReadLegacy h w' a' m' = Inr (x, m')))
    \<and> subscribers m' = subscribers m \<and> devices m' = devices m"
proof -
  obtain b off where loc: "phys_loc a = Some (b, off)" "off + nbytes w \<le> unat (bus_size b)"
    using plain_loc [OF a] by blast
  obtain m' where m': "data_write b off w v m = Inr m'" using data_access_ok(1) [OF loc(2)] by blast
  note plain' = plain_access_write [OF m']
  have other: "\<exists>x. ReadLegacy h w' a' m = Inr (x, m) \<and> ReadLegacy h w' a' m' = Inr (x, m')"
    if a': "plain_access w' a' m"
      and apart: "uint a + int (nbytes w) \<le> uint a' \<or> uint a' + int (nbytes w') \<le> uint a" for a' w'
  proof -
    obtain b' off' where loc': "phys_loc a' = Some (b', off')" "off' + nbytes w' \<le> unat (bus_size b')"
      using plain_loc [OF a'] by blast
    obtain x where "data_read b' off' w' m = Inr x" using data_access_ok(2) [OF loc'(2)] by blast
    moreover have "data_read b' off' w' m' = data_read b' off' w' m"
      using data_read_write_other [OF m' phys_loc_apart [OF loc(1) loc'(1) apart]] .
    ultimately show ?thesis using a' loc'(1) plain' [of w' a'] by (simp add: ReadLegacy_plain)
  qed
  show ?thesis
    using m' a loc plain' [of w a] data_read_write [OF m'] data_write_frame [OF m'] other
    by (simp add: WriteLegacy_plain ReadLegacy_plain)
qed

text \<open>
  C34: physical memory returns what was written. A write of one, two or four bytes to plain memory
  succeeds, a read of the same width at the same address returns its low bytes, every read at
  addresses the write does not cover is unaffected, and hooks, devices and page tables are kept.
\<close>

theorem physical_read_after_write:
  assumes a: "plain_access w a m"
  shows "\<exists>m'. WriteLegacy h w a v m = Inr m'
    \<and> ReadLegacy h w a m' = Inr (trunc_width w v, m')
    \<and> (\<forall>a' w'. plain_access w' a' m \<and> (uint a + int (nbytes w) \<le> uint a' \<or> uint a' + int (nbytes w') \<le> uint a)
        \<longrightarrow> (\<exists>x. ReadLegacy h w' a' m = Inr (x, m) \<and> ReadLegacy h w' a' m' = Inr (x, m')))
    \<and> subscribers m' = subscribers m \<and> devices m' = devices m"
  using assms by (rule plain_write_read)

text \<open>Blank memory with two processors, no hooks, and devices that do not answer.\<close>

definition example_mem :: "unit physmem" where
  "example_mem = \<lparr>bus_data = (\<lambda>_ _. 0), read_hooks = (\<lambda>_ _. []), write_hooks = (\<lambda>_ _. []),
     subscribers = [PageTable_init, PageTable_init], devices = ()\<rparr>"

definition example_handlers :: "unit handlers" where
  "example_handlers = \<lparr>dev_read = (\<lambda>_ _ a _. Inl (DeviceError a)), dev_write = (\<lambda>_ _ a _ _. Inl (DeviceError a)),
     hook_OnRead = (\<lambda>_ _ _ m. Inr m), hook_OnWrite = (\<lambda>_ _ _ _ m. Inr m)\<rparr>"

lemma example_plain: "plain_access W32 0x20000010 example_mem"
proof -
  have "find_bus 0x20000010 = Some FCRAM" by code_simp
  then show ?thesis by (simp add: plain_access_def example_mem_def IsMemoryBus_def)
qed

theorem physical_read_after_write_witness:
  "\<exists>m'. WriteLegacy example_handlers W32 0x20000010 0xDEADBEEF example_mem = Inr m'
    \<and> ReadLegacy example_handlers W32 0x20000010 m' = Inr (0xDEADBEEF, m')"
  using physical_read_after_write [OF example_plain, of example_handlers "0xDEADBEEF"]
  by (auto simp: trunc_width_def)

section \<open>The host page cache\<close>

lemma bus_aligned: "4096 dvd uint (bus_start b)" "4096 dvd uint (bus_size b)"
  by (cases b; simp)+

lemma bus_top: "uint (bus_start b) + uint (bus_size b) < 4294967296"
  by (cases b) simp_all

lemma low_bits_less: "uint (a AND 0xfff :: u32) < 4096"
proof -
  have "(0xfff :: u32) = mask 12" by (simp add: mask_numeral)
  then have "a AND 0xfff = take_bit 12 a" by (simp only: take_bit_eq_mask)
  then show ?thesis by (simp only: unsigned_take_bit_eq) (simp add: take_bit_eq_mod)
qed

text \<open>All addresses of an aligned page lie on one bus.\<close>

lemma page_on_bus:
  assumes p: "4096 dvd uint p" "find_bus p = Some b" and k: "uint k < 4096"
  shows "find_bus (p + k) = Some b"
    and "unat (p + k - bus_start b) = unat (p - bus_start b) + unat k"
proof -
  obtain q s n where q: "uint p = 4096 * q" and s: "uint (bus_start b) = 4096 * s" and n: "uint (bus_size b) = 4096 * n"
    using p(1) bus_aligned by (metis dvdE)
  have inside: "IsInside p b" using p(2) by (simp add: find_bus_eq_Some)
  then have qs: "s \<le> q" "q < s + n"
    using bus_top [of b] by (simp_all add: IsInside_def bus_end_def word_le_def word_less_def uint_add_u32 q s n)
  have top: "4096 * (s + n) < 4294967296" using bus_top [of b] by (simp add: s n)
  have pk: "uint (p + k) = 4096 * q + uint k"
    using qs top k by (simp add: uint_add_u32 q)
  show "find_bus (p + k) = Some b"
    using qs top k uint_u32_bounds [of k]
    by (simp only: find_bus_eq_Some IsInside_def bus_end_def word_le_def word_less_def uint_add_u32 [of "bus_start b"] pk q s n)
      (simp split: if_splits)
  have "uint (p + k - bus_start b) = uint (p - bus_start b) + uint k"
    using qs uint_u32_bounds [of k] by (simp only: uint_sub_u32 pk q s) simp
  then show "unat (p + k - bus_start b) = unat (p - bus_start b) + unat k"
    by (metis nat_add_distrib uint_ge_0 unat_eq_nat_uint)
qed

text \<open>The hooks of the physical page behind a virtual address.\<close>

definition unhooked :: "page_table \<Rightarrow> u32 \<Rightarrow> 'd physmem \<Rightarrow> bool" where
  "unhooked pt a m \<longleftrightarrow> (\<forall>p b. TranslateVirtualAddress pt a = Inr p \<and> find_bus p = Some b \<longrightarrow>
     read_hooks m b (bus_page b p) = [] \<and> write_hooks m b (bus_page b p) = [])"

lemma host_page_cases:
  assumes inv: "pt_inv pt" and host: "LookupHostMemory pt a = Some page"
  obtains b p off where "page = (b, off)" "TranslateVirtualAddress pt a = Inr p" "find_bus p = Some b"
    "IsMemoryBus b" "unat (p - bus_start b) = unat off + unat (a AND 0xfff)"
proof -
  let ?pa = "physical_addresses pt (page_index a)"
  have pa: "?pa \<noteq> unmapped" "4096 dvd uint ?pa" "LookupMemoryBackedPage ?pa = Some page"
    using inv host by (cases page; auto simp: pt_inv_def LookupHostMemory_def)+
  then obtain b where b: "find_bus ?pa = Some b" "IsMemoryBus b" "page = (b, ?pa - bus_start b)"
    by (auto simp: LookupMemoryBackedPage_def GetMemoryBackedPageFor_def split: option.splits if_splits)
  show ?thesis
  proof (rule that [OF b(3)])
    show "TranslateVirtualAddress pt a = Inr (?pa + (a AND 0xfff))"
      using pa(1) by (simp add: TranslateVirtualAddress_def)
    show "find_bus (?pa + (a AND 0xfff)) = Some b" "IsMemoryBus b"
      "unat (?pa + (a AND 0xfff) - bus_start b) = unat (?pa - bus_start b) + unat (a AND 0xfff)"
      using page_on_bus [OF pa(2) b(1) low_bits_less] b(2) by simp_all
  qed
qed

text \<open>Virtual accesses through the cache and through translation.\<close>

lemma VM_access_translated:
  assumes "pt_inv pt" and "unhooked pt a m"
  shows "VM_Read h pt w a m = bindE (TranslateVirtualAddress pt a) (\<lambda>p. ReadLegacy h w p m)
    \<and> VM_Write h pt w a v m = bindE (TranslateVirtualAddress pt a) (\<lambda>p. WriteLegacy h w p v m)"
proof (cases "LookupHostMemory pt a")
  case (Some page)
  from host_page_cases [OF assms(1) Some] obtain b p off where
    c: "page = (b, off)" "TranslateVirtualAddress pt a = Inr p" "find_bus p = Some b" "IsMemoryBus b"
    "unat (p - bus_start b) = unat off + unat (a AND 0xfff)" .
  moreover have "read_hooks m b (bus_page b p) = []" "write_hooks m b (bus_page b p) = []"
    using assms(2) c(2,3) by (auto simp: unhooked_def)
  ultimately show ?thesis
    using Some by (simp add: VM_Read_def VM_Write_def ReadLegacy_def WriteLegacy_def MemoryBus_Read_def
        MemoryBus_Write_def HostPage_Read_def HostPage_Write_def)
qed (simp add: VM_Read_def VM_Write_def)

text \<open>
  The cached host page is only a short cut. When the page table satisfies its invariant and the
  physical page has no hooks, a read or write by virtual address does exactly what translating the
  address and searching the busses does, whether or not a host page is cached.
\<close>

theorem host_page_fast_path:
  assumes "pt_inv pt" and "unhooked pt a m"
  shows "VM_Read h pt w a m = bindE (TranslateVirtualAddress pt a) (\<lambda>p. ReadLegacy h w p m)
    \<and> VM_Write h pt w a v m = bindE (TranslateVirtualAddress pt a) (\<lambda>p. WriteLegacy h w p v m)"
  using assms by (rule VM_access_translated)

theorem host_page_fast_path_witness:
  "\<exists>pt. PageTable_Insert 0x00100000 0x20000000 0x2000 PageTable_init = Inr pt
    \<and> LookupHostMemory pt 0x00100010 = Some (FCRAM, 0)
    \<and> VM_Read example_handlers pt W32 0x00100010 example_mem
      = bindE (TranslateVirtualAddress pt 0x00100010) (\<lambda>p. ReadLegacy example_handlers W32 p example_mem)"
proof -
  obtain pt where pt: "PageTable_Insert 0x00100000 0x20000000 0x2000 PageTable_init = Inr pt"
    and host: "host_memory pt 256 = (if LookupMemoryBackedPage 0x20000000 \<noteq> None
        then LookupMemoryBackedPage 0x20000000 else host_memory PageTable_init 256)"
    using PageTable_Insert_spec [OF example_range(1), of "0x20000000" PageTable_init]
    by (auto simp: example_range(3))
  have look: "LookupMemoryBackedPage 0x20000000 = Some (FCRAM, 0)" by code_simp
  have inv: "pt_inv pt"
    by (rule pt_inv_Insert [OF pt_inv_init example_range(1,2) _ pt]) (simp add: PageTable_init_def)
  have "unhooked pt 0x00100010 example_mem" by (simp add: unhooked_def example_mem_def)
  from host_page_fast_path [OF inv this] pt host look show ?thesis
    by (simp add: LookupHostMemory_def)
qed

end
