(* ===== verification/KernelSystem.thy ===== *)
theory KernelSystem
  imports KernelScheduler MemoryManager VirtualMemory PhysicalMemory
begin

text \<open>
  The kernel together with what its threads run in: the address spaces of the processes, physical memory and its
  allocators, thread local storage, and named ports (\<open>OS\<close>, \<open>Process\<close> and \<open>Thread\<close> in \<open>os.hpp\<close> and \<open>os.cpp\<close>). On these
  are defined the accesses of the kernel to the memory of a process, the control of memory, shared memory, address
  arbiters, the closing of handles, and ports and sessions.

  Where the code asks a \<open>std::shared_ptr\<close> for its number of owners, which include variables of host functions, that number
  is an argument \<open>use_count\<close>. An owner of memory exists as long as its object does.
\<close>

section \<open>State\<close>

record tls_manager =
  slot_occupied :: "bool list"
  next_tls_addr :: u32

text \<open>
  What a thread runs in the kernel when it is dispatched again, before its system call returns (\<open>callback_for_svc\<close>): the
  continuation of a request, given by the client session and its handle, the end of a request, and the receipt of a message.
\<close>

datatype svc_callback = SendRequest nat u32 | RequestDone | MessageReceived

text \<open>
  Of an emulated process the address space has a processor, of a \<open>FakeProcess\<close> it has none. \<open>static_buffers\<close> are the
  buffers a \<open>FakeProcess\<close> keeps in host memory, in the order of their addresses. The thread local storage of an emulated
  thread is memory of its process, at \<open>tls_addr\<close>; that of a \<open>FakeThread\<close> is an array of its own.
\<close>

record 'd system =
  kern :: kernel
  spaces :: "nat \<Rightarrow> process_memory"
  static_buffers :: "nat \<Rightarrow> (u32 \<times> u8 list) list"
  memory_allocator :: "nat \<Rightarrow> nat"
  linear_base_addr :: "nat \<Rightarrow> u32"
  tls_managers :: "nat \<Rightarrow> tls_manager"
  memory_regions :: "memory_manager list"
  ram :: "'d physmem"
  tls_addr :: "nat \<Rightarrow> u32 option"
  fake_tls :: "nat \<Rightarrow> u32 list"
  ports :: "string \<Rightarrow> nat option"
  process_id :: "nat \<Rightarrow> u32"
  next_pid :: u32
  callbacks :: "nat \<Rightarrow> svc_callback option"

text \<open>The process of a thread.\<close>

definition process_of :: "nat \<Rightarrow> 'd system \<Rightarrow> nat res" where
  "process_of t s = bindE (get_thread t (kern s)) (\<lambda>th. Inr (parent_process th))"

definition put_space :: "nat \<Rightarrow> process_memory \<Rightarrow> 'd system \<Rightarrow> 'd system" where
  "put_space pid p s = s\<lparr>spaces := (spaces s)(pid := p)\<rparr>"

definition on_kernel :: "(kernel \<Rightarrow> kernel res) \<Rightarrow> 'd system \<Rightarrow> 'd system res" where
  "on_kernel f s = bindE (f (kern s)) (\<lambda>k. Inr (s\<lparr>kern := k\<rparr>))"

definition owner_exists :: "'d system \<Rightarrow> nat \<Rightarrow> bool" where
  "owner_exists s ob \<longleftrightarrow> objects (kern s) ob \<noteq> None"

text \<open>Five modules of the firmware come first; the debug process and the boot thread get the two numbers after theirs.\<close>

definition num_firm_modules :: u32 where
  "num_firm_modules = 5"

definition MakeNewProcessId :: "'d system \<Rightarrow> u32 \<times> 'd system" where
  "MakeNewProcessId s =
    (if next_pid s = num_firm_modules + 1 then (num_firm_modules + 1, s\<lparr>next_pid := 0\<rparr>)
     else if next_pid s + 1 = num_firm_modules then (num_firm_modules - 1, s\<lparr>next_pid := num_firm_modules + 2\<rparr>)
     else (next_pid s, s\<lparr>next_pid := next_pid s + 1\<rparr>))"

section \<open>The memory of a process\<close>

definition IsInternalAddress :: "u32 \<Rightarrow> bool" where
  "IsInternalAddress addr \<longleftrightarrow> drop_bit 31 addr \<noteq> 0"

definition buffer_at :: "u32 \<Rightarrow> nat \<Rightarrow> (u32 \<times> u8 list) list \<Rightarrow> (u32 \<times> u8 list) option" where
  "buffer_at addr n bs = List.find (\<lambda>(a, data). a \<le> addr \<and> unat addr + n - 1 < unat a + length data) bs"

definition ReadMemory :: "'d handlers \<Rightarrow> nat \<Rightarrow> u32 \<Rightarrow> 'd system \<Rightarrow> (u8 \<times> 'd system) res" where
  "ReadMemory h pid addr s =
    (if processor (spaces s pid) = None \<and> IsInternalAddress addr
     then (case buffer_at addr 1 (static_buffers s pid) of
         None \<Rightarrow> Inl RuntimeError
       | Some (a, data) \<Rightarrow> Inr (data ! (unat addr - unat a), s))
     else (case ResolveVirtualAddr addr (spaces s pid) of
         None \<Rightarrow> Inl RuntimeError
       | Some paddr \<Rightarrow> bindE (ReadLegacy h W8 paddr (ram s)) (\<lambda>(v, m). Inr (ucast v, s\<lparr>ram := m\<rparr>))))"

definition put_buffer :: "nat \<Rightarrow> u32 \<Rightarrow> (u8 list \<Rightarrow> u8 list) \<Rightarrow> 'd system \<Rightarrow> 'd system" where
  "put_buffer pid a f s = s\<lparr>static_buffers := (static_buffers s)(pid :=
    map (\<lambda>(b, data). if b = a then (b, f data) else (b, data)) (static_buffers s pid))\<rparr>"

definition WriteMemory :: "'d handlers \<Rightarrow> nat \<Rightarrow> u32 \<Rightarrow> u8 \<Rightarrow> 'd system \<Rightarrow> 'd system res" where
  "WriteMemory h pid addr v s =
    (if processor (spaces s pid) = None \<and> IsInternalAddress addr
     then (case buffer_at addr 1 (static_buffers s pid) of
         None \<Rightarrow> Inl RuntimeError
       | Some (a, data) \<Rightarrow> Inr (put_buffer pid a (\<lambda>data. data[unat addr - unat a := v]) s))
     else (case ResolveVirtualAddr addr (spaces s pid) of
         None \<Rightarrow> Inl RuntimeError
       | Some paddr \<Rightarrow> bindE (WriteLegacy h W8 paddr (ucast v) (ram s)) (\<lambda>m. Inr (s\<lparr>ram := m\<rparr>))))"

definition ReadMemory32 :: "'d handlers \<Rightarrow> nat \<Rightarrow> u32 \<Rightarrow> 'd system \<Rightarrow> (u32 \<times> 'd system) res" where
  "ReadMemory32 h pid addr s =
    bindE (ReadMemory h pid addr s) (\<lambda>(b0, s).
    bindE (ReadMemory h pid (addr + 1) s) (\<lambda>(b1, s).
    bindE (ReadMemory h pid (addr + 2) s) (\<lambda>(b2, s).
    bindE (ReadMemory h pid (addr + 3) s) (\<lambda>(b3, s).
    Inr (ucast b0 OR push_bit 8 (ucast b1) OR push_bit 16 (ucast b2) OR push_bit 24 (ucast b3), s)))))"

text \<open>\<open>Process::WriteMemory32\<close>, and the overriding method of \<open>FakeProcess\<close>, which for an unaligned address writes twice.\<close>

definition Process_WriteMemory32 :: "'d handlers \<Rightarrow> nat \<Rightarrow> u32 \<Rightarrow> u32 \<Rightarrow> 'd system \<Rightarrow> 'd system res" where
  "Process_WriteMemory32 h pid addr v s =
    bindE (WriteMemory h pid addr (ucast v) s) (\<lambda>s.
    bindE (WriteMemory h pid (addr + 1) (ucast (drop_bit 8 v)) s) (\<lambda>s.
    bindE (WriteMemory h pid (addr + 2) (ucast (drop_bit 16 v)) s)
      (WriteMemory h pid (addr + 3) (ucast (drop_bit 24 v)))))"

definition WriteMemory32 :: "'d handlers \<Rightarrow> nat \<Rightarrow> u32 \<Rightarrow> u32 \<Rightarrow> 'd system \<Rightarrow> 'd system res" where
  "WriteMemory32 h pid addr v s =
    (if processor (spaces s pid) \<noteq> None then Process_WriteMemory32 h pid addr v s
     else bindE (if addr AND 3 \<noteq> 0 then Process_WriteMemory32 h pid addr v s else Inr s) (\<lambda>s.
       if IsInternalAddress addr
       then (case buffer_at addr 4 (static_buffers s pid) of
           None \<Rightarrow> Inl RuntimeError
         | Some (a, data) \<Rightarrow> let i = unat addr - unat a in
             Inr (put_buffer pid a (\<lambda>data. data[i := ucast v, i + 1 := ucast (drop_bit 8 v), i + 2 := ucast (drop_bit 16 v),
               i + 3 := ucast (drop_bit 24 v)]) s))
       else (case ResolveVirtualAddr addr (spaces s pid) of
           None \<Rightarrow> Inl RuntimeError
         | Some paddr \<Rightarrow> bindE (WriteLegacy h W32 paddr v (ram s)) (\<lambda>m. Inr (s\<lparr>ram := m\<rparr>)))))"

text \<open>Thread local storage, by byte offset. The array of a \<open>FakeThread\<close> has \<open>0x200\<close> words.\<close>

definition ReadTLS :: "'d handlers \<Rightarrow> nat \<Rightarrow> nat \<Rightarrow> 'd system \<Rightarrow> (u32 \<times> 'd system) res" where
  "ReadTLS h t offset s = (case tls_addr s t of
      None \<Rightarrow> if offset div 4 < length (fake_tls s t) then Inr (fake_tls s t ! (offset div 4), s) else Inl UndefinedBehaviour
    | Some a \<Rightarrow> bindE (process_of t s) (\<lambda>pid. case processor (spaces s pid) of
        None \<Rightarrow> Inl UndefinedBehaviour
      | Some pt \<Rightarrow> bindE (VM_Read h pt W32 (a + of_nat offset) (ram s)) (\<lambda>(v, m). Inr (v, s\<lparr>ram := m\<rparr>))))"

definition WriteTLS :: "'d handlers \<Rightarrow> nat \<Rightarrow> nat \<Rightarrow> u32 \<Rightarrow> 'd system \<Rightarrow> 'd system res" where
  "WriteTLS h t offset v s = (case tls_addr s t of
      None \<Rightarrow> if offset div 4 < length (fake_tls s t)
        then Inr (s\<lparr>fake_tls := (fake_tls s)(t := (fake_tls s t)[offset div 4 := v])\<rparr>) else Inl UndefinedBehaviour
    | Some a \<Rightarrow> bindE (process_of t s) (\<lambda>pid. case processor (spaces s pid) of
        None \<Rightarrow> Inl UndefinedBehaviour
      | Some pt \<Rightarrow> bindE (VM_Write h pt W32 (a + of_nat offset) v (ram s)) (\<lambda>m. Inr (s\<lparr>ram := m\<rparr>))))"

section \<open>Control of memory\<close>

definition FindMemoryRegionContaining :: "u32 \<Rightarrow> u32 \<Rightarrow> 'd system \<Rightarrow> nat res" where
  "FindMemoryRegionContaining paddr n s =
    (case List.find (\<lambda>i. RegionStart (memory_regions s ! i) \<le> paddr \<and> paddr + n \<le> RegionEnd (memory_regions s ! i)) [0..<length (memory_regions s)] of
       None \<Rightarrow> Inl RuntimeError
     | Some i \<Rightarrow> Inr i)"

definition put_region :: "nat \<Rightarrow> memory_manager \<Rightarrow> 'd system \<Rightarrow> 'd system" where
  "put_region i mm s = s\<lparr>memory_regions := (memory_regions s)[i := mm]\<rparr>"

definition allocate_in :: "nat \<Rightarrow> nat \<Rightarrow> u32 \<Rightarrow> 'd system \<Rightarrow> (u32 option \<times> 'd system) res" where
  "allocate_in i ob n s = bindE (AllocateBlock (owner_exists s) ob n (memory_regions s ! i)) (\<lambda>(r, mm). Inr (r, put_region i mm s))"

definition deallocate_at :: "nat \<Rightarrow> u32 \<Rightarrow> u32 \<Rightarrow> 'd system \<Rightarrow> 'd system res" where
  "deallocate_at ob paddr n s =
    bindE (FindMemoryRegionContaining paddr n s) (\<lambda>i.
    bindE (DeallocateBlock (owner_exists s) ob paddr n (memory_regions s ! i)) (\<lambda>mm. Inr (put_region i mm s)))"

definition map_space :: "nat \<Rightarrow> u32 \<Rightarrow> u32 \<Rightarrow> u32 \<Rightarrow> u32 \<Rightarrow> 'd system \<Rightarrow> (bool \<times> 'd system) res" where
  "map_space pid paddr n vaddr perms s = bindE (MapVirtualMemory paddr n vaddr perms (spaces s pid)) (\<lambda>(ok, p). Inr (ok, put_space pid p s))"

definition unmap_space :: "nat \<Rightarrow> u32 \<Rightarrow> u32 \<Rightarrow> 'd system \<Rightarrow> (bool \<times> 'd system) res" where
  "unmap_space pid vaddr n s = bindE (UnmapVirtualMemory vaddr n (spaces s pid)) (\<lambda>(ok, p). Inr (ok, put_space pid p s))"

text \<open>The regions are those of applications, of the system and of the base processes. A process is also the owner of its memory.\<close>

definition memory_region_of :: "u32 \<Rightarrow> nat \<Rightarrow> 'd system \<Rightarrow> nat res" where
  "memory_region_of operation pid s =
    (if operation AND 0xF00 = 0 then Inr (memory_allocator s pid)
     else if operation AND 0xF00 = 0x100 then Inr 0
     else if operation AND 0xF00 = 0x200 then Inr 1
     else if operation AND 0xF00 = 0x300 then Inr 2
     else Inl InvalidOperation)"

definition control_allocate :: "nat \<Rightarrow> nat \<Rightarrow> u32 \<Rightarrow> u32 \<Rightarrow> u32 \<Rightarrow> u32 \<Rightarrow> 'd system \<Rightarrow> (u32 \<times> u32 \<times> 'd system) res" where
  "control_allocate source pid addr0 n operation perms s =
    bindE (memory_region_of operation pid s) (\<lambda>i.
    bindE (allocate_in i pid n s) (\<lambda>(block, s1). case block of
        None \<Rightarrow> Inl InvalidOperation
      | Some paddr \<Rightarrow>
          let linear = operation AND 0x10000 \<noteq> 0;
              vaddr_start = (if linear then linear_base_addr s1 pid + (paddr - bus_start FCRAM) else 0x08000000);
              vaddr_end = vaddr_start + (if linear then n else 0x08000000)
          in case (if addr0 = 0 then FindAvailableVirtualMemory n vaddr_start vaddr_end (spaces s1 pid)
                   else FindAvailableVirtualMemory n addr0 (addr0 + n) (spaces s1 pid)) of
              None \<Rightarrow> Inl InvalidOperation
            | Some vaddr \<Rightarrow>
                bindE (map_space pid paddr n vaddr perms s1) (\<lambda>(ok, s2).
                if \<not> ok then Inl InvalidOperation
                else bindE (on_kernel (Reschedule source) s2) (\<lambda>s3. Inr (RESULT_OK, vaddr, s3)))))"

definition control_map :: "nat \<Rightarrow> nat \<Rightarrow> bool \<Rightarrow> u32 \<Rightarrow> u32 \<Rightarrow> u32 \<Rightarrow> u32 \<Rightarrow> 'd system \<Rightarrow> (u32 \<times> u32 \<times> 'd system) res" where
  "control_map source pid same addr0 addr1 n perms s = (case ResolveVirtualAddr addr1 (spaces s pid) of
      None \<Rightarrow> Inl InvalidOperation
    | Some paddr \<Rightarrow>
        bindE (if FindAvailableVirtualMemory n addr0 (addr0 + n) (spaces s pid) = None \<and> \<not> same
               then bindE (unmap_space pid addr0 n s) (\<lambda>(_, s1). Inr s1) else Inr s) (\<lambda>s1.
        case FindAvailableVirtualMemory n addr0 (addr0 + n) (spaces s1 pid) of
          None \<Rightarrow> Inl InvalidOperation
        | Some vaddr \<Rightarrow>
            bindE (map_space pid paddr n vaddr perms s1) (\<lambda>(ok, s2).
            if \<not> ok then Inl InvalidOperation
            else bindE (on_kernel (Reschedule source) s2) (\<lambda>s3. Inr (RESULT_OK, 0, s3)))))"

definition control_protect :: "nat \<Rightarrow> nat \<Rightarrow> u32 \<Rightarrow> u32 \<Rightarrow> u32 \<Rightarrow> 'd system \<Rightarrow> (u32 \<times> u32 \<times> 'd system) res" where
  "control_protect source pid addr0 n perms s = (case ResolveVirtualAddr addr0 (spaces s pid) of
      None \<Rightarrow> Inl InvalidOperation
    | Some paddr \<Rightarrow>
        bindE (unmap_space pid addr0 n s) (\<lambda>(ok, s1).
        if \<not> ok then Inl InvalidOperation
        else case FindAvailableVirtualMemory n addr0 (addr0 + n) (spaces s1 pid) of
          None \<Rightarrow> Inl ContractViolation
        | Some vaddr \<Rightarrow>
            bindE (map_space pid paddr n vaddr perms s1) (\<lambda>(ok, s2).
            if \<not> ok then Inl ContractViolation
            else bindE (on_kernel (Reschedule source) s2) (\<lambda>s3. Inr (RESULT_OK, addr0, s3)))))"

definition SVCControlProcessMemory ::
  "nat \<Rightarrow> nat \<Rightarrow> u32 \<Rightarrow> u32 \<Rightarrow> u32 \<Rightarrow> u32 \<Rightarrow> u32 \<Rightarrow> 'd system \<Rightarrow> (u32 \<times> u32 \<times> 'd system) res" where
  "SVCControlProcessMemory source pid addr0 addr1 n operation perms s =
    bindE (process_of source s) (\<lambda>own.
    if own \<noteq> pid \<and> (operation < 4 \<or> 6 < operation) then Inl InvalidOperation
    else if perms AND 4 \<noteq> 0 \<and> operation \<noteq> 6 then Inl InvalidOperation
    else let op = operation AND 0xFF in
      if op = 1 then Inr (RESULT_OK, 0, s)
      else if op = 3 then control_allocate source pid addr0 n operation perms s
      else if op = 4 then control_map source pid (own = pid) addr0 addr1 n perms s
      else if op = 5 then bindE (unmap_space pid addr0 n s) (\<lambda>(ok, s1). if \<not> ok then Inl InvalidOperation else Inr (RESULT_OK, 0, s1))
      else if op = 6 then control_protect source pid addr0 n perms s
      else Inl NotImplementedError)"

definition SVCControlMemory :: "nat \<Rightarrow> u32 \<Rightarrow> u32 \<Rightarrow> u32 \<Rightarrow> u32 \<Rightarrow> u32 \<Rightarrow> 'd system \<Rightarrow> (u32 \<times> u32 \<times> 'd system) res" where
  "SVCControlMemory source addr0 addr1 n operation perms s =
    bindE (process_of source s) (\<lambda>pid. SVCControlProcessMemory source pid addr0 addr1 n operation perms s)"

section \<open>Buffers of host processes\<close>

definition page_round_up :: "u32 \<Rightarrow> u32" where
  "page_round_up n = (n + 0xfff) AND NOT 0xfff"

text \<open>The buffers are an ordered map; a new one comes behind the others or replaces one at the same address.\<close>

definition AllocateStaticBuffer :: "nat \<Rightarrow> u32 \<Rightarrow> 'd system \<Rightarrow> (u32 \<times> 'd system) res" where
  "AllocateStaticBuffer pid n s =
    (let bytes = page_round_up n;
         bs = static_buffers s pid;
         start_addr = (if bs = [] then 0x80000000 else fst (last bs) + of_nat (length (snd (last bs))))
     in bindE (map_space pid 0xdeadbeef bytes start_addr 3 s) (\<lambda>(ok, s1).
        if \<not> ok then Inl RuntimeError
        else if \<not> IsInternalAddress start_addr then Inl RuntimeError
        else Inr (start_addr, s1\<lparr>static_buffers := (static_buffers s1)(pid :=
               om_insert start_addr (replicate (unat bytes) 0) (static_buffers s1 pid))\<rparr>)))"

definition FreeStaticBuffer :: "nat \<Rightarrow> u32 \<Rightarrow> 'd system \<Rightarrow> 'd system" where
  "FreeStaticBuffer pid addr s = s\<lparr>static_buffers := (static_buffers s)(pid := om_erase addr (static_buffers s pid))\<rparr>"

definition AllocateBuffer :: "nat \<Rightarrow> u32 \<Rightarrow> 'd system \<Rightarrow> (u32 \<times> 'd system) res" where
  "AllocateBuffer pid n s =
    (let bytes = page_round_up n in
     case FindAvailableVirtualMemory bytes 0x80000000 (0xFFFFFFFF - bytes + 1) (spaces s pid) of
       None \<Rightarrow> Inl UndefinedBehaviour
     | Some start_addr \<Rightarrow>
         bindE (map_space pid 0xdeadbeef bytes start_addr 3 s) (\<lambda>(ok, s1).
         if \<not> ok then Inl RuntimeError
         else let bs = static_buffers s1 pid;
                  old = (case map_of bs start_addr of None \<Rightarrow> [] | Some data \<Rightarrow> data);
                  data = take (unat bytes) old @ replicate (unat bytes - length old) 0
              in Inr (start_addr, s1\<lparr>static_buffers := (static_buffers s1)(pid := om_assign start_addr data bs)\<rparr>)))"

definition FreeBuffer :: "nat \<Rightarrow> u32 \<Rightarrow> 'd system \<Rightarrow> 'd system" where
  "FreeBuffer pid addr s = FreeStaticBuffer pid addr s"

section \<open>New threads\<close>

text \<open>\<open>TLSManager\<close>: eight slots of \<open>0x200\<close> bytes in each page of thread local storage.\<close>

definition first_tls_addr :: u32 where
  "first_tls_addr = 0x1ff82000"

definition NextSlotNeedsNewPage :: "tls_manager \<Rightarrow> bool" where
  "NextSlotNeedsNewPage tm \<longleftrightarrow> length (slot_occupied tm) mod 8 = 0"

definition TLS_Release :: "u32 \<Rightarrow> tls_manager \<Rightarrow> tls_manager" where
  "TLS_Release addr tm = tm\<lparr>slot_occupied := (slot_occupied tm)[unat ((addr - first_tls_addr) div 0x200) := False]\<rparr>"

definition put_tls_manager :: "nat \<Rightarrow> tls_manager \<Rightarrow> 'd system \<Rightarrow> 'd system" where
  "put_tls_manager pid tm s = s\<lparr>tls_managers := (tls_managers s)(pid := tm)\<rparr>"

definition map_tls_page :: "nat \<Rightarrow> 'd system \<Rightarrow> 'd system res" where
  "map_tls_page pid s =
    (let a = next_tls_addr (tls_managers s pid) in
     bindE (allocate_in 2 pid 0x1000 s) (\<lambda>(paddr, s1).
     case FindAvailableVirtualMemory 0x1000 a (a + 0x1000) (spaces s1 pid) of
       None \<Rightarrow> Inl RuntimeError
     | Some vaddr \<Rightarrow> (case paddr of
           None \<Rightarrow> Inl UndefinedBehaviour
         | Some q \<Rightarrow> bindE (map_space pid q 0x1000 vaddr 3 s1) (\<lambda>(ok, s2). if ok then Inr s2 else Inl RuntimeError))))"

definition GetFreePage :: "nat \<Rightarrow> 'd system \<Rightarrow> (u32 \<times> 'd system) res" where
  "GetFreePage pid s =
    (let tm = tls_managers s pid;
         i = length (takeWhile id (slot_occupied tm))
     in if i < length (slot_occupied tm)
        then Inr (first_tls_addr + of_nat i * 0x200, put_tls_manager pid (tm\<lparr>slot_occupied := (slot_occupied tm)[i := True]\<rparr>) s)
        else bindE (if NextSlotNeedsNewPage tm then map_tls_page pid s else Inr s) (\<lambda>s1.
             Inr (first_tls_addr + of_nat i * 0x200,
               put_tls_manager pid (tm\<lparr>slot_occupied := slot_occupied tm @ [True], next_tls_addr := next_tls_addr tm + 0x200\<rparr>) s1)))"

text \<open>
  A new emulated thread of a process: its thread local storage, its registration with the process and the scheduler. The
  registers it starts with are those of its execution context. What the constructor leaves uninitialised is zero here.
\<close>

definition new_thread :: "nat \<Rightarrow> u32 \<Rightarrow> thread" where
  "new_thread pid prio = \<lparr>parent_process = pid, status = Ready, priority = prio, timeout_at = 0, arbitration_address = 0,
    promised_result = 0, wait_list = [], wait_for_all = False, wake_index = 0, woken_object = None\<rparr>"

definition SpawnThread :: "nat \<Rightarrow> u32 \<Rightarrow> 'd system \<Rightarrow> (nat \<times> 'd system) res" where
  "SpawnThread pid prio s =
    bindE (GetFreePage pid s) (\<lambda>(slot, s1).
    let (t, k1) = make_shared ThreadObject (kern s1);
        s2 = s1\<lparr>kern := put_thread t (new_thread pid prio) k1, tls_addr := (tls_addr s1)(t := Some slot)\<rparr>
    in bindE (get_object pid (kern s2)) (\<lambda>x. case x of
        ProcessObject p \<Rightarrow>
          bindE (on_kernel (RegisterToScheduler t)
            (s2\<lparr>kern := put_object pid (ProcessObject (p\<lparr>process_threads := process_threads p @ [t]\<rparr>)) (kern s2)\<rparr>)) (\<lambda>s3. Inr (t, s3))
      | _ \<Rightarrow> Inl UndefinedBehaviour))"

text \<open>The new thread is added to the list of all threads a second time here.\<close>

definition SVCCreateThread :: "nat \<Rightarrow> u32 \<Rightarrow> 'd system \<Rightarrow> (u32 \<times> u32 \<times> 'd system) res" where
  "SVCCreateThread source prio s =
    bindE (process_of source s) (\<lambda>pid.
    if processor (spaces s pid) = None then Inl RuntimeError
    else
      bindE (SpawnThread pid prio s) (\<lambda>(t, s1).
      bindE (handle_table_of source (kern s1)) (\<lambda>ht.
      let (h, ht1) = CreateHandle t ht in
      bindE (on_kernel (put_handle_table source ht1) s1) (\<lambda>s2.
      bindE (on_kernel (Reschedule source) (s2\<lparr>kern := (kern s2)\<lparr>os_threads := os_threads (kern s2) @ [t]\<rparr>\<rparr>)) (\<lambda>s3.
      Inr (RESULT_OK, h, s3))))))"

section \<open>Shared memory\<close>

definition SVCCreateMemoryBlock :: "nat \<Rightarrow> u32 \<Rightarrow> u32 \<Rightarrow> 'd system \<Rightarrow> (u32 \<times> u32 \<times> 'd system) res" where
  "SVCCreateMemoryBlock source addr n s =
    bindE (process_of source s) (\<lambda>pid.
    bindE (if addr = 0
           then bindE (allocate_in (memory_allocator s pid) pid n s) (\<lambda>(r, s1). case r of None \<Rightarrow> Inl InvalidOperation | Some a \<Rightarrow> Inr (a, s1))
           else case ResolveVirtualAddr addr (spaces s pid) of None \<Rightarrow> Inl InvalidOperation | Some a \<Rightarrow> Inr (a, s)) (\<lambda>(block_addr, s1).
    bindE (new_handle source (SharedMemoryBlock \<lparr>phys_address = block_addr, block_size = n, owns_memory = (addr = 0)\<rparr>) (kern s1)) (\<lambda>(h, ob, k).
    let s2 = s1\<lparr>kern := k\<rparr> in
    bindE (if addr = 0
           then bindE (TransferOwnership (owner_exists s2) pid ob block_addr n (memory_regions s2 ! memory_allocator s2 pid))
                  (\<lambda>mm. Inr (put_region (memory_allocator s2 pid) mm s2))
           else Inr s2) (\<lambda>s3.
    bindE (on_kernel (Reschedule source) s3) (\<lambda>s4. Inr (RESULT_OK, h, s4))))))"

definition is_SharedMemoryBlock :: "kobject \<Rightarrow> bool" where
  "is_SharedMemoryBlock x = (case x of SharedMemoryBlock _ \<Rightarrow> True | _ \<Rightarrow> False)"

definition SVCMapMemoryBlock :: "nat \<Rightarrow> u32 \<Rightarrow> u32 \<Rightarrow> u32 \<Rightarrow> 'd system \<Rightarrow> (u32 \<times> 'd system) res" where
  "SVCMapMemoryBlock source block_handle addr perms s =
    bindE (process_of source s) (\<lambda>pid.
    bindE (handle_table_of source (kern s)) (\<lambda>ht.
    bindE (FindObject is_SharedMemoryBlock block_handle False ht (kern s)) (\<lambda>found. case found of None \<Rightarrow> Inl RuntimeError | Some ob \<Rightarrow>
    bindE (get_object ob (kern s)) (\<lambda>x. case x of SharedMemoryBlock b \<Rightarrow>
      let paddr = phys_address b; n = block_size b in
      bindE (if addr = 0
             then if paddr < bus_start FCRAM \<or> bus_end FCRAM \<le> paddr + n then Inl RuntimeError
                  else let target = paddr - bus_start FCRAM + 0x14000000 in
                    case FindAvailableVirtualMemory n target (target + n) (spaces s pid) of None \<Rightarrow> Inl RuntimeError | Some v \<Rightarrow> Inr v
             else Inr addr) (\<lambda>vaddr.
      bindE (map_space pid paddr n vaddr perms s) (\<lambda>(ok, s1).
      if \<not> ok then Inl InvalidOperation
      else bindE (on_kernel (Reschedule source) s1) (\<lambda>s2. Inr (RESULT_OK, s2))))
    | _ \<Rightarrow> Inl UndefinedBehaviour))))"

definition SVCUnmapMemoryBlock :: "nat \<Rightarrow> shared_memory_block \<Rightarrow> u32 \<Rightarrow> 'd system \<Rightarrow> (u32 \<times> 'd system) res" where
  "SVCUnmapMemoryBlock source b addr s =
    bindE (process_of source s) (\<lambda>pid.
    bindE (unmap_space pid addr (block_size b) s) (\<lambda>(ok, s1).
    if \<not> ok then Inl InvalidOperation
    else bindE (on_kernel (Reschedule source) s1) (\<lambda>s2. Inr (RESULT_OK, s2))))"

end
