(* ===== verification/KernelPorts.thy ===== *)
theory KernelPorts
  imports KernelSystem
begin

text \<open>
  Address arbiters, the closing of handles, and ports and sessions (\<open>OS\<close> in \<open>os.cpp\<close>): a server creates a port, clients
  connect to it, which queues a session, and the server accepts the sessions in turn.
\<close>

section \<open>Address arbiters\<close>

datatype ArbitrationType = Signal | Acquire | DecrementAndAcquire | AcquireWithTimeout | DecrementAndAcquireWithTimeout

definition SVCCreateAddressArbiter :: "nat \<Rightarrow> 'd system \<Rightarrow> (u32 \<times> u32 \<times> 'd system) res" where
  "SVCCreateAddressArbiter source s =
    bindE (new_handle source AddressArbiter (kern s)) (\<lambda>(h, ob, k).
    bindE (on_kernel (Reschedule source) (s\<lparr>kern := k\<rparr>)) (\<lambda>s1. Inr (RESULT_OK, h, s1)))"

text \<open>
  The threads that a signal wakes. \<open>std::nth_element\<close> puts those that come first by \<open>compare_by_priority\<close> before the others;
  which of several threads with the same priority it chooses is left open, here it is the first ones of the list.
\<close>

definition waiting_for_arbitration :: "u32 \<Rightarrow> kernel \<Rightarrow> nat \<Rightarrow> bool" where
  "waiting_for_arbitration address k t = (case threads k t of
      None \<Rightarrow> False
    | Some th \<Rightarrow> status th = WaitingForArbitration \<and> arbitration_address th = address)"

definition thread_priority :: "kernel \<Rightarrow> nat \<Rightarrow> u32" where
  "thread_priority k t = (case threads k t of None \<Rightarrow> 0 | Some th \<Rightarrow> priority th)"

definition wake_arbitrated :: "nat \<Rightarrow> kernel \<Rightarrow> kernel res" where
  "wake_arbitrated t k = bindE (get_thread t k) (\<lambda>th. Inr (put_thread t (th\<lparr>status := Ready\<rparr>) (k\<lparr>ready_queue := ready_queue k @ [t]\<rparr>)))"

definition arbitrate_signal :: "u32 \<Rightarrow> u32 \<Rightarrow> kernel \<Rightarrow> kernel res" where
  "arbitrate_signal address n k =
    (let threads_waiting = filter (waiting_for_arbitration address k) (os_threads k);
         threads_to_wake = min (unat n) (length threads_waiting)
     in foldE wake_arbitrated (take threads_to_wake (sort_key (\<lambda>t. - uint (thread_priority k t)) threads_waiting)) k)"

text \<open>Reading and writing the word at an address a byte at a time, on behalf of a thread.\<close>

definition SVCArbitrateAddress :: "'d handlers \<Rightarrow> nat \<Rightarrow> u32 \<Rightarrow> ArbitrationType \<Rightarrow> u32 \<Rightarrow> 'd system \<Rightarrow> 'd system res" where
  "SVCArbitrateAddress h source address typ n s =
    bindE (get_thread source (kern s)) (\<lambda>th.
    let s0 = s\<lparr>kern := put_thread source (th\<lparr>promised_result := RESULT_OK\<rparr>) (kern s)\<rparr> in
    if typ = Signal
    then bindE (on_kernel (arbitrate_signal address n) s0) (on_kernel (Reschedule source))
    else
      bindE (process_of source s0) (\<lambda>pid.
      bindE (ReadMemory32 h pid address s0) (\<lambda>(memory_value, s1).
      if sint n \<le> sint memory_value then on_kernel (Reschedule source) s1
      else
        bindE (if typ = DecrementAndAcquire \<or> typ = DecrementAndAcquireWithTimeout
               then Process_WriteMemory32 h pid address (memory_value - 1) s1 else Inr s1) (\<lambda>s2.
        if typ = AcquireWithTimeout \<or> typ = DecrementAndAcquireWithTimeout then Inl InvalidOperation
        else
          bindE (on_kernel (\<lambda>k. bindE (get_thread source k) (\<lambda>th.
            Inr (unschedule source (put_thread source (th\<lparr>timeout_at := - 1, arbitration_address := address, status := WaitingForArbitration\<rparr>) k)))) s2) (\<lambda>s3.
          bindE (on_kernel (Reschedule source) s3) (on_kernel (Reschedule source)))))))"

section \<open>Closing a handle\<close>

definition close_client_session :: "client_session \<Rightarrow> kernel \<Rightarrow> kernel res" where
  "close_client_session c k = (case objects k (client_session_session c) of
      Some (Session client server) \<Rightarrow>
        let k1 = put_object (client_session_session c) (Session None server) k in
        (case server of None \<Rightarrow> Inr k1 | Some ss \<Rightarrow> if objects k1 ss = None then Inr k1 else OnResourceReady ss k1)
    | _ \<Rightarrow> Inl UndefinedBehaviour)"

definition close_server_session :: "server_session \<Rightarrow> kernel \<Rightarrow> kernel res" where
  "close_server_session ss k = (case server_session_port ss of
      None \<Rightarrow> Inr k
    | Some sp \<Rightarrow> bindE (get_object sp k) (\<lambda>x. case x of
        ServerPort p \<Rightarrow>
          bindE (OnResourceReady sp (put_object sp (ServerPort (p\<lparr>available_sessions := available_sessions p + 1\<rparr>)) k)) (\<lambda>k1.
          case objects k1 (server_port_port p) of
            Some (Port server client) \<Rightarrow>
              (case client of None \<Rightarrow> Inr k1 | Some cp \<Rightarrow> if objects k1 cp = None then Inr k1 else OnResourceReady cp k1)
          | _ \<Rightarrow> Inl UndefinedBehaviour)
      | _ \<Rightarrow> Inl UndefinedBehaviour))"

text \<open>The memory of a code set, freed range by range until that fails; the exception is caught.\<close>

fun free_ranges :: "nat \<Rightarrow> (u32 \<times> u32) list \<Rightarrow> 'd system \<Rightarrow> 'd system" where
  "free_ranges ob [] s = s"
| "free_ranges ob ((paddr, n) # rs) s = (case deallocate_at ob paddr n s of Inl _ \<Rightarrow> s | Inr s1 \<Rightarrow> free_ranges ob rs s1)"

definition code_set_ranges :: "code_set \<Rightarrow> (u32 \<times> u32) list" where
  "code_set_ranges c = map (\<lambda>(a, pages). (a, pages * 0x1000)) (text_phys c @ ro_phys c @ data_phys c
    @ (if bss_size c \<noteq> 0 then [(bss_paddr c, bss_size c)] else []))"

definition close_object :: "nat \<Rightarrow> nat \<Rightarrow> nat \<Rightarrow> 'd system \<Rightarrow> 'd system res" where
  "close_object source use_count ob s = bindE (get_object ob (kern s)) (\<lambda>x. case x of
      ClientSession c \<Rightarrow> if use_count = 1 then on_kernel (close_client_session c) s else Inr s
    | ServerSession ss \<Rightarrow> if use_count = 1 then on_kernel (close_server_session ss) s else Inr s
    | Mutex m \<Rightarrow>
        if Mutex_IsOwner source m (kern s)
        then on_kernel (\<lambda>k. bindE (Mutex_Release m) (\<lambda>m1. OnResourceReady ob (put_object ob (Mutex m1) k))) s
        else Inr s
    | SharedMemoryBlock b \<Rightarrow>
        if use_count = 1 \<and> owns_memory b then deallocate_at ob (phys_address b) (block_size b) s else Inr s
    | CodeSet c \<Rightarrow> if use_count = 1 then Inr (free_ranges ob (code_set_ranges c) s) else Inr s
    | _ \<Rightarrow> Inr s)"

definition CloseHandle :: "nat \<Rightarrow> nat \<Rightarrow> u32 \<Rightarrow> 'd system \<Rightarrow> (u32 \<times> 'd system) res" where
  "CloseHandle use_count source h s =
    bindE (handle_table_of source (kern s)) (\<lambda>ht.
    bindE (FindObject (\<lambda>_. True) h True ht (kern s)) (\<lambda>found.
    bindE (case found of None \<Rightarrow> Inr s | Some ob \<Rightarrow> close_object source use_count ob s) (\<lambda>s1.
    bindE (handle_table_of source (kern s1)) (\<lambda>ht1.
    bindE (on_kernel (put_handle_table source (HandleTable_CloseHandle h ht1)) s1) (\<lambda>s2. Inr (RESULT_OK, s2))))))"

definition SVCCloseHandle :: "nat \<Rightarrow> nat \<Rightarrow> u32 \<Rightarrow> 'd system \<Rightarrow> (u32 \<times> 'd system) res" where
  "SVCCloseHandle use_count source h s =
    bindE (CloseHandle use_count source h s) (\<lambda>(_, s1).
    bindE (on_kernel (Reschedule source) s1) (\<lambda>s2. Inr (RESULT_OK, s2)))"

section \<open>Ports and sessions\<close>

definition OfferSession :: "nat \<Rightarrow> server_port \<Rightarrow> server_port" where
  "OfferSession session p = p\<lparr>session_queue := session_queue p @ [session]\<rparr>"

definition CommandReady :: "server_session \<Rightarrow> server_session" where
  "CommandReady ss = ss\<lparr>ipc_commands_pending := ipc_commands_pending ss + 1\<rparr>"

definition SVCCreatePort :: "nat \<Rightarrow> string \<Rightarrow> i32 \<Rightarrow> 'd system \<Rightarrow> (u32 \<times> u32 \<times> u32 \<times> 'd system) res" where
  "SVCCreatePort source name max_sessions s =
    (let (port, k1) = make_shared (Port None None) (kern s);
         (server, k2) = make_shared (ServerPort \<lparr>available_sessions = max_sessions, session_queue = [], server_port_port = port\<rparr>) k1;
         (client, k3) = make_shared (ClientPort port) k2;
         k4 = put_object port (Port (Some server) (Some client)) k3
     in if sint max_sessions < 0 then Inl InvalidOperation
     else
       let s1 = s\<lparr>kern := k4, ports := (if name \<noteq> [] \<and> ports s name = None then (ports s)(name := Some port) else ports s)\<rparr> in
       bindE (handle_table_of source (kern s1)) (\<lambda>ht.
       let (server_handle, ht1) = CreateHandle server ht; (client_handle, ht2) = CreateHandle client ht1 in
       bindE (on_kernel (put_handle_table source ht2) s1) (\<lambda>s2.
       bindE (on_kernel (Reschedule source) s2) (\<lambda>s3. Inr (RESULT_OK, server_handle, client_handle, s3)))))"

text \<open>What connecting to a port and creating a session to it have in common, once the port is known to have room.\<close>

definition connect :: "nat \<Rightarrow> nat \<Rightarrow> server_port \<Rightarrow> kernel \<Rightarrow> (u32 \<times> kernel) res" where
  "connect source sp p k =
    (let p1 = p\<lparr>available_sessions := available_sessions p - 1\<rparr>;
         (session, k1) = make_shared (Session None None) (put_object sp (ServerPort p1) k);
         (client, k2) = make_shared (ClientSession \<lparr>client_session_session = session, client_session_threads = []\<rparr>) k1;
         k3 = put_object session (Session (Some client) None) k2
     in bindE (handle_table_of source k3) (\<lambda>ht.
        let (h, ht1) = CreateHandle client ht in
        bindE (put_handle_table source ht1 k3) (\<lambda>k4.
        bindE (OnResourceReady sp (put_object sp (ServerPort (OfferSession session p1)) k4)) (\<lambda>k5. Inr (h, k5)))))"

definition SVCConnectToPort :: "nat \<Rightarrow> string \<Rightarrow> 'd system \<Rightarrow> (u32 \<times> u32 \<times> 'd system) res" where
  "SVCConnectToPort source name s = (case ports s name of
      None \<Rightarrow> bindE (on_kernel (Reschedule source) s) (\<lambda>s1. Inr (0xd88007fa, 0, s1))
    | Some port \<Rightarrow> (case objects (kern s) port of
        Some (Port server client) \<Rightarrow> (case server of
            None \<Rightarrow> Inl InvalidOperation
          | Some sp \<Rightarrow> (case objects (kern s) sp of
              None \<Rightarrow> Inl InvalidOperation
            | Some (ServerPort p) \<Rightarrow>
                if available_sessions p = 0 then Inr (0xd0401834, 0, s)
                else bindE (connect source sp p (kern s)) (\<lambda>(h, k). Inr (RESULT_OK, h, s\<lparr>kern := k\<rparr>))
            | _ \<Rightarrow> Inl UndefinedBehaviour))
      | _ \<Rightarrow> Inl UndefinedBehaviour))"

definition is_ClientPort :: "kobject \<Rightarrow> bool" where
  "is_ClientPort x = (case x of ClientPort _ \<Rightarrow> True | _ \<Rightarrow> False)"

definition SVCCreateSessionToPort :: "nat \<Rightarrow> u32 \<Rightarrow> 'd system \<Rightarrow> (u32 \<times> u32 \<times> 'd system) res" where
  "SVCCreateSessionToPort source client_port_handle s =
    bindE (handle_table_of source (kern s)) (\<lambda>ht.
    bindE (FindObject is_ClientPort client_port_handle False ht (kern s)) (\<lambda>found. case found of None \<Rightarrow> Inl InvalidOperation | Some ob \<Rightarrow>
    bindE (get_object ob (kern s)) (\<lambda>x. case x of ClientPort port \<Rightarrow> (case objects (kern s) port of
        Some (Port (Some sp) client) \<Rightarrow> (case objects (kern s) sp of
            Some (ServerPort p) \<Rightarrow>
              if available_sessions p = 0 then Inr (0xd0401834, 0, s)
              else bindE (connect source sp p (kern s)) (\<lambda>(h, k). Inr (RESULT_OK, h, s\<lparr>kern := RescheduleImmediately source k\<rparr>))
          | _ \<Rightarrow> Inl UndefinedBehaviour)
      | _ \<Rightarrow> Inl UndefinedBehaviour)
    | _ \<Rightarrow> Inl UndefinedBehaviour)))"

definition SVCCreateSession :: "nat \<Rightarrow> 'd system \<Rightarrow> (u32 \<times> u32 \<times> u32 \<times> 'd system) res" where
  "SVCCreateSession source s =
    (let (session, k1) = make_shared (Session None None) (kern s);
         (server, k2) = make_shared (ServerSession \<lparr>ipc_commands_pending = 0, server_session_session = session, server_session_port = None\<rparr>) k1;
         (client, k3) = make_shared (ClientSession \<lparr>client_session_session = session, client_session_threads = []\<rparr>) k2;
         k4 = put_object session (Session (Some client) (Some server)) k3
     in bindE (handle_table_of source k4) (\<lambda>ht.
        let (server_handle, ht1) = CreateHandle server ht; (client_handle, ht2) = CreateHandle client ht1 in
        bindE (put_handle_table source ht2 k4) (\<lambda>k5.
        bindE (on_kernel (Reschedule source) (s\<lparr>kern := k5\<rparr>)) (\<lambda>s1. Inr (RESULT_OK, server_handle, client_handle, s1)))))"

definition SVCAcceptSession :: "nat \<Rightarrow> nat \<Rightarrow> 'd system \<Rightarrow> (u32 \<times> u32 \<times> 'd system) res" where
  "SVCAcceptSession source sp s = bindE (get_object sp (kern s)) (\<lambda>x. case x of
      ServerPort p \<Rightarrow> (case session_queue p of
          [] \<Rightarrow> Inl InvalidOperation
        | session # rest \<Rightarrow>
            let (server, k1) = make_shared (ServerSession \<lparr>ipc_commands_pending = 0, server_session_session = session, server_session_port = Some sp\<rparr>)
                  (put_object sp (ServerPort (p\<lparr>session_queue := rest\<rparr>)) (kern s))
            in (case objects k1 session of
                Some (Session client _) \<Rightarrow>
                  bindE (if client = None \<or> objects k1 (the client) = None then OnResourceReady server k1 else Inr k1) (\<lambda>k2.
                  let k3 = put_object session (Session client (Some server)) k2 in
                  bindE (handle_table_of source k3) (\<lambda>ht.
                  let (h, ht1) = CreateHandle server ht in
                  bindE (put_handle_table source ht1 k3) (\<lambda>k4.
                  bindE (on_kernel (Reschedule source) (s\<lparr>kern := k4\<rparr>)) (\<lambda>s1. Inr (RESULT_OK, h, s1)))))
              | _ \<Rightarrow> Inl UndefinedBehaviour))
    | _ \<Rightarrow> Inl UndefinedBehaviour)"

end
