(* ===== verification/BitFields.thy ===== *)
theory BitFields
  imports Prelude
begin

text \<open>
  \<open>BitField<position, bits, T>\<close> of \<open>bit_field.h\<close> (namespace \<open>BitField::v1\<close>), on which every
  register, status word and instruction format of the emulator is built: the mask, the unsigned
  and the sign-extending read, the assignment, with the laws of a field (what a read returns after
  a write of the same or of a disjoint field). The static assertions of the class
  (\<open>bits + position \<le> 8 * sizeof(T)\<close>, \<open>0 < bits\<close>) appear as hypotheses.
\<close>

section \<open>Definitions\<close>

definition GetMask :: "nat \<Rightarrow> nat \<Rightarrow> 'a::len word" where
  "GetMask position bits = push_bit position (drop_bit (LENGTH('a) - bits) (NOT 0))"

definition BitField_Value :: "nat \<Rightarrow> nat \<Rightarrow> 'a::len word \<Rightarrow> 'a word" where
  "BitField_Value position bits storage = drop_bit position (storage AND GetMask position bits)"

text \<open>The branch of \<open>Value\<close> for a signed \<open>T\<close>: shift the field to the top, then arithmetically down.\<close>

definition BitField_ValueS :: "nat \<Rightarrow> nat \<Rightarrow> 'a::len word \<Rightarrow> 'a word" where
  "BitField_ValueS position bits storage =
    (let shift = LENGTH('a) - bits in signed_drop_bit shift (push_bit (shift - position) storage))"

definition BitField_Assign :: "nat \<Rightarrow> nat \<Rightarrow> 'a::len word \<Rightarrow> 'a word \<Rightarrow> 'a word" where
  "BitField_Assign position bits value storage =
    (storage AND NOT (GetMask position bits)) OR (push_bit position value AND GetMask position bits)"

text \<open>One-bit fields, read as \<open>ToBool\<close> does and assigned from a C++ \<open>bool\<close>.\<close>

definition BitField_ToBool :: "nat \<Rightarrow> 'a::len word \<Rightarrow> bool" where
  "BitField_ToBool position storage \<longleftrightarrow> BitField_Value position 1 storage \<noteq> 0"

definition BitField_AssignBool :: "nat \<Rightarrow> bool \<Rightarrow> 'a::len word \<Rightarrow> 'a word" where
  "BitField_AssignBool position b storage = BitField_Assign position 1 (of_bool b) storage"

section \<open>Fields bit by bit\<close>

lemma bit_GetMask:
  "position + bits \<le> LENGTH('a) \<Longrightarrow>
    bit (GetMask position bits :: 'a::len word) n \<longleftrightarrow> position \<le> n \<and> n < position + bits"
  by (auto simp: GetMask_def bit_simps)

lemma bit_BitField_Value:
  "position + bits \<le> LENGTH('a) \<Longrightarrow>
    bit (BitField_Value position bits (w :: 'a::len word)) n \<longleftrightarrow> n < bits \<and> bit w (position + n)"
  by (auto simp: BitField_Value_def bit_simps bit_GetMask)

lemma bit_BitField_Assign:
  "position + bits \<le> LENGTH('a) \<Longrightarrow>
    bit (BitField_Assign position bits v (w :: 'a::len word)) n \<longleftrightarrow>
      (if position \<le> n \<and> n < position + bits then bit v (n - position) else bit w n)"
  by (auto simp: BitField_Assign_def bit_simps bit_GetMask dest: bit_imp_le_length)

lemma bit_BitField_ValueS:
  "0 < bits \<Longrightarrow> position + bits \<le> LENGTH('a) \<Longrightarrow> n < LENGTH('a) \<Longrightarrow>
    bit (BitField_ValueS position bits (w :: 'a::len word)) n \<longleftrightarrow>
      bit w (position + (if n < bits then n else bits - 1))"
  by (cases bits) (auto simp: BitField_ValueS_def Let_def bit_simps ac_simps)

lemma BitField_Value_eq:
  "position + bits \<le> LENGTH('a) \<Longrightarrow>
    BitField_Value position bits (w :: 'a::len word) = take_bit bits (drop_bit position w)"
  by (rule bit_word_eqI) (auto simp: bit_BitField_Value bit_simps)

lemma unat_BitField_Value_less:
  "position + bits \<le> LENGTH('a) \<Longrightarrow> unat (BitField_Value position bits (w :: 'a::len word)) < 2 ^ bits"
  by (simp add: BitField_Value_eq unsigned_take_bit_eq)

lemma BitField_ToBool_iff [simp]:
  "position < LENGTH('a) \<Longrightarrow> BitField_ToBool position (w :: 'a::len word) \<longleftrightarrow> bit w position"
proof -
  assume "position < LENGTH('a)"
  then have "BitField_Value position 1 w = of_bool (bit w position)"
    by (intro bit_word_eqI) (auto simp: bit_BitField_Value bit_simps)
  then show ?thesis by (simp add: BitField_ToBool_def)
qed

lemma bit_BitField_AssignBool:
  "position < LENGTH('a) \<Longrightarrow>
    bit (BitField_AssignBool position b (w :: 'a::len word)) n \<longleftrightarrow>
      (if n = position then b else bit w n)"
  by (auto simp: BitField_AssignBool_def bit_BitField_Assign bit_simps)

section \<open>Laws of a field\<close>

lemma BitField_Value_Assign:
  "position + bits \<le> LENGTH('a) \<Longrightarrow>
    BitField_Value position bits (BitField_Assign position bits v (w :: 'a::len word)) = take_bit bits v"
  by (rule bit_word_eqI) (auto simp: bit_BitField_Value bit_BitField_Assign bit_simps)

lemma BitField_Value_Assign_other:
  "position + bits \<le> LENGTH('a) \<Longrightarrow> p + b \<le> LENGTH('a) \<Longrightarrow>
    position + bits \<le> p \<or> p + b \<le> position \<Longrightarrow>
    BitField_Value position bits (BitField_Assign p b v (w :: 'a::len word)) = BitField_Value position bits w"
  by (rule bit_word_eqI) (auto simp: bit_BitField_Value bit_BitField_Assign)

lemma BitField_Assign_Value:
  "position + bits \<le> LENGTH('a) \<Longrightarrow>
    BitField_Assign position bits (BitField_Value position bits w) (w :: 'a::len word) = w"
  by (rule bit_word_eqI) (auto simp: bit_BitField_Value bit_BitField_Assign)

lemma BitField_Assign_Assign:
  "position + bits \<le> LENGTH('a) \<Longrightarrow>
    BitField_Assign position bits v (BitField_Assign position bits v' (w :: 'a::len word)) =
    BitField_Assign position bits v w"
  by (rule bit_word_eqI) (auto simp: bit_BitField_Assign)

text \<open>The sign-extending read is the signed value of the field.\<close>

lemma BitField_ValueS_eq:
  assumes "0 < bits" and "position + bits \<le> LENGTH('a)"
  shows "BitField_ValueS position bits (w :: 'a::len word) = signed_take_bit (bits - 1) (drop_bit position w)"
proof (rule bit_word_eqI)
  fix n assume "n < LENGTH('a)"
  moreover have "n < bits \<Longrightarrow> min n (bits - 1) = n" "\<not> n < bits \<Longrightarrow> min n (bits - 1) = bits - 1"
    by linarith+
  ultimately show "bit (BitField_ValueS position bits w) n \<longleftrightarrow>
      bit (signed_take_bit (bits - 1) (drop_bit position w)) n"
    using assms by (simp add: bit_BitField_ValueS bit_signed_take_bit_iff bit_drop_bit_eq)
qed

end
