(* ===== verification/KernelIpc.thy ===== *)
theory KernelIpc
  imports KernelPorts BitFields
begin

text \<open>
  Messages between processes (\<open>OS::TranslateIPCMessage\<close>, \<open>SVCSendSyncRequest\<close> and \<open>SVCReplyAndReceive\<close> in \<open>os.cpp\<close>, with
  \<open>platform/ipc.hpp\<close>): a request is copied from the thread local storage of the client to that of the server, and the reply
  back. Handles, buffers and ranges of memory in it are translated between the two processes.

  What the code reads only to write it to the log is read here, too, since reading can fail and can run memory hooks.
\<close>

section \<open>Headers and descriptors\<close>

definition size_translate_params :: "u32 \<Rightarrow> nat" where "size_translate_params h = unat (BitField_Value 0 6 h)"
definition num_normal_params :: "u32 \<Rightarrow> nat" where "num_normal_params h = unat (BitField_Value 6 6 h)"
definition command_id :: "u32 \<Rightarrow> u32" where "command_id h = BitField_Value 16 16 h"

definition CommandHeader_Make :: "u32 \<Rightarrow> u32 \<Rightarrow> u32 \<Rightarrow> u32" where
  "CommandHeader_Make cmd normal translate = BitField_Assign 0 6 translate (BitField_Assign 6 6 normal (BitField_Assign 16 16 cmd 0))"

definition descriptor_type :: "u32 \<Rightarrow> u32" where "descriptor_type d = BitField_Value 1 3 d"
definition close_handle :: "u32 \<Rightarrow> bool" where "close_handle d = BitField_ToBool 4 d"
definition fill_process_id :: "u32 \<Rightarrow> bool" where "fill_process_id d = BitField_ToBool 5 d"
definition NumHandles :: "u32 \<Rightarrow> nat" where "NumHandles d = unat (BitField_Value 26 6 d) + 1"
definition static_buffer_id :: "u32 \<Rightarrow> nat" where "static_buffer_id d = unat (BitField_Value 10 4 d)"
definition static_buffer_size :: "u32 \<Rightarrow> u32" where "static_buffer_size d = BitField_Value 14 18 d"
definition pxi_buffer_id :: "u32 \<Rightarrow> nat" where "pxi_buffer_id d = unat (BitField_Value 4 4 d)"
definition pxi_buffer_size :: "u32 \<Rightarrow> u32" where "pxi_buffer_size d = BitField_Value 8 24 d"
definition map_buffer_size :: "u32 \<Rightarrow> u32" where "map_buffer_size d = BitField_Value 4 27 d"

definition MakeHandles :: "u32 \<Rightarrow> bool \<Rightarrow> u32" where
  "MakeHandles num_handles close = BitField_AssignBool 4 close (BitField_Assign 26 6 (num_handles - 1) (BitField_Assign 1 3 0 0))"

definition MakeProcessHandle :: u32 where
  "MakeProcessHandle = BitField_AssignBool 5 True (BitField_Assign 1 3 0 0)"

definition MakeStaticBuffer :: "u32 \<Rightarrow> u32 \<Rightarrow> u32" where
  "MakeStaticBuffer buffer_id num_bytes = BitField_Assign 14 18 num_bytes (BitField_Assign 10 4 buffer_id (BitField_Assign 1 3 1 0))"

definition MakePXIBuffer :: "u32 \<Rightarrow> u32 \<Rightarrow> u32" where
  "MakePXIBuffer buffer_id num_bytes = BitField_Assign 8 24 num_bytes (BitField_Assign 4 4 buffer_id (BitField_Assign 1 3 2 0))"

definition MakePXIConstBuffer :: "u32 \<Rightarrow> u32 \<Rightarrow> u32" where
  "MakePXIConstBuffer buffer_id num_bytes = BitField_Assign 8 24 num_bytes (BitField_Assign 4 4 buffer_id (BitField_Assign 1 3 3 0))"

definition UnmapBuffer :: "u32 \<Rightarrow> u32" where
  "UnmapBuffer num_bytes = BitField_Assign 4 27 num_bytes (BitField_Assign 1 3 5 0)"

definition MapBuffer :: "u32 \<Rightarrow> u32 \<Rightarrow> u32" where
  "MapBuffer num_bytes access = BitField_Assign 4 27 num_bytes (BitField_Assign 1 2 access (BitField_Assign 1 3 4 0))"

section \<open>Handles\<close>

text \<open>The use counts that closing a handle depends on are given by \<open>uses\<close>, for the object and the kernel at that time.\<close>

definition is_AddressArbiter :: "kobject \<Rightarrow> bool" where
  "is_AddressArbiter x \<longleftrightarrow> x = AddressArbiter"

definition translate_handle ::
  "'d handlers \<Rightarrow> (u32 \<Rightarrow> 'd system \<Rightarrow> nat) \<Rightarrow> nat \<Rightarrow> nat \<Rightarrow> u32 \<Rightarrow> nat \<Rightarrow> 'd system \<Rightarrow> 'd system res" where
  "translate_handle h uses source dest d offset s =
    (if fill_process_id d
     then bindE (process_of source s) (\<lambda>pid. WriteTLS h dest offset (process_id s pid) s)
     else
       bindE (ReadTLS h source offset s) (\<lambda>(source_handle, s1).
       if source_handle = 0 then WriteTLS h dest offset 0 s1
       else
         bindE (handle_table_of source (kern s1)) (\<lambda>ht.
         bindE (FindObject (\<lambda>_. True) source_handle False ht (kern s1)) (\<lambda>found. case found of None \<Rightarrow> Inl RuntimeError | Some ob \<Rightarrow>
         bindE (get_object ob (kern s1)) (\<lambda>x.
         if is_AddressArbiter x then Inl RuntimeError
         else
           bindE (ReadTLS h dest 0x80 s1) (\<lambda>(_, s2).
           bindE (handle_table_of dest (kern s2)) (\<lambda>dest_ht.
           let (new_handle, dest_ht1) = CreateHandle ob dest_ht in
           bindE (on_kernel (put_handle_table dest dest_ht1) s2) (\<lambda>s3.
           bindE (if close_handle d
                  then bindE (SVCCloseHandle (uses source_handle s3) source source_handle s3) (\<lambda>(result, s).
                    if result \<noteq> RESULT_OK then Inl InvalidOperation else Inr s)
                  else Inr s3)
             (WriteTLS h dest offset new_handle)))))))))"

definition translate_handles ::
  "'d handlers \<Rightarrow> (u32 \<Rightarrow> 'd system \<Rightarrow> nat) \<Rightarrow> nat \<Rightarrow> nat \<Rightarrow> u32 \<Rightarrow> nat \<Rightarrow> 'd system \<Rightarrow> 'd system res" where
  "translate_handles h uses source dest d offset s =
    (if close_handle d \<and> fill_process_id d then Inl RuntimeError
     else foldE (\<lambda>i. translate_handle h uses source dest d (offset + 4 * i)) [0..<NumHandles d] s)"

section \<open>Buffers\<close>

definition copy_byte :: "'d handlers \<Rightarrow> nat \<Rightarrow> nat \<Rightarrow> u32 \<Rightarrow> u32 \<Rightarrow> nat \<Rightarrow> 'd system \<Rightarrow> 'd system res" where
  "copy_byte h src_pid dest_pid src_addr dest_addr i s =
    bindE (ReadMemory h src_pid (src_addr + of_nat i) s) (\<lambda>(b, s1). WriteMemory h dest_pid (dest_addr + of_nat i) b s1)"

text \<open>The bytes of a buffer that are written to the log.\<close>

definition log_bytes :: "'d handlers \<Rightarrow> nat \<Rightarrow> u32 \<Rightarrow> nat \<Rightarrow> 'd system \<Rightarrow> 'd system res" where
  "log_bytes h pid addr n s = foldE (\<lambda>i s. bindE (ReadMemory h pid (addr + of_nat i) s) (\<lambda>(_, s1). Inr s1)) [0..<n] s"

definition translate_static_buffer ::
  "'d handlers \<Rightarrow> nat \<Rightarrow> nat \<Rightarrow> u32 \<Rightarrow> nat \<Rightarrow> u32 \<Rightarrow> 'd system \<Rightarrow> (u32 \<times> 'd system) res" where
  "translate_static_buffer h source dest d offset used_mask s =
    bindE (process_of source s) (\<lambda>src_pid. bindE (process_of dest s) (\<lambda>dest_pid.
    let buffer_id = static_buffer_id d; bytes = static_buffer_size d in
    bindE (ReadTLS h source offset s) (\<lambda>(source_data_addr, s).
    bindE (ReadTLS h dest (0x180 + 8 * buffer_id) s) (\<lambda>(dest_descriptor, s).
    bindE (ReadTLS h dest (0x184 + 8 * buffer_id) s) (\<lambda>(dest_buffer_addr, s).
    if bit used_mask buffer_id then Inl InvalidOperation
    else if descriptor_type dest_descriptor \<noteq> 1 \<or> static_buffer_size dest_descriptor < bytes then Inl RuntimeError
    else
      bindE (log_bytes h src_pid source_data_addr (min 64 (unat bytes)) s) (\<lambda>s.
      bindE (foldE (copy_byte h src_pid dest_pid source_data_addr dest_buffer_addr)
               [0..<min (unat (static_buffer_size dest_descriptor)) (unat bytes)] s) (\<lambda>s.
      bindE (WriteTLS h dest offset dest_buffer_addr s) (\<lambda>s. Inr (used_mask OR push_bit buffer_id 1, s)))))))))"

section \<open>Pages\<close>

lemma page_base_minus: "(x :: u32) AND NOT 0xfff = x - (x AND 0xfff)"
proof -
  have "NOT x AND (x AND 0xfff) = 0" by (simp add: and.assoc [symmetric])
  from disjunctive_diff_eq_and_not [OF this] have "x - (x AND 0xfff) = x AND NOT (x AND 0xfff)" .
  also have "\<dots> = x AND NOT 0xfff" by (simp add: bit_eq_iff bit_simps) blast
  finally show ?thesis by simp
qed

lemma uint_page_offset: "uint ((x :: u32) AND 0xfff) = uint x mod 4096"
proof -
  have "x AND 0xfff = take_bit 12 x" by (simp add: take_bit_eq_mask mask_eq_exp_minus_1)
  moreover have "uint (take_bit 12 x) = take_bit 12 (uint x)" by (rule unsigned_take_bit_eq)
  ultimately show ?thesis by (simp only:) (simp add: take_bit_eq_mod)
qed

lemma uint_page_base: "uint ((x :: u32) AND NOT 0xfff) = 4096 * (uint x div 4096)"
proof -
  have "uint (x - (x AND 0xfff)) = uint x - uint (x AND 0xfff)" by (rule uint_minus_simple_alt [THEN iffD1]) (simp add: word_le_def uint_page_offset zmod_le_nonneg_dividend)
  then show ?thesis unfolding page_base_minus uint_page_offset by (simp add: minus_mod_eq_mult_div)
qed

lemma unat_minus_less: "m \<noteq> 0 \<Longrightarrow> m \<le> r \<Longrightarrow> unat (r - m) < unat (r :: u32)"
  using unat_gt_0 [of m] by (simp add: unat_sub word_le_nat_alt)

lemma next_page_distance: "((addr + 0x1000) AND NOT 0xfff) - addr \<noteq> (0 :: u32)"
proof -
  have "((addr + 0x1000) AND NOT 0xfff) - addr = 0x1000 - ((addr + 0x1000) AND 0xfff)" unfolding page_base_minus by simp
  moreover have "uint ((addr + 0x1000) AND 0xfff) < uint (0x1000 :: u32)" unfolding uint_page_offset by simp
  ultimately show ?thesis by auto
qed

section \<open>Chunks of physical memory\<close>

text \<open>The table of physical chunks for a buffer that spans several of them, one entry for each page.\<close>

definition pxi_chunk_size :: "u32 \<Rightarrow> u32 \<Rightarrow> u32" where
  "pxi_chunk_size addr n = min n (((addr + 0x1000) AND NOT 0xfff) - addr)"

lemma pxi_chunk_size_pos: "n \<noteq> 0 \<Longrightarrow> unat (n - pxi_chunk_size addr n) < unat n"
proof -
  assume "n \<noteq> 0"
  then have "pxi_chunk_size addr n \<noteq> 0" using next_page_distance [of addr] unfolding pxi_chunk_size_def min_def by (simp split: if_split)
  moreover have "pxi_chunk_size addr n \<le> n" unfolding pxi_chunk_size_def by (rule min.cobounded1)
  ultimately show ?thesis by (rule unat_minus_less)
qed

function pxi_entries :: "'d handlers \<Rightarrow> nat \<Rightarrow> nat \<Rightarrow> u32 \<Rightarrow> u32 \<Rightarrow> u32 \<Rightarrow> u32 \<Rightarrow> u32 \<Rightarrow> 'd system \<Rightarrow> (u32 \<times> 'd system) res" where
  "pxi_entries h src_pid dest_pid capacity table addr n off s =
    (if n = 0 then Inr (off, s)
     else if capacity < 8 then Inl RuntimeError
     else case ResolveVirtualAddrWithSize addr (spaces s src_pid) of
       None \<Rightarrow> Inl RuntimeError
     | Some (chunk, _) \<Rightarrow>
         bindE (WriteMemory32 h dest_pid (table + off) chunk s) (\<lambda>s1.
         bindE (WriteMemory32 h dest_pid (table + off + 4) (pxi_chunk_size addr n) s1)
           (pxi_entries h src_pid dest_pid capacity table (addr + pxi_chunk_size addr n) (n - pxi_chunk_size addr n) (off + 8))))"
  by pat_completeness auto
termination
  by (relation "measure (\<lambda>(h, src_pid, dest_pid, capacity, table, addr, n, off, s). unat n)") (auto simp: pxi_chunk_size_pos)

declare pxi_entries.simps [simp del]

definition translate_pxi_buffer ::
  "'d handlers \<Rightarrow> nat \<Rightarrow> nat \<Rightarrow> u32 \<Rightarrow> nat \<Rightarrow> u32 \<Rightarrow> 'd system \<Rightarrow> (u32 \<times> 'd system) res" where
  "translate_pxi_buffer h source dest d offset used_mask s =
    bindE (process_of source s) (\<lambda>src_pid. bindE (process_of dest s) (\<lambda>dest_pid.
    let buffer_id = pxi_buffer_id d; bytes = pxi_buffer_size d in
    bindE (ReadTLS h dest (0x180 + 8 * buffer_id) s) (\<lambda>(table_descriptor, s).
    bindE (ReadTLS h dest (0x184 + 8 * buffer_id) s) (\<lambda>(table, s).
    if bit used_mask buffer_id then Inl InvalidOperation
    else if descriptor_type table_descriptor \<noteq> 1 then Inl RuntimeError
    else
      bindE (ReadTLS h source offset s) (\<lambda>(buffer_address, s).
      bindE (case ResolveVirtualAddrWithSize buffer_address (spaces s src_pid) of
          Some c \<Rightarrow> Inr c
        | None \<Rightarrow> if bytes = 0 then Inr (0, 0) else Inl NotImplementedError) (\<lambda>(chunk, chunk_bytes).
      bindE (if bytes \<le> chunk_bytes
             then if static_buffer_size table_descriptor < 8 then Inl RuntimeError
                  else bindE (WriteMemory32 h dest_pid table chunk s) (\<lambda>s.
                       bindE (WriteMemory32 h dest_pid (table + 4) bytes s) (\<lambda>s. Inr (8, s)))
             else pxi_entries h src_pid dest_pid (static_buffer_size table_descriptor) table buffer_address bytes 0 s) (\<lambda>(used, s).
      bindE (WriteTLS h dest (offset - 4) (MakeStaticBuffer (of_nat buffer_id) used) s) (\<lambda>s.
      case ResolveVirtualAddr table (spaces s dest_pid) of
        None \<Rightarrow> Inl UndefinedBehaviour
      | Some paddr \<Rightarrow> bindE (WriteTLS h dest offset paddr s) (\<lambda>s. Inr (used_mask OR push_bit buffer_id 1, s))))))))))"

section \<open>Mapped buffers\<close>

definition mapped_buffer_size :: "u32 \<Rightarrow> u32 \<Rightarrow> u32" where
  "mapped_buffer_size addr n = ((addr + n + 0xfff) AND NOT 0xfff) - (addr AND NOT 0xfff)"

text \<open>
  The physical chunks behind the pages of the buffer are mapped one after the other. A chunk is never empty, so that the loop
  ends.
\<close>

lemma chunk_nonempty: "ResolveVirtualAddrWithSize addr p = Some (c, n) \<Longrightarrow> n \<noteq> 0"
  by (auto simp: ResolveVirtualAddrWithSize_def split: if_splits prod.splits)

lemma map_chunks_decreases:
  assumes "bytes_mapped < (bytes :: u32)" "n \<noteq> 0"
  shows "unat (bytes - (bytes_mapped + min n (bytes - bytes_mapped))) < unat (bytes - bytes_mapped)"
proof -
  let ?r = "bytes - bytes_mapped"
  have "min n ?r \<noteq> 0" "min n ?r \<le> ?r" using assms by (auto simp: min_def)
  then have "unat (?r - min n ?r) < unat ?r" by (rule unat_minus_less)
  then show ?thesis by (simp add: diff_diff_eq)
qed

function map_chunks :: "nat \<Rightarrow> nat \<Rightarrow> u32 \<Rightarrow> u32 \<Rightarrow> u32 \<Rightarrow> u32 \<Rightarrow> u32 \<Rightarrow> 'd system \<Rightarrow> 'd system res" where
  "map_chunks src_pid dest_pid src_addr dest_addr bytes perms bytes_mapped s =
    (if \<not> bytes_mapped < bytes then Inr s
     else case ResolveVirtualAddrWithSize ((src_addr + bytes_mapped) AND NOT 0xfff) (spaces s src_pid) of
       None \<Rightarrow> Inl RuntimeError
     | Some (paddr, n) \<Rightarrow>
         bindE (map_space dest_pid paddr (min n (bytes - bytes_mapped)) (dest_addr + bytes_mapped) perms s) (\<lambda>(ok, s1).
         if \<not> ok then Inl RuntimeError
         else map_chunks src_pid dest_pid src_addr dest_addr bytes perms (bytes_mapped + min n (bytes - bytes_mapped)) s1))"
  by pat_completeness auto
termination
  by (relation "measure (\<lambda>(src_pid, dest_pid, src_addr, dest_addr, bytes, perms, bytes_mapped, s). unat (bytes - bytes_mapped))")
    (auto dest!: chunk_nonempty simp: map_chunks_decreases)

declare map_chunks.simps [simp del]

definition unmap_buffer :: "'d handlers \<Rightarrow> nat \<Rightarrow> nat \<Rightarrow> nat \<Rightarrow> u32 \<Rightarrow> u32 \<Rightarrow> nat \<Rightarrow> 'd system \<Rightarrow> 'd system res" where
  "unmap_buffer h source dest src_pid d addr offset s =
    bindE (if descriptor_type d \<noteq> 5 then log_bytes h src_pid addr (min 0x100 (unat (map_buffer_size d))) s else Inr s) (\<lambda>s.
    bindE (unmap_space src_pid (addr AND NOT 0xfff) (mapped_buffer_size addr (map_buffer_size d)) s) (\<lambda>(ok, s).
    if \<not> ok then Inl RuntimeError else WriteTLS h dest offset 0 s))"

definition map_permissions :: "u32 \<Rightarrow> u32" where
  "map_permissions typ = (if typ = 5 then 1 else if typ = 6 then 2 else 3)"

definition map_buffer :: "'d handlers \<Rightarrow> nat \<Rightarrow> nat \<Rightarrow> nat \<Rightarrow> nat \<Rightarrow> u32 \<Rightarrow> u32 \<Rightarrow> nat \<Rightarrow> 'd system \<Rightarrow> 'd system res" where
  "map_buffer h source dest src_pid dest_pid d addr offset s =
    (let bytes = mapped_buffer_size addr (map_buffer_size d) in
     case FindAvailableVirtualMemory bytes 0x10000000 0x20000000 (spaces s dest_pid) of
       None \<Rightarrow> Inl RuntimeError
     | Some vaddr \<Rightarrow>
         bindE (map_chunks src_pid dest_pid addr vaddr bytes (map_permissions (descriptor_type d)) 0 s) (\<lambda>s1.
         bindE (WriteTLS h dest offset (vaddr + (addr AND 0xfff)) s1) (\<lambda>s2.
         if descriptor_type d \<noteq> 6 then log_bytes h src_pid addr (min 0x1000 (unat (map_buffer_size d))) s2 else Inr s2)))"

definition translate_map_buffer :: "'d handlers \<Rightarrow> nat \<Rightarrow> nat \<Rightarrow> bool \<Rightarrow> u32 \<Rightarrow> nat \<Rightarrow> 'd system \<Rightarrow> 'd system res" where
  "translate_map_buffer h source dest is_reply d offset s =
    bindE (process_of source s) (\<lambda>src_pid. bindE (process_of dest s) (\<lambda>dest_pid.
    bindE (ReadTLS h source offset s) (\<lambda>(addr, s).
    if map_buffer_size d = 0 then Inr s
    else if is_reply then unmap_buffer h source dest src_pid d addr offset s
    else map_buffer h source dest src_pid dest_pid d addr offset s)))"

section \<open>Translation\<close>

text \<open>The words that one descriptor takes, with itself.\<close>

definition descriptor_words :: "u32 \<Rightarrow> nat" where
  "descriptor_words d = (if descriptor_type d = 0 then 1 + NumHandles d else 2)"

definition translate_parameters ::
  "'d handlers \<Rightarrow> (u32 \<Rightarrow> 'd system \<Rightarrow> nat) \<Rightarrow> nat \<Rightarrow> nat \<Rightarrow> bool \<Rightarrow> u32 \<Rightarrow> nat \<Rightarrow> u32 \<Rightarrow> 'd system \<Rightarrow> (u32 \<times> 'd system) res" where
  "translate_parameters h uses source dest is_reply d offset used_mask s =
    (let typ = descriptor_type d in
     if typ = 0 then bindE (translate_handles h uses source dest d offset s) (\<lambda>s1. Inr (used_mask, s1))
     else if typ = 1 then translate_static_buffer h source dest d offset used_mask s
     else if typ = 2 \<or> typ = 3 then translate_pxi_buffer h source dest d offset used_mask s
     else if typ = 4 then Inl RuntimeError
     else bindE (translate_map_buffer h source dest is_reply d offset s) (\<lambda>s1. Inr (used_mask, s1)))"

function translate_descriptors ::
  "'d handlers \<Rightarrow> (u32 \<Rightarrow> 'd system \<Rightarrow> nat) \<Rightarrow> nat \<Rightarrow> nat \<Rightarrow> bool \<Rightarrow> nat \<Rightarrow> nat \<Rightarrow> u32 \<Rightarrow> 'd system \<Rightarrow> 'd system res" where
  "translate_descriptors h uses source dest is_reply command_end offset used_mask s =
    (if command_end \<le> offset then Inr s
     else
       bindE (ReadTLS h source offset s) (\<lambda>(d, s1).
       bindE (WriteTLS h dest offset d s1) (\<lambda>s2.
       bindE (translate_parameters h uses source dest is_reply d (offset + 4) used_mask s2) (\<lambda>(used_mask1, s3).
       translate_descriptors h uses source dest is_reply command_end (offset + 4 * descriptor_words d) used_mask1 s3))))"
  by pat_completeness auto
termination
  by (relation "measure (\<lambda>(h, uses, source, dest, is_reply, command_end, offset, used_mask, s). command_end - offset)")
    (auto simp: descriptor_words_def)

declare translate_descriptors.simps [simp del]

definition clear_command_word :: "'d handlers \<Rightarrow> nat \<Rightarrow> nat \<Rightarrow> 'd system \<Rightarrow> 'd system res" where
  "clear_command_word h dest i s = WriteTLS h dest (0x80 + 4 * i) 0 s"

definition copy_command_word :: "'d handlers \<Rightarrow> nat \<Rightarrow> nat \<Rightarrow> nat \<Rightarrow> 'd system \<Rightarrow> 'd system res" where
  "copy_command_word h source dest i s = bindE (ReadTLS h source (0x80 + 4 * i) s) (\<lambda>(v, s1). WriteTLS h dest (0x80 + 4 * i) v s1)"

text \<open>The header and the words of the message, which are read for the log; for a reply so is its result.\<close>

definition log_message :: "'d handlers \<Rightarrow> nat \<Rightarrow> bool \<Rightarrow> nat \<Rightarrow> 'd system \<Rightarrow> 'd system res" where
  "log_message h source is_reply num_words s =
    bindE (foldE (\<lambda>i s. bindE (ReadTLS h source (0x80 + 4 * i) s) (\<lambda>(_, s1). Inr s1)) [0..<1 + num_words] s) (\<lambda>s1.
    if is_reply then bindE (ReadTLS h source 0x84 s1) (\<lambda>(_, s2). Inr s2) else Inr s1)"

definition TranslateIPCMessage ::
  "'d handlers \<Rightarrow> (u32 \<Rightarrow> 'd system \<Rightarrow> nat) \<Rightarrow> nat \<Rightarrow> nat \<Rightarrow> bool \<Rightarrow> 'd system \<Rightarrow> 'd system res" where
  "TranslateIPCMessage h uses source dest is_reply s =
    bindE (ReadTLS h source 0x80 s) (\<lambda>(header, s1).
    let normal = num_normal_params header; command_end = 0x84 + 4 * (normal + size_translate_params header) in
    bindE (log_message h source is_reply (normal + size_translate_params header) s1) (\<lambda>s2.
    bindE (foldE (clear_command_word h dest) [normal + 1..<0x40] s2) (\<lambda>s3.
    bindE (foldE (copy_command_word h source dest) [0..<normal + 1] s3)
      (translate_descriptors h uses source dest is_reply command_end (0x84 + 4 * normal) 0))))"

section \<open>Requests and replies\<close>

definition RunWhenReady :: "nat \<Rightarrow> svc_callback \<Rightarrow> 'd system \<Rightarrow> 'd system res" where
  "RunWhenReady t c s =
    (if callbacks s t \<noteq> None then Inl ContractViolation else Inr (s\<lparr>callbacks := (callbacks s)(t := Some c)\<rparr>))"

definition on_thread :: "nat \<Rightarrow> (thread \<Rightarrow> thread) \<Rightarrow> kernel \<Rightarrow> kernel res" where
  "on_thread t f k = bindE (get_thread t k) (\<lambda>th. Inr (put_thread t (f th) k))"

text \<open>
  The continuation of a request. Until the server has accepted the session, the thread is dispatched again and again; then
  the server is told, and the client waits for its session.
\<close>

definition send_request :: "nat \<Rightarrow> nat \<Rightarrow> u32 \<Rightarrow> 'd system \<Rightarrow> 'd system res" where
  "send_request t ob session_handle s = bindE (get_object ob (kern s)) (\<lambda>x. case x of
      ClientSession c \<Rightarrow> (case objects (kern s) (client_session_session c) of
          Some (Session client server) \<Rightarrow> (case Option.bind server (\<lambda>ss. map_option (Pair ss) (objects (kern s) ss)) of
              None \<Rightarrow> bindE (on_kernel (Reschedule t) s) (RunWhenReady t (SendRequest ob session_handle))
            | Some (ss, ServerSession x) \<Rightarrow>
                bindE (on_kernel (\<lambda>k. OnResourceReady ss (put_object ss (ServerSession (CommandReady x)) k)) s) (\<lambda>s1.
                bindE (on_kernel (SVCWaitSynchronization t session_handle (- 1)) s1)
                  (RunWhenReady t RequestDone))
            | Some _ \<Rightarrow> Inl UndefinedBehaviour)
        | _ \<Rightarrow> Inl UndefinedBehaviour)
    | _ \<Rightarrow> Inl UndefinedBehaviour)"

definition is_ClientSession :: "kobject \<Rightarrow> bool" where
  "is_ClientSession x = (case x of ClientSession _ \<Rightarrow> True | _ \<Rightarrow> False)"

definition is_ServerSession :: "kobject \<Rightarrow> bool" where
  "is_ServerSession x = (case x of ServerSession _ \<Rightarrow> True | _ \<Rightarrow> False)"

definition SVCSendSyncRequest :: "'d handlers \<Rightarrow> nat \<Rightarrow> u32 \<Rightarrow> 'd system \<Rightarrow> 'd system res" where
  "SVCSendSyncRequest h source session_handle s =
    bindE (handle_table_of source (kern s)) (\<lambda>ht.
    bindE (FindObject is_ClientSession session_handle True ht (kern s)) (\<lambda>found. case found of
        None \<Rightarrow> on_kernel (on_thread source (\<lambda>th. th\<lparr>promised_result := 0xdeadbef4\<rparr>)) s
      | Some ob \<Rightarrow>
          bindE (ReadTLS h source 0x80 s) (\<lambda>(_, s1).
          bindE (get_object ob (kern s1)) (\<lambda>x. case x of
              ClientSession c \<Rightarrow>
                let s2 = s1\<lparr>kern := put_object ob (ClientSession (c\<lparr>client_session_threads := client_session_threads c @ [source]\<rparr>)) (kern s1)\<rparr> in
                bindE (on_kernel (on_thread source (\<lambda>th. th\<lparr>promised_result := RESULT_OK\<rparr>)) s2) (send_request source ob session_handle)
            | _ \<Rightarrow> Inl UndefinedBehaviour))))"

text \<open>The client of a server session, and the thread whose request is at the front; both must exist where they are used.\<close>

definition client_of :: "server_session \<Rightarrow> kernel \<Rightarrow> (nat \<times> client_session) option res" where
  "client_of ss k = (case objects k (server_session_session ss) of
      Some (Session client server) \<Rightarrow> (case client of
          None \<Rightarrow> Inr None
        | Some c \<Rightarrow> (case objects k c of
            None \<Rightarrow> Inr None
          | Some (ClientSession x) \<Rightarrow> Inr (Some (c, x))
          | _ \<Rightarrow> Inl UndefinedBehaviour))
    | _ \<Rightarrow> Inl ContractViolation)"

definition front_thread :: "client_session \<Rightarrow> kernel \<Rightarrow> nat res" where
  "front_thread c k = (case client_session_threads c of
      [] \<Rightarrow> Inl ContractViolation
    | t # _ \<Rightarrow> if threads k t = None then Inl ContractViolation else Inr t)"

definition send_reply :: "'d handlers \<Rightarrow> (u32 \<Rightarrow> 'd system \<Rightarrow> nat) \<Rightarrow> nat \<Rightarrow> u32 \<Rightarrow> 'd system \<Rightarrow> 'd system res" where
  "send_reply h uses source reply_target s =
    bindE (handle_table_of source (kern s)) (\<lambda>ht.
    bindE (FindObject is_ServerSession reply_target False ht (kern s)) (\<lambda>found. case found of None \<Rightarrow> Inl InvalidOperation | Some ob \<Rightarrow>
    bindE (get_object ob (kern s)) (\<lambda>x. case x of
        ServerSession ss \<Rightarrow>
          bindE (client_of ss (kern s)) (\<lambda>client. case client of
              None \<Rightarrow> Inl ContractViolation
            | Some (c, cs) \<Rightarrow>
                bindE (front_thread cs (kern s)) (\<lambda>client_thread.
                bindE (ReadTLS h source 0x84 s) (\<lambda>(_, s1).
                bindE (TranslateIPCMessage h uses source client_thread True s1) (\<lambda>s2.
                bindE (get_object c (kern s2)) (\<lambda>y. case y of
                    ClientSession cs2 \<Rightarrow>
                      bindE (ClientSession_SetReady client_thread cs2) (\<lambda>cs3.
                      on_kernel (\<lambda>k. OnResourceReady c (put_object c (ClientSession cs3) k)) s2)
                  | _ \<Rightarrow> Inl UndefinedBehaviour)))))
      | _ \<Rightarrow> Inl UndefinedBehaviour)))"

definition SVCReplyAndReceive :: "'d handlers \<Rightarrow> (u32 \<Rightarrow> 'd system \<Rightarrow> nat) \<Rightarrow> nat \<Rightarrow> u32 list \<Rightarrow> u32 \<Rightarrow> 'd system \<Rightarrow> 'd system res" where
  "SVCReplyAndReceive h uses source hs reply_target s =
    bindE (on_kernel (on_thread source (\<lambda>th. th\<lparr>promised_result := RESULT_OK, timeout_at := - 1\<rparr>)) s) (\<lambda>s1.
    bindE (ReadTLS h source 0x80 s1) (\<lambda>(header, s2).
    bindE (if drop_bit 16 header \<noteq> 0xFFFF \<and> reply_target \<noteq> 0 then send_reply h uses source reply_target s2 else Inr s2) (\<lambda>s3.
    if hs = [] then Inr s3
    else bindE (on_kernel (SVCWaitSynchronizationN source hs False (- 1)) s3) (RunWhenReady source MessageReceived))))"

definition message_received :: "'d handlers \<Rightarrow> (u32 \<Rightarrow> 'd system \<Rightarrow> nat) \<Rightarrow> nat \<Rightarrow> 'd system \<Rightarrow> 'd system res" where
  "message_received h uses t s = bindE (get_thread t (kern s)) (\<lambda>th.
    if promised_result th \<noteq> RESULT_OK then Inr s
    else (case Option.bind (woken_object th) (objects (kern s)) of
        Some (ServerSession ss) \<Rightarrow>
          bindE (client_of ss (kern s)) (\<lambda>client. case client of
              None \<Rightarrow> on_kernel (on_thread t (\<lambda>th. th\<lparr>promised_result := 0xc920181a\<rparr>)) s
            | Some (c, cs) \<Rightarrow> bindE (front_thread cs (kern s)) (\<lambda>client_thread. TranslateIPCMessage h uses client_thread t False s))
      | _ \<Rightarrow> Inr s))"

text \<open>The dispatcher takes the callback of a thread and runs it. \<open>RescheduleImmediately\<close>, with which the callbacks end, does nothing.\<close>

definition run_callback :: "'d handlers \<Rightarrow> (u32 \<Rightarrow> 'd system \<Rightarrow> nat) \<Rightarrow> nat \<Rightarrow> 'd system \<Rightarrow> 'd system res" where
  "run_callback h uses t s =
    (let s1 = s\<lparr>callbacks := (callbacks s)(t := None)\<rparr> in
     case callbacks s t of
       None \<Rightarrow> Inr s1
     | Some (SendRequest ob session_handle) \<Rightarrow> send_request t ob session_handle s1
     | Some RequestDone \<Rightarrow> Inr s1
     | Some MessageReceived \<Rightarrow> message_received h uses t s1)"

end
