(* ===== verification/VirtualMemoryCorrect.thy ===== *)
theory VirtualMemoryCorrect
  imports VirtualMemory
begin

text \<open>
  Correctness of the address space of a process: mapping and unmapping change exactly the range they are asked to,
  the search for address space finds the lowest gap, and the page table of the processor agrees with the kernel.
\<close>

section \<open>Looking up in the map of a process\<close>

text \<open>Physical address and permissions an address has in a map.\<close>

definition vm_lookup :: "virtual_memory_block omap \<Rightarrow> u32 \<Rightarrow> (u32 \<times> u32) option" where
  "vm_lookup m x = map_option (\<lambda>(a, b). (phys_start b + (x - a), permissions b)) (cell vsize m x)"

abbreviation vblocks_ok :: "virtual_memory_block omap \<Rightarrow> bool" where
  "vblocks_ok \<equiv> blocks_ok vsize"

lemma ResolveVirtualAddr_lookup:
  assumes "vblocks_ok (virtual_memory p)"
  shows "ResolveVirtualAddr x p = map_option fst (vm_lookup (virtual_memory p) x)"
proof (cases "before_upper x (virtual_memory p) = []")
  case False
  then show ?thesis using last_before_upper [OF assms False]
    by (auto simp: ResolveVirtualAddr_def vm_lookup_def cell_before_upper [OF assms] word_le_def split: prod.splits)
qed (simp add: ResolveVirtualAddr_def vm_lookup_def cell_before_upper [OF assms])

text \<open>The result with a size is the longest range from there on that is contiguous in both memories.\<close>

lemma ResolveVirtualAddrWithSize_lookup:
  assumes "vblocks_ok (virtual_memory p)"
  shows "ResolveVirtualAddrWithSize x p = map_option (\<lambda>(a, b). (phys_start b + (x - a), vsize b - (x - a))) (cell vsize (virtual_memory p) x)"
proof (cases "before_upper x (virtual_memory p) = []")
  case False
  then show ?thesis using last_before_upper [OF assms False]
    by (auto simp: ResolveVirtualAddrWithSize_def cell_before_upper [OF assms] word_le_def split: prod.splits)
qed (simp add: ResolveVirtualAddrWithSize_def cell_before_upper [OF assms])

lemma vm_lookup_erase:
  "vblocks_ok m \<Longrightarrow> (k, b) \<in> set m \<Longrightarrow> vm_lookup (om_erase k m) x = (if in_range k (vsize b) x then None else vm_lookup m x)"
  by (simp add: vm_lookup_def cell_erase)

lemma vm_lookup_None: "vm_lookup m x = None \<longleftrightarrow> cell vsize m x = None"
  by (simp add: vm_lookup_def)

lemma vm_lookup_member:
  "vblocks_ok m \<Longrightarrow> (a, b) \<in> set m \<Longrightarrow> in_range a (vsize b) x \<Longrightarrow> vm_lookup m x = Some (phys_start b + (x - a), permissions b)"
  by (simp add: vm_lookup_def cell_member)

text \<open>Adding a mapping where none was; \<open>insert\<close> then is an assignment.\<close>

lemma vm_insert:
  assumes ok: "vblocks_ok m" and k: "block_range k (vsize b)" and none: "\<And>x. in_range k (vsize b) x \<Longrightarrow> vm_lookup m x = None"
  shows "vblocks_ok (om_insert k b m)" "set (om_insert k b m) = insert (k, b) (set m)"
    "vm_lookup (om_insert k b m) x = (if in_range k (vsize b) x then Some (phys_start b + (x - k), permissions b) else vm_lookup m x)"
proof -
  have apart: "apart_from k (vsize b) vsize m" by (rule apart_from_cells [OF ok k]) (simp add: none flip: vm_lookup_None)
  have eq: "om_insert k b m = om_assign k b m" by (rule om_insert_apart [OF ok k apart])
  show "vblocks_ok (om_insert k b m)" unfolding eq by (rule om_assign_ok [OF ok k apart])
  show "set (om_insert k b m) = insert (k, b) (set m)" unfolding eq by (rule set_om_assign [OF apart_key [OF ok k apart]])
  show "vm_lookup (om_insert k b m) x = (if in_range k (vsize b) x then Some (phys_start b + (x - k), permissions b) else vm_lookup m x)"
    unfolding eq by (simp add: vm_lookup_def cell_assign [OF ok k apart])
qed

section \<open>The map and the page table\<close>

definition vranges :: "virtual_memory_block omap \<Rightarrow> bool" where
  "vranges m \<longleftrightarrow> (\<forall>(a, b) \<in> set m. valid_range a (vsize b) \<and> valid_range (phys_start b) (vsize b))"

definition translate :: "page_table \<Rightarrow> u32 \<Rightarrow> u32 option" where
  "translate pt x = (case TranslateVirtualAddress pt x of Inl _ \<Rightarrow> None | Inr y \<Rightarrow> Some y)"

definition vm_inv :: "process_memory \<Rightarrow> bool" where
  "vm_inv p \<longleftrightarrow> vblocks_ok (virtual_memory p) \<and> vranges (virtual_memory p)
    \<and> (case processor p of None \<Rightarrow> True | Some pt \<Rightarrow> \<forall>x. translate pt x = ResolveVirtualAddr x p)"

lemma valid_block: "valid_range a n \<Longrightarrow> block_range a n"
  by (simp add: valid_range_def block_range_def)

lemma page_div: "a \<le> (x :: int) div 4096 \<longleftrightarrow> 4096 * a \<le> x" "x div 4096 < a \<longleftrightarrow> x < 4096 * a"
proof -
  have "x = 4096 * (x div 4096) + x mod 4096" "0 \<le> x mod 4096" "x mod 4096 < 4096" by simp_all
  then show "a \<le> x div 4096 \<longleftrightarrow> 4096 * a \<le> x" "x div 4096 < a \<longleftrightarrow> x < 4096 * a" by linarith+
qed

lemma page_index_bound: "page_index x < num_pages"
proof -
  have "int (page_index x) < int num_pages" unfolding uint_page num_pages_def using uint_u32_bounds [of x] by (simp add: page_div)
  then show ?thesis by (simp only: of_nat_less_iff)
qed

lemma page_in_range:
  assumes v: "valid_range v n"
  shows "page_index x \<in> range_pages v n \<longleftrightarrow> in_range v n x"
proof -
  obtain a k where a: "uint v = 4096 * a" "uint n = 4096 * k" using v by (auto simp: valid_range_def elim!: dvdE)
  have "page_index x \<in> range_pages v n \<longleftrightarrow> int (page_index v) \<le> int (page_index x) \<and> int (page_index x) < int (page_index v) + int (unat n div 4096)"
    by (simp only: range_pages_def atLeastLessThan_iff) linarith
  also have "\<dots> \<longleftrightarrow> a \<le> uint x div 4096 \<and> uint x div 4096 < a + k"
    using a by (simp only: uint_page) (simp add: zdiv_int)
  also have "\<dots> \<longleftrightarrow> in_range v n x" unfolding in_range_def a page_div by simp
  finally show ?thesis .
qed

lemma translate_insert:
  assumes v: "valid_range v n" and p: "valid_range q n"
  shows "\<exists>pt'. PageTable_Insert v q n pt = Inr pt' \<and> (\<forall>x. translate pt' x = (if in_range v n x then Some (q + (x - v)) else translate pt x))"
proof -
  obtain pt' where pt': "PageTable_Insert v q n pt = Inr pt'"
    and phys: "\<And>i. physical_addresses pt' i =
      (if i \<in> range_pages v n then q + of_nat (i - page_index v) * 0x1000 else physical_addresses pt i)"
    using PageTable_Insert_spec [OF v, of q pt] by blast
  have "translate pt' x = (if in_range v n x then Some (q + (x - v)) else translate pt x)" for x
  proof (cases "in_range v n x")
    case True
    let ?k = "x - v"
    have k: "uint ?k < uint n" using True by (simp add: in_range_def uint_sub_u32)
    have x: "v + ?k = x" by simp
    note in_range = in_range_page [OF v k, unfolded x]
    have "physical_addresses pt' (page_index x) = q + of_nat (page_index ?k) * 0x1000"
      by (simp only: phys in_range(1,2) if_True)
    moreover have "page_index ?k < unat n div 4096" using in_range(1,2) by (auto simp: range_pages_def)
    ultimately have "TranslateVirtualAddress pt' x = Inr (q + of_nat (page_index ?k) * 0x1000 + (?k AND 0xfff))"
      using aligned_pages(3) [OF p] in_range(3) by (simp only: TranslateVirtualAddress_def Let_def if_False)
    then have "TranslateVirtualAddress pt' x = Inr (q + ?k)" by (simp only: add.assoc page_split)
    then show ?thesis using True by (simp add: translate_def)
  next
    case False
    then show ?thesis by (simp add: translate_def TranslateVirtualAddress_def phys page_in_range [OF v])
  qed
  then show ?thesis using pt' by blast
qed

lemma translate_None: "translate pt x = None \<longleftrightarrow> physical_addresses pt (page_index x) = unmapped"
  by (simp add: translate_def TranslateVirtualAddress_def Let_def)

lemma translate_remove:
  assumes v: "valid_range v n" and mapped: "\<And>x. in_range v n x \<Longrightarrow> translate pt x \<noteq> None"
  shows "\<exists>pt'. PageTable_Remove v n pt = Inr pt' \<and> (\<forall>x. translate pt' x = (if in_range v n x then None else translate pt x))"
proof -
  have "physical_addresses pt i \<noteq> unmapped" if i: "i \<in> range_pages v n" for i
  proof -
    have "i < num_pages" using i page_range_arith(2) [OF v] page_index_bound [of "v + n"] by (simp add: range_pages_def)
    then have "page_index (push_bit 12 (of_nat i)) = i" by (rule page_index_page)
    then show ?thesis using mapped [of "push_bit 12 (of_nat i)"] i page_in_range [OF v, of "push_bit 12 (of_nat i)"] by (simp add: translate_None)
  qed
  then obtain pt' where pt': "PageTable_Remove v n pt = Inr pt'"
    and phys: "\<And>i. physical_addresses pt' i = (if i \<in> range_pages v n then unmapped else physical_addresses pt i)"
    using PageTable_Remove_spec [OF v, of pt] by blast
  have "translate pt' x = (if in_range v n x then None else translate pt x)" for x
    by (simp add: translate_def TranslateVirtualAddress_def phys page_in_range [OF v])
  then show ?thesis using pt' by blast
qed

section \<open>Mapping\<close>

lemma from_lower_apart:
  assumes "blocks_ok sz m" "block_range v n"
  shows "from_lower v m \<noteq> [] \<and> fst (hd (from_lower v m)) < v + n \<or>
      before_lower v m \<noteq> [] \<and> (case last (before_lower v m) of (a, b) \<Rightarrow> v < a + sz b)
    \<longleftrightarrow> \<not> apart_from v n sz m"
  using assms(1)
proof (induction m)
  case (Cons c m)
  obtain a b where c: "c = (a, b)" by (cases c)
  have ok: "block_range a (sz b)" "\<forall>(d, w) \<in> set m. uint a + uint (sz b) \<le> uint d" "blocks_ok sz m" using Cons.prems by (simp_all add: c)
  have e: "uint (v + n) = uint v + uint n" "uint (a + sz b) = uint a + uint (sz b)" using uint_block_end assms(2) ok(1) by auto
  show ?case
  proof (cases "a < v")
    case False
    then have "from_lower v (c # m) = c # m" "before_lower v (c # m) = []" by (simp_all add: c from_lower_def before_lower_def)
    moreover have "apart_from v n sz (c # m) \<longleftrightarrow> uint v + uint n \<le> uint a"
      using False ok(1,2) by (auto simp: c apart_from_def word_less_def block_range_def)
    ultimately show ?thesis by (simp add: c word_less_def e not_le)
  next
    case True
    then have eq: "from_lower v ((a, b) # m) = from_lower v m" "before_lower v ((a, b) # m) = (a, b) # before_lower v m"
      by (simp_all add: from_lower_def before_lower_def)
    have self: "\<not> uint v + uint n \<le> uint a" using True assms(2) by (simp add: word_less_def block_range_def)
    have split: "apart_from v n sz ((a, b) # m) \<longleftrightarrow> uint a + uint (sz b) \<le> uint v \<and> apart_from v n sz m"
      using self by (auto simp: apart_from_def)
    show ?thesis
    proof (cases "before_lower v m = []")
      case True
      then show ?thesis using Cons.IH [OF ok(3)] unfolding c eq split by (auto simp: word_less_def e)
    next
      case False
      then obtain d w m' where m: "m = (d, w) # m'" "d < v" by (cases m) (auto simp: before_lower_def split: if_splits)
      then have "uint a + uint (sz b) \<le> uint v" using ok(2) by (auto simp: word_less_def)
      then show ?thesis using Cons.IH [OF ok(3)] False unfolding c eq split by simp
    qed
  qed
qed (simp add: from_lower_def before_lower_def apart_from_def)

lemma apart_lookup:
  assumes "vblocks_ok m" "block_range v n"
  shows "apart_from v n vsize m \<longleftrightarrow> (\<forall>x. in_range v n x \<longrightarrow> vm_lookup m x = None)"
proof
  assume "apart_from v n vsize m"
  then show "\<forall>x. in_range v n x \<longrightarrow> vm_lookup m x = None"
    by (fastforce simp: vm_lookup_None cell_None apart_from_def in_range_def)
next
  assume "\<forall>x. in_range v n x \<longrightarrow> vm_lookup m x = None"
  then show "apart_from v n vsize m" by (intro apart_from_cells assms) (simp add: vm_lookup_None)
qed

lemma vm_inv_blocks: "vm_inv p \<Longrightarrow> vblocks_ok (virtual_memory p)"
  by (simp add: vm_inv_def)

lemma resolve_lookup: "vm_inv p \<Longrightarrow> ResolveVirtualAddr x p = map_option fst (vm_lookup (virtual_memory p) x)"
  by (rule ResolveVirtualAddr_lookup [OF vm_inv_blocks])

lemma map_spec:
  assumes inv: "vm_inv p" and v: "valid_range v n" and q: "valid_range q n"
  shows "if \<forall>x. in_range v n x \<longrightarrow> vm_lookup (virtual_memory p) x = None
    then \<exists>p'. MapVirtualMemory q n v perms p = Inr (True, p') \<and> vm_inv p' \<and> (processor p' = None \<longleftrightarrow> processor p = None)
      \<and> (\<forall>x. vm_lookup (virtual_memory p') x = (if in_range v n x then Some (q + (x - v), perms) else vm_lookup (virtual_memory p) x))
    else MapVirtualMemory q n v perms p = Inr (False, p)"
proof -
  let ?m = "virtual_memory p" and ?b = "\<lparr>phys_start = q, vsize = n, permissions = perms\<rparr>"
  note ok = vm_inv_blocks [OF inv] and n = valid_block [OF v]
  have nz: "n \<noteq> 0" using v by (auto simp: valid_range_def)
  note test = from_lower_apart [OF ok n] apart_lookup [OF ok n]
  show ?thesis
  proof (cases "\<forall>x. in_range v n x \<longrightarrow> vm_lookup ?m x = None")
    case True
    note new = vm_insert [OF ok, of v ?b, simplified, OF n True [rule_format], simplified]
    let ?p = "p\<lparr>virtual_memory := om_insert v ?b ?m\<rparr>"
    have ranges: "vranges (om_insert v ?b ?m)" using inv v q by (auto simp: vranges_def new(2) vm_inv_def)
    have call: "MapVirtualMemory q n v perms p = bindE (OnVirtualMemoryMapped q n v ?p) (\<lambda>p'. Inr (True, p'))"
      using True test nz by (auto simp: MapVirtualMemory_def Let_def)
    obtain p' where p': "OnVirtualMemoryMapped q n v ?p = Inr p'" "virtual_memory p' = om_insert v ?b ?m"
      "processor p' = None \<longleftrightarrow> processor p = None"
      "\<And>pt' x. processor p' = Some pt' \<Longrightarrow> translate pt' x = (if in_range v n x then Some (q + (x - v)) else ResolveVirtualAddr x p)"
    proof (cases "processor p")
      case None
      then show ?thesis using that [of ?p] by (simp add: OnVirtualMemoryMapped_def)
    next
      case (Some pt)
      obtain pt' where "PageTable_Insert v q n pt = Inr pt'" "\<forall>x. translate pt' x = (if in_range v n x then Some (q + (x - v)) else translate pt x)"
        using translate_insert [OF v q] by blast
      then show ?thesis
        by (intro that [of "?p\<lparr>processor := Some pt'\<rparr>"]) (use Some inv in \<open>auto simp: OnVirtualMemoryMapped_def vm_inv_def\<close>)
    qed
    have "vm_inv p'" using p' new(1,3) ranges resolve_lookup [OF inv] ResolveVirtualAddr_lookup [of p']
      by (auto simp: vm_inv_def split: option.split)
    then show ?thesis using True call p' new(3) by simp
  next
    case False
    then show ?thesis using test nz unfolding if_not_P [OF False] by (auto simp: MapVirtualMemory_def Let_def)
  qed
qed

section \<open>Unmapping\<close>

text \<open>Parts of aligned ranges.\<close>

lemma valid_parts:
  assumes "valid_range a n" "4096 dvd uint v" "uint a \<le> uint v" "uint v < uint a + uint n"
  shows "uint (v - a) = uint v - uint a" "uint (n - (v - a)) = uint n - (uint v - uint a)"
    "uint a < uint v \<Longrightarrow> valid_range a (v - a)" "valid_range v (n - (v - a))"
proof -
  show d: "uint (v - a) = uint v - uint a" using assms(3) by (simp add: uint_sub_u32)
  then show r: "uint (n - (v - a)) = uint n - (uint v - uint a)" using assms(4) by (simp add: uint_sub_u32)
  show "uint a < uint v \<Longrightarrow> valid_range a (v - a)" "valid_range v (n - (v - a))"
    using assms by (simp_all add: valid_range_def d r)
qed

lemma valid_tail:
  assumes "valid_range a n" "4096 dvd uint k" "uint k < uint n"
  shows "uint (a + k) = uint a + uint k" "uint (n - k) = uint n - uint k" "valid_range (a + k) (n - k)" "0 < uint k \<Longrightarrow> valid_range a k"
proof -
  show s: "uint (a + k) = uint a + uint k" using assms by (simp add: valid_range_def uint_add_u32)
  show d: "uint (n - k) = uint n - uint k" using assms(3) by (simp add: uint_sub_u32)
  show "valid_range (a + k) (n - k)" using assms by (simp add: valid_range_def s d)
  show "0 < uint k \<Longrightarrow> valid_range a k" using assms by (simp add: valid_range_def)
qed

text \<open>The part of a block before an address stays; what lies behind is the block from that address on.\<close>

lemma split_front:
  assumes ok: "vblocks_ok m" "vranges m" and cb: "(c, b) \<in> set m" "in_range c (vsize b) v" and v: "4096 dvd uint v"
    and m1: "m1 = (if c < v then om_insert c (b\<lparr>vsize := v - c\<rparr>) (om_erase c m) else om_erase c m)"
  shows "vblocks_ok m1 \<and> vranges m1 \<and> vm_lookup m1 x = (if in_range v (vsize b - (v - c)) x then None else vm_lookup m x)"
proof -
  have b: "valid_range c (vsize b)" "valid_range (phys_start b) (vsize b)" using ok(2) cb(1) by (auto simp: vranges_def)
  have bounds: "uint c \<le> uint v" "uint v < uint c + uint (vsize b)" using cb(2) by (auto simp: in_range_def)
  note parts = valid_parts [OF b(1) v bounds]
  note er = om_erase_ok [OF ok(1), of c] vm_lookup_erase [OF ok(1) cb(1)]
  have ranges: "vranges (om_erase c m)" using ok(2) by (auto simp: vranges_def set_om_erase)
  have in_block: "in_range c (vsize b) y \<Longrightarrow> vm_lookup m y = Some (phys_start b + (y - c), permissions b)" for y
    by (rule vm_lookup_member [OF ok(1) cb(1)])
  show ?thesis
  proof (cases "c < v")
    case True
    then have front: "valid_range c (v - c)" "valid_range (phys_start b) (v - c)" using parts(3) b(2) bounds v parts(1)
      by (auto simp: word_less_def valid_range_def)
    have i: "in_range c (v - c) y \<longleftrightarrow> in_range c (vsize b) y \<and> \<not> in_range v (vsize b - (v - c)) y" for y
      using bounds by (auto simp: in_range_def parts)
    have none: "in_range c (v - c) y \<Longrightarrow> vm_lookup (om_erase c m) y = None" for y by (simp add: er(2) i)
    have rear: "in_range v (vsize b - (v - c)) y \<Longrightarrow> in_range c (vsize b) y" for y using bounds by (auto simp: in_range_def parts)
    note new = vm_insert [OF er(1), of c "b\<lparr>vsize := v - c\<rparr>", simplified, OF valid_block [OF front(1)] none, simplified]
    show ?thesis
      using new(1) new(2) new(3) [of x] ranges front True rear [of x] in_block [of x] by (auto simp: m1 vranges_def i er(2))
  next
    case False
    then have "c = v" using bounds(1) by (simp add: word_less_def word_uint_eq_iff)
    then show ?thesis
      using er ranges by (simp add: m1)
  qed
qed

lemma split_back:
  assumes ok: "vblocks_ok m" "vranges m" and b: "valid_range v (vsize b)" "valid_range (phys_start b) (vsize b)" and n: "4096 dvd uint n" "0 < uint n"
    and none: "\<And>x. in_range v (vsize b) x \<Longrightarrow> vm_lookup m x = None"
    and m2: "m2 = (if n < vsize b then om_insert (v + n) (b\<lparr>phys_start := phys_start b + n, vsize := vsize b - n\<rparr>) m else m)"
  shows "vblocks_ok m2 \<and> vranges m2 \<and> vm_lookup m2 x = (if in_range v (vsize b) x \<and> \<not> in_range v n x then Some (phys_start b + (x - v), permissions b) else vm_lookup m x)"
proof (cases "n < vsize b")
  case True
  then have lt: "uint n < uint (vsize b)" by (simp add: word_less_def)
  note vt = valid_tail [OF b(1) n(1) lt] and pt = valid_tail [OF b(2) n(1) lt]
  let ?b = "b\<lparr>phys_start := phys_start b + n, vsize := vsize b - n\<rparr>"
  have i: "in_range (v + n) (vsize b - n) y \<longleftrightarrow> in_range v (vsize b) y \<and> \<not> in_range v n y" for y
    using lt n(2) by (auto simp: in_range_def vt)
  have "in_range (v + n) (vsize b - n) y \<Longrightarrow> vm_lookup m y = None" for y using none by (simp add: i)
  note new = vm_insert [OF ok(1), of "v + n" ?b, simplified, OF valid_block [OF vt(3)] this, simplified]
  have "phys_start b + n + (x - (v + n)) = phys_start b + (x - v)" by (simp add: algebra_simps)
  then show ?thesis
    using True new(1) new(2) new(3) [of x] ok(2) vt(3) pt(3) by (auto simp: m2 vranges_def i)
next
  case False
  then have "in_range v (vsize b) y \<Longrightarrow> in_range v n y" for y by (auto simp: in_range_def word_less_def)
  then show ?thesis
    using False ok by (auto simp: m2)
qed

lemma unmap_target_cell:
  assumes ok: "vblocks_ok m" and v: "block_range v n" and cell: "cell vsize m v = Some (c, b)"
  shows "unmap_target v n m = Some (c, b)" "c < v + n" "v < c + vsize b" "uint (c + vsize b) = uint c + uint (vsize b)" "uint c \<le> uint v"
proof -
  have mem: "(c, b) \<in> set m" "in_range c (vsize b) v" using cell_Some [OF cell] by blast+
  have e: "uint (v + n) = uint v + uint n" "uint (c + vsize b) = uint c + uint (vsize b)"
    using uint_block_end v blocks_range [OF ok mem(1)] by auto
  then show lt: "c < v + n" "v < c + vsize b" "uint (c + vsize b) = uint c + uint (vsize b)" "uint c \<le> uint v"
    using mem(2) v by (auto simp: word_less_def in_range_def block_range_def)
  have "before_upper v m \<noteq> []" "last (before_upper v m) = (c, b)"
    using cell unfolding cell_before_upper [OF ok] by (auto split: if_splits prod.splits)
  then show "unmap_target v n m = Some (c, b)" using lt by (simp add: unmap_target_def)
qed

lemma unmapped_processor:
  assumes inv: "vm_inv p" and k: "valid_range v k" and mapped: "\<And>x. in_range v k x \<Longrightarrow> vm_lookup (virtual_memory p) x \<noteq> None"
    and m: "vblocks_ok m" "vranges m" "\<And>x. vm_lookup m x = (if in_range v k x then None else vm_lookup (virtual_memory p) x)"
  shows "\<exists>p'. OnVirtualMemoryUnmapped v k (p\<lparr>virtual_memory := m\<rparr>) = Inr p' \<and> vm_inv p' \<and> virtual_memory p' = m
    \<and> (processor p' = None \<longleftrightarrow> processor p = None)"
proof (cases "processor p")
  case None
  then show ?thesis using m by (simp add: OnVirtualMemoryUnmapped_def vm_inv_def)
next
  case (Some pt)
  then have tr: "translate pt x = ResolveVirtualAddr x p" for x using inv by (simp add: vm_inv_def)
  have "translate pt x \<noteq> None" if "in_range v k x" for x using mapped [OF that] resolve_lookup [OF inv] by (simp add: tr)
  then obtain pt' where pt': "PageTable_Remove v k pt = Inr pt'" "\<forall>x. translate pt' x = (if in_range v k x then None else translate pt x)"
    using translate_remove [OF k] by blast
  let ?p = "p\<lparr>virtual_memory := m, processor := Some pt'\<rparr>"
  have "ResolveVirtualAddr x ?p = (if in_range v k x then None else ResolveVirtualAddr x p)" for x
    using ResolveVirtualAddr_lookup [of ?p x] m(1,3) resolve_lookup [OF inv] by simp
  then have "vm_inv ?p" using m(1,2) pt'(2) tr by (simp add: vm_inv_def)
  then show ?thesis using Some pt'(1) by (simp add: OnVirtualMemoryUnmapped_def)
qed

lemma unmap_block_mapped:
  assumes inv: "vm_inv p" and v: "valid_range v n" and cell: "cell vsize (virtual_memory p) v = Some (c, b)"
    and k: "k = (if n < vsize b - (v - c) then n else vsize b - (v - c))"
  shows "\<exists>p'. unmap_block v n p = Inr (True, if k < n then Some (v + k, n - k) else None, p') \<and> vm_inv p'
      \<and> (processor p' = None \<longleftrightarrow> processor p = None)
      \<and> (\<forall>x. vm_lookup (virtual_memory p') x = (if in_range v k x then None else vm_lookup (virtual_memory p) x)) \<and> valid_range v k"
proof -
  let ?m = "virtual_memory p" and ?s = "vsize b - (v - c)"
  note ok = vm_inv_blocks [OF inv] and target = unmap_target_cell [OF vm_inv_blocks [OF inv] valid_block [OF v] cell]
  have ranges: "vranges ?m" and n: "4096 dvd uint v" "4096 dvd uint n" "0 < uint n" "n \<noteq> 0" using inv v by (auto simp: vm_inv_def valid_range_def)
  have mem: "(c, b) \<in> set ?m" "in_range c (vsize b) v" using cell_Some [OF cell] by blast+
  have b: "valid_range c (vsize b)" "valid_range (phys_start b) (vsize b)" using ranges mem(1) by (auto simp: vranges_def)
  have bounds: "uint v < uint c + uint (vsize b)" using mem(2) by (simp add: in_range_def)
  note parts = valid_parts [OF b(1) n(1) target(5) bounds]
  define m1 where "m1 = (if c < v then om_insert c (b\<lparr>vsize := v - c\<rparr>) (om_erase c ?m) else om_erase c ?m)"
  note front = split_front [OF ok ranges mem n(1) m1_def]
  define b1 where "b1 = b\<lparr>phys_start := phys_start b + (v - c), vsize := ?s\<rparr>"
  have b1: "vsize b1 = ?s" "phys_start b1 = phys_start b + (v - c)" "permissions b1 = permissions b" by (simp_all add: b1_def)
  have "4096 dvd uint (v - c)" "uint (v - c) < uint (vsize b)" using n(1) b(1) bounds by (simp_all add: parts(1) valid_range_def)
  then have p1: "valid_range (phys_start b1) (vsize b1)" using valid_tail(3) [OF b(2)] by (simp add: b1)
  define m2 where "m2 = (if n < vsize b1 then om_insert (v + n) (b1\<lparr>phys_start := phys_start b1 + n, vsize := vsize b1 - n\<rparr>) m1 else m1)"
  have none: "in_range v (vsize b1) x \<Longrightarrow> vm_lookup m1 x = None" for x using front [of x] by (simp add: b1)
  note rear = split_back [OF conjunct1 [OF front] conjunct1 [OF conjunct2 [OF front]] _ p1 n(2,3) none m2_def, unfolded b1(1), OF parts(4)]
  have in_k: "in_range v k x \<longleftrightarrow> in_range v ?s x \<and> in_range v n x" for x by (auto simp: k in_range_def word_less_def)
  have old: "vm_lookup ?m x = Some (phys_start b1 + (x - v), permissions b)" if "in_range v ?s x" for x
  proof -
    have "in_range c (vsize b) x" using that target(5) by (auto simp: in_range_def parts)
    then show ?thesis using vm_lookup_member [OF ok mem(1)] by (simp add: b1 algebra_simps)
  qed
  have new: "vm_lookup m2 x = (if in_range v k x then None else vm_lookup ?m x)" for x
    using rear [of x] front [of x] old [of x] by (auto simp: in_k b1)
  have vk: "valid_range v k" using parts(4) v by (auto simp: k)
  obtain p' where p': "OnVirtualMemoryUnmapped v k (p\<lparr>virtual_memory := m2\<rparr>) = Inr p'" "vm_inv p'" "virtual_memory p' = m2"
    "processor p' = None \<longleftrightarrow> processor p = None"
    using unmapped_processor [OF inv vk, of m2] old new rear by (auto simp: in_k)
  have "c < v \<or> c = v" using target(5) by (auto simp: word_less_def word_uint_eq_iff)
  then have "unmap_block v n p = Inr (True, if k < n then Some (v + k, n - k) else None, p')"
    using target n(4) p'(1) by (auto simp: unmap_block_def Let_def m1_def m2_def b1_def k word_less_def)
  then show ?thesis using p' new vk by auto
qed

lemma unmap_spec:
  assumes "vm_inv p" "valid_range v n" "\<And>x. in_range v n x \<Longrightarrow> vm_lookup (virtual_memory p) x \<noteq> None"
  shows "\<exists>p'. UnmapVirtualMemory v n p = Inr (True, p') \<and> vm_inv p' \<and> (processor p' = None \<longleftrightarrow> processor p = None)
    \<and> (\<forall>x. vm_lookup (virtual_memory p') x = (if in_range v n x then None else vm_lookup (virtual_memory p) x))"
  using assms
proof (induction "unat n" arbitrary: v n p rule: less_induct)
  case less
  have "vm_lookup (virtual_memory p) v \<noteq> None" by (rule less.prems(3) [OF block_start [OF valid_block [OF less.prems(2)]]])
  then obtain c b where cell: "cell vsize (virtual_memory p) v = Some (c, b)" by (auto simp: vm_lookup_def)
  define k where "k = (if n < vsize b - (v - c) then n else vsize b - (v - c))"
  obtain p1 where p1: "unmap_block v n p = Inr (True, if k < n then Some (v + k, n - k) else None, p1)" "vm_inv p1"
    "processor p1 = None \<longleftrightarrow> processor p = None"
    "\<And>x. vm_lookup (virtual_memory p1) x = (if in_range v k x then None else vm_lookup (virtual_memory p) x)" "valid_range v k"
    using unmap_block_mapped [OF less.prems(1,2) cell k_def] by metis
  show ?case
  proof (cases "k < n")
    case True
    have k: "4096 dvd uint k" "0 < uint k" "uint k < uint n" using p1(5) True by (simp_all add: valid_range_def word_less_def)
    note tail = valid_tail [OF less.prems(2) k(1,3)]
    have parts: "in_range v n x \<longleftrightarrow> in_range v k x \<or> in_range (v + k) (n - k) x" "\<not> (in_range v k x \<and> in_range (v + k) (n - k) x)" for x
      using k(2,3) unfolding in_range_def tail(1,2) by linarith+
    have "n - k < n" using tail(2) k(2) by (simp add: word_less_def)
    then have "unat (n - k) < unat n" by (simp add: word_less_nat_alt)
    moreover have "vm_lookup (virtual_memory p1) x \<noteq> None" if "in_range (v + k) (n - k) x" for x
      using that parts [of x] less.prems(3) [of x] p1(4) [of x] by metis
    ultimately obtain p' where "UnmapVirtualMemory (v + k) (n - k) p1 = Inr (True, p')" "vm_inv p'" "processor p' = None \<longleftrightarrow> processor p1 = None"
      "\<And>x. vm_lookup (virtual_memory p') x = (if in_range (v + k) (n - k) x then None else vm_lookup (virtual_memory p1) x)"
      using less.hyps [OF _ p1(2) tail(3)] by metis
    moreover have "UnmapVirtualMemory v n p = UnmapVirtualMemory (v + k) (n - k) p1"
      by (subst UnmapVirtualMemory.simps) (simp only: p1(1) True if_True sum.case option.case prod.case)
    ultimately show ?thesis using p1(3,4) parts(1) by metis
  next
    case False
    then have "k = n" by (auto simp: k_def)
    moreover have "UnmapVirtualMemory v n p = Inr (True, p1)"
      by (subst UnmapVirtualMemory.simps) (simp only: p1(1) False if_False sum.case option.case prod.case)
    ultimately show ?thesis using p1(2-4) by metis
  qed
qed

text \<open>Nothing happens when nothing of the range is mapped.\<close>

lemma unmap_nothing:
  assumes inv: "vm_inv p" and v: "block_range v n" and none: "\<And>x. in_range v n x \<Longrightarrow> vm_lookup (virtual_memory p) x = None"
    and r: "UnmapVirtualMemory v n p = Inr (r, p')"
  shows "p' = p"
proof -
  obtain ok rest p1 where block: "unmap_block v n p = Inr (ok, rest, p1)" using r by (subst (asm) UnmapVirtualMemory.simps) (auto split: sum.splits)
  have "rest = None \<and> p1 = p"
  proof (cases "unmap_target v n (virtual_memory p)")
    case None
    then show ?thesis using block by (auto simp: unmap_block_def split: if_splits)
  next
    case (Some t)
    obtain c b where t: "t = (c, b)" by (cases t)
    have mem: "(c, b) \<in> set (virtual_memory p)" using unmap_target_member Some t by blast
    note range = blocks_range [OF vm_inv_blocks [OF inv] mem]
    have "\<not> (c < v + n \<and> v < c + vsize b)"
    proof
      assume over: "c < v + n \<and> v < c + vsize b"
      define x where "x = (if c < v then v else c)"
      have "in_range v n x" "in_range c (vsize b) x"
        using over v range unfolding word_less_def uint_block_end [OF v] uint_block_end [OF range]
        by (auto simp: x_def in_range_def block_range_def word_less_def)
      then show False using vm_lookup_member [OF vm_inv_blocks [OF inv] mem] none by fastforce
    qed
    then show ?thesis using block Some t by (auto simp: unmap_block_def Let_def split: if_splits)
  qed
  then show ?thesis using r by (subst (asm) UnmapVirtualMemory.simps) (simp add: block)
qed

text \<open>A range whose mapped addresses come first: what is mapped of it is unmapped.\<close>

lemma unmap_front:
  assumes "vm_inv p" "valid_range v n" "UnmapVirtualMemory v n p = Inr (r, p')"
    and "\<And>x y. in_range v n x \<Longrightarrow> vm_lookup (virtual_memory p) x \<noteq> None \<Longrightarrow> v \<le> y \<Longrightarrow> y \<le> x \<Longrightarrow> vm_lookup (virtual_memory p) y \<noteq> None"
  shows "vm_inv p'"
  using assms
proof (induction "unat n" arbitrary: v n p rule: less_induct)
  case less
  show ?case
  proof (cases "cell vsize (virtual_memory p) v")
    case None
    have "vm_lookup (virtual_memory p) x = None" if "in_range v n x" for x
    proof -
      have "v \<le> x" using that by (simp add: in_range_def word_le_def)
      moreover have "vm_lookup (virtual_memory p) v = None" using None by (simp add: vm_lookup_None)
      ultimately show ?thesis using less.prems(4) [OF that _ order_refl] by blast
    qed
    then show ?thesis using unmap_nothing [OF less.prems(1) valid_block [OF less.prems(2)] _ less.prems(3)] less.prems(1) by blast
  next
    case (Some cb)
    then obtain c b where cell: "cell vsize (virtual_memory p) v = Some (c, b)" by (cases cb) auto
    define k where "k = (if n < vsize b - (v - c) then n else vsize b - (v - c))"
    obtain p1 where p1: "unmap_block v n p = Inr (True, if k < n then Some (v + k, n - k) else None, p1)" "vm_inv p1"
      "\<And>x. vm_lookup (virtual_memory p1) x = (if in_range v k x then None else vm_lookup (virtual_memory p) x)" "valid_range v k"
      using unmap_block_mapped [OF less.prems(1,2) cell k_def] by metis
    show ?thesis
    proof (cases "k < n")
      case True
      have k: "4096 dvd uint k" "0 < uint k" "uint k < uint n" using p1(4) True by (simp_all add: valid_range_def word_less_def)
      note tail = valid_tail [OF less.prems(2) k(1,3)]
      have "n - k < n" using tail(2) k(2) by (simp add: word_less_def)
      then have "unat (n - k) < unat n" by (simp add: word_less_nat_alt)
      moreover have "UnmapVirtualMemory (v + k) (n - k) p1 = Inr (r, p')"
        using less.prems(3) by (subst (asm) UnmapVirtualMemory.simps) (simp only: p1(1) True if_True sum.case option.case prod.case)
      moreover have "vm_lookup (virtual_memory p1) y \<noteq> None"
        if x: "in_range (v + k) (n - k) x" "vm_lookup (virtual_memory p1) x \<noteq> None" and y: "v + k \<le> y" "y \<le> x" for x y
      proof -
        have "in_range v n x" "v \<le> y" "\<not> in_range v k y" using x(1) y k unfolding in_range_def tail(1,2) word_le_def by linarith+
        moreover have "vm_lookup (virtual_memory p) x \<noteq> None" using x(2) p1(3) by metis
        ultimately show ?thesis using less.prems(4) y(2) p1(3) by metis
      qed
      ultimately show ?thesis using less.hyps [OF _ p1(2) tail(3)] by blast
    next
      case False
      then show ?thesis using less.prems(3) p1(2) by (subst (asm) UnmapVirtualMemory.simps) (simp only: p1(1) if_False sum.case option.case prod.case, simp)
    qed
  qed
qed

section \<open>Searching for free address space\<close>

lemma move_candidate_spec:
  assumes "vblocks_ok m" "0 < uint n" "\<forall>(a, b) \<in> set m. uint a + uint (vsize b) + uint n < 4294967296" "uint c + uint n < 4294967296"
  shows "uint c \<le> uint (move_candidate n c m) \<and> uint (move_candidate n c m) + uint n < 4294967296
    \<and> apart_from (move_candidate n c m) n vsize m
    \<and> (\<forall>d. uint c \<le> uint d \<longrightarrow> uint d < uint (move_candidate n c m) \<longrightarrow> \<not> apart_from d n vsize m)"
  using assms
proof (induction n c m rule: move_candidate.induct)
  case (2 n c a b m)
  have ok: "block_range a (vsize b)" "\<forall>(d, w) \<in> set m. uint a + uint (vsize b) \<le> uint d" "vblocks_ok m"
    "\<forall>(d, w) \<in> set m. uint d + uint (vsize w) + uint n < 4294967296" "uint a + uint (vsize b) + uint n < 4294967296"
    using "2.prems"(1,3) by auto
  have e: "uint (a + vsize b) = uint a + uint (vsize b)" "uint (c + n) = uint c + uint n"
    using uint_block_end [OF ok(1)] "2.prems"(2,4) uint_block_end [of c n] by (auto simp: block_range_def)
  have split: "apart_from d n vsize ((a, b) # m) \<longleftrightarrow> (uint a + uint (vsize b) \<le> uint d \<or> uint d + uint n \<le> uint a) \<and> apart_from d n vsize m" for d
    by (auto simp: apart_from_def)
  consider (skip) "a + vsize b < c" | (behind) "\<not> a + vsize b < c" "a < c + n" | (stop) "\<not> a + vsize b < c" "\<not> a < c + n" by blast
  then show ?case
  proof cases
    case skip
    then have "uint a + uint (vsize b) < uint c" by (simp add: word_less_def e)
    then show ?thesis using "2.IH"(1) [OF skip ok(3) "2.prems"(2) ok(4) "2.prems"(4)] skip by (auto simp: split)
  next
    case behind
    then have c: "uint c \<le> uint (a + vsize b)" "uint a < uint c + uint n" "uint (a + vsize b) + uint n < 4294967296"
      using ok(5) by (simp_all add: word_less_def e)
    note IH = "2.IH"(2) [OF behind ok(3) "2.prems"(2) ok(4) c(3)]
    have "\<not> apart_from d n vsize ((a, b) # m)" if "uint c \<le> uint d" "uint d < uint (move_candidate n (a + vsize b) m)" for d
      using IH that c(2) by (cases "uint (a + vsize b) \<le> uint d") (auto simp: split e)
    then show ?thesis using IH behind c(1) by (auto simp: split e)
  next
    case stop
    then have "uint c + uint n \<le> uint a" by (simp add: word_less_def e)
    moreover from this have "apart_from c n vsize m" using ok(1,2) by (fastforce simp: apart_from_def block_range_def)
    ultimately show ?thesis using stop "2.prems"(4) by (simp add: split)
  qed
qed (simp add: apart_from_def)

section \<open>Properties\<close>

text \<open>A new process of either kind.\<close>

definition new_process :: "bool \<Rightarrow> process_memory" where
  "new_process emulated = \<lparr>virtual_memory = [], processor = (if emulated then Some PageTable_init else None)\<rparr>"

lemma vm_inv_new: "vm_inv (new_process e)"
  by (simp add: vm_inv_def new_process_def vranges_def translate_None PageTable_init_def ResolveVirtualAddr_def before_upper_def)

lemma new_lookup [simp]: "vm_lookup (virtual_memory (new_process e)) x = None"
  by (simp add: new_process_def vm_lookup_def)

lemma example_ranges: "valid_range 0x00100000 0x3000" "valid_range 0x20000000 0x3000" "valid_range 0x00101000 0x1000"
  by (simp_all add: valid_range_def)

text \<open>C17: mapping into an address space. A page-aligned range can be mapped exactly when all of it is unmapped; then
  its addresses resolve to the physical addresses at the same offsets with the permissions given, and all others
  resolve as before. A range that overlaps a mapping is refused, and nothing changes.\<close>

theorem map_virtual_memory:
  assumes "vm_inv p" "valid_range v n" "valid_range q n"
  shows "if \<forall>x. in_range v n x \<longrightarrow> vm_lookup (virtual_memory p) x = None
    then \<exists>p'. MapVirtualMemory q n v perms p = Inr (True, p') \<and> vm_inv p' \<and> (processor p' = None \<longleftrightarrow> processor p = None)
      \<and> (\<forall>x. vm_lookup (virtual_memory p') x = (if in_range v n x then Some (q + (x - v), perms) else vm_lookup (virtual_memory p) x))
    else MapVirtualMemory q n v perms p = Inr (False, p)"
  by (rule map_spec [OF assms])

lemma map_new:
  "\<exists>p. MapVirtualMemory 0x20000000 0x3000 0x00100000 3 (new_process e) = Inr (True, p) \<and> vm_inv p
    \<and> (\<forall>x. vm_lookup (virtual_memory p) x = (if in_range 0x00100000 0x3000 x then Some (0x20000000 + (x - 0x00100000), 3) else None))"
  using map_spec [OF vm_inv_new example_ranges(1,2), of e 3] by auto

theorem map_virtual_memory_witness:
  "\<exists>p p'. MapVirtualMemory 0x20000000 0x3000 0x00100000 3 (new_process True) = Inr (True, p) \<and>
    ResolveVirtualAddr 0x00101234 p = Some 0x20001234 \<and> MapVirtualMemory 0x20000000 0x1000 0x00101000 3 p = Inr (False, p)"
proof -
  obtain p where p: "MapVirtualMemory 0x20000000 0x3000 0x00100000 3 (new_process True) = Inr (True, p)" "vm_inv p"
    "\<And>x. vm_lookup (virtual_memory p) x = (if in_range 0x00100000 0x3000 x then Some (0x20000000 + (x - 0x00100000), 3) else None)"
    using map_virtual_memory [OF vm_inv_new example_ranges(1,2), of True 3] by auto
  have "in_range 0x00101000 0x1000 (0x00101000 :: u32)" "in_range 0x00100000 0x3000 (0x00101000 :: u32)" by (simp_all add: in_range_def)
  then have "MapVirtualMemory 0x20000000 0x1000 0x00101000 3 p = Inr (False, p)"
    using map_virtual_memory [OF p(2) example_ranges(3), of "0x20000000" 3] p(3) [of "0x00101000"] by (auto simp: valid_range_def split: if_splits)
  then show ?thesis using p(1) p(3) [of "0x00101234"] resolve_lookup [OF p(2)] by (auto simp: in_range_def)
qed

text \<open>C18: unmapping. When every address of a page-aligned range is mapped, in however many blocks, unmapping it
  succeeds, its addresses no longer resolve, and all others resolve as before with their permissions.\<close>

theorem unmap_virtual_memory:
  assumes "vm_inv p" "valid_range v n" "\<And>x. in_range v n x \<Longrightarrow> vm_lookup (virtual_memory p) x \<noteq> None"
  shows "\<exists>p'. UnmapVirtualMemory v n p = Inr (True, p') \<and> vm_inv p' \<and> (processor p' = None \<longleftrightarrow> processor p = None)
    \<and> (\<forall>x. vm_lookup (virtual_memory p') x = (if in_range v n x then None else vm_lookup (virtual_memory p) x))"
  by (rule unmap_spec [OF assms])

theorem unmap_virtual_memory_witness:
  "\<exists>p p'. MapVirtualMemory 0x20000000 0x3000 0x00100000 3 (new_process True) = Inr (True, p) \<and>
    UnmapVirtualMemory 0x00101000 0x1000 p = Inr (True, p') \<and> vm_inv p' \<and> ResolveVirtualAddr 0x00101234 p' = None
    \<and> ResolveVirtualAddr 0x00100234 p' = Some 0x20000234 \<and> ResolveVirtualAddr 0x00102234 p' = Some 0x20002234"
proof -
  obtain p where p: "MapVirtualMemory 0x20000000 0x3000 0x00100000 3 (new_process True) = Inr (True, p)" "vm_inv p"
    "\<And>x. vm_lookup (virtual_memory p) x = (if in_range 0x00100000 0x3000 x then Some (0x20000000 + (x - 0x00100000), 3) else None)"
    using map_new by blast
  have "in_range 0x00101000 0x1000 x \<Longrightarrow> vm_lookup (virtual_memory p) x \<noteq> None" for x by (simp add: p(3) in_range_def)
  then obtain p' where p': "UnmapVirtualMemory 0x00101000 0x1000 p = Inr (True, p')" "vm_inv p'"
    "\<And>x. vm_lookup (virtual_memory p') x = (if in_range 0x00101000 0x1000 x then None else vm_lookup (virtual_memory p) x)"
    using unmap_virtual_memory [OF p(2) example_ranges(3)] by blast
  then show ?thesis using p(1) p(3) resolve_lookup [OF p'(2)] by (auto simp: in_range_def)
qed

text \<open>
  The address spaces that arise from new processes by mapping and unmapping page-aligned ranges, where a range to unmap has no
  gap before an address that is mapped. Unmapping across such a gap goes wrong, see \<open>unmap_from_gap_corrupts\<close>.
\<close>

inductive vm_reachable :: "process_memory \<Rightarrow> bool" where
  vm_start: "vm_reachable (new_process e)"
| vm_map: "vm_reachable p \<Longrightarrow> valid_range v n \<Longrightarrow> valid_range q n \<Longrightarrow> MapVirtualMemory q n v perms p = Inr (r, p') \<Longrightarrow> vm_reachable p'"
| vm_unmap: "vm_reachable p \<Longrightarrow> valid_range v n \<Longrightarrow>
    (\<And>x y. in_range v n x \<Longrightarrow> ResolveVirtualAddr x p \<noteq> None \<Longrightarrow> v \<le> y \<Longrightarrow> y \<le> x \<Longrightarrow> ResolveVirtualAddr y p \<noteq> None) \<Longrightarrow>
    UnmapVirtualMemory v n p = Inr (r, p') \<Longrightarrow> vm_reachable p'"

lemma vm_reachable_inv: "vm_reachable p \<Longrightarrow> vm_inv p"
proof (induction rule: vm_reachable.induct)
  case (vm_start e)
  show ?case by (rule vm_inv_new)
next
  case (vm_map p v n q perms r p')
  then show ?case using map_spec [OF vm_map.IH vm_map.hyps(2,3), of perms] by (auto split: if_splits)
next
  case (vm_unmap p v n r p')
  show ?case by (rule unmap_front [OF vm_unmap.IH vm_unmap.hyps(2,4)])
    (use vm_unmap.hyps(3) resolve_lookup [OF vm_unmap.IH] in auto)
qed

text \<open>C2: kernel and processor agree. When an address space came about by mapping and unmapping page-aligned ranges, where no
  range to unmap has a gap before an address that is mapped, the processor's page table translates every address to what the
  kernel resolves it to, and refuses exactly the addresses the kernel does not resolve.\<close>

theorem kernel_and_processor_agree:
  assumes "vm_reachable p" "processor p = Some pt"
  shows "TranslateVirtualAddress pt x = (case ResolveVirtualAddr x p of None \<Rightarrow> Inl (UnmappedVirtual x) | Some a \<Rightarrow> Inr a)"
proof -
  have "translate pt x = ResolveVirtualAddr x p" using vm_reachable_inv [OF assms(1)] assms(2) by (simp add: vm_inv_def)
  then show ?thesis by (auto simp: translate_def TranslateVirtualAddress_def Let_def simp flip: \<open>translate pt x = ResolveVirtualAddr x p\<close>)
qed

theorem kernel_and_processor_agree_witness:
  "\<exists>p pt. MapVirtualMemory 0x20000000 0x3000 0x00100000 3 (new_process True) = Inr (True, p) \<and> processor p = Some pt
    \<and> TranslateVirtualAddress pt 0x00101234 = Inr 0x20001234 \<and> TranslateVirtualAddress pt 0x00103000 = Inl (UnmappedVirtual 0x00103000)"
proof -
  obtain p where p: "MapVirtualMemory 0x20000000 0x3000 0x00100000 3 (new_process True) = Inr (True, p)" "vm_inv p"
    "processor p = None \<longleftrightarrow> processor (new_process True) = None"
    "\<And>x. vm_lookup (virtual_memory p) x = (if in_range 0x00100000 0x3000 x then Some (0x20000000 + (x - 0x00100000), 3) else None)"
    using map_spec [OF vm_inv_new example_ranges(1,2), of True 3] by auto
  obtain pt where pt: "processor p = Some pt" using p(3) by (auto simp: new_process_def)
  have "vm_reachable p" by (rule vm_map [OF vm_start example_ranges(1,2) p(1)])
  note agree = kernel_and_processor_agree [OF this pt]
  show ?thesis using p(1) pt p(4) [of "0x00101234"] p(4) [of "0x00103000"] resolve_lookup [OF p(2)] agree [of "0x00101234"] agree [of "0x00103000"]
    by (auto simp: in_range_def)
qed

text \<open>C19: the search for address space is first fit and complete. Unless addresses overflow, it returns the lowest
  address at or above the start at which enough unmapped space begins and ends in time, or reports that there is none.\<close>

theorem find_available_virtual_memory:
  assumes "vm_inv p" "0 < uint n" "\<forall>(a, b) \<in> set (virtual_memory p). uint a + uint (vsize b) + uint n < 4294967296"
    and "uint vaddr_start + uint n < 4294967296"
  shows "case FindAvailableVirtualMemory n vaddr_start vaddr_end p of
      Some v \<Rightarrow> uint vaddr_start \<le> uint v \<and> uint v + uint n \<le> uint vaddr_end
        \<and> (\<forall>x. in_range v n x \<longrightarrow> ResolveVirtualAddr x p = None)
        \<and> (\<forall>d. uint vaddr_start \<le> uint d \<and> d < v \<longrightarrow> (\<exists>x. in_range d n x \<and> ResolveVirtualAddr x p \<noteq> None))
    | None \<Rightarrow> (\<forall>d. uint vaddr_start \<le> uint d \<and> uint d + uint n \<le> uint vaddr_end \<longrightarrow> (\<exists>x. in_range d n x \<and> ResolveVirtualAddr x p \<noteq> None))"
proof -
  let ?c = "move_candidate n vaddr_start (virtual_memory p)"
  note ok = vm_inv_blocks [OF assms(1)]
  note spec = move_candidate_spec [OF ok assms(2-4)]
  have apart: "apart_from d n vsize (virtual_memory p) \<longleftrightarrow> (\<forall>x. in_range d n x \<longrightarrow> ResolveVirtualAddr x p = None)"
    if "uint d + uint n < 4294967296" for d
    using apart_lookup [OF ok, of d n] that assms(2) resolve_lookup [OF assms(1)] by (simp add: block_range_def)
  have last: "uint (?c + n) = uint ?c + uint n" using spec assms(2) uint_block_end [of ?c n] by (simp add: block_range_def)
  have below: "\<exists>x. in_range d n x \<and> ResolveVirtualAddr x p \<noteq> None" if "uint vaddr_start \<le> uint d" "uint d < uint ?c" for d
    using spec that apart [of d] by auto
  show ?thesis
  proof (cases "vaddr_end < ?c + n")
    case True
    then have "uint vaddr_end < uint ?c + uint n" by (simp add: word_less_def last)
    then show ?thesis using True below by (simp add: FindAvailableVirtualMemory_def)
  next
    case False
    then have "uint ?c + uint n \<le> uint vaddr_end" by (simp add: word_less_def last)
    then show ?thesis using False below spec apart [of ?c] by (simp add: FindAvailableVirtualMemory_def word_less_def)
  qed
qed

theorem find_available_virtual_memory_witness:
  "\<exists>p. MapVirtualMemory 0x20000000 0x3000 0x00100000 3 (new_process True) = Inr (True, p) \<and>
    FindAvailableVirtualMemory 0x1000 0x000FF800 0x00200000 p = Some 0x00103000 \<and> ResolveVirtualAddr 0x00103ABC p = None"
proof -
  obtain p where p: "MapVirtualMemory 0x20000000 0x3000 0x00100000 3 (new_process True) = Inr (True, p)" "vm_inv p"
    "virtual_memory p = [(0x00100000, \<lparr>phys_start = 0x20000000, vsize = 0x3000, permissions = 3\<rparr>)]"
    using map_new [of True] by (auto simp: MapVirtualMemory_def OnVirtualMemoryMapped_def new_process_def bindE_eq_Inr from_lower_def before_lower_def om_insert_def)
  have found: "FindAvailableVirtualMemory 0x1000 0x000FF800 0x00200000 p = Some 0x00103000"
    by (simp add: p(3) FindAvailableVirtualMemory_def)
  have "ResolveVirtualAddr 0x00103ABC p = None"
    using find_available_virtual_memory [OF p(2), of "0x1000" "0x000FF800" "0x00200000"] unfolding found p(3)
    by (simp add: in_range_def)
  then show ?thesis using p(1) found by blast
qed

text \<open>Unmapping a range that begins before a mapping and ends inside it goes wrong: what should remain is moved to
  another physical address and its end is lost. With three pages mapped at \<open>0x2000\<close>, unmapping \<open>0x1000-0x3000\<close> leaves
  \<open>0x3000\<close> at the physical address that belonged to \<open>0x4000\<close>, and \<open>0x4000\<close> unmapped.\<close>

theorem unmap_from_gap_corrupts:
  "let p = \<lparr>virtual_memory = [(0x2000, \<lparr>phys_start = q, vsize = 0x3000, permissions = 3\<rparr>)], processor = None\<rparr>
   in ResolveVirtualAddr 0x3000 p = Some (q + 0x1000) \<and> ResolveVirtualAddr 0x4000 p = Some (q + 0x2000) \<and>
      (case UnmapVirtualMemory 0x1000 0x2000 p of Inl e \<Rightarrow> False
       | Inr (ok, p') \<Rightarrow> ok \<and> ResolveVirtualAddr 0x3000 p' = Some (q + 0x2000) \<and> ResolveVirtualAddr 0x4000 p' = None)"
  by (simp add: UnmapVirtualMemory.simps unmap_block_def unmap_target_def before_upper_def from_upper_def om_erase_def om_insert_def
    OnVirtualMemoryUnmapped_def ResolveVirtualAddr_def)

end
