(* ===== verification/KernelIpcCorrect.thy ===== *)
theory KernelIpcCorrect
  imports KernelIpc VirtualMemoryCorrect
begin

text \<open>
  Messages between processes: what a mapped buffer shares between sender and receiver and that the reply takes it back,
  what the receiver of a message finds in its command buffer, what a translated handle refers to, and the numbers of
  processes.
\<close>

unbundle bit_operations_syntax

section \<open>Memory shared between processes\<close>

text \<open>A page that is mapped starts a chunk that is contiguous in both memories.\<close>

lemma resolve_chunk:
  assumes inv: "vm_inv p" and x: "4096 dvd uint x" "vm_lookup (virtual_memory p) x = Some (q, pm)"
  obtains n where "ResolveVirtualAddrWithSize x p = Some (q, n)" "valid_range x n" "valid_range q n"
    "\<And>y. in_range x n y \<Longrightarrow> vm_lookup (virtual_memory p) y = Some (q + (y - x), pm)"
proof -
  note ok = vm_inv_blocks [OF inv]
  obtain a b where ab: "cell vsize (virtual_memory p) x = Some (a, b)" "q = phys_start b + (x - a)" "pm = permissions b"
    using x(2) by (auto simp: vm_lookup_def)
  then have mem: "(a, b) \<in> set (virtual_memory p)" "uint a \<le> uint x" "uint x < uint a + uint (vsize b)"
    using cell_Some by (fastforce simp: in_range_def)+
  have valid: "valid_range a (vsize b)" "valid_range (phys_start b) (vsize b)" using inv mem(1) by (auto simp: vm_inv_def vranges_def)
  note parts = valid_parts [OF valid(1) x(1) mem(2,3)]
  have "4096 dvd uint (x - a)" "uint (x - a) < uint (vsize b)" using parts(1) x(1) mem(2,3) valid(1) by (auto simp: valid_range_def)
  note tail = valid_tail [OF valid(2) this]
  show thesis
  proof
    show "ResolveVirtualAddrWithSize x p = Some (q, vsize b - (x - a))" by (simp add: ResolveVirtualAddrWithSize_lookup [OF ok] ab)
    show "valid_range x (vsize b - (x - a))" by (rule parts(4))
    show "valid_range q (vsize b - (x - a))" using tail(3) ab(2) by simp
    fix y
    assume "in_range x (vsize b - (x - a)) y"
    then have "in_range a (vsize b) y" using parts(2) mem(2,3) by (simp add: in_range_def)
    from vm_lookup_member [OF ok mem(1) this] show "vm_lookup (virtual_memory p) y = Some (q + (y - x), pm)" by (simp add: ab)
  qed
qed

lemma page_of_offset:
  assumes "uint (addr AND NOT 0xfff) = uint b" "4096 dvd uint (k :: u32)" "uint b + uint k + 4096 \<le> 4294967296"
  shows "uint ((addr + k) AND NOT 0xfff) = uint b + uint k"
proof -
  obtain j where j: "uint k = 4096 * j" using assms(2) by (auto elim: dvdE)
  have addr: "uint addr = uint b + uint addr mod 4096" using assms(1) mult_div_mod_eq [of 4096 "uint addr"] unfolding uint_page_base by linarith
  moreover have "uint addr mod 4096 < 4096" by simp
  ultimately have "uint addr + uint k < 4294967296" using assms(3) by linarith
  then have "uint (addr + k) = uint addr + uint k" by (simp add: uint_add_u32)
  then show ?thesis using assms(1) unfolding uint_page_base by (simp add: j)
qed

text \<open>
  What mapping a buffer does to the address space of the receiver: the pages at \<open>v\<close>, from \<open>k\<close> on, resolve to the physical
  addresses the pages at \<open>b\<close> resolve to in the sender's.
\<close>

definition shares :: "u32 \<Rightarrow> u32 \<Rightarrow> u32 \<Rightarrow> u32 \<Rightarrow> u32 \<Rightarrow> process_memory \<Rightarrow> process_memory \<Rightarrow> process_memory \<Rightarrow> bool" where
  "shares b v n k perms sender receiver receiver' \<longleftrightarrow> (\<forall>x. vm_lookup (virtual_memory receiver') x =
    (if in_range v n x \<and> uint v + uint k \<le> uint x then Some (fst (the (vm_lookup (virtual_memory sender) (b + (x - v)))), perms)
     else vm_lookup (virtual_memory receiver) x))"

abbreviation unmapped_from :: "u32 \<Rightarrow> u32 \<Rightarrow> u32 \<Rightarrow> process_memory \<Rightarrow> bool" where
  "unmapped_from v n k p \<equiv> \<forall>x. in_range v n x \<longrightarrow> uint v + uint k \<le> uint x \<longrightarrow> vm_lookup (virtual_memory p) x = None"

abbreviation all_mapped :: "u32 \<Rightarrow> u32 \<Rightarrow> process_memory \<Rightarrow> bool" where
  "all_mapped b n p \<equiv> \<forall>x. in_range b n x \<longrightarrow> vm_lookup (virtual_memory p) x \<noteq> None"

lemma in_range_shift:
  assumes "in_range w c x" "uint c \<le> uint m" "uint y + uint m < 4294967296"
  shows "in_range y m (y + (x - w))"
proof -
  have "uint (x - w) = uint x - uint w" using assms(1) by (simp add: in_range_def uint_sub_u32)
  then have d: "0 \<le> uint (x - w)" "uint (x - w) < uint m" using assms(1,2) by (simp_all add: in_range_def)
  then have "uint (y + (x - w)) = uint y + uint (x - w)" using assms(3) by (simp add: uint_add_u32 [of y "x - w"])
  then show ?thesis using d by (simp add: in_range_def)
qed

text \<open>One round of the loop.\<close>

lemma map_chunk:
  assumes inv: "vm_inv (spaces s src)" "vm_inv (spaces s dst)" and b: "valid_range b n" and v: "valid_range v n"
    and addr: "addr AND NOT 0xfff = b" and k: "k < n" "4096 dvd uint k"
    and src: "all_mapped b n (spaces s src)" and free: "unmapped_from v n k (spaces s dst)"
  obtains c p where "c \<noteq> 0" "c \<le> n - k" "4096 dvd uint (k + c)" "uint (k + c) = uint k + uint c"
    "map_chunks src dst addr v n perms k s = map_chunks src dst addr v n perms (k + c) (put_space dst p s)"
    "vm_inv p" "processor p = None \<longleftrightarrow> processor (spaces s dst) = None"
    "\<forall>x. vm_lookup (virtual_memory p) x = (if in_range (v + k) c x then Some (fst (the (vm_lookup (virtual_memory (spaces s src)) (b + (x - v)))), perms)
      else vm_lookup (virtual_memory (spaces s dst)) x)"
proof -
  have kn: "uint k < uint n" using k(1) by (simp add: word_less_def)
  note bt = valid_tail [OF b k(2) kn] and vt = valid_tail [OF v k(2) kn]
  have dvd: "4096 dvd uint (b + k)" "4096 dvd uint (n - k)" using bt(3) by (simp_all add: valid_range_def)
  have "uint b + uint k + 4096 \<le> 4294967296" using b bt(3) dvd kn by (auto simp: valid_range_def bt(1,2) elim!: dvdE)
  then have page: "(addr + k) AND NOT 0xfff = b + k" using page_of_offset [of addr b k] addr k(2) bt(1) by (simp add: word_uint_eq_iff del: bit.compl_eq_compl_iff)
  have "in_range b n (b + k)" using kn bt(1) by (simp add: in_range_def)
  then obtain q pm where q: "vm_lookup (virtual_memory (spaces s src)) (b + k) = Some (q, pm)" using src by fastforce
  obtain m where m: "ResolveVirtualAddrWithSize (b + k) (spaces s src) = Some (q, m)" "valid_range (b + k) m" "valid_range q m"
    "\<And>y. in_range (b + k) m y \<Longrightarrow> vm_lookup (virtual_memory (spaces s src)) y = Some (q + (y - (b + k)), pm)"
    using resolve_chunk [OF inv(1) dvd(1) q] by blast
  let ?c = "min m (n - k)"
  have c: "uint ?c = min (uint m) (uint (n - k))" by (simp add: min_def word_le_def)
  have c_dvd: "4096 dvd uint ?c" and c_pos: "0 < uint ?c" using m(2) bt(2) kn dvd(2) by (auto simp: c valid_range_def min_def)
  have c_le: "uint ?c \<le> uint n - uint k" "uint ?c \<le> uint m" using c bt(2) by simp_all
  have valid_v: "valid_range (v + k) ?c" using vt(3) c_dvd c_pos c_le by (simp add: valid_range_def bt(2))
  have valid_q: "valid_range q ?c" using m(3) c_dvd c_pos c_le by (simp add: valid_range_def)
  have "in_range v n x \<and> uint v + uint k \<le> uint x" if "in_range (v + k) ?c x" for x
    using that c_le uint_ge_0 [of k] unfolding in_range_def vt(1) by linarith
  then have none: "\<forall>x. in_range (v + k) ?c x \<longrightarrow> vm_lookup (virtual_memory (spaces s dst)) x = None" using free by blast
  obtain p where p: "MapVirtualMemory q ?c (v + k) perms (spaces s dst) = Inr (True, p)" "vm_inv p"
    "processor p = None \<longleftrightarrow> processor (spaces s dst) = None"
    "\<forall>x. vm_lookup (virtual_memory p) x = (if in_range (v + k) ?c x then Some (q + (x - (v + k)), perms) else vm_lookup (virtual_memory (spaces s dst)) x)"
    using map_spec [OF inv(2) valid_v valid_q, of perms] unfolding if_P [OF none] by (elim exE conjE)
  have nz: "?c \<noteq> 0" using c_pos by auto
  have le: "?c \<le> n - k" by (rule min.cobounded2)
  have "uint k + uint ?c < 4294967296" using c_le v uint_ge_0 [of v] unfolding valid_range_def by linarith
  then have sum: "uint (k + ?c) = uint k + uint ?c" by (simp add: uint_add_u32)
  have dvd_sum: "4096 dvd uint (k + ?c)" using sum k(2) c_dvd by simp
  have step: "map_chunks src dst addr v n perms k s = map_chunks src dst addr v n perms (k + ?c) (put_space dst p s)"
    using k(1) page m(1) p(1) by (subst map_chunks.simps) (simp add: map_space_def)
  have look: "vm_lookup (virtual_memory p) x = (if in_range (v + k) ?c x then Some (fst (the (vm_lookup (virtual_memory (spaces s src)) (b + (x - v)))), perms)
      else vm_lookup (virtual_memory (spaces s dst)) x)" for x
  proof (cases "in_range (v + k) ?c x")
    case True
    have "b + (x - v) = (b + k) + (x - (v + k))" by simp
    moreover have "uint (b + k) + uint m < 4294967296" using m(2) by (simp add: valid_range_def)
    ultimately have "in_range (b + k) m (b + (x - v))" using in_range_shift [OF True c_le(2)] by (simp only:)
    from m(4) [OF this] show ?thesis using p(4) [rule_format, of x] True by (simp add: algebra_simps)
  qed (use p(4) [rule_format, of x] in simp)
  then show thesis using that [OF nz le dvd_sum sum step p(2,3)] by blast
qed

lemma put_space_simps [simp]: "spaces (put_space pid p s) = (spaces s)(pid := p)" "put_space pid p (put_space pid q s) = put_space pid p s"
  "put_space pid (spaces s pid) s = s"
  by (simp_all add: put_space_def)

text \<open>The loop. The address spaces of sender and receiver may be the same one.\<close>

lemma map_chunks_spec:
  assumes "vm_inv (spaces s src)" "vm_inv (spaces s dst)" and b: "valid_range b n" and v: "valid_range v n"
    and addr: "addr AND NOT 0xfff = b" and "k \<le> n" "4096 dvd uint k"
    and "all_mapped b n (spaces s src)" "unmapped_from v n k (spaces s dst)"
  shows "\<exists>p. map_chunks src dst addr v n perms k s = Inr (put_space dst p s) \<and> vm_inv p
    \<and> (processor p = None \<longleftrightarrow> processor (spaces s dst) = None) \<and> shares b v n k perms (spaces s src) (spaces s dst) p"
  using assms(1,2,6-9)
proof (induction "unat (n - k)" arbitrary: k s rule: less_induct)
  case less
  show ?case
  proof (cases "k < n")
    case False
    then have "k = n" using less.prems(3) by simp
    then have "map_chunks src dst addr v n perms k s = Inr (put_space dst (spaces s dst) s)" by (subst map_chunks.simps) simp
    moreover have "shares b v n k perms (spaces s src) (spaces s dst) (spaces s dst)" using \<open>k = n\<close> by (auto simp: shares_def in_range_def)
    ultimately show ?thesis using less.prems(2) by blast
  next
    case True
    note chunk = map_chunk [OF less.prems(1,2) b v addr True less.prems(4-6)]
    obtain c p where c: "c \<noteq> 0" "c \<le> n - k" "4096 dvd uint (k + c)" "uint (k + c) = uint k + uint c"
      and step: "map_chunks src dst addr v n perms k s = map_chunks src dst addr v n perms (k + c) (put_space dst p s)"
      and p: "vm_inv p" "processor p = None \<longleftrightarrow> processor (spaces s dst) = None"
      and look: "\<forall>x. vm_lookup (virtual_memory p) x = (if in_range (v + k) c x
        then Some (fst (the (vm_lookup (virtual_memory (spaces s src)) (b + (x - v)))), perms) else vm_lookup (virtual_memory (spaces s dst)) x)"
      by (rule chunk [of perms]) (rule that; assumption)
    let ?s = "put_space dst p s"
    have nk: "uint (n - k) = uint n - uint k" using True by (simp add: uint_sub_u32 word_less_def)
    have vk: "uint (v + k) = uint v + uint k" using v True by (simp add: valid_range_def uint_add_u32 word_less_def)
    have le: "k + c \<le> n" using c(2,4) nk by (simp add: word_le_def)
    have "n - (k + c) = (n - k) - c" by simp
    then have dec: "unat (n - (k + c)) < unat (n - k)" using unat_minus_less [OF c(1,2)] by (simp only:)
    have cn: "uint c \<le> uint n - uint k" using c(2) nk by (simp add: word_le_def)
    have "in_range v n x \<and> uint v + uint k \<le> uint x" if "in_range (v + k) c x" for x
      using that cn uint_ge_0 [of k] unfolding in_range_def vk by linarith
    then have none: "vm_lookup (virtual_memory (spaces s dst)) x = None" if "in_range (v + k) c x" for x using less.prems(6) that by blast
    have same: "vm_lookup (virtual_memory (spaces ?s src)) x = vm_lookup (virtual_memory (spaces s src)) x" if "in_range b n x" for x
    proof (cases "src = dst")
      case True
      then have "\<not> in_range (v + k) c x" using none less.prems(5) that by blast
      then show ?thesis using look [rule_format, of x] True by simp
    qed simp
    have inv: "vm_inv (spaces ?s src)" "vm_inv (spaces ?s dst)" using less.prems(1) p(1) by simp_all
    have mapped: "all_mapped b n (spaces ?s src)" using same less.prems(5) by simp
    have "\<not> in_range (v + k) c x \<and> uint v + uint k \<le> uint x" if "uint v + uint (k + c) \<le> uint x" for x
      using that c(4) uint_ge_0 [of c] unfolding in_range_def vk by linarith
    then have free: "unmapped_from v n (k + c) (spaces ?s dst)" using less.prems(6) look by (simp only: put_space_simps fun_upd_same if_False) metis
    obtain p' where p': "map_chunks src dst addr v n perms (k + c) ?s = Inr (put_space dst p' ?s)" "vm_inv p'"
      "processor p' = None \<longleftrightarrow> processor (spaces ?s dst) = None" "shares b v n (k + c) perms (spaces ?s src) (spaces ?s dst) p'"
      using less.hyps [OF dec inv le c(3) mapped free] by (elim exE conjE)
    have "shares b v n k perms (spaces s src) (spaces s dst) p'"
      unfolding shares_def
    proof
      fix x
      have inside: "in_range b n (b + (x - v))" if "in_range v n x" using in_range_shift [OF that, of n b] b by (simp add: valid_range_def)
      show "vm_lookup (virtual_memory p') x = (if in_range v n x \<and> uint v + uint k \<le> uint x
        then Some (fst (the (vm_lookup (virtual_memory (spaces s src)) (b + (x - v)))), perms) else vm_lookup (virtual_memory (spaces s dst)) x)"
      proof (cases "in_range v n x \<and> uint v + uint (k + c) \<le> uint x")
        case True
        then have "uint v + uint k \<le> uint x" using c(4) uint_ge_0 [of c] by linarith
        then show ?thesis using p'(4) True same [OF inside] by (simp add: shares_def)
      next
        case False
        then have "vm_lookup (virtual_memory p') x = vm_lookup (virtual_memory p) x"
          using p'(4) [unfolded shares_def, rule_format, of x] by (simp only: if_False put_space_simps fun_upd_same)
        moreover have "in_range (v + k) c x \<longleftrightarrow> in_range v n x \<and> uint v + uint k \<le> uint x"
          using False c(4) cn uint_ge_0 [of k] unfolding in_range_def vk by linarith
        ultimately show ?thesis using look [rule_format, of x] by simp
      qed
    qed
    then show ?thesis using step p' p(2) by (intro exI [of _ p']) simp
  qed
qed

text \<open>The pages a buffer lies in.\<close>

definition buffer_fits :: "u32 \<Rightarrow> u32 \<Rightarrow> bool" where
  "buffer_fits addr n \<longleftrightarrow> 0 < uint n \<and> uint addr + uint n + 4095 < 4294967296"

lemma buffer_pages:
  assumes "buffer_fits addr n"
  shows "valid_range (addr AND NOT 0xfff) (mapped_buffer_size addr n)"
    "uint (addr AND NOT 0xfff) + uint (mapped_buffer_size addr n) = 4096 * ((uint addr + uint n + 4095) div 4096)"
proof -
  have fits: "0 < uint n" "uint addr + uint n + 4095 < 4294967296" using assms by (simp_all add: buffer_fits_def)
  have "uint (addr + n) = uint addr + uint n" using fits by (simp add: uint_add_u32)
  then have last: "uint (addr + n + 0xfff) = uint addr + uint n + 4095" using fits by (simp add: uint_add_u32 [of "addr + n"])
  define p e where "p = uint addr div 4096" and "e = (uint addr + uint n + 4095) div 4096"
  have pe: "p < e" "4096 * e \<le> uint addr + uint n + 4095" "0 \<le> p"
    using fits uint_ge_0 [of addr] unfolding p_def e_def by linarith+
  have base: "uint (addr AND NOT 0xfff) = 4096 * p" "uint ((addr + n + 0xfff) AND NOT 0xfff) = 4096 * e"
    unfolding uint_page_base last p_def e_def by simp_all
  have size: "uint (mapped_buffer_size addr n) = 4096 * e - 4096 * p"
    unfolding mapped_buffer_size_def uint_sub_u32 base using pe(1) by simp
  show "uint (addr AND NOT 0xfff) + uint (mapped_buffer_size addr n) = 4096 * ((uint addr + uint n + 4095) div 4096)"
    unfolding base size e_def by simp
  show "valid_range (addr AND NOT 0xfff) (mapped_buffer_size addr n)"
    unfolding valid_range_def base size using pe fits by auto
qed

text \<open>The buffer at the same offset in other pages.\<close>

lemma buffer_moved:
  assumes fits: "buffer_fits addr n" and v: "valid_range v (mapped_buffer_size addr n)"
  shows "(v + (addr AND 0xfff)) AND NOT 0xfff = v" "mapped_buffer_size (v + (addr AND 0xfff)) n = mapped_buffer_size addr n"
    "in_range addr n x \<Longrightarrow> in_range (addr AND NOT 0xfff) (mapped_buffer_size addr n) x"
    "uint (v + (addr AND 0xfff)) = uint v + uint addr mod 4096" "buffer_fits (v + (addr AND 0xfff)) n"
proof -
  note pages = buffer_pages [OF fits]
  let ?a = "v + (addr AND 0xfff)" and ?n = "mapped_buffer_size addr n"
  have nb: "0 < uint n" "uint addr + uint n + 4095 < 4294967296" using fits by (simp_all add: buffer_fits_def)
  obtain j where j: "uint v = 4096 * j" using v by (auto simp: valid_range_def elim: dvdE)
  have size: "uint ?n = 4096 * ((uint addr + uint n + 4095) div 4096) - 4096 * (uint addr div 4096)" using pages(2) unfolding uint_page_base by linarith
  have vn: "uint v + uint ?n < 4294967296" "0 < uint ?n" using v by (simp_all add: valid_range_def)
  have off: "0 \<le> uint addr mod 4096" "uint addr mod 4096 < 4096" by simp_all
  define q r where "q = uint addr div 4096" and "r = uint addr mod 4096"
  have qr: "uint addr = 4096 * q + r" by (simp add: q_def r_def mult_div_mod_eq)
  have e: "(uint addr + uint n + 4095) div 4096 = q + (r + uint n + 4095) div 4096" unfolding qr by (simp add: add.assoc)
  have size': "uint ?n = 4096 * ((r + uint n + 4095) div 4096)" unfolding size e q_def by simp
  have ge: "r + uint n \<le> uint ?n" unfolding size' by linarith
  have "uint v + r < 4294967296" using vn ge nb(1) by linarith
  then show a: "uint ?a = uint v + uint addr mod 4096" by (simp add: uint_add_u32 uint_page_offset r_def)
  have "uint (?a AND NOT 0xfff) = uint v" unfolding uint_page_base a j using off by simp
  then show base: "?a AND NOT 0xfff = v" by (simp add: word_uint_eq_iff)
  define t where "t = (r + uint n + 4095) div 4096"
  have "j + t < 1048576" using vn(1) unfolding size' j t_def [symmetric] by linarith
  then have "uint v + uint ?n \<le> 4294963200" unfolding size' j t_def [symmetric] by linarith
  then show fits': "buffer_fits ?a n" using nb(1) ge unfolding buffer_fits_def a r_def [symmetric] by linarith
  have "4096 * ((4096 * j + r + uint n + 4095) div 4096) = 4096 * j + uint ?n" unfolding size' by (simp add: add.assoc)
  then have "uint (mapped_buffer_size ?a n) = uint ?n"
    using buffer_pages(2) [OF fits'] unfolding base a r_def [symmetric] j by linarith
  then show "mapped_buffer_size ?a n = ?n" by (simp add: word_uint_eq_iff)
  show "in_range addr n x \<Longrightarrow> in_range (addr AND NOT 0xfff) ?n x"
    using pages(2) unfolding in_range_def uint_page_base size by linarith
qed

lemma move_candidate_aligned:
  assumes "\<forall>(a, b) \<in> set m. valid_range a (vsize b)" "4096 dvd uint c"
  shows "4096 dvd uint (move_candidate n c m)"
  using assms
proof (induction n c m rule: move_candidate.induct)
  case (2 n c a b m)
  have "valid_range a (vsize b)" using 2 by simp
  then have "4096 dvd uint (a + vsize b)" by (simp add: valid_range_def uint_add_u32)
  then show ?case using 2 by simp
qed simp

lemma find_for_buffer:
  assumes inv: "vm_inv p" and n: "4096 dvd uint n" "0 < uint n" "uint n \<le> 0x10000000"
    and room: "\<forall>(a, b) \<in> set (virtual_memory p). uint a + uint (vsize b) + uint n < 4294967296"
    and found: "FindAvailableVirtualMemory n 0x10000000 0x20000000 p = Some v"
  shows "valid_range v n" "unmapped_from v n 0 p"
proof -
  have v: "v = move_candidate n 0x10000000 (virtual_memory p)" using found by (simp add: FindAvailableVirtualMemory_def Let_def split: if_splits)
  have "uint (0x10000000 :: u32) + uint n < 4294967296" using n(3) by simp
  note spec = move_candidate_spec [OF vm_inv_blocks [OF inv] n(2) room this, folded v]
  have "4096 dvd uint v" unfolding v by (rule move_candidate_aligned) (use inv in \<open>auto simp: vm_inv_def vranges_def\<close>)
  then show valid: "valid_range v n" using n spec by (simp add: valid_range_def)
  show "unmapped_from v n 0 p" using spec apart_lookup [OF vm_inv_blocks [OF inv] valid_block [OF valid]] by simp
qed

lemma map_buffer_size_bound: "uint (map_buffer_size d) < 134217728"
proof -
  have "unat (map_buffer_size d) < 2 ^ 27" unfolding map_buffer_size_def by (rule unat_BitField_Value_less) simp
  then have "int (unat (map_buffer_size d)) < int (2 ^ 27)" by (rule of_nat_less_iff [THEN iffD2])
  then show ?thesis by simp
qed

text \<open>
  Sending a buffer. \<open>v\<close> is where the receiver gets it; after the chunks have been mapped, the address written to its message
  shows it the bytes of the sender. Unmapping what a reply with that address and size names restores the address space.
\<close>

lemma map_buffer_spec:
  fixes s :: "'d system"
  assumes inv: "vm_inv (spaces s src)" "vm_inv (spaces s dst)" and fits: "buffer_fits addr n" and n: "n = map_buffer_size d"
    and mapped: "all_mapped (addr AND NOT 0xfff) (mapped_buffer_size addr n) (spaces s src)"
    and room: "\<forall>(a, b) \<in> set (virtual_memory (spaces s dst)). uint a + uint (vsize b) + uint (mapped_buffer_size addr n) < 4294967296"
    and found: "FindAvailableVirtualMemory (mapped_buffer_size addr n) 0x10000000 0x20000000 (spaces s dst) = Some v"
  shows "\<exists>p. map_buffer h source dest src dst d addr offset s =
      bindE (WriteTLS h dest offset (v + (addr AND 0xfff)) (put_space dst p s)) (\<lambda>s2.
        if descriptor_type d \<noteq> 6 then log_bytes h src addr (min 0x1000 (unat n)) s2 else Inr s2)
    \<and> vm_inv p \<and> (\<forall>x. in_range addr n x \<longrightarrow> ResolveVirtualAddr (v + (addr AND 0xfff) + (x - addr)) p = ResolveVirtualAddr x (spaces s src))
    \<and> (\<forall>x. \<not> in_range v (mapped_buffer_size addr n) x \<longrightarrow> ResolveVirtualAddr x p = ResolveVirtualAddr x (spaces s dst))
    \<and> (\<exists>p'. (\<forall>s'. spaces s' dst = p \<longrightarrow> unmap_space dst ((v + (addr AND 0xfff)) AND NOT 0xfff) (mapped_buffer_size (v + (addr AND 0xfff)) n) (s' :: 'd system)
        = Inr (True, put_space dst p' s')) \<and> vm_inv p' \<and> (\<forall>x. ResolveVirtualAddr x p' = ResolveVirtualAddr x (spaces s dst)))"
proof -
  let ?b = "addr AND NOT 0xfff" and ?n = "mapped_buffer_size addr n"
  note pages = buffer_pages [OF fits]
  have size: "4096 dvd uint ?n" "0 < uint ?n" using pages(1) by (simp_all add: valid_range_def)
  have "uint ?n \<le> 0x10000000" using pages(2) map_buffer_size_bound [of d] unfolding uint_page_base n by linarith
  note there = find_for_buffer [OF inv(2) size this room found] and here = buffer_moved [OF fits]
  obtain p where p: "map_chunks src dst addr v ?n (map_permissions (descriptor_type d)) 0 s = Inr (put_space dst p s)" "vm_inv p"
    "shares ?b v ?n 0 (map_permissions (descriptor_type d)) (spaces s src) (spaces s dst) p"
    using map_chunks_spec [OF inv pages(1) there(1) refl _ _ mapped there(2), of "map_permissions (descriptor_type d)"] by auto
  have look: "vm_lookup (virtual_memory p) x = (if in_range v ?n x then Some (fst (the (vm_lookup (virtual_memory (spaces s src)) (?b + (x - v)))), map_permissions (descriptor_type d))
    else vm_lookup (virtual_memory (spaces s dst)) x)" for x
    using p(3) unfolding shares_def by (auto simp: in_range_def)
  have same: "ResolveVirtualAddr (v + (addr AND 0xfff) + (x - addr)) p = ResolveVirtualAddr x (spaces s src)" if x: "in_range addr n x" for x
  proof -
    have in_b: "in_range ?b ?n x" by (rule here(3) [OF there(1) x])
    define y where "y = v + (x - ?b)"
    have y: "v + (addr AND 0xfff) + (x - addr) = y" unfolding y_def by (subst page_base_minus) simp
    have "in_range v ?n y" unfolding y_def by (rule in_range_shift [OF in_b]) (use there(1) in \<open>auto simp: valid_range_def\<close>)
    moreover have "?b + (y - v) = x" by (simp add: y_def)
    ultimately have "vm_lookup (virtual_memory p) y = Some (fst (the (vm_lookup (virtual_memory (spaces s src)) x)), map_permissions (descriptor_type d))"
      using look [of y] by (simp only: if_True)
    moreover have "vm_lookup (virtual_memory (spaces s src)) x \<noteq> None" using mapped in_b by blast
    ultimately show ?thesis unfolding y resolve_lookup [OF p(2)] resolve_lookup [OF inv(1)] by auto
  qed
  have rest: "ResolveVirtualAddr x p = ResolveVirtualAddr x (spaces s dst)" if "\<not> in_range v ?n x" for x
    using look [of x] that by (simp add: resolve_lookup [OF p(2)] resolve_lookup [OF inv(2)])
  have there': "vm_lookup (virtual_memory p) x \<noteq> None" if "in_range v ?n x" for x
    using look [of x] that by (simp only: if_True) simp
  have unmap: "\<exists>p'. UnmapVirtualMemory v ?n p = Inr (True, p') \<and> vm_inv p' \<and> (processor p' = None \<longleftrightarrow> processor p = None)
    \<and> (\<forall>x. vm_lookup (virtual_memory p') x = (if in_range v ?n x then None else vm_lookup (virtual_memory p) x))"
    by (rule unmap_spec [OF p(2) there(1)]) (rule there')
  then obtain p' where p': "UnmapVirtualMemory v ?n p = Inr (True, p')" "vm_inv p'"
    "\<forall>x. vm_lookup (virtual_memory p') x = (if in_range v ?n x then None else vm_lookup (virtual_memory p) x)"
    by (elim exE conjE)
  have restored: "ResolveVirtualAddr x p' = ResolveVirtualAddr x (spaces s dst)" for x
    using p'(3) [rule_format, of x] look [of x] there(2) by (auto simp: in_range_def resolve_lookup [OF p'(2)] resolve_lookup [OF inv(2)])
  have "map_buffer h source dest src dst d addr offset s =
      bindE (WriteTLS h dest offset (v + (addr AND 0xfff)) (put_space dst p s)) (\<lambda>s2.
        if descriptor_type d \<noteq> 6 then log_bytes h src addr (min 0x1000 (unat n)) s2 else Inr s2)"
    unfolding map_buffer_def Let_def n [symmetric] found by (simp add: p(1))
  moreover have "unmap_space dst ((v + (addr AND 0xfff)) AND NOT 0xfff) (mapped_buffer_size (v + (addr AND 0xfff)) n) s'
      = Inr (True, put_space dst p' s')" if "spaces s' dst = p" for s' :: "'d system"
    unfolding here(1,2) [OF there(1)] unmap_space_def by (simp add: p'(1) that)
  ultimately show ?thesis using p(2) same rest p'(2) restored by blast
qed

section \<open>Messages between threads of the emulator\<close>

lemma foldE_fixed: "(\<And>x. x \<in> set xs \<Longrightarrow> f x s = Inr s) \<Longrightarrow> foldE f xs s = Inr s"
  by (induction xs) auto

text \<open>A run of writes to consecutive words of the storage of a \<open>FakeThread\<close>.\<close>

definition overwrite :: "nat \<Rightarrow> nat \<Rightarrow> (nat \<Rightarrow> u32) \<Rightarrow> u32 list \<Rightarrow> u32 list" where
  "overwrite a b v ws = map (\<lambda>i. if a \<le> i \<and> i < b then v i else ws ! i) [0..<length ws]"

lemma overwrite_length [simp]: "length (overwrite a b v ws) = length ws" by (simp add: overwrite_def)

lemma overwrite_none [simp]: "overwrite a a v ws = ws" by (rule nth_equalityI) (auto simp: overwrite_def)

lemma overwrite_Suc: "a \<le> b \<Longrightarrow> (overwrite a b v ws)[b := v b] = overwrite a (Suc b) v ws"
  by (rule nth_equalityI) (auto simp: overwrite_def nth_list_update less_Suc_eq)

definition put_tls :: "nat \<Rightarrow> u32 list \<Rightarrow> 'd system \<Rightarrow> 'd system" where
  "put_tls t ws s = s\<lparr>fake_tls := (fake_tls s)(t := ws)\<rparr>"

lemma put_tls_simps [simp]:
  "fake_tls (put_tls t ws s) = (fake_tls s)(t := ws)" "tls_addr (put_tls t ws s) = tls_addr s"
  "put_tls t ws (put_tls t ws' s) = put_tls t ws s" "put_tls t (fake_tls s t) s = s"
  by (simp_all add: put_tls_def)

lemma foldE_words:
  assumes step: "\<And>i ws. a \<le> i \<Longrightarrow> i < b \<Longrightarrow> length ws = length (fake_tls s t) \<Longrightarrow> f i (put_tls t ws s) = Inr (put_tls t (ws[0x20 + i := v (0x20 + i)]) s)"
  shows "a \<le> b \<Longrightarrow> foldE f [a..<b] s = Inr (put_tls t (overwrite (0x20 + a) (0x20 + b) v (fake_tls s t)) s)"
  using assms
proof (induction b)
  case 0
  then show ?case by simp
next
  case (Suc b)
  show ?case
  proof (cases "a = Suc b")
    case False
    then have "a \<le> b" using Suc.prems by simp
    then have "foldE f [a..<b] s = Inr (put_tls t (overwrite (0x20 + a) (0x20 + b) v (fake_tls s t)) s)"
      using Suc.IH Suc.prems(2) by simp
    then show ?thesis using \<open>a \<le> b\<close> overwrite_Suc [of "0x20 + a" "0x20 + b" v] by (simp add: foldE_append Suc.prems(2))
  qed simp
qed

lemma ReadTLS_fake:
  "tls_addr s t = None \<Longrightarrow> i < length (fake_tls s t) \<Longrightarrow> ReadTLS h t (4 * i) s = Inr (fake_tls s t ! i, s)"
  by (simp add: ReadTLS_def)

lemma WriteTLS_fake:
  "tls_addr s t = None \<Longrightarrow> i < length (fake_tls s t) \<Longrightarrow> WriteTLS h t (4 * i) v s = Inr (put_tls t ((fake_tls s t)[i := v]) s)"
  by (simp add: WriteTLS_def put_tls_def)

lemma command_word: "0x80 + 4 * i = 4 * (0x20 + i)" for i :: nat by simp

lemma num_normal_params_less: "num_normal_params x < 64"
  unfolding num_normal_params_def using unat_BitField_Value_less [of 6 6 x] by simp

lemma message_words:
  assumes "tls_addr s source = None" "tls_addr s dest = None" "source \<noteq> dest" "0x60 \<le> length (fake_tls s source)" "0x60 \<le> length (fake_tls s dest)"
    and header: "header = fake_tls s source ! 0x20" and n: "n = num_normal_params header" and "size_translate_params header = 0"
  shows "TranslateIPCMessage h uses source dest is_reply s =
    Inr (put_tls dest (overwrite 0x20 (0x21 + n) ((!) (fake_tls s source)) (overwrite (0x21 + n) 0x60 (\<lambda>_. 0) (fake_tls s dest))) s)"
proof -
  have n64: "n < 64" unfolding n by (rule num_normal_params_less)
  have reads: "ReadTLS h source (0x80 + 4 * i) (put_tls dest ws s) = Inr (fake_tls s source ! (0x20 + i), put_tls dest ws s)"
    if "i < 64" for i ws
    using that assms(1,3,4) unfolding command_word by (subst ReadTLS_fake) simp_all
  have read0: "ReadTLS h source (0x80 + 4 * i) s = Inr (fake_tls s source ! (0x20 + i), s)" if "i < 64" for i
    using reads [OF that, of "fake_tls s dest"] by simp
  have writes: "WriteTLS h dest (0x80 + 4 * i) v (put_tls dest ws s) = Inr (put_tls dest (ws[0x20 + i := v]) s)"
    if "i < 64" "length ws = length (fake_tls s dest)" for i v ws
    using that assms(2,5) unfolding command_word by (subst WriteTLS_fake) simp_all
  have logged: "log_message h source is_reply n s = Inr s"
    unfolding log_message_def using read0 [of 1] n64 by (subst foldE_fixed) (auto simp: read0)
  have cleared: "foldE (clear_command_word h dest) [n + 1..<0x40] s = Inr (put_tls dest (overwrite (0x21 + n) 0x60 (\<lambda>_. 0) (fake_tls s dest)) s)"
    using foldE_words [of "n + 1" 64 s dest "clear_command_word h dest" "\<lambda>_. 0"] n64 by (simp add: clear_command_word_def writes)
  define s1 where "s1 = put_tls dest (overwrite (0x21 + n) 0x60 (\<lambda>_. 0) (fake_tls s dest)) s"
  have copied: "foldE (copy_command_word h source dest) [0..<n + 1] s1
    = Inr (put_tls dest (overwrite 0x20 (0x21 + n) ((!) (fake_tls s source)) (fake_tls s1 dest)) s1)"
    using foldE_words [of 0 "n + 1" s1 dest "copy_command_word h source dest" "(!) (fake_tls s source)"] n64
    by (simp add: copy_command_word_def reads writes s1_def)
  show ?thesis using read0 [of 0] logged cleared copied assms(8)
    by (simp add: TranslateIPCMessage_def header [symmetric] n [symmetric] s1_def [symmetric] translate_descriptors.simps) (simp add: s1_def)
qed

text \<open>C31: A message without translated parameters between threads of the emulator. The receiver gets the header and the normal
  parameters of the sender; the rest of its command buffer is cleared, and nothing else changes, in the receiver or elsewhere.\<close>

theorem message_transferred:
  assumes "tls_addr s source = None" "tls_addr s dest = None" "source \<noteq> dest" "0x60 \<le> length (fake_tls s source)" "0x60 \<le> length (fake_tls s dest)"
    and "header = fake_tls s source ! 0x20" "n = num_normal_params header" "size_translate_params header = 0"
  shows "\<exists>ws. TranslateIPCMessage h uses source dest is_reply s = Inr (s\<lparr>fake_tls := (fake_tls s)(dest := ws)\<rparr>) \<and> length ws = length (fake_tls s dest)
    \<and> (\<forall>i. i \<le> n \<longrightarrow> ws ! (0x20 + i) = fake_tls s source ! (0x20 + i)) \<and> (\<forall>i. n < i \<and> i < 0x40 \<longrightarrow> ws ! (0x20 + i) = 0)
    \<and> (\<forall>i. i < 0x20 \<or> 0x60 \<le> i \<and> i < length ws \<longrightarrow> ws ! i = fake_tls s dest ! i)"
proof -
  have "n < 64" unfolding assms(7) by (rule num_normal_params_less)
  then show ?thesis using assms(5) message_words [OF assms, of h uses is_reply]
    by (auto simp: put_tls_def overwrite_def)
qed

text \<open>Handles are given out one after the other. A table keeps them below its counter; the handles of the current process and
  thread lie above all of them.\<close>

definition handle_table_ok :: "handle_table \<Rightarrow> bool" where
  "handle_table_ok ht \<longleftrightarrow> (\<forall>handle. map_of (handles ht) handle \<noteq> None \<longrightarrow> handle \<le> cur_handle ht \<or> 0xFFFF8000 \<le> handle)"

lemma handle_table_ok_start: "handle_table_ok \<lparr>handles = [], cur_handle = n\<rparr>"
  by (simp add: handle_table_ok_def)

lemma handle_table_ok_CreateHandle:
  assumes "handle_table_ok ht" "cur_handle ht < 0xFFFF7FFF" "CreateHandle ob ht = (new, ht')"
  shows "handle_table_ok ht'" "map_of (handles ht) new = None" "new \<noteq> 0"
proof -
  have new: "new = cur_handle ht + 1" "cur_handle ht' = new" "map_of (handles ht') = (map_of (handles ht))(new \<mapsto> ob)"
    using assms(3) by (auto simp: CreateHandle_def Let_def update_conv')
  have u: "uint new = uint (cur_handle ht) + 1" using assms(2) unfolding new(1) by (subst uint_add_u32) (simp_all add: word_less_def)
  show "handle_table_ok ht'" using assms(1) u by (auto simp: handle_table_ok_def new(2,3) word_le_def)
  have "\<not> (new \<le> cur_handle ht \<or> 0xFFFF8000 \<le> new)" using assms(2) u by (simp add: word_le_def word_less_def)
  then show "map_of (handles ht) new = None" using assms(1) by (auto simp: handle_table_ok_def)
  show "new \<noteq> 0"
  proof
    assume "new = 0"
    then have "uint new = 0" by simp
    then show False using u uint_ge_0 [of "cur_handle ht"] by linarith
  qed
qed

lemma handle_table_ok_SetCurrentThread: "handle_table_ok ht \<Longrightarrow> handle_table_ok (SetCurrentThread t ht)"
  by (auto simp: handle_table_ok_def SetCurrentThread_def update_conv' delete_conv' split: option.split)

lemma handle_table_ok_CloseHandle: "handle_table_ok ht \<Longrightarrow> handle_table_ok (HandleTable_CloseHandle h ht)"
  by (auto simp: handle_table_ok_def HandleTable_CloseHandle_def delete_conv')

text \<open>C32: A handle in a message between threads of the emulator that is not null and is not to be closed. The receiver's process
  gets a handle that it did not have before for the object of the sender's, and finds it in the message in place of the
  sender's; no other handle of any process changes, in particular none is overwritten, and no object. Handles must not have
  been used up.\<close>

theorem handle_translated:
  assumes tls: "tls_addr s source = None" "tls_addr s dest = None" "i < length (fake_tls s source)" "i < length (fake_tls s dest)" "0x20 < length (fake_tls s dest)"
    and th: "threads (kern s) source = Some th" "threads (kern s) dest = Some th'"
    and found: "fake_tls s source ! i \<noteq> 0" "map_of (handles (handle_tables (kern s) (parent_process th))) (fake_tls s source ! i) = Some ob"
    and ob: "objects (kern s) ob = Some x" "x \<noteq> AddressArbiter" and d: "\<not> fill_process_id d" "\<not> close_handle d"
    and table: "ht = handle_tables (kern s) (parent_process th')" "handle_table_ok ht" "cur_handle ht < 0xFFFF7FFF"
  shows "\<exists>s' new. translate_handle h uses source dest d (4 * i) s = Inr s' \<and> fake_tls s' dest ! i = new
    \<and> new \<noteq> 0 \<and> map_of (handles ht) new = None \<and> handle_table_ok (handle_tables (kern s') (parent_process th'))
    \<and> map_of (handles (handle_tables (kern s') (parent_process th'))) new = Some ob
    \<and> (\<forall>p handle. p = parent_process th' \<and> handle = new \<or> map_of (handles (handle_tables (kern s') p)) handle = map_of (handles (handle_tables (kern s) p)) handle)
    \<and> objects (kern s') = objects (kern s)"
proof -
  have header: "ReadTLS h dest 0x80 s = Inr (fake_tls s dest ! 0x20, s)" using ReadTLS_fake [OF tls(2,5), of h] by simp
  have "translate_handle h uses source dest d (4 * i) s =
      (let new = cur_handle ht + 1 in
       WriteTLS h dest (4 * i) new (s\<lparr>kern := (kern s)\<lparr>handle_tables := (handle_tables (kern s))(parent_process th' :=
         ht\<lparr>cur_handle := new, handles := AList.update new ob (handles ht)\<rparr>)\<rparr>\<rparr>))"
    unfolding table(1) using th found ob d by (simp add: translate_handle_def ReadTLS_fake [OF tls(1,3)] header handle_table_of_def get_thread_def
        FindObject_def get_object_def is_AddressArbiter_def CreateHandle_def Let_def on_kernel_def put_handle_table_def)
  moreover obtain ht' where "CreateHandle ob ht = (cur_handle ht + 1, ht')" "ht' = ht\<lparr>cur_handle := cur_handle ht + 1, handles := AList.update (cur_handle ht + 1) ob (handles ht)\<rparr>"
    by (simp add: CreateHandle_def Let_def)
  moreover note handle_table_ok_CreateHandle [OF table(2,3) this(1)]
  ultimately show ?thesis using tls(2,4) table(1) by (simp add: Let_def WriteTLS_def update_conv')
qed

text \<open>The numbers given to processes one after the other.\<close>

definition pid_number :: "nat \<Rightarrow> 'd system \<Rightarrow> u32" where
  "pid_number n s = fst (MakeNewProcessId (((\<lambda>s. snd (MakeNewProcessId s)) ^^ n) s))"

definition pid_counter :: "nat \<Rightarrow> nat" where
  "pid_counter n = (if n < 2 then n + 5 else if n < 7 then n - 2 else n)"

lemma pid_counter_step:
  assumes "next_pid s = of_nat (pid_counter n)" "Suc n < 2 ^ 32"
  shows "fst (MakeNewProcessId s) = of_nat (pid_counter n)" "next_pid (snd (MakeNewProcessId s)) = of_nat (pid_counter (Suc n))"
proof -
  have *: "of_nat k = (of_nat j :: u32) \<longleftrightarrow> k = j" if "k < 2 ^ 32" "j < 2 ^ 32" for k j
    using that by (simp add: word_of_nat_eq_iff take_bit_nat_eq_self)
  have bound: "pid_counter n < 2 ^ 32" "pid_counter n + 1 < 2 ^ 32" using assms(2) by (auto simp: pid_counter_def)
  have eqs: "next_pid s = num_firm_modules + 1 \<longleftrightarrow> pid_counter n = 6" "next_pid s + 1 = num_firm_modules \<longleftrightarrow> pid_counter n = 4"
    using * [of "pid_counter n" 6] * [of "pid_counter n + 1" 5] bound assms(1) by (simp_all add: num_firm_modules_def)
  show "fst (MakeNewProcessId s) = of_nat (pid_counter n)" "next_pid (snd (MakeNewProcessId s)) = of_nat (pid_counter (Suc n))"
    using eqs assms(1) by (auto simp: MakeNewProcessId_def num_firm_modules_def pid_counter_def split: if_splits)
qed

lemma pid_number_counter:
  assumes "next_pid s = num_firm_modules" "Suc n < 2 ^ 32"
  shows "pid_number n s = of_nat (pid_counter n)"
proof -
  have "next_pid (((\<lambda>s. snd (MakeNewProcessId s)) ^^ n) s) = of_nat (pid_counter n)" if "n < 2 ^ 32" for n
    using that
  proof (induction n)
    case 0
    then show ?case by (simp add: assms(1) num_firm_modules_def pid_counter_def)
  next
    case (Suc n)
    then show ?case by (simp add: pid_counter_step(2))
  qed
  then show ?thesis unfolding pid_number_def by (intro pid_counter_step(1)) (use assms(2) in auto)
qed

text \<open>Numbers of processes. The debug process and the boot thread get 5 and 6, the firmware modules 0 to 4, all later processes
  the following numbers, and no two of the first \<open>2 ^ 32 - 1\<close> processes the same.\<close>

theorem process_numbers_distinct:
  assumes "next_pid s = num_firm_modules"
  shows "map (\<lambda>n. pid_number n s) [0..<8] = [5, 6, 0, 1, 2, 3, 4, 7] \<and> inj_on (\<lambda>n. pid_number n s) {..<2 ^ 32 - 1}"
proof (rule conjI)
  show "map (\<lambda>n. pid_number n s) [0..<8] = [5, 6, 0, 1, 2, 3, 4, 7]"
    by (simp add: upt_rec pid_number_counter [OF assms] pid_counter_def)
  have "pid_counter n < 2 ^ 32" if "n < 2 ^ 32 - 1" for n using that by (auto simp: pid_counter_def)
  moreover have "n = m" if "pid_counter n = pid_counter m" for n m using that by (auto simp: pid_counter_def split: if_splits)
  ultimately show "inj_on (\<lambda>n. pid_number n s) {..<2 ^ 32 - 1}"
    by (auto intro!: inj_onI simp: pid_number_counter [OF assms] word_of_nat_eq_iff take_bit_nat_eq_self)
qed

lemma ReadTLS_spaces: "ReadTLS h t offset s = Inr (v, s') \<Longrightarrow> spaces s' = spaces s"
  by (auto simp: ReadTLS_def bindE_eq_Inr split: option.splits if_splits prod.splits)

text \<open>C6: A buffer mapped by a request. At the address in its message the receiver has every byte of the sender's buffer, at the
  same physical address, and the rest of its address space is as before. When the reply names that address and the size of the
  buffer, exactly those pages are unmapped, whatever happened meanwhile to the rest of the system.\<close>

theorem request_shares_buffer:
  fixes s s1 :: "'d system"
  assumes proc: "process_of source s = Inr src" "process_of dest s = Inr dst" and addr: "ReadTLS h source offset s = Inr (addr, s1)"
    and reach: "vm_reachable (spaces s src)" "vm_reachable (spaces s dst)"
    and n: "n = map_buffer_size d" "n \<noteq> 0" "uint addr + uint n + 4095 < 4294967296"
    and mapped: "\<forall>x. in_range (addr AND NOT 0xfff) (mapped_buffer_size addr n) x \<longrightarrow> ResolveVirtualAddr x (spaces s src) \<noteq> None"
    and room: "\<forall>(a, b) \<in> set (virtual_memory (spaces s dst)). uint a + uint (vsize b) + uint (mapped_buffer_size addr n) < 4294967296"
    and found: "FindAvailableVirtualMemory (mapped_buffer_size addr n) 0x10000000 0x20000000 (spaces s dst) = Some v"
  shows "\<exists>p p'. translate_map_buffer h source dest False d offset s =
      bindE (WriteTLS h dest offset (v + (addr AND 0xfff)) (put_space dst p s1)) (\<lambda>s2.
        if descriptor_type d \<noteq> 6 then log_bytes h src addr (min 0x1000 (unat n)) s2 else Inr s2)
    \<and> (\<forall>x. in_range addr n x \<longrightarrow> ResolveVirtualAddr (v + (addr AND 0xfff) + (x - addr)) p = ResolveVirtualAddr x (spaces s src))
    \<and> (\<forall>x. \<not> in_range v (mapped_buffer_size addr n) x \<longrightarrow> ResolveVirtualAddr x p = ResolveVirtualAddr x (spaces s dst))
    \<and> (\<forall>s'. spaces s' dst = p \<longrightarrow>
        unmap_space dst ((v + (addr AND 0xfff)) AND NOT 0xfff) (mapped_buffer_size (v + (addr AND 0xfff)) n) (s' :: 'd system) = Inr (True, put_space dst p' s'))
    \<and> (\<forall>x. ResolveVirtualAddr x p' = ResolveVirtualAddr x (spaces s dst))"
proof -
  note same = ReadTLS_spaces [OF addr] and inv = reach [THEN vm_reachable_inv]
  have "0 < uint n" using n(2) uint_ge_0 [of n] by (simp add: unsigned_eq_0_iff order_less_le)
  then have fits: "buffer_fits addr n" using n(3) by (simp add: buffer_fits_def)
  have all: "all_mapped (addr AND NOT 0xfff) (mapped_buffer_size addr n) (spaces s1 src)"
    using mapped resolve_lookup [OF inv(1)] by (auto simp: same)
  note spec = map_buffer_spec [of s1 src dst, unfolded same, OF inv fits n(1) all [unfolded same] room found, of h source dest offset]
  have "translate_map_buffer h source dest False d offset s = map_buffer h source dest src dst d addr offset s1"
    using n(1,2) by (simp add: translate_map_buffer_def proc addr)
  then show ?thesis using spec by (simp only:) blast
qed

text \<open>Two processes of the emulator with a thread each.\<close>

definition two_threads :: kernel where
  "two_threads =
    (let th = (\<lambda>p. \<lparr>parent_process = p, status = Ready, priority = 0x30, timeout_at = - 1, arbitration_address = 0, promised_result = 0,
       wait_list = [], wait_for_all = False, wake_index = 0, woken_object = None\<rparr>)
     in \<lparr>next_object = 11, handle_tables = (\<lambda>p. if p = 100 then \<lparr>handles = [(7, 10)], cur_handle = 7\<rparr> else \<lparr>handles = [], cur_handle = 0\<rparr>),
        threads = [1 \<mapsto> th 100, 2 \<mapsto> th 200], objects = [10 \<mapsto> Event \<lparr>signalled = False, event_type = OneShot\<rparr>], observers = (\<lambda>_. []),
        os_threads = [1, 2], ready_queue = [1, 2], waiting_queue = [], active_timers = [], bound_interrupts = (\<lambda>_. []), system_tick = 0\<rparr>)"

definition two_processes :: "process_memory \<Rightarrow> u32 list \<Rightarrow> unit system" where
  "two_processes p ws = \<lparr>kern = two_threads, spaces = (\<lambda>q. if q = 100 then p else new_process False), static_buffers = (\<lambda>_. []),
    memory_allocator = (\<lambda>_. 0), linear_base_addr = (\<lambda>_. 0x14000000), tls_managers = (\<lambda>_. \<lparr>slot_occupied = [], next_tls_addr = 0x1ff82000\<rparr>),
    memory_regions = [], ram = example_mem, tls_addr = (\<lambda>_. None), fake_tls = (\<lambda>t. if t = 1 then ws else replicate 0x200 0), ports = (\<lambda>_. None),
    process_id = (\<lambda>_. 0), next_pid = num_firm_modules, callbacks = (\<lambda>_. None)\<rparr>"

theorem message_transferred_witness:
  "\<exists>ws s. TranslateIPCMessage example_handlers (\<lambda>_ _. 1) 1 2 False (two_processes (new_process False) ((replicate 0x200 0xff)[0x20 := 0x00010080])) = Inr s
    \<and> fake_tls s 2 = ws \<and> ws ! 0x20 = 0x00010080 \<and> ws ! 0x22 = 0xff \<and> ws ! 0x23 = 0 \<and> ws ! 0x60 = 0"
proof -
  let ?s = "two_processes (new_process False) ((replicate 0x200 0xff)[0x20 := 0x00010080])"
  have tls: "tls_addr ?s 1 = None" "tls_addr ?s 2 = None" "(1 :: nat) \<noteq> 2" "0x60 \<le> length (fake_tls ?s 1)" "0x60 \<le> length (fake_tls ?s 2)"
    "0x00010080 = fake_tls ?s 1 ! 0x20" by (simp_all add: two_processes_def)
  have header: "2 = num_normal_params 0x00010080" "size_translate_params 0x00010080 = 0" by code_simp+
  obtain ws where ws: "TranslateIPCMessage example_handlers (\<lambda>_ _. 1) 1 2 False ?s = Inr (?s\<lparr>fake_tls := (fake_tls ?s)(2 := ws)\<rparr>)"
    "length ws = length (fake_tls ?s 2)" "\<forall>i. i \<le> 2 \<longrightarrow> ws ! (0x20 + i) = fake_tls ?s 1 ! (0x20 + i)" "\<forall>i. 2 < i \<and> i < 0x40 \<longrightarrow> ws ! (0x20 + i) = 0"
    "\<forall>i. i < 0x20 \<or> 0x60 \<le> i \<and> i < length ws \<longrightarrow> ws ! i = fake_tls ?s 2 ! i"
    using message_transferred [OF tls header, of example_handlers "\<lambda>_ _. 1" False] by (elim exE conjE)
  have "ws ! 0x20 = 0x00010080" using ws(3) [rule_format, of 0] by (simp add: two_processes_def)
  moreover have "ws ! 0x22 = 0xff" using ws(3) [rule_format, of 2] by (simp add: two_processes_def)
  moreover have "ws ! 0x23 = 0" using ws(4) [rule_format, of 3] by simp
  moreover have "ws ! 0x60 = 0" using ws(2) ws(5) [rule_format, of "0x60"] by (simp add: two_processes_def)
  ultimately show ?thesis using ws(1) by (intro exI [of _ ws] exI [of _ "?s\<lparr>fake_tls := (fake_tls ?s)(2 := ws)\<rparr>"]) simp
qed

theorem handle_translated_witness:
  "\<exists>s'. translate_handle example_handlers (\<lambda>_ _. 1) 1 2 0 0x88 (two_processes (new_process False) ((replicate 0x200 0)[0x22 := 7])) = Inr s'
    \<and> map_of (handles (handle_tables (kern s') 200)) (fake_tls s' 2 ! 0x22) = Some 10"
proof -
  let ?s = "two_processes (new_process False) ((replicate 0x200 0)[0x22 := 7])"
  obtain th th' where th: "threads (kern ?s) 1 = Some th" "threads (kern ?s) 2 = Some th'" "parent_process th = 100" "parent_process th' = 200"
    by (simp add: two_processes_def two_threads_def Let_def)
  have "tls_addr ?s 1 = None" "tls_addr ?s 2 = None" "0x22 < length (fake_tls ?s 1)" "0x22 < length (fake_tls ?s 2)" "0x20 < length (fake_tls ?s 2)"
    "fake_tls ?s 1 ! 0x22 \<noteq> 0" "map_of (handles (handle_tables (kern ?s) (parent_process th))) (fake_tls ?s 1 ! 0x22) = Some 10"
    "objects (kern ?s) 10 = Some (Event \<lparr>signalled = False, event_type = OneShot\<rparr>)"
    by (simp_all add: two_processes_def two_threads_def Let_def th(3))
  note pre = this(1-5) th(1,2) this(6-8)
  have d: "\<not> fill_process_id 0" "\<not> close_handle 0" by code_simp+
  have "handle_table_ok (handle_tables (kern ?s) 200)" "cur_handle (handle_tables (kern ?s) 200) < 0xFFFF7FFF"
    by (simp_all add: two_processes_def two_threads_def Let_def handle_table_ok_def)
  then show ?thesis using handle_translated [OF pre _ d refl, of example_handlers "\<lambda>_ _. 1"] by (auto simp: th(4))
qed

theorem process_numbers_distinct_witness: "pid_number 1 (two_processes (new_process False) []) \<noteq> pid_number 1000 (two_processes (new_process False) [])"
proof -
  have "next_pid (two_processes (new_process False) []) = num_firm_modules" by (simp add: two_processes_def)
  from process_numbers_distinct [OF this] show ?thesis by (auto dest!: inj_onD [where x = 1 and y = 1000])
qed

theorem request_shares_buffer_witness:
  "\<exists>p q. MapVirtualMemory 0x20000000 0x3000 0x00100000 3 (new_process True) = Inr (True, p) \<and>
    translate_map_buffer example_handlers 1 2 False 0x1000c 0x88 (two_processes p ((replicate 0x200 0)[0x22 := 0x00100800]))
      = WriteTLS example_handlers 2 0x88 0x10000800 (put_space 200 q (two_processes p ((replicate 0x200 0)[0x22 := 0x00100800])))
    \<and> ResolveVirtualAddr 0x10001700 q = Some 0x20001700"
proof -
  obtain p where p: "MapVirtualMemory 0x20000000 0x3000 0x00100000 3 (new_process True) = Inr (True, p)" "vm_inv p"
    "\<And>x. vm_lookup (virtual_memory p) x = (if in_range 0x00100000 0x3000 x then Some (0x20000000 + (x - 0x00100000), 3) else None)"
    using map_new by blast
  let ?s = "two_processes p ((replicate 0x200 0)[0x22 := 0x00100800])"
  have proc: "process_of 1 ?s = Inr 100" "process_of 2 ?s = Inr 200" "ReadTLS example_handlers 1 0x88 ?s = Inr (0x00100800, ?s)"
    by (simp_all add: process_of_def get_thread_def two_processes_def two_threads_def Let_def ReadTLS_def)
  have spaces: "spaces ?s 100 = p" "spaces ?s 200 = new_process False" by (simp_all add: two_processes_def)
  have reach: "vm_reachable (spaces ?s 100)" "vm_reachable (spaces ?s 200)"
    unfolding spaces by (rule vm_map [OF vm_start example_ranges(1,2) p(1)], rule vm_start)
  have size: "0x1000 = map_buffer_size 0x1000c" "mapped_buffer_size 0x00100800 0x1000 = 0x2000" "descriptor_type 0x1000c = 6" by code_simp+
  have resolved: "ResolveVirtualAddr x p = (if in_range 0x00100000 0x3000 x then Some (0x20000000 + (x - 0x00100000)) else None)" for x
    by (simp add: resolve_lookup [OF p(2)] p(3))
  have mapped: "\<forall>x. in_range (0x00100800 AND NOT 0xfff) (mapped_buffer_size 0x00100800 0x1000) x \<longrightarrow> ResolveVirtualAddr x (spaces ?s 100) \<noteq> None"
    unfolding spaces size(2) resolved by (simp add: in_range_def)
  have room: "\<forall>(a, b) \<in> set (virtual_memory (spaces ?s 200)). uint a + uint (vsize b) + uint (mapped_buffer_size 0x00100800 0x1000) < 4294967296"
    by (simp add: spaces new_process_def)
  have found: "FindAvailableVirtualMemory (mapped_buffer_size 0x00100800 0x1000) 0x10000000 0x20000000 (spaces ?s 200) = Some 0x10000000"
    unfolding spaces size(2) by code_simp
  have n: "(0x1000 :: u32) \<noteq> 0" "uint (0x00100800 :: u32) + uint (0x1000 :: u32) + 4095 < 4294967296" by simp_all
  from request_shares_buffer [OF proc reach size(1) n mapped room found] obtain q where
    q: "translate_map_buffer example_handlers 1 2 False 0x1000c 0x88 ?s = bindE (WriteTLS example_handlers 2 0x88 (0x10000000 + (0x00100800 AND 0xfff)) (put_space 200 q ?s))
        (\<lambda>s2. if descriptor_type 0x1000c \<noteq> 6 then log_bytes example_handlers 100 0x00100800 (min 0x1000 (unat (0x1000 :: u32))) s2 else Inr s2)"
    "\<forall>x. in_range 0x00100800 0x1000 x \<longrightarrow> ResolveVirtualAddr (0x10000000 + (0x00100800 AND 0xfff) + (x - 0x00100800)) q = ResolveVirtualAddr x (spaces ?s 100)"
    by (elim exE conjE)
  have "bindE r Inr = r" for r :: "unit system res" by (cases r) simp_all
  then have "translate_map_buffer example_handlers 1 2 False 0x1000c 0x88 ?s = WriteTLS example_handlers 2 0x88 0x10000800 (put_space 200 q ?s)"
    using q(1) by (simp add: size(3))
  moreover have "ResolveVirtualAddr 0x10001700 q = Some 0x20001700"
    using q(2) [rule_format, of "0x00101700"] by (simp add: in_range_def spaces resolved)
  ultimately show ?thesis using p(1) by blast
qed

end
