(* ===== verification/MemoryManagerCorrect.thy ===== *)
theory MemoryManagerCorrect
  imports MemoryManager
begin

text \<open>
  Correctness of the allocator of physical memory: its maps always partition the region, allocation is first fit and
  complete, deallocation and transfer work exactly on what the caller owns, and every other byte keeps its owner.
\<close>

section \<open>Merging\<close>

text \<open>What a map of blocks says about an address: the owner of its block, if it is in one.\<close>

definition owner_at :: "memory_block omap \<Rightarrow> u32 \<Rightarrow> nat option option" where
  "owner_at m x = map_option (owner \<circ> snd) (cell size_bytes m x)"

abbreviation mblocks_ok :: "memory_block omap \<Rightarrow> bool" where
  "mblocks_ok \<equiv> blocks_ok size_bytes"

text \<open>All owners are alive, as the contracts in the loops demand.\<close>

definition owners_alive :: "(nat \<Rightarrow> bool) \<Rightarrow> memory_block omap \<Rightarrow> bool" where
  "owners_alive alive m \<longleftrightarrow> (\<forall>(a, b) \<in> set m. \<forall>p. owner b = Some p \<longrightarrow> alive p)"

lemma owner_lock_alive: "owners_alive alive m \<Longrightarrow> (a, b) \<in> set m \<Longrightarrow> owner_lock alive b = owner b"
  by (auto simp: owners_alive_def owner_lock_def split: option.split)

lemma owner_at_simps [simp]:
  "owner_at [] x = None"
  "owner_at ((a, b) # m) x = (if in_range a (size_bytes b) x then Some (owner b) else owner_at m x)"
  by (simp_all add: owner_at_def)

lemma owner_at_None: "owner_at m x = None \<longleftrightarrow> cell size_bytes m x = None"
  by (simp add: owner_at_def)

lemma owner_at_member:
  "mblocks_ok m \<Longrightarrow> (a, b) \<in> set m \<Longrightarrow> in_range a (size_bytes b) x \<Longrightarrow> owner_at m x = Some (owner b)"
  by (simp add: owner_at_def cell_member)

lemma owner_at_erase:
  "mblocks_ok m \<Longrightarrow> (k, b) \<in> set m \<Longrightarrow>
    owner_at (om_erase k m) x = (if in_range k (size_bytes b) x then None else owner_at m x)"
  by (simp add: owner_at_def cell_erase)

lemma owner_at_assign:
  "mblocks_ok m \<Longrightarrow> block_range k (size_bytes b) \<Longrightarrow> apart_from k (size_bytes b) size_bytes m \<Longrightarrow>
    owner_at (om_assign k b m) x = (if in_range k (size_bytes b) x then Some (owner b) else owner_at m x)"
  by (simp add: owner_at_def cell_assign)

lemma total_size_simps [simp]: "GetTotalSizeOfMemoryBlocks [] = 0" "GetTotalSizeOfMemoryBlocks ((a, b) # m) = size_bytes b + GetTotalSizeOfMemoryBlocks m"
  by (simp_all add: GetTotalSizeOfMemoryBlocks_def)

definition owners :: "memory_block omap \<Rightarrow> nat option set" where
  "owners m = (\<lambda>(a, b). owner b) ` set m"

lemma owners_simps [simp]: "owners [] = {}" "owners ((a, b) # m) = insert (owner b) (owners m)"
  by (simp_all add: owners_def)

lemma owners_member: "(a, b) \<in> set m \<Longrightarrow> owner b \<in> owners m"
  by (force simp: owners_def)

lemma merge_range:
  assumes "block_range a n" "block_range (a + n) n2"
  shows "uint (n + n2) = uint n + uint n2" "block_range a (n + n2)"
    "in_range a (n + n2) x \<longleftrightarrow> in_range a n x \<or> in_range (a + n) n2 x"
proof -
  note e = uint_block_end [OF assms(1)]
  have "uint n + uint n2 < 4294967296" using assms uint_u32_bounds [of a] by (simp add: block_range_def e)
  then show s: "uint (n + n2) = uint n + uint n2" by (simp add: uint_add_u32)
  then show "block_range a (n + n2)" using assms by (simp add: block_range_def e)
  show "in_range a (n + n2) x \<longleftrightarrow> in_range a n x \<or> in_range (a + n) n2 x"
    using assms by (auto simp: in_range_def e s block_range_def)
qed

text \<open>Merging changes neither which addresses are in a block nor whose they are.\<close>

lemma defragment_spec:
  assumes "mblocks_ok m" "owners_alive alive m"
  shows "mblocks_ok (defragment alive m) \<and> owners_alive alive (defragment alive m)
    \<and> (\<forall>x. owner_at (defragment alive m) x = owner_at m x) \<and> GetTotalSizeOfMemoryBlocks (defragment alive m) = GetTotalSizeOfMemoryBlocks m
    \<and> owners (defragment alive m) \<subseteq> owners m
    \<and> (\<forall>k. (\<forall>(a, b) \<in> set m. k \<le> uint a) \<longrightarrow> (\<forall>(a, b) \<in> set (defragment alive m). k \<le> uint a))"
  using assms
proof (induction alive m rule: defragment.induct)
  case (3 alive a b a2 b2 m)
  have ok: "block_range a (size_bytes b)" "block_range a2 (size_bytes b2)" "uint a + uint (size_bytes b) \<le> uint a2"
    "mblocks_ok ((a2, b2) # m)" "owners_alive alive ((a2, b2) # m)"
    "\<forall>(c, w) \<in> set m. uint a + uint (size_bytes b) \<le> uint c" "\<forall>(c, w) \<in> set m. uint a2 + uint (size_bytes b2) \<le> uint c"
    using 3(3,4) by (auto simp: owners_alive_def)
  show ?case
  proof (cases "a + size_bytes b = a2 \<and> owner_lock alive b = owner_lock alive b2")
    case True
    let ?b = "b\<lparr>size_bytes := size_bytes b + size_bytes b2\<rparr>"
    have own: "owner b = owner b2" using True owner_lock_alive [OF 3(4)] by (metis list.set_intros)
    note merge = merge_range [OF ok(1), of "size_bytes b2"]
    have a2: "a + size_bytes b = a2" "uint a2 = uint a + uint (size_bytes b)" using True uint_block_end [OF ok(1)] by auto
    have new: "mblocks_ok ((a, ?b) # m)" "owners_alive alive ((a, ?b) # m)"
      using merge ok a2 3(3,4) by (auto simp: owners_alive_def split: prod.splits)
    have same: "owner_at ((a, ?b) # m) x = owner_at ((a, b) # (a2, b2) # m) x" for x
      using merge(3) ok(2) a2 own by simp
    have IH: "mblocks_ok (defragment alive ((a, ?b) # m))" "owners_alive alive (defragment alive ((a, ?b) # m))"
      "\<And>x. owner_at (defragment alive ((a, ?b) # m)) x = owner_at ((a, ?b) # m) x"
      "GetTotalSizeOfMemoryBlocks (defragment alive ((a, ?b) # m)) = GetTotalSizeOfMemoryBlocks ((a, ?b) # m)"
      "owners (defragment alive ((a, ?b) # m)) \<subseteq> owners ((a, ?b) # m)"
      "\<And>k. (\<forall>(c, w) \<in> set ((a, ?b) # m). k \<le> uint c) \<Longrightarrow> (\<forall>(c, w) \<in> set (defragment alive ((a, ?b) # m)). k \<le> uint c)"
      using 3(1) [OF True new] by blast+
    have eq: "defragment alive ((a, b) # (a2, b2) # m) = defragment alive ((a, ?b) # m)" using True by simp
    show ?thesis unfolding eq using IH same by (auto simp: algebra_simps)
  next
    case False
    have IH: "mblocks_ok (defragment alive ((a2, b2) # m))" "owners_alive alive (defragment alive ((a2, b2) # m))"
      "\<And>x. owner_at (defragment alive ((a2, b2) # m)) x = owner_at ((a2, b2) # m) x"
      "GetTotalSizeOfMemoryBlocks (defragment alive ((a2, b2) # m)) = GetTotalSizeOfMemoryBlocks ((a2, b2) # m)"
      "owners (defragment alive ((a2, b2) # m)) \<subseteq> owners ((a2, b2) # m)"
      "\<And>k. (\<forall>(c, w) \<in> set ((a2, b2) # m). k \<le> uint c) \<Longrightarrow> (\<forall>(c, w) \<in> set (defragment alive ((a2, b2) # m)). k \<le> uint c)"
      using 3(2) [OF False ok(4,5)] by blast+
    have eq: "defragment alive ((a, b) # (a2, b2) # m) = (a, b) # defragment alive ((a2, b2) # m)" using False by auto
    have "\<forall>(c, w) \<in> set (defragment alive ((a2, b2) # m)). uint a + uint (size_bytes b) \<le> uint c"
      by (rule IH(6)) (use ok(3,6) in auto)
    moreover have "owners_alive alive [(a, b)]" using 3(4) by (simp add: owners_alive_def)
    ultimately show ?thesis unfolding eq using IH ok(1) by (auto simp: owners_alive_def)
  qed
qed auto

section \<open>The region is partitioned\<close>

text \<open>
  The blocks of either map are non-empty and disjoint, free blocks have no owner and taken blocks one that is alive,
  no two blocks of the same map and owner touch, and every byte of the region, and no other, lies in a free or in a taken block but not in both.
\<close>

definition separated :: "memory_block omap \<Rightarrow> bool" where
  "separated m \<longleftrightarrow> sorted_wrt (\<lambda>(a, v) (b, w). uint a + uint (size_bytes v) < uint b \<or> owner v \<noteq> owner w) m"

definition mm_inv :: "(nat \<Rightarrow> bool) \<Rightarrow> memory_manager \<Rightarrow> bool" where
  "mm_inv alive mm \<longleftrightarrow> mblocks_ok (free mm) \<and> mblocks_ok (taken mm) \<and> owners_alive alive (taken mm)
    \<and> separated (free mm) \<and> separated (taken mm) \<and> None \<notin> owners (taken mm) \<and> owners (free mm) \<subseteq> {None}
    \<and> (\<forall>x. in_range (region_start_paddr mm) (region_size_bytes mm) x \<longleftrightarrow> (owner_at (free mm) x \<noteq> None \<or> owner_at (taken mm) x \<noteq> None))
    \<and> (\<forall>x. owner_at (free mm) x = None \<or> owner_at (taken mm) x = None)"

text \<open>Whose a byte is.\<close>

definition mem_owner :: "memory_manager \<Rightarrow> u32 \<Rightarrow> nat option" where
  "mem_owner mm x = (case owner_at (taken mm) x of None \<Rightarrow> None | Some p \<Rightarrow> p)"

lemma mm_inv_free_alive: "mm_inv alive mm \<Longrightarrow> owners_alive alive (free mm)"
  by (fastforce simp: mm_inv_def owners_alive_def owners_def)

lemma mem_owner_None: "mm_inv alive mm \<Longrightarrow> mem_owner mm x = None \<longleftrightarrow> owner_at (taken mm) x = None"
proof -
  assume inv: "mm_inv alive mm"
  have "owner_at (taken mm) x \<noteq> Some None"
  proof
    assume "owner_at (taken mm) x = Some None"
    then obtain a b where "cell size_bytes (taken mm) x = Some (a, b)" "owner b = None" by (auto simp: owner_at_def)
    then have "(a, b) \<in> set (taken mm)" using cell_Some by metis
    then show False using inv \<open>owner b = None\<close> owners_member by (metis mm_inv_def)
  qed
  then show ?thesis by (auto simp: mem_owner_def split: option.split)
qed

lemma owner_lock_None: "owner b = None \<Longrightarrow> owner_lock alive b = None"
  by (simp add: owner_lock_def)

lemma defragment_head: "\<exists>b' m'. defragment alive ((a, b) # m) = (a, b') # m' \<and> owner b' = owner b"
  by (induction m arbitrary: b) (auto simp: memory_block.splits)

lemma defragment_separated:
  "mblocks_ok m \<Longrightarrow> owners_alive alive m \<Longrightarrow> separated (defragment alive m)"
proof (induction alive m rule: defragment.induct)
  case (3 alive a b a2 b2 m)
  have ok: "block_range a (size_bytes b)" "block_range a2 (size_bytes b2)" "uint a + uint (size_bytes b) \<le> uint a2"
    "mblocks_ok ((a2, b2) # m)" "owners_alive alive ((a2, b2) # m)"
    using 3(3,4) by (auto simp: owners_alive_def)
  have own: "owner_lock alive b = owner b" "owner_lock alive b2 = owner b2"
    using owner_lock_alive [OF 3(4), of a b] owner_lock_alive [OF 3(4), of a2 b2] by simp_all
  show ?case
  proof (cases "a + size_bytes b = a2 \<and> owner b = owner b2")
    case True
    let ?b = "b\<lparr>size_bytes := size_bytes b + size_bytes b2\<rparr>"
    have cond: "a + size_bytes b = a2 \<and> owner_lock alive b = owner_lock alive b2" using True own by simp
    note merge = merge_range [OF ok(1), of "size_bytes b2"]
    have "uint a2 = uint a + uint (size_bytes b)" using True uint_block_end [OF ok(1)] by auto
    then have new: "mblocks_ok ((a, ?b) # m)" "owners_alive alive ((a, ?b) # m)"
      using merge ok True 3(3,4) by (auto simp: owners_alive_def split: prod.splits)
    show ?thesis using 3(1) [OF cond new] cond by auto
  next
    case False
    then have apart: "uint a + uint (size_bytes b) < uint a2 \<or> owner b \<noteq> owner b2"
      using ok(3) uint_block_end [OF ok(1)] by (auto simp: word_uint_eq_iff)
    have cond: "\<not> (a + size_bytes b = a2 \<and> owner_lock alive b = owner_lock alive b2)" using False own by simp
    obtain b' m' where rest: "defragment alive ((a2, b2) # m) = (a2, b') # m'" "owner b' = owner b2"
      using defragment_head by blast
    have "mblocks_ok ((a2, b') # m')" using defragment_spec [OF ok(4,5)] by (simp add: rest)
    then have "\<forall>(c, w) \<in> set m'. uint a2 < uint c" by (fastforce simp: block_range_def)
    then have "\<forall>(c, w) \<in> set m'. uint a + uint (size_bytes b) < uint c" using ok(3) by force
    moreover have "separated ((a2, b') # m')" using 3(2) [OF cond ok(4,5)] by (simp add: rest)
    ultimately show ?thesis using cond rest apart by (auto simp: separated_def)
  qed
qed (auto simp: separated_def)

text \<open>A run of addresses that all have the same owner in a separated map lies in one block.\<close>

lemma separated_run:
  assumes "mblocks_ok m" "separated m" "block_range a n" and run: "\<And>x. in_range a n x \<Longrightarrow> owner_at m x = Some q"
  shows "\<exists>(c, b) \<in> set m. owner b = q \<and> uint c \<le> uint a \<and> uint a + uint n \<le> uint c + uint (size_bytes b)"
proof -
  have in_cell: "\<exists>c b. (c, b) \<in> set m \<and> in_range c (size_bytes b) x \<and> owner b = q" if "in_range a n x" for x
    using run [OF that] cell_Some by (fastforce simp: owner_at_def)
  obtain c b where cb: "(c, b) \<in> set m" "in_range c (size_bytes b) a" "owner b = q" using in_cell [OF block_start [OF assms(3)]] by blast
  have c: "block_range c (size_bytes b)" by (rule blocks_range [OF assms(1) cb(1)])
  have "uint a + uint n \<le> uint c + uint (size_bytes b)"
  proof (rule ccontr)
    assume beyond: "\<not> uint a + uint n \<le> uint c + uint (size_bytes b)"
    let ?e = "c + size_bytes b"
    have e: "uint ?e = uint c + uint (size_bytes b)" by (rule uint_block_end [OF c])
    have "in_range a n ?e" using beyond cb(2) by (simp add: in_range_def e)
    then obtain d w where dw: "(d, w) \<in> set m" "in_range d (size_bytes w) ?e" "owner w = q" using in_cell by blast
    have d: "block_range d (size_bytes w)" by (rule blocks_range [OF assms(1) dw(1)])
    have "(d, w) \<noteq> (c, b)" using dw(2) by (auto simp: in_range_def e)
    then have "uint c + uint (size_bytes b) < uint d \<or> uint d + uint (size_bytes w) < uint c"
      using assms(2) cb(1,3) dw(1,3) unfolding separated_def by (induction m) auto
    then show False using dw(2) c by (auto simp: in_range_def e block_range_def)
  qed
  then show ?thesis using cb by (auto simp: in_range_def)
qed

lemma mm_inv_init: "block_range start n \<Longrightarrow> mm_inv alive (MemoryManager_init start n)"
  by (auto simp: mm_inv_def MemoryManager_init_def owners_alive_def separated_def)

lemma set_om_assign_subset: "set (om_assign k v m) \<subseteq> insert (k, v) (set m)"
  by (induction k v m rule: om_assign.induct) auto

lemma owners_alive_assign: "owners_alive alive m \<Longrightarrow> (\<forall>p. owner b = Some p \<longrightarrow> alive p) \<Longrightarrow> owners_alive alive (om_assign k b m)"
  using set_om_assign_subset [of k b m] by (fastforce simp: owners_alive_def)

lemma owners_alive_erase: "owners_alive alive m \<Longrightarrow> owners_alive alive (om_erase k m)"
  by (auto simp: owners_alive_def set_om_erase)

lemma owners_assign: "owners (om_assign k b m) \<subseteq> insert (owner b) (owners m)"
  using set_om_assign_subset [of k b m] by (fastforce simp: owners_def)

lemma owners_erase: "owners (om_erase k m) \<subseteq> owners m"
  by (auto simp: set_om_erase owners_def)

text \<open>Two maps before merging that partition the region give an allocator that keeps the invariant.\<close>

lemma mm_inv_merge:
  assumes "mblocks_ok f" "mblocks_ok t" "owners_alive alive t" "None \<notin> owners t" "owners f \<subseteq> {None}"
    and "\<And>x. in_range (region_start_paddr mm) (region_size_bytes mm) x \<longleftrightarrow> (owner_at f x \<noteq> None \<or> owner_at t x \<noteq> None)"
    and "\<And>x. owner_at f x = None \<or> owner_at t x = None"
  shows "mm_inv alive (mm\<lparr>free := defragment alive f, taken := defragment alive t\<rparr>)"
    "mem_owner (mm\<lparr>free := defragment alive f, taken := defragment alive t\<rparr>) x = (case owner_at t x of None \<Rightarrow> None | Some p \<Rightarrow> p)"
proof -
  have "owners_alive alive f" using assms(5) by (fastforce simp: owners_alive_def owners_def)
  note f = defragment_spec [OF assms(1) this] defragment_separated [OF assms(1) this] and t = defragment_spec [OF assms(2,3)] defragment_separated [OF assms(2,3)]
  show "mm_inv alive (mm\<lparr>free := defragment alive f, taken := defragment alive t\<rparr>)"
    using f t assms(4-7) unfolding mm_inv_def by (simp add: subset_iff) blast
  show "mem_owner (mm\<lparr>free := defragment alive f, taken := defragment alive t\<rparr>) x = (case owner_at t x of None \<Rightarrow> None | Some p \<Rightarrow> p)"
    using t by (simp add: mem_owner_def)
qed

section \<open>Allocation\<close>

lemma find_free_cases:
  assumes "find_free alive n m = r" "owners m \<subseteq> {None}"
  shows "\<exists>found. r = Inr found \<and> (case found of
      None \<Rightarrow> \<forall>(a, b) \<in> set m. size_bytes b < n
    | Some (a, b) \<Rightarrow> \<exists>pre post. m = pre @ (a, b) # post \<and> \<not> size_bytes b < n \<and> (\<forall>(a, b) \<in> set pre. size_bytes b < n))"
  using assms
proof (induction alive n m rule: find_free.induct)
  case (2 alive n addr b m)
  have none: "owner_lock alive b = None" using 2(3) by (simp add: owner_lock_def)
  show ?case
  proof (cases "size_bytes b < n")
    case True
    then have "find_free alive n m = r" using 2(2) none by simp
    moreover have "owners m \<subseteq> {None}" using 2(3) by simp
    ultimately obtain found where found: "r = Inr found" "case found of
        None \<Rightarrow> \<forall>(a, b) \<in> set m. size_bytes b < n
      | Some (a, b) \<Rightarrow> \<exists>pre post. m = pre @ (a, b) # post \<and> \<not> size_bytes b < n \<and> (\<forall>(a, b) \<in> set pre. size_bytes b < n)"
      using 2(1) none True by blast
    show ?thesis
    proof (cases found)
      case None
      then show ?thesis using found True by simp
    next
      case (Some c)
      then obtain a b' pre post where "c = (a, b')" "m = pre @ (a, b') # post" "\<not> size_bytes b' < n" "\<forall>(a, b) \<in> set pre. size_bytes b < n"
        using found(2) by (cases c) auto
      then show ?thesis using found(1) Some True by (intro exI [of _ found]) (simp, rule exI [of _ "(addr, b) # pre"], simp)
    qed
  next
    case False
    then have "r = Inr (Some (addr, b))" using 2(2) none by simp
    then show ?thesis using False by (intro exI [of _ "Some (addr, b)"]) (simp, rule exI [of _ "[]"], simp)
  qed
qed (auto intro: exI [of _ None])

text \<open>A part of a block.\<close>

lemma sub_range:
  assumes "block_range a n" "uint a \<le> uint k" "uint k + uint n' \<le> uint a + uint n" "in_range k n' x"
  shows "in_range a n x"
  using assms by (simp add: in_range_def)

lemma alloc_blocks:
  assumes inv: "mm_inv alive mm" and ab: "(a, b) \<in> set (free mm)" and n: "0 < n" "\<not> size_bytes b < n" and p: "alive p"
    and f: "f = (if size_bytes b \<noteq> n then om_assign (a + n) \<lparr>size_bytes = size_bytes b - n, owner = None\<rparr> (om_erase a (free mm)) else om_erase a (free mm))"
    and t: "t = om_assign a \<lparr>size_bytes = n, owner = Some p\<rparr> (taken mm)"
  shows "mblocks_ok f" "mblocks_ok t" "block_range a n" "\<And>x. in_range a n x \<Longrightarrow> owner_at (free mm) x = Some None"
    "\<And>x. owner_at f x = (if in_range a n x then None else owner_at (free mm) x)"
    "\<And>x. owner_at t x = (if in_range a n x then Some (Some p) else owner_at (taken mm) x)"
proof -
  have ok: "mblocks_ok (free mm)" "mblocks_ok (taken mm)" using inv by (simp_all add: mm_inv_def)
  have ob: "owner b = None" using inv owners_member [OF ab] by (auto simp: mm_inv_def)
  have b: "block_range a (size_bytes b)" by (rule blocks_range [OF ok(1) ab])
  have le: "uint n \<le> uint (size_bytes b)" "0 < uint n" using n by (simp_all add: word_less_def)
  show an: "block_range a n" using b le by (simp add: block_range_def)
  have sub: "in_range a n x \<Longrightarrow> in_range a (size_bytes b) x" for x using le by (simp add: in_range_def)
  show free: "in_range a n x \<Longrightarrow> owner_at (free mm) x = Some None" for x
    using owner_at_member [OF ok(1) ab sub] ob by simp
  have "cell size_bytes (taken mm) x = None" if "in_range a n x" for x
    using inv free [OF that] by (metis mm_inv_def option.distinct(1) owner_at_None)
  then have apart: "apart_from a n size_bytes (taken mm)" by (intro apart_from_cells ok an)
  show "mblocks_ok t" unfolding t by (rule om_assign_ok) (simp_all add: ok an apart)
  show "owner_at t x = (if in_range a n x then Some (Some p) else owner_at (taken mm) x)" for x
    unfolding t by (subst owner_at_assign) (simp_all add: ok an apart)
  note er = om_erase_ok [OF ok(1), of a] and own = owner_at_erase [OF ok(1) ab]
  have "mblocks_ok f \<and> (\<forall>x. owner_at f x = (if in_range a n x then None else owner_at (free mm) x))"
  proof (cases "size_bytes b = n")
    case True
    then show ?thesis using er own by (simp add: f)
  next
    case False
    then have lt: "uint n < uint (size_bytes b)" using le by (simp add: word_uint_eq_iff)
    have e: "uint (a + n) = uint a + uint n" "uint (size_bytes b - n) = uint (size_bytes b) - uint n"
      using uint_block_end [OF an] lt by (simp_all add: uint_sub_u32)
    have rest: "block_range (a + n) (size_bytes b - n)" using b lt by (simp add: block_range_def e)
    have in_rest: "in_range (a + n) (size_bytes b - n) x \<longleftrightarrow> in_range a (size_bytes b) x \<and> \<not> in_range a n x" for x
      using le by (auto simp: in_range_def e)
    have "cell size_bytes (om_erase a (free mm)) x = None" if "in_range (a + n) (size_bytes b - n) x" for x
      using that own [of x] by (simp add: in_rest owner_at_None [symmetric])
    then have "apart_from (a + n) (size_bytes b - n) size_bytes (om_erase a (free mm))" by (intro apart_from_cells er rest)
    moreover have "in_range a (size_bytes b) x \<Longrightarrow> owner_at (free mm) x = Some None" for x
      using owner_at_member [OF ok(1) ab] ob by simp
    ultimately show ?thesis
      using False om_assign_ok [OF er, of "a + n" "\<lparr>size_bytes = size_bytes b - n, owner = None\<rparr>"] rest er own sub
      by (auto simp: f owner_at_assign in_rest)
  qed
  then show "mblocks_ok f" "\<And>x. owner_at f x = (if in_range a n x then None else owner_at (free mm) x)" by simp_all
qed

lemma total_erase:
  "mblocks_ok m \<Longrightarrow> (k, b) \<in> set m \<Longrightarrow> GetTotalSizeOfMemoryBlocks (om_erase k m) + size_bytes b = GetTotalSizeOfMemoryBlocks m"
proof (induction m)
  case (Cons c m)
  obtain a w where c: "c = (a, w)" by (cases c)
  show ?case
  proof (cases "a = k")
    case True
    have "\<forall>(d, v) \<in> set m. d \<noteq> k" using Cons.prems(1) True by (fastforce simp: c block_range_def)
    then have "om_erase k m = m" by (auto simp: om_erase_def filter_id_conv)
    moreover have "w = b" using blocks_key [OF Cons.prems(1), of k w b] Cons.prems(2) True c by simp
    ultimately show ?thesis using True by (simp add: c om_erase_def)
  next
    case False
    then show ?thesis using Cons by (simp add: c om_erase_def add.assoc)
  qed
qed simp

lemma total_assign:
  "k \<notin> fst ` set m \<Longrightarrow> GetTotalSizeOfMemoryBlocks (om_assign k b m) = size_bytes b + GetTotalSizeOfMemoryBlocks m"
  by (induction k b m rule: om_assign.induct) auto

lemma owner_at_key: "mblocks_ok m \<Longrightarrow> owner_at m k = None \<Longrightarrow> k \<notin> fst ` set m"
  using blocks_range block_start owner_at_member by fastforce

text \<open>What holds of an allocator after an operation that leaves the owner \<open>q\<close> with a range: everything else is as it was.\<close>

definition mm_update :: "(nat \<Rightarrow> bool) \<Rightarrow> memory_manager \<Rightarrow> u32 \<Rightarrow> u32 \<Rightarrow> nat option \<Rightarrow> memory_manager \<Rightarrow> bool" where
  "mm_update alive mm a n q mm' \<longleftrightarrow> mm_inv alive mm' \<and> RegionStart mm' = RegionStart mm \<and> RegionEnd mm' = RegionEnd mm
    \<and> TotalSize mm' = TotalSize mm \<and> (\<forall>x. mem_owner mm' x = (if in_range a n x then q else mem_owner mm x))"

lemma allocate_found:
  assumes inv: "mm_inv alive mm" and p: "alive p" and n: "0 < n" and found: "find_free alive n (free mm) = Inr (Some (a, b))"
    and ab: "(a, b) \<in> set (free mm)" "\<not> size_bytes b < n"
  shows "\<exists>mm'. AllocateBlock alive p n mm = Inr (Some a, mm') \<and> mm_update alive mm a n (Some p) mm'"
proof -
  define f where "f = (if size_bytes b \<noteq> n then om_assign (a + n) \<lparr>size_bytes = size_bytes b - n, owner = None\<rparr> (om_erase a (free mm)) else om_erase a (free mm))"
  define t where "t = om_assign a \<lparr>size_bytes = n, owner = Some p\<rparr> (taken mm)"
  note blocks = alloc_blocks [OF inv ab(1) n ab(2) p f_def t_def]
  let ?mm = "mm\<lparr>free := defragment alive f, taken := defragment alive t\<rparr>"
  have ok: "mblocks_ok (free mm)" "mblocks_ok (taken mm)" using inv by (simp_all add: mm_inv_def)
  have own: "owners_alive alive t" "None \<notin> owners t" "owners f \<subseteq> {None}"
    using inv p owners_assign [of a "\<lparr>size_bytes = n, owner = Some p\<rparr>" "taken mm"] owners_erase [of a "free mm"]
      owners_assign [of "a + n" "\<lparr>size_bytes = size_bytes b - n, owner = None\<rparr>" "om_erase a (free mm)"]
    by (auto simp: t_def f_def mm_inv_def intro!: owners_alive_assign)
  have fa: "owners_alive alive f" using own(3) by (fastforce simp: owners_alive_def owners_def)
  have untaken: "in_range a n x \<Longrightarrow> owner_at (taken mm) x = None" for x
    using inv blocks(4) by (metis mm_inv_def option.distinct(1))
  moreover have "in_range (region_start_paddr mm) (region_size_bytes mm) x \<longleftrightarrow> owner_at (free mm) x \<noteq> None \<or> owner_at (taken mm) x \<noteq> None"
    "owner_at (free mm) x = None \<or> owner_at (taken mm) x = None" for x using inv by (auto simp: mm_inv_def)
  ultimately have merged: "mm_inv alive ?mm" "mem_owner ?mm x = (if in_range a n x then Some p else mem_owner mm x)" for x
    using mm_inv_merge [OF blocks(1,2) own, of mm] blocks(4-6) by (auto simp: mem_owner_def)
  have keys: "a \<notin> fst ` set (taken mm)" by (rule owner_at_key [OF ok(2) untaken [OF block_start [OF blocks(3)]]])
  have "a + n \<notin> fst ` set (om_erase a (free mm))" if "size_bytes b \<noteq> n"
  proof (rule owner_at_key [OF om_erase_ok [OF ok(1)]])
    have "in_range a (size_bytes b) (a + n)"
      using uint_block_end [OF blocks(3)] that ab(2) by (auto simp: in_range_def word_less_def word_uint_eq_iff)
    then show "owner_at (om_erase a (free mm)) (a + n) = None" by (simp add: owner_at_erase [OF ok(1) ab(1)])
  qed
  then have "TotalSize ?mm = TotalSize mm"
    using total_erase [OF ok(1) ab(1)] defragment_spec [OF blocks(1) fa] defragment_spec [OF blocks(2) own(1)] keys
    by (auto simp: TotalSize_def UsedMemory_def f_def t_def total_assign algebra_simps)
  then show ?thesis using found merged
    by (auto simp: AllocateBlock_def f_def t_def mm_update_def RegionStart_def RegionEnd_def Let_def)
qed

text \<open>Adding a block where no block was.\<close>

lemma assign_block:
  assumes ok: "mblocks_ok m" and k: "block_range k (size_bytes b)" and none: "\<And>x. in_range k (size_bytes b) x \<Longrightarrow> owner_at m x = None"
  shows "mblocks_ok (om_assign k b m)"
    "owner_at (om_assign k b m) x = (if in_range k (size_bytes b) x then Some (owner b) else owner_at m x)"
    "GetTotalSizeOfMemoryBlocks (om_assign k b m) = size_bytes b + GetTotalSizeOfMemoryBlocks m"
proof -
  have apart: "apart_from k (size_bytes b) size_bytes m" by (rule apart_from_cells [OF ok k]) (simp add: none flip: owner_at_None)
  show "mblocks_ok (om_assign k b m)" by (rule om_assign_ok [OF ok k apart])
  show "owner_at (om_assign k b m) x = (if in_range k (size_bytes b) x then Some (owner b) else owner_at m x)"
    by (rule owner_at_assign [OF ok k apart])
  show "GetTotalSizeOfMemoryBlocks (om_assign k b m) = size_bytes b + GetTotalSizeOfMemoryBlocks m"
    by (rule total_assign [OF owner_at_key [OF ok none [OF block_start [OF k]]]])
qed

definition owners_ok :: "(nat \<Rightarrow> bool) \<Rightarrow> memory_block omap \<Rightarrow> bool" where
  "owners_ok alive m \<longleftrightarrow> owners_alive alive m \<and> None \<notin> owners m"

lemma owners_ok_assign: "owners_ok alive m \<Longrightarrow> alive p \<Longrightarrow> owners_ok alive (om_assign k \<lparr>size_bytes = n, owner = Some p\<rparr> m)"
  using owners_assign [of k "\<lparr>size_bytes = n, owner = Some p\<rparr>" m] by (auto simp: owners_ok_def intro!: owners_alive_assign)

lemma owners_ok_erase: "owners_ok alive m \<Longrightarrow> owners_ok alive (om_erase k m)"
  using owners_erase [of k m] by (auto simp: owners_ok_def intro!: owners_alive_erase)

text \<open>What is left of a chunk around a range of it goes to the owner given, byte for byte.\<close>

lemma keep_remainders_spec:
  assumes ok: "mblocks_ok m" and c: "block_range c s" and a: "block_range a n" and "uint c \<le> uint a" "uint a + uint n \<le> uint c + uint s"
    and none: "\<And>x. in_range c s x \<Longrightarrow> \<not> in_range a n x \<Longrightarrow> owner_at m x = None"
  shows "mblocks_ok (keep_remainders p c s a n m)"
    "owner_at (keep_remainders p c s a n m) x = (if in_range c s x \<and> \<not> in_range a n x then Some (Some p) else owner_at m x)"
    "GetTotalSizeOfMemoryBlocks (keep_remainders p c s a n m) + n = GetTotalSizeOfMemoryBlocks m + s"
proof -
  have e: "uint (a + n) = uint a + uint n" "uint (c + s) = uint c + uint s" using uint_block_end a c by auto
  have d: "uint (a - c) = uint a - uint c" using assms(4) by (simp add: uint_sub_u32)
  have d2: "uint (c + s - a - n) = uint c + uint s - uint a - uint n"
    using assms(5) uint_u32_bounds [of n] by (simp add: uint_sub_u32 e)
  define m1 where "m1 = (if c < a then om_assign c \<lparr>size_bytes = a - c, owner = Some p\<rparr> m else m)"
  have m1: "mblocks_ok m1 \<and> (\<forall>x. owner_at m1 x = (if in_range c s x \<and> uint x < uint a then Some (Some p) else owner_at m x))
    \<and> GetTotalSizeOfMemoryBlocks m1 = GetTotalSizeOfMemoryBlocks m + (a - c)"
  proof (cases "c < a")
    case True
    have r: "block_range c (a - c)" using True a by (simp add: block_range_def d word_less_def)
    have i: "in_range c (a - c) x \<longleftrightarrow> in_range c s x \<and> uint x < uint a" for x using assms(5) uint_u32_bounds [of n] by (auto simp: in_range_def d)
    have "in_range c (a - c) x \<Longrightarrow> owner_at m x = None" for x by (rule none) (simp_all add: i, simp add: in_range_def)
    then show ?thesis using assign_block [OF ok, of c "\<lparr>size_bytes = a - c, owner = Some p\<rparr>"] r True
      by (simp add: m1_def i)
  next
    case False
    then have "c = a" using assms(4) by (simp add: word_less_def word_uint_eq_iff)
    then show ?thesis using ok by (auto simp: m1_def in_range_def)
  qed
  have outside: "\<not> in_range a n x \<longleftrightarrow> uint x < uint a \<or> uint a + uint n \<le> uint x" for x by (auto simp: in_range_def)
  have all: "mblocks_ok (keep_remainders p c s a n m) \<and>
    owner_at (keep_remainders p c s a n m) x = (if in_range c s x \<and> \<not> in_range a n x then Some (Some p) else owner_at m x) \<and>
    GetTotalSizeOfMemoryBlocks (keep_remainders p c s a n m) + n = GetTotalSizeOfMemoryBlocks m + s" for x
  proof (cases "a + n < c + s")
    case True
    let ?r = "c + s - a - n"
    have r: "block_range (a + n) ?r" using True c by (simp add: block_range_def d2 e word_less_def)
    have i: "in_range (a + n) ?r x \<longleftrightarrow> in_range c s x \<and> uint a + uint n \<le> uint x" for x using assms(4) uint_u32_bounds [of n] by (auto simp: in_range_def d2 e)
    have "owner_at m1 x = None" if "in_range (a + n) ?r x" for x
    proof -
      have x: "in_range c s x" "uint a + uint n \<le> uint x" using that i by blast+
      then have "\<not> uint x < uint a" "\<not> in_range a n x" using uint_u32_bounds [of n] by (auto simp: in_range_def)
      then show ?thesis using m1 none [OF x(1)] by simp
    qed
    note b = assign_block [OF conjunct1 [OF m1], of "a + n" "\<lparr>size_bytes = ?r, owner = Some p\<rparr>", unfolded memory_block.select_convs, OF r this]
    have eq: "keep_remainders p c s a n m = om_assign (a + n) \<lparr>size_bytes = ?r, owner = Some p\<rparr> m1"
      using True by (simp add: keep_remainders_def Let_def flip: m1_def)
    have "?r + (GetTotalSizeOfMemoryBlocks m + (a - c)) + n = GetTotalSizeOfMemoryBlocks m + s" by (simp add: algebra_simps)
    then show ?thesis unfolding eq using b(1,3) b(2) [of x] m1 outside by (simp add: i) auto
  next
    case False
    then have "a + n = c + s" using assms(5) by (simp add: word_less_def word_uint_eq_iff e)
    then have sum: "GetTotalSizeOfMemoryBlocks m + (a - c) + n = GetTotalSizeOfMemoryBlocks m + s" by (simp add: algebra_simps)
    have "uint a + uint n = uint c + uint s" using \<open>a + n = c + s\<close> e by metis
    then have i: "\<not> in_range a n x \<longleftrightarrow> uint x < uint a" if "in_range c s x" using that by (auto simp: in_range_def)
    have eq: "keep_remainders p c s a n m = m1" using False by (simp add: keep_remainders_def Let_def flip: m1_def)
    show ?thesis unfolding eq using m1 sum i by auto
  qed
  from all show "mblocks_ok (keep_remainders p c s a n m)"
    "owner_at (keep_remainders p c s a n m) x = (if in_range c s x \<and> \<not> in_range a n x then Some (Some p) else owner_at m x)"
    "GetTotalSizeOfMemoryBlocks (keep_remainders p c s a n m) + n = GetTotalSizeOfMemoryBlocks m + s" by blast+
qed

lemma keep_remainders_owners: "owners_ok alive m \<Longrightarrow> alive p \<Longrightarrow> owners_ok alive (keep_remainders p c s a n m)"
  by (simp add: keep_remainders_def Let_def owners_ok_assign)

lemma find_taken_find:
  "owners_ok alive m \<Longrightarrow> find_taken alive P m = (case find (\<lambda>(c, b). P c (size_bytes b)) m of None \<Rightarrow> Inl RuntimeError | Some cb \<Rightarrow> Inr cb)"
proof (induction alive P m rule: find_taken.induct)
  case (2 alive P c b m)
  have "owner_lock alive b = owner b" by (rule owner_lock_alive [of _ "(c, b) # m" c]) (use 2 in \<open>simp_all add: owners_ok_def\<close>)
  moreover have "owner b \<noteq> None" "owners_ok alive m" using 2(2) by (cases "owner b"; auto simp: owners_ok_def owners_alive_def)+
  ultimately show ?case using 2(1) by auto
qed simp

lemma mm_inv_owners_ok: "mm_inv alive mm \<Longrightarrow> owners_ok alive (taken mm)"
  by (simp add: mm_inv_def owners_ok_def)

text \<open>
  The chunk that holds a range becomes the range with the owner \<open>q\<close> and the remainders with the owner \<open>p\<close> it had.
\<close>

lemma carve_spec:
  assumes inv: "mm_inv alive mm" and cb: "(c, b) \<in> set (taken mm)" and a: "block_range a n" "uint c \<le> uint a" "uint a + uint n \<le> uint c + uint (size_bytes b)"
    and m: "m = om_erase c (taken mm)" and p: "owner b = Some p"
  shows "mblocks_ok (keep_remainders p c (size_bytes b) a n m)" "owners_ok alive (keep_remainders p c (size_bytes b) a n m)"
    "owner_at (keep_remainders p c (size_bytes b) a n m) x = (if in_range a n x then None else owner_at (taken mm) x)"
    "GetTotalSizeOfMemoryBlocks (keep_remainders p c (size_bytes b) a n m) + n = GetTotalSizeOfMemoryBlocks (taken mm)"
    "in_range a n x \<Longrightarrow> owner_at (taken mm) x = Some (Some p)"
proof -
  have ok: "mblocks_ok (taken mm)" using inv by (simp add: mm_inv_def)
  have c: "block_range c (size_bytes b)" by (rule blocks_range [OF ok cb])
  have sub: "in_range a n x \<Longrightarrow> in_range c (size_bytes b) x" for x by (rule sub_range [OF c a(2,3)])
  have alive: "alive p" using inv cb p by (force simp: mm_inv_def owners_alive_def)
  have own: "owner_at m x = (if in_range c (size_bytes b) x then None else owner_at (taken mm) x)" for x
    unfolding m by (rule owner_at_erase [OF ok cb])
  have all: "in_range c (size_bytes b) x \<Longrightarrow> owner_at (taken mm) x = Some (Some p)" for x
    using owner_at_member [OF ok cb] p by simp
  have mok: "mblocks_ok m" unfolding m by (rule om_erase_ok [OF ok])
  note keep = keep_remainders_spec [OF mok c a, of p]
  show "mblocks_ok (keep_remainders p c (size_bytes b) a n m)" by (rule keep(1)) (simp add: own)
  show "owners_ok alive (keep_remainders p c (size_bytes b) a n m)"
    unfolding m by (intro keep_remainders_owners owners_ok_erase mm_inv_owners_ok inv alive)
  show "owner_at (keep_remainders p c (size_bytes b) a n m) x = (if in_range a n x then None else owner_at (taken mm) x)"
    by (subst keep(2)) (auto simp: own all sub)
  show "GetTotalSizeOfMemoryBlocks (keep_remainders p c (size_bytes b) a n m) + n = GetTotalSizeOfMemoryBlocks (taken mm)"
    using total_erase [OF ok cb] by (subst keep(3)) (simp_all add: own, simp add: m)
  show "in_range a n x \<Longrightarrow> owner_at (taken mm) x = Some (Some p)" using all sub by blast
qed

lemma deallocate_chunk:
  assumes inv: "mm_inv alive mm" and cb: "(c, b) \<in> set (taken mm)" and a: "block_range a n" "uint c \<le> uint a" "uint a + uint n \<le> uint c + uint (size_bytes b)"
    and p: "owner b = Some p"
    and f: "f = om_assign a \<lparr>size_bytes = n, owner = None\<rparr> (free mm)"
    and t: "t = keep_remainders p c (size_bytes b) a n (om_erase c (taken mm))"
  shows "mm_update alive mm a n None (mm\<lparr>free := defragment alive f, taken := defragment alive t\<rparr>)"
proof -
  note carve = carve_spec [OF inv cb a refl p, folded t]
  have ok: "mblocks_ok (free mm)" using inv by (simp add: mm_inv_def)
  have part: "in_range (region_start_paddr mm) (region_size_bytes mm) x \<longleftrightarrow> owner_at (free mm) x \<noteq> None \<or> owner_at (taken mm) x \<noteq> None"
    "owner_at (free mm) x = None \<or> owner_at (taken mm) x = None" for x using inv by (auto simp: mm_inv_def)
  have unfree: "in_range a n x \<Longrightarrow> owner_at (free mm) x = None" for x using part(2) [of x] carve(5) [of x] by auto
  note add = assign_block [OF ok, of a "\<lparr>size_bytes = n, owner = None\<rparr>", folded f, simplified, OF a(1) unfree, simplified]
  have own: "owners f \<subseteq> {None}" using inv owners_assign [of a "\<lparr>size_bytes = n, owner = None\<rparr>" "free mm"] by (auto simp: f mm_inv_def)
  have fa: "owners_alive alive f" using own by (fastforce simp: owners_alive_def owners_def)
  have t_ok: "owners_alive alive t" "None \<notin> owners t" using carve(2) by (simp_all add: owners_ok_def)
  let ?mm = "mm\<lparr>free := defragment alive f, taken := defragment alive t\<rparr>"
  have "in_range (region_start_paddr mm) (region_size_bytes mm) x \<longleftrightarrow> (owner_at f x \<noteq> None \<or> owner_at t x \<noteq> None)" for x
    using part(1) [of x] carve(5) [of x] by (auto simp: add(2) carve(3))
  note merged = mm_inv_merge [OF add(1) carve(1) t_ok own this]
  have apart: "owner_at f x = None \<or> owner_at t x = None" for x using part(2) [of x] by (auto simp: add(2) carve(3))
  have "mm_inv alive ?mm" "\<And>x. mem_owner ?mm x = (if in_range a n x then None else mem_owner mm x)"
    by (rule merged(1) [OF apart]) (subst merged(2) [OF apart], simp add: carve(3) mem_owner_def)
  moreover have "TotalSize ?mm = TotalSize mm"
    using defragment_spec [OF add(1) fa] defragment_spec [OF carve(1) t_ok(1)] add(3) carve(4)
    by (simp add: TotalSize_def UsedMemory_def algebra_simps)
  ultimately show ?thesis by (simp add: mm_update_def RegionStart_def RegionEnd_def)
qed

lemma transfer_chunk:
  assumes inv: "mm_inv alive mm" and cb: "(c, b) \<in> set (taken mm)" and a: "block_range a n" "uint c \<le> uint a" "uint a + uint n \<le> uint c + uint (size_bytes b)"
    and p: "owner b = Some p" and q: "alive q"
    and t: "t = keep_remainders p c (size_bytes b) a n (om_assign a \<lparr>size_bytes = n, owner = Some q\<rparr> (om_erase c (taken mm)))"
  shows "mm_update alive mm a n (Some q) (mm\<lparr>taken := defragment alive t\<rparr>)"
proof -
  have ok: "mblocks_ok (taken mm)" using inv by (simp add: mm_inv_def)
  have c: "block_range c (size_bytes b)" by (rule blocks_range [OF ok cb])
  have p_alive: "alive p" using inv cb p by (force simp: mm_inv_def owners_alive_def)
  have sub: "in_range a n x \<Longrightarrow> in_range c (size_bytes b) x" for x by (rule sub_range [OF c a(2,3)])
  have all: "in_range c (size_bytes b) x \<Longrightarrow> owner_at (taken mm) x = Some (Some p)" for x
    using owner_at_member [OF ok cb] p by simp
  have own: "owner_at (om_erase c (taken mm)) x = (if in_range c (size_bytes b) x then None else owner_at (taken mm) x)" for x
    by (rule owner_at_erase [OF ok cb])
  note add = assign_block [OF om_erase_ok [OF ok], of a "\<lparr>size_bytes = n, owner = Some q\<rparr>" c, simplified, OF a(1), unfolded own, simplified sub, simplified]
  note keep = keep_remainders_spec [OF add(1) c a, of p, folded t]
  have none: "in_range c (size_bytes b) x \<Longrightarrow> \<not> in_range a n x \<Longrightarrow>
    owner_at (om_assign a \<lparr>size_bytes = n, owner = Some q\<rparr> (om_erase c (taken mm))) x = None" for x by (simp add: add(2))
  have t_own: "owner_at t x = (if in_range a n x then Some (Some q) else owner_at (taken mm) x)" for x
    using keep(2) [OF none, of x] all [of x] sub [of x] by (auto simp: add(2))
  have t_ok: "owners_ok alive t"
    unfolding t by (intro keep_remainders_owners owners_ok_assign owners_ok_erase mm_inv_owners_ok inv p_alive q)
  then have t_alive: "owners_alive alive t" "None \<notin> owners t" by (simp_all add: owners_ok_def)
  have t_blocks: "mblocks_ok t" by (rule keep(1) [OF none])
  note frag = defragment_spec [OF t_blocks t_alive(1)] defragment_separated [OF t_blocks t_alive(1)]
  have "owner_at t x = None \<longleftrightarrow> owner_at (taken mm) x = None" for x using all [of x] sub [of x] by (auto simp: t_own)
  then have "mm_inv alive (mm\<lparr>taken := defragment alive t\<rparr>)" using inv frag t_alive unfolding mm_inv_def by auto
  moreover have "GetTotalSizeOfMemoryBlocks (defragment alive t) = GetTotalSizeOfMemoryBlocks (taken mm)"
    using frag keep(3) [OF none] total_erase [OF ok cb] add(3) by (simp add: algebra_simps)
  ultimately show ?thesis using frag
    by (simp add: mm_update_def RegionStart_def RegionEnd_def TotalSize_def UsedMemory_def mem_owner_def t_own)
qed

text \<open>A range of the region that nobody owns.\<close>

definition free_run :: "memory_manager \<Rightarrow> u32 \<Rightarrow> u32 \<Rightarrow> bool" where
  "free_run mm a n \<longleftrightarrow> block_range a n \<and>
    (\<forall>x. in_range a n x \<longrightarrow> in_range (region_start_paddr mm) (region_size_bytes mm) x \<and> mem_owner mm x = None)"

lemma free_run_block:
  assumes inv: "mm_inv alive mm" and run: "free_run mm a n"
  shows "\<exists>(c, b) \<in> set (free mm). uint c \<le> uint a \<and> \<not> size_bytes b < n"
proof -
  have "owner_at (free mm) x = Some None" if "in_range a n x" for x
  proof -
    have "owner_at (free mm) x \<noteq> None"
      using run that inv mem_owner_None [OF inv, of x] by (auto simp: free_run_def mm_inv_def)
    then obtain c b where "cell size_bytes (free mm) x = Some (c, b)" "owner_at (free mm) x = Some (owner b)" by (auto simp: owner_at_def)
    then show ?thesis using inv owners_member cell_Some by (fastforce simp: mm_inv_def)
  qed
  then obtain c b where "(c, b) \<in> set (free mm)" "uint c \<le> uint a" "uint a + uint n \<le> uint c + uint (size_bytes b)"
    using separated_run [of "free mm" a n None] inv run by (auto simp: mm_inv_def free_run_def)
  then show ?thesis by (force simp: word_less_def)
qed

lemma owned_range:
  assumes inv: "mm_inv alive mm" and cb: "(c, b) \<in> set (taken mm)" "in_range c (size_bytes b) a" and a: "block_range a n"
  shows "(\<forall>x. in_range a n x \<longrightarrow> mem_owner mm x = Some p) \<longleftrightarrow> owner b = Some p \<and> uint a + uint n \<le> uint c + uint (size_bytes b)"
proof
  have ok: "mblocks_ok (taken mm)" "separated (taken mm)" using inv by (simp_all add: mm_inv_def)
  assume own: "\<forall>x. in_range a n x \<longrightarrow> mem_owner mm x = Some p"
  then have "in_range a n x \<Longrightarrow> owner_at (taken mm) x = Some (Some p)" for x by (auto simp: mem_owner_def split: option.splits)
  then obtain d w where dw: "(d, w) \<in> set (taken mm)" "owner w = Some p" "uint d \<le> uint a" "uint a + uint n \<le> uint d + uint (size_bytes w)"
    using separated_run [OF ok a] by blast
  have "in_range d (size_bytes w) a" using dw(3,4) a by (simp add: in_range_def block_range_def)
  then have "d = c \<and> w = b" using blocks_unique [OF ok(1) dw(1) cb(1)] cb(2) by blast
  then show "owner b = Some p \<and> uint a + uint n \<le> uint c + uint (size_bytes b)" using dw by simp
next
  have ok: "mblocks_ok (taken mm)" using inv by (simp add: mm_inv_def)
  assume "owner b = Some p \<and> uint a + uint n \<le> uint c + uint (size_bytes b)"
  then show "\<forall>x. in_range a n x \<longrightarrow> mem_owner mm x = Some p"
    using owner_at_member [OF ok cb(1)] cb(2) by (simp add: mem_owner_def in_range_def)
qed

lemma allocate_spec:
  assumes inv: "mm_inv alive mm" and p: "alive p" and n: "0 < n"
  shows "\<exists>r mm'. AllocateBlock alive p n mm = Inr (r, mm') \<and> (case r of
      None \<Rightarrow> mm' = mm \<and> (\<forall>a. \<not> free_run mm a n)
    | Some a \<Rightarrow> free_run mm a n \<and> (\<forall>c. c < a \<longrightarrow> \<not> free_run mm c n) \<and> mm_update alive mm a n (Some p) mm')"
proof -
  have "owners (free mm) \<subseteq> {None}" using inv by (simp add: mm_inv_def)
  then obtain found where found: "find_free alive n (free mm) = Inr found" "case found of
      None \<Rightarrow> \<forall>(a, b) \<in> set (free mm). size_bytes b < n
    | Some (a, b) \<Rightarrow> \<exists>pre post. free mm = pre @ (a, b) # post \<and> \<not> size_bytes b < n \<and> (\<forall>(a, b) \<in> set pre. size_bytes b < n)"
    using find_free_cases [OF refl] by blast
  show ?thesis
  proof (cases found)
    case None
    then have "\<not> free_run mm a n" for a using free_run_block [OF inv, of a n] found(2) by fastforce
    then show ?thesis using found(1) None by (simp add: AllocateBlock_def)
  next
    case (Some ab)
    then obtain a b pre post where ab: "ab = (a, b)" "free mm = pre @ (a, b) # post" "\<not> size_bytes b < n" "\<forall>(a, b) \<in> set pre. size_bytes b < n"
      using found(2) by (cases ab) auto
    then have mem: "(a, b) \<in> set (free mm)" by simp
    note blocks = alloc_blocks [OF inv mem n ab(3) p refl refl]
    have "free_run mm a n"
      using blocks(3,4) inv unfolding free_run_def mm_inv_def mem_owner_def by (metis option.distinct(1) option.simps(4))
    moreover have "\<not> free_run mm c n" if "c < a" for c
    proof
      assume "free_run mm c n"
      then obtain d w where dw: "(d, w) \<in> set (free mm)" "uint d \<le> uint c" "\<not> size_bytes w < n" using free_run_block [OF inv] by blast
      have "mblocks_ok (pre @ (a, b) # post)" using inv ab(2) by (simp add: mm_inv_def)
      then have "(d, w) \<in> set ((a, b) # post) \<Longrightarrow> uint a \<le> uint d" by (force simp: blocks_ok_append block_range_def)
      then show False using dw that ab(2,4) by (auto simp: word_less_def)
    qed
    ultimately show ?thesis using allocate_found [OF inv p n _ mem ab(3)] found(1) Some ab(1) by auto
  qed
qed


lemma deallocate_spec:
  assumes inv: "mm_inv alive mm" and a: "block_range a n"
  shows "(if \<forall>x. in_range a n x \<longrightarrow> mem_owner mm x = Some p
      then \<exists>mm'. DeallocateBlock alive p a n mm = Inr mm' \<and> mm_update alive mm a n None mm'
      else DeallocateBlock alive p a n mm = Inl (if mem_owner mm a = None then RuntimeError
        else if mem_owner mm a = Some p then InvalidOperation else ContractViolation))"
proof -
  have ok: "mblocks_ok (taken mm)" "separated (taken mm)" using inv by (simp_all add: mm_inv_def)
  let ?P = "\<lambda>(c, b). c \<le> a \<and> a < c + size_bytes b"
  have "?P cb = in_block size_bytes a cb" if "cb \<in> set (taken mm)" for cb
    using uint_block_end blocks_range [OF ok(1)] that by (auto simp: in_block_def word_le_def word_less_def split: prod.splits)
  then have "find ?P (taken mm) = cell size_bytes (taken mm) a" unfolding cell_def by (intro find_cong) auto
  then have search: "find_taken alive (\<lambda>c s. c \<le> a \<and> a < c + s) (taken mm) =
      (case cell size_bytes (taken mm) a of None \<Rightarrow> Inl RuntimeError | Some cb \<Rightarrow> Inr cb)"
    using find_taken_find [OF mm_inv_owners_ok [OF inv]] by simp
  show ?thesis
  proof (cases "cell size_bytes (taken mm) a")
    case None
    then have "mem_owner mm a = None" by (simp add: mem_owner_def owner_at_def)
    then show ?thesis using None search block_start [OF a] by (auto simp: DeallocateBlock_def)
  next
    case (Some cb)
    obtain c b where cb: "cb = (c, b)" by (cases cb)
    have mem: "(c, b) \<in> set (taken mm)" "in_range c (size_bytes b) a" using cell_Some Some cb by metis+
    have own: "owner_lock alive b = owner b" using inv owner_lock_alive mem(1) by (metis mm_inv_def)
    have at_a: "mem_owner mm a = owner b" using Some cb by (simp add: mem_owner_def owner_at_def)
    have owned: "owner b \<noteq> None" using inv owners_member [OF mem(1)] by (metis mm_inv_def)
    have c: "block_range c (size_bytes b)" by (rule blocks_range [OF ok(1) mem(1)])
    have le: "\<not> c + size_bytes b < a + n \<longleftrightarrow> uint a + uint n \<le> uint c + uint (size_bytes b)"
      using uint_block_end [OF a] uint_block_end [OF c] by (auto simp: word_less_def)
    have "(\<forall>x. in_range a n x \<longrightarrow> mem_owner mm x = Some p) \<longleftrightarrow> owner b = Some p \<and> \<not> c + size_bytes b < a + n"
      using owned_range [OF inv mem a] by (simp add: le)
    then show ?thesis using deallocate_chunk [OF inv mem(1) a _ _ _ refl refl, of p] mem(2) Some cb search own at_a owned le
      by (auto simp: DeallocateBlock_def in_range_def)
  qed
qed



lemma transfer_spec:
  assumes inv: "mm_inv alive mm" and a: "block_range a n" and q: "alive q"
  shows "(if \<forall>x. in_range a n x \<longrightarrow> mem_owner mm x = Some p
      then \<exists>mm'. TransferOwnership alive p q a n mm = Inr mm' \<and> mm_update alive mm a n (Some q) mm'
      else TransferOwnership alive p q a n mm =
        Inl (if \<exists>r. \<forall>x. in_range a n x \<longrightarrow> mem_owner mm x = Some r then ContractViolation else RuntimeError))"
proof -
  let ?P = "\<lambda>(c, b). c \<le> a \<and> a + n \<le> c + size_bytes b"
  have ok: "mblocks_ok (taken mm)" using inv by (simp add: mm_inv_def)
  have P: "?P (c, b) \<longleftrightarrow> in_range c (size_bytes b) a \<and> uint a + uint n \<le> uint c + uint (size_bytes b)" if "(c, b) \<in> set (taken mm)" for c b
    using uint_block_end [OF a] uint_block_end [OF blocks_range [OF ok that]] a by (auto simp: word_le_def in_range_def block_range_def)
  have search: "find_taken alive (\<lambda>c s. c \<le> a \<and> a + n \<le> c + s) (taken mm) =
      (case find ?P (taken mm) of None \<Rightarrow> Inl RuntimeError | Some cb \<Rightarrow> Inr cb)"
    by (rule find_taken_find [OF mm_inv_owners_ok [OF inv]])
  show ?thesis
  proof (cases "find ?P (taken mm)")
    case None
    have "\<not> (\<forall>x. in_range a n x \<longrightarrow> mem_owner mm x = Some r)" for r
    proof
      assume r: "\<forall>x. in_range a n x \<longrightarrow> mem_owner mm x = Some r"
      then obtain c b where cb: "(c, b) \<in> set (taken mm)" "in_range c (size_bytes b) a"
        using block_start [OF a] cell_Some by (fastforce simp: mem_owner_def owner_at_def split: option.splits)
      then have "uint a + uint n \<le> uint c + uint (size_bytes b)" using owned_range [OF inv cb a, of r] r by blast
      then have "?P (c, b)" using P [OF cb(1)] cb(2) by blast
      then show False using None cb(1) by (auto simp: find_None_iff)
    qed
    then show ?thesis using None search by (simp add: TransferOwnership_def)
  next
    case (Some cb)
    obtain c b where cb: "cb = (c, b)" by (cases cb)
    have mem: "(c, b) \<in> set (taken mm)" "?P (c, b)" using Some cb by (auto simp: find_Some_iff in_set_conv_nth)
    then have c: "in_range c (size_bytes b) a" "uint a + uint n \<le> uint c + uint (size_bytes b)" using P by blast+
    have own: "owner_lock alive b = owner b" using inv owner_lock_alive mem(1) by (metis mm_inv_def)
    have owned: "owner b \<noteq> None" using inv owners_member [OF mem(1)] by (metis mm_inv_def)
    have iff: "(\<forall>x. in_range a n x \<longrightarrow> mem_owner mm x = Some r) \<longleftrightarrow> owner b = Some r" for r
      using owned_range [OF inv mem(1) c(1) a] c(2) by simp
    have fits: "\<not> c + size_bytes b < a + n" using mem(2) by (simp add: word_less_def word_le_def)
    show ?thesis
      using transfer_chunk [OF inv mem(1) a _ c(2) _ q refl, of p] c(1) Some cb search own owned fits
      unfolding iff by (auto simp: TransferOwnership_def in_range_def)
  qed
qed

section \<open>The interface of an allocator\<close>

text \<open>
  What a client of an allocator relies on: an invariant, whose every byte is, and operations that hand a range over
  without touching the rest. The lemmas of this locale hold for all of them together, over any history of requests.
\<close>

datatype mm_request =
    ReqAllocate nat u32
  | ReqDeallocate nat u32 u32
  | ReqTransfer nat nat u32 u32

definition valid_request :: "(nat \<Rightarrow> bool) \<Rightarrow> mm_request \<Rightarrow> bool" where
  "valid_request alive r = (case r of ReqAllocate p n \<Rightarrow> alive p \<and> 0 < n
    | ReqDeallocate p a n \<Rightarrow> block_range a n | ReqTransfer p q a n \<Rightarrow> alive q \<and> block_range a n)"

definition serve_request ::
  "(nat \<Rightarrow> u32 \<Rightarrow> 'm \<Rightarrow> (u32 option \<times> 'm) res) \<Rightarrow> (nat \<Rightarrow> u32 \<Rightarrow> u32 \<Rightarrow> 'm \<Rightarrow> 'm res) \<Rightarrow>
    (nat \<Rightarrow> nat \<Rightarrow> u32 \<Rightarrow> u32 \<Rightarrow> 'm \<Rightarrow> 'm res) \<Rightarrow> mm_request \<Rightarrow> 'm \<Rightarrow> 'm res" where
  "serve_request allocate deallocate transfer r m = (case r of ReqAllocate p n \<Rightarrow> bindE (allocate p n m) (\<lambda>(_, m'). Inr m')
    | ReqDeallocate p a n \<Rightarrow> deallocate p a n m | ReqTransfer p q a n \<Rightarrow> transfer p q a n m)"

definition mm_serve :: "(nat \<Rightarrow> bool) \<Rightarrow> mm_request \<Rightarrow> memory_manager \<Rightarrow> memory_manager res" where
  "mm_serve alive = serve_request (AllocateBlock alive) (DeallocateBlock alive) (TransferOwnership alive)"

locale region_allocator =
  fixes alive :: "nat \<Rightarrow> bool" and ok :: "'m \<Rightarrow> bool" and own :: "'m \<Rightarrow> u32 \<Rightarrow> nat option" and region :: "'m \<Rightarrow> u32 \<Rightarrow> bool"
    and total :: "'m \<Rightarrow> u32"
    and allocate :: "nat \<Rightarrow> u32 \<Rightarrow> 'm \<Rightarrow> (u32 option \<times> 'm) res"
    and deallocate :: "nat \<Rightarrow> u32 \<Rightarrow> u32 \<Rightarrow> 'm \<Rightarrow> 'm res"
    and transfer :: "nat \<Rightarrow> nat \<Rightarrow> u32 \<Rightarrow> u32 \<Rightarrow> 'm \<Rightarrow> 'm res"
  assumes allocates: "ok m \<Longrightarrow> alive p \<Longrightarrow> 0 < n \<Longrightarrow> allocate p n m = Inr (r, m') \<Longrightarrow>
      ok m' \<and> region m' = region m \<and> total m' = total m \<and> (case r of None \<Rightarrow> m' = m
        | Some a \<Rightarrow> block_range a n \<and> (\<forall>x. in_range a n x \<longrightarrow> region m x \<and> own m x = None)
            \<and> (\<forall>x. own m' x = (if in_range a n x then Some p else own m x)))"
    and deallocates: "ok m \<Longrightarrow> block_range a n \<Longrightarrow> (\<forall>x. in_range a n x \<longrightarrow> own m x = Some p) \<Longrightarrow> \<exists>m'. deallocate p a n m = Inr m'"
    and deallocated: "ok m \<Longrightarrow> block_range a n \<Longrightarrow> deallocate p a n m = Inr m' \<Longrightarrow>
      ok m' \<and> region m' = region m \<and> total m' = total m \<and> (\<forall>x. in_range a n x \<longrightarrow> own m x = Some p)
        \<and> (\<forall>x. own m' x = (if in_range a n x then None else own m x))"
    and transferred: "ok m \<Longrightarrow> alive q \<Longrightarrow> block_range a n \<Longrightarrow> transfer p q a n m = Inr m' \<Longrightarrow>
      ok m' \<and> region m' = region m \<and> total m' = total m \<and> (\<forall>x. in_range a n x \<longrightarrow> own m x = Some p)
        \<and> (\<forall>x. own m' x = (if in_range a n x then Some q else own m x))"
begin

abbreviation serve :: "mm_request \<Rightarrow> 'm \<Rightarrow> 'm res" where
  "serve \<equiv> serve_request allocate deallocate transfer"

lemma serve_keeps:
  assumes "ok m" "valid_request alive r" "serve r m = Inr m'"
  shows "ok m' \<and> region m' = region m \<and> total m' = total m"
proof (cases r)
  case (ReqAllocate p n)
  then obtain s where "allocate p n m = Inr (s, m')" using assms(3) by (auto simp: serve_request_def bindE_eq_Inr)
  then show ?thesis using allocates [OF assms(1)] assms(2) ReqAllocate by (auto simp: valid_request_def)
next
  case (ReqDeallocate p a n)
  then show ?thesis using deallocated [OF assms(1)] assms(2,3) by (auto simp: valid_request_def serve_request_def)
next
  case (ReqTransfer p q a n)
  then show ?thesis using transferred [OF assms(1)] assms(2,3) by (auto simp: valid_request_def serve_request_def)
qed

lemma history_keeps:
  assumes "ok m" "list_all (valid_request alive) rs" "foldE serve rs m = Inr m'"
  shows "ok m' \<and> region m' = region m \<and> total m' = total m"
proof (rule foldE_invariant [OF assms(3), of "\<lambda>s. ok s \<and> region s = region m \<and> total s = total m"])
  fix r s s'
  assume "r \<in> set rs" "ok s \<and> region s = region m \<and> total s = total m" "serve r s = Inr s'"
  then show "ok s' \<and> region s' = region m \<and> total s' = total m"
    using serve_keeps [of s r s'] assms(2) by (simp add: list_all_iff)
qed (simp add: assms(1))

text \<open>What is allocated can be given back, after any requests that leave it with its owner, and then is free again.\<close>

lemma allocate_deallocate:
  assumes "ok m" "alive p" "0 < n" "allocate p n m = Inr (Some a, m1)"
  shows "\<exists>m2. deallocate p a n m1 = Inr m2 \<and> ok m2 \<and> own m2 = own m \<and> total m2 = total m"
proof -
  note al = allocates [OF assms, simplified]
  then obtain m2 where m2: "deallocate p a n m1 = Inr m2" using deallocates [of m1 a n p] by auto
  have "own m2 x = own m x" for x using deallocated [OF _ _ m2] al by auto
  then show ?thesis using m2 deallocated [OF _ _ m2] al by auto
qed

lemma allocations_disjoint:
  assumes "ok m" "alive p" "alive q" "0 < n" "0 < k" "allocate p n m = Inr (Some a, m1)" "allocate q k m1 = Inr (Some b, m2)"
  shows "\<not> (in_range a n x \<and> in_range b k x)"
  using allocates [OF assms(1,2,4,6)] allocates [OF _ assms(3,5,7)] by fastforce

end

definition in_region :: "memory_manager \<Rightarrow> u32 \<Rightarrow> bool" where
  "in_region mm = in_range (RegionStart mm) (RegionEnd mm - RegionStart mm)"

lemma in_region_update: "mm_update alive mm a n q mm' \<Longrightarrow> in_region mm' = in_region mm"
  by (simp add: mm_update_def in_region_def)

interpretation mm: region_allocator alive "mm_inv alive" mem_owner in_region TotalSize "AllocateBlock alive" "DeallocateBlock alive" "TransferOwnership alive"
  for alive
proof
  fix m p n r m'
  assume "mm_inv alive m" "alive p" "0 < n" "AllocateBlock alive p n m = Inr (r, m')"
  then show "mm_inv alive m' \<and> in_region m' = in_region m \<and> TotalSize m' = TotalSize m \<and> (case r of None \<Rightarrow> m' = m
      | Some a \<Rightarrow> block_range a n \<and> (\<forall>x. in_range a n x \<longrightarrow> in_region m x \<and> mem_owner m x = None)
          \<and> (\<forall>x. mem_owner m' x = (if in_range a n x then Some p else mem_owner m x)))"
    using allocate_spec [of alive m p n]
    by (auto simp: mm_update_def free_run_def in_region_def RegionStart_def RegionEnd_def split: option.splits)
next
  fix m a n p
  assume "mm_inv alive m" "block_range a n" "\<forall>x. in_range a n x \<longrightarrow> mem_owner m x = Some p"
  then show "\<exists>m'. DeallocateBlock alive p a n m = Inr m'" using deallocate_spec [of alive m a n p] by auto
next
  fix m a n p m'
  assume "mm_inv alive m" "block_range a n" "DeallocateBlock alive p a n m = Inr m'"
  then show "mm_inv alive m' \<and> in_region m' = in_region m \<and> TotalSize m' = TotalSize m
      \<and> (\<forall>x. in_range a n x \<longrightarrow> mem_owner m x = Some p) \<and> (\<forall>x. mem_owner m' x = (if in_range a n x then None else mem_owner m x))"
    using deallocate_spec [of alive m a n p] in_region_update by (fastforce simp: mm_update_def split: if_splits)
next
  fix m q a n p m'
  assume "mm_inv alive m" "alive q" "block_range a n" "TransferOwnership alive p q a n m = Inr m'"
  then show "mm_inv alive m' \<and> in_region m' = in_region m \<and> TotalSize m' = TotalSize m
      \<and> (\<forall>x. in_range a n x \<longrightarrow> mem_owner m x = Some p) \<and> (\<forall>x. mem_owner m' x = (if in_range a n x then Some q else mem_owner m x))"
    using transfer_spec [of alive m a n q p] in_region_update by (fastforce simp: mm_update_def split: if_splits)
qed

section \<open>Properties\<close>

text \<open>C14: allocation is first fit and complete. It returns the lowest address at which the region has a run of bytes
  without an owner that is as long as asked for, gives exactly these bytes to the caller and keeps the invariant, the
  region and its total size; only when no such run exists it returns nothing, and then the allocator is unchanged.\<close>

theorem allocate_block:
  assumes inv: "mm_inv alive mm" and p: "alive p" and n: "0 < n"
  shows "\<exists>r mm'. AllocateBlock alive p n mm = Inr (r, mm') \<and> (case r of
      None \<Rightarrow> mm' = mm \<and> (\<forall>a. \<not> free_run mm a n)
    | Some a \<Rightarrow> free_run mm a n \<and> (\<forall>c. c < a \<longrightarrow> \<not> free_run mm c n) \<and> mm_update alive mm a n (Some p) mm')"
  by (rule allocate_spec [OF assms])

theorem allocate_block_witness:
  "(\<exists>mm'. AllocateBlock (\<lambda>p. p = 7) 7 0x3000 (MemoryManager_init 0x20000000 0x08000000) = Inr (Some 0x20000000, mm') \<and>
      mm_inv (\<lambda>p. p = 7) mm' \<and> mem_owner mm' 0x20002FFF = Some 7 \<and> mem_owner mm' 0x20003000 = None)
    \<and> AllocateBlock (\<lambda>p. p = 7) 7 0x08000001 (MemoryManager_init 0x20000000 0x08000000)
      = Inr (None, MemoryManager_init 0x20000000 0x08000000)"
proof -
  let ?al = "\<lambda>p. p = (7::nat)" and ?m = "MemoryManager_init 0x20000000 0x08000000"
  have inv: "mm_inv ?al ?m" by (rule mm_inv_init) (simp add: block_range_def)
  have init: "AllocateBlock ?al 7 0x3000 ?m = Inr (Some 0x20000000,
      \<lparr>region_start_paddr = 0x20000000, region_size_bytes = 0x08000000,
       free = [(0x20003000, \<lparr>size_bytes = 0x07FFD000, owner = None\<rparr>)], taken = [(0x20000000, \<lparr>size_bytes = 0x3000, owner = Some 7\<rparr>)]\<rparr>)"
    "AllocateBlock ?al 7 0x08000001 ?m = Inr (None, ?m)"
    by (simp_all add: AllocateBlock_def MemoryManager_init_def owner_lock_def om_erase_def)
  have "mem_owner ?m 0x20003000 = None" by (simp add: mem_owner_def MemoryManager_init_def)
  then show ?thesis using allocate_block [OF inv, of 7 "0x3000"] init
    by (auto simp: mm_update_def in_range_def)
qed

text \<open>C15: deallocation. A range can be freed by an owner exactly when every byte of it is the owner's, in whatever
  pieces it was allocated; then these bytes, and no others, become free. Otherwise the code reports that the range
  does not begin in a taken block, that it is somebody else's, or that it is too long.\<close>

theorem deallocate_block:
  assumes inv: "mm_inv alive mm" and a: "block_range a n"
  shows "(if \<forall>x. in_range a n x \<longrightarrow> mem_owner mm x = Some p
      then \<exists>mm'. DeallocateBlock alive p a n mm = Inr mm' \<and> mm_update alive mm a n None mm'
      else DeallocateBlock alive p a n mm = Inl (if mem_owner mm a = None then RuntimeError
        else if mem_owner mm a = Some p then InvalidOperation else ContractViolation))"
  by (rule deallocate_spec [OF assms])

theorem deallocate_block_witness:
  "\<exists>mm mm'. AllocateBlock (\<lambda>p. p < 3) 1 0x3000 (MemoryManager_init 0x20000000 0x08000000) = Inr (Some 0x20000000, mm) \<and>
      DeallocateBlock (\<lambda>p. p < 3) 1 0x20001000 0x1000 mm = Inr mm' \<and> mm_inv (\<lambda>p. p < 3) mm' \<and>
      mem_owner mm' 0x20000FFF = Some 1 \<and> mem_owner mm' 0x20001000 = None \<and> mem_owner mm' 0x20002000 = Some 1 \<and>
      DeallocateBlock (\<lambda>p. p < 3) 2 0x20001000 0x1000 mm = Inl ContractViolation \<and>
      DeallocateBlock (\<lambda>p. p < 3) 1 0x20001000 0x3000 mm = Inl InvalidOperation \<and>
      DeallocateBlock (\<lambda>p. p < 3) 1 0x20003000 0x1000 mm = Inl RuntimeError"
proof -
  let ?al = "\<lambda>p. p < (3::nat)" and ?m = "MemoryManager_init 0x20000000 0x08000000"
  obtain mm where mm: "AllocateBlock ?al 1 0x3000 ?m = Inr (Some 0x20000000, mm)"
    "mm = \<lparr>region_start_paddr = 0x20000000, region_size_bytes = 0x08000000,
       free = [(0x20003000, \<lparr>size_bytes = 0x07FFD000, owner = None\<rparr>)], taken = [(0x20000000, \<lparr>size_bytes = 0x3000, owner = Some 1\<rparr>)]\<rparr>"
    by (simp add: AllocateBlock_def MemoryManager_init_def owner_lock_def om_erase_def)
  have inv: "mm_inv ?al mm"
    using allocate_found [OF mm_inv_init, of "0x20000000" "0x08000000" ?al 1 "0x3000"] mm(1)
    by (auto simp: mm_update_def block_range_def MemoryManager_init_def owner_lock_def)
  have own: "mem_owner mm x = (if in_range 0x20000000 0x3000 x then Some 1 else None)" for x
    by (simp add: mm(2) mem_owner_def)
  have range: "block_range 0x20001000 0x1000" "block_range 0x20001000 0x3000" "block_range 0x20003000 0x1000" by (simp_all add: block_range_def)
  have "in_range 0x20001000 0x1000 x \<Longrightarrow> mem_owner mm x = Some 1" for x by (simp add: own in_range_def)
  then obtain mm' where mm': "DeallocateBlock ?al 1 0x20001000 0x1000 mm = Inr mm'" "mm_update ?al mm 0x20001000 0x1000 None mm'"
    using deallocate_block [OF inv range(1), of 1] by auto
  have "DeallocateBlock ?al 2 0x20001000 0x1000 mm = Inl ContractViolation"
    using deallocate_block [OF inv range(1), of 2] own [of "0x20001000"] by (auto simp: in_range_def split: if_splits)
  moreover have "DeallocateBlock ?al 1 0x20001000 0x3000 mm = Inl InvalidOperation"
    using deallocate_block [OF inv range(2), of 1] own [of "0x20003000"] own [of "0x20001000"] by (auto simp: in_range_def split: if_splits)
  moreover have "DeallocateBlock ?al 1 0x20003000 0x1000 mm = Inl RuntimeError"
    using deallocate_block [OF inv range(3), of 1] own [of "0x20003000"] by (auto simp: in_range_def split: if_splits)
  ultimately show ?thesis using mm(1) mm' own by (auto simp: mm_update_def in_range_def)
qed

text \<open>C16: transfer. A range changes hands exactly when every byte of it is the old owner's; then these bytes, and no
  others, are the new owner's. A range that is somebody else's, or that has no single owner, is refused.\<close>

theorem transfer_ownership:
  assumes inv: "mm_inv alive mm" and a: "block_range a n" and q: "alive q"
  shows "(if \<forall>x. in_range a n x \<longrightarrow> mem_owner mm x = Some p
      then \<exists>mm'. TransferOwnership alive p q a n mm = Inr mm' \<and> mm_update alive mm a n (Some q) mm'
      else TransferOwnership alive p q a n mm =
        Inl (if \<exists>r. \<forall>x. in_range a n x \<longrightarrow> mem_owner mm x = Some r then ContractViolation else RuntimeError))"
  by (rule transfer_spec [OF assms])

theorem transfer_ownership_witness:
  "\<exists>mm mm'. AllocateBlock (\<lambda>p. p < 3) 1 0x3000 (MemoryManager_init 0x20000000 0x08000000) = Inr (Some 0x20000000, mm) \<and>
      TransferOwnership (\<lambda>p. p < 3) 1 2 0x20001000 0x1000 mm = Inr mm' \<and> mm_inv (\<lambda>p. p < 3) mm' \<and>
      mem_owner mm' 0x20000FFF = Some 1 \<and> mem_owner mm' 0x20001000 = Some 2 \<and> mem_owner mm' 0x20002000 = Some 1"
proof -
  let ?al = "\<lambda>p. p < (3::nat)" and ?m = "MemoryManager_init 0x20000000 0x08000000"
  obtain mm where mm: "AllocateBlock ?al 1 0x3000 ?m = Inr (Some 0x20000000, mm)"
    "mm = \<lparr>region_start_paddr = 0x20000000, region_size_bytes = 0x08000000,
       free = [(0x20003000, \<lparr>size_bytes = 0x07FFD000, owner = None\<rparr>)], taken = [(0x20000000, \<lparr>size_bytes = 0x3000, owner = Some 1\<rparr>)]\<rparr>"
    by (simp add: AllocateBlock_def MemoryManager_init_def owner_lock_def om_erase_def)
  have inv: "mm_inv ?al mm"
    using allocate_found [OF mm_inv_init, of "0x20000000" "0x08000000" ?al 1 "0x3000"] mm(1)
    by (auto simp: mm_update_def block_range_def MemoryManager_init_def owner_lock_def)
  have own: "mem_owner mm x = (if in_range 0x20000000 0x3000 x then Some 1 else None)" for x
    by (simp add: mm(2) mem_owner_def)
  have "in_range 0x20001000 0x1000 x \<Longrightarrow> mem_owner mm x = Some 1" for x by (simp add: own in_range_def)
  then obtain mm' where "TransferOwnership ?al 1 2 0x20001000 0x1000 mm = Inr mm'" "mm_update ?al mm 0x20001000 0x1000 (Some 2) mm'"
    using transfer_ownership [OF inv, of "0x20001000" "0x1000" 2 1] by (auto simp: block_range_def)
  then show ?thesis using mm(1) own by (auto simp: mm_update_def in_range_def)
qed

text \<open>C4: over any history of requests that succeed, the allocator of a fresh region keeps its invariant: every byte
  of the region is either free or has exactly one owner, and the sizes of all blocks add up to the size of the region.\<close>

theorem allocator_history:
  assumes "block_range start_address bytes" "list_all (valid_request alive) rs"
    and "foldE (mm_serve alive) rs (MemoryManager_init start_address bytes) = Inr mm"
  shows "mm_inv alive mm \<and> TotalSize mm = bytes \<and> in_region mm = in_range start_address bytes"
proof -
  have "in_region (MemoryManager_init start_address bytes) = in_range start_address bytes"
    "TotalSize (MemoryManager_init start_address bytes) = bytes"
    by (simp_all add: in_region_def RegionStart_def RegionEnd_def MemoryManager_init_def TotalSize_def UsedMemory_def)
  then show ?thesis using mm.history_keeps [OF mm_inv_init [OF assms(1)] assms(2)] assms(3) by (simp add: mm_serve_def)
qed

theorem allocator_history_witness:
  "(case foldE (mm_serve (\<lambda>p. p < 3)) [ReqAllocate 1 0x3000, ReqAllocate 2 0x1000, ReqDeallocate 1 0x20001000 0x1000, ReqTransfer 1 2 0x20000000 0x1000]
      (MemoryManager_init 0x20000000 0x08000000) of Inl e \<Rightarrow> False
    | Inr mm \<Rightarrow> mm_inv (\<lambda>p. p < 3) mm \<and> TotalSize mm = 0x08000000 \<and> UsedMemory mm = 0x3000)"
proof -
  let ?al = "\<lambda>p. p < (3::nat)"
    and ?rs = "[ReqAllocate 1 0x3000, ReqAllocate 2 0x1000, ReqDeallocate 1 0x20001000 0x1000, ReqTransfer 1 2 0x20000000 0x1000]"
  have run: "foldE (mm_serve ?al) ?rs (MemoryManager_init 0x20000000 0x08000000) = Inr \<lparr>region_start_paddr = 0x20000000, region_size_bytes = 0x08000000,
      free = [(0x20001000, \<lparr>size_bytes = 0x1000, owner = None\<rparr>), (0x20004000, \<lparr>size_bytes = 0x07FFC000, owner = None\<rparr>)],
      taken = [(0x20000000, \<lparr>size_bytes = 0x1000, owner = Some 2\<rparr>), (0x20002000, \<lparr>size_bytes = 0x1000, owner = Some 1\<rparr>),
        (0x20003000, \<lparr>size_bytes = 0x1000, owner = Some 2\<rparr>)]\<rparr>"
    by (simp add: mm_serve_def serve_request_def AllocateBlock_def DeallocateBlock_def TransferOwnership_def keep_remainders_def
      MemoryManager_init_def owner_lock_def om_erase_def)
  show ?thesis using allocator_history [OF _ _ run] unfolding run
    by (simp add: block_range_def valid_request_def UsedMemory_def)
qed

text \<open>What was allocated can be given back, which restores whose every byte is.\<close>

theorem allocate_then_deallocate:
  assumes "mm_inv alive mm" "alive p" "0 < n" "AllocateBlock alive p n mm = Inr (Some a, mm1)"
  shows "\<exists>mm2. DeallocateBlock alive p a n mm1 = Inr mm2 \<and> mm_inv alive mm2 \<and> mem_owner mm2 = mem_owner mm \<and> TotalSize mm2 = TotalSize mm"
  using mm.allocate_deallocate [OF assms] .

theorem allocate_then_deallocate_witness:
  "\<exists>mm1 mm2. AllocateBlock (\<lambda>p. p = 7) 7 0x3000 (MemoryManager_init 0x20000000 0x08000000) = Inr (Some 0x20000000, mm1) \<and>
    DeallocateBlock (\<lambda>p. p = 7) 7 0x20000000 0x3000 mm1 = Inr mm2 \<and> mm_inv (\<lambda>p. p = 7) mm2"
proof -
  let ?al = "\<lambda>p. p = (7::nat)" and ?m = "MemoryManager_init 0x20000000 0x08000000"
  have inv: "mm_inv ?al ?m" by (rule mm_inv_init) (simp add: block_range_def)
  obtain mm1 where mm1: "AllocateBlock ?al 7 0x3000 ?m = Inr (Some 0x20000000, mm1)"
    by (simp add: AllocateBlock_def MemoryManager_init_def owner_lock_def om_erase_def)
  then show ?thesis using allocate_then_deallocate [OF inv _ _ mm1] by auto
qed

end
