(* ===== verification/KernelMemoryCorrect.thy ===== *)
theory KernelMemoryCorrect
  imports KernelIpcCorrect MemoryManagerCorrect
begin

text \<open>
  The allocation of memory by a process, which joins the allocator of a memory region, the search for addresses and the
  mapping of an address space; and the choice of threads by an address arbiter.
\<close>

unbundle bit_operations_syntax

text \<open>The search from an aligned address, as \<open>find_for_buffer\<close> for any bounds.\<close>

lemma find_aligned:
  assumes inv: "vm_inv p" and n: "4096 dvd uint n" "0 < uint n" and c: "4096 dvd uint c" "uint c + uint n < 4294967296"
    and room: "\<forall>(a, b) \<in> set (virtual_memory p). uint a + uint (vsize b) + uint n < 4294967296"
    and found: "FindAvailableVirtualMemory n c e p = Some v"
  shows "valid_range v n" "\<forall>x. in_range v n x \<longrightarrow> vm_lookup (virtual_memory p) x = None" "uint c \<le> uint v" "uint v + uint n \<le> uint e"
proof -
  have v: "v = move_candidate n c (virtual_memory p)" "\<not> e < v + n" using found by (auto simp: FindAvailableVirtualMemory_def Let_def split: if_splits)
  note spec = move_candidate_spec [OF vm_inv_blocks [OF inv] n(2) room c(2), folded v(1)]
  have "4096 dvd uint v" unfolding v by (rule move_candidate_aligned) (use inv c in \<open>auto simp: vm_inv_def vranges_def\<close>)
  then show valid: "valid_range v n" using n spec by (simp add: valid_range_def)
  show "\<forall>x. in_range v n x \<longrightarrow> vm_lookup (virtual_memory p) x = None" using spec apart_lookup [OF vm_inv_blocks [OF inv] valid_block [OF valid]] by simp
  show "uint c \<le> uint v" using spec by simp
  have "uint (v + n) = uint v + uint n" using spec by (simp add: uint_add_u32)
  then show "uint v + uint n \<le> uint e" using v(2) by (simp add: word_less_def)
qed

lemma find_free_member: "find_free alive n m = Inr (Some (a, b)) \<Longrightarrow> (a, b) \<in> set m"
  by (induction alive n m rule: find_free.induct) (auto split: if_splits)

lemma allocated_at_free: "AllocateBlock alive p n mm = Inr (Some a, mm') \<Longrightarrow> \<exists>b. (a, b) \<in> set (free mm)"
  by (auto simp: AllocateBlock_def bindE_eq_Inr Let_def dest!: find_free_member split: option.splits)

lemma range_inside:
  assumes "block_range a n" "\<forall>x. in_range a n x \<longrightarrow> in_range b m x"
  shows "uint b \<le> uint a" "uint a + uint n \<le> uint b + uint m"
proof -
  have n: "0 < uint n" "uint a + uint n \<le> 4294967296" using assms(1) by (auto simp: block_range_def)
  have "in_range a n a" using n by (simp add: in_range_def)
  then show "uint b \<le> uint a" using assms(2) by (auto simp: in_range_def)
  have "uint (n - 1) = uint n - 1" using n by (simp add: uint_sub_u32)
  then have "uint (a + (n - 1)) = uint a + uint n - 1" using n by (subst uint_add_u32) simp_all
  moreover from this have "in_range b m (a + (n - 1))" using n assms(2) [rule_format, of "a + (n - 1)"] by (simp add: in_range_def)
  ultimately show "uint a + uint n \<le> uint b + uint m" by (simp add: in_range_def)
qed

text \<open>C9: Memory a process allocates. The physical memory it gets belonged to nobody and now belongs to it; the addresses at
  which it finds it were not in use and resolve to that memory now, and all others resolve as before. They begin at the
  address it asked for; if it asked for none, linear memory is found at its distance from the start of main memory, so that
  the two addresses determine each other, and other memory lies in the heap. Sizes and addresses are multiples of pages.\<close>

theorem heap_allocation:
  assumes result: "control_allocate source pid addr0 n operation perms s = Inr (r, v, s')"
    and region: "memory_region_of operation pid s = Inr i" "i < length (memory_regions s)" "mm_inv (owner_exists s) (memory_regions s ! i)" "owner_exists s pid"
    and pages: "\<forall>(a, b) \<in> set (free (memory_regions s ! i)). 4096 dvd uint a"
    and ram: "0x20000000 \<le> uint (region_start_paddr (memory_regions s ! i))" 
      "uint (region_start_paddr (memory_regions s ! i)) + uint (region_size_bytes (memory_regions s ! i)) \<le> 0x30000000"
    and space: "vm_inv (spaces s pid)" "4096 dvd uint (linear_base_addr s pid)" "uint (linear_base_addr s pid) \<le> 0x30000000"
    and n: "4096 dvd uint n" "0 < uint n" and addr0: "4096 dvd uint addr0" "uint addr0 + uint n < 4294967296"
    and room: "\<forall>(a, b) \<in> set (virtual_memory (spaces s pid)). uint a + uint (vsize b) + uint n < 4294967296"
  shows "\<exists>paddr. (\<forall>x. in_range paddr n x \<longrightarrow> mem_owner (memory_regions s ! i) x = None \<and> mem_owner (memory_regions s' ! i) x = Some pid)
    \<and> (\<forall>x. in_range v n x \<longrightarrow> ResolveVirtualAddr x (spaces s pid) = None \<and> ResolveVirtualAddr x (spaces s' pid) = Some (paddr + (x - v)))
    \<and> (\<forall>x. \<not> in_range v n x \<longrightarrow> ResolveVirtualAddr x (spaces s' pid) = ResolveVirtualAddr x (spaces s pid))
    \<and> (if addr0 \<noteq> 0 then v = addr0
       else if operation AND 0x10000 \<noteq> 0 then v = linear_base_addr s pid + (paddr - 0x20000000)
       else 0x08000000 \<le> uint v \<and> uint v + uint n \<le> 0x10000000)"
proof -
  let ?mm = "memory_regions s ! i"
  have "0 < n" using n(2) by (simp add: word_less_def)
  obtain mm paddr where a: "AllocateBlock (owner_exists s) pid n ?mm = Inr (Some paddr, mm)" "free_run ?mm paddr n" "mm_update (owner_exists s) ?mm paddr n (Some pid) mm"
    using allocate_spec [OF region(3,4) \<open>0 < n\<close>] result by (auto simp: control_allocate_def region(1) allocate_in_def split: option.splits)
  have run: "block_range paddr n" "\<forall>x. in_range paddr n x \<longrightarrow> in_range (region_start_paddr ?mm) (region_size_bytes ?mm) x \<and> mem_owner ?mm x = None"
    using a(2) by (simp_all add: free_run_def)
  have inside: "uint (region_start_paddr ?mm) \<le> uint paddr" "uint paddr + uint n \<le> uint (region_start_paddr ?mm) + uint (region_size_bytes ?mm)"
    using range_inside [OF run(1)] run(2) by blast+
  have "4096 dvd uint paddr" using allocated_at_free [OF a(1)] pages by auto
  then have phys: "valid_range paddr n" using n run(1) by (simp add: valid_range_def block_range_def)
  define s1 where "s1 = put_region i mm s"
  define c where "c = (if addr0 \<noteq> 0 then addr0 else if operation AND 0x10000 \<noteq> 0 then linear_base_addr s pid + (paddr - 0x20000000) else 0x08000000)"
  define e where "e = c + (if addr0 \<noteq> 0 \<or> operation AND 0x10000 \<noteq> 0 then n else 0x08000000)"
  have s1: "spaces s1 = spaces s" "linear_base_addr s1 = linear_base_addr s" "memory_regions s1 ! i = mm"
    using region(2) by (simp_all add: s1_def put_region_def)
  have "uint (paddr - 0x20000000) = uint paddr - 0x20000000" using inside(1) ram(1) by (simp add: uint_sub_u32)
  then have lin: "uint (linear_base_addr s pid + (paddr - 0x20000000)) = uint (linear_base_addr s pid) + (uint paddr - 0x20000000)"
    using inside ram space(3) n(2) by (subst uint_add_u32) simp_all
  have c: "4096 dvd uint c" "uint c + uint n < 4294967296"
    using lin \<open>4096 dvd uint paddr\<close> space(2,3) inside ram addr0 unfolding c_def by (auto simp: dvd_diff)
  obtain p where f: "FindAvailableVirtualMemory n c e (spaces s pid) = Some v" "MapVirtualMemory paddr n v perms (spaces s pid) = Inr (True, p)" "s' = put_space pid p s1\<lparr>kern := kern s'\<rparr>"
    using result a(1) by (auto simp: control_allocate_def region(1) allocate_in_def c_def e_def s1_def [symmetric] s1(1,2) Let_def bindE_eq_Inr map_space_def on_kernel_def
        split: option.splits if_splits)
  note find = find_aligned [OF space(1) n c room f(1)]
  from map_spec [OF space(1) find(1) phys, of perms] find(2) f(2) have p: "vm_inv p"
    "vm_lookup (virtual_memory p) x = (if in_range v n x then Some (paddr + (x - v), perms) else vm_lookup (virtual_memory (spaces s pid)) x)" for x
    by auto
  have s': "memory_regions s' ! i = mm" "spaces s' pid = p" using s1(3) by (subst f(3), simp add: put_space_def)+
  have "v = c" if "addr0 \<noteq> 0 \<or> operation AND 0x10000 \<noteq> 0"
  proof -
    have "uint e = uint c + uint n" using that c(2) by (simp add: e_def uint_add_u32)
    then show ?thesis using find(3,4) by (simp add: word_uint_eq_iff)
  qed
  moreover have "0x08000000 \<le> uint v \<and> uint v + uint n \<le> 0x10000000" if "addr0 = 0" "operation AND 0x10000 = 0"
    using that find(3,4) by (simp add: c_def e_def)
  ultimately show ?thesis using a(3) run(2) find(2) by (intro exI [of _ paddr])
      (auto simp: s' p(2) resolve_lookup [OF p(1)] resolve_lookup [OF space(1)] mm_update_def c_def)
qed

definition heap_demo :: "unit system" where
  "heap_demo = (two_processes (new_process True) [])\<lparr>memory_regions := [MemoryManager_init 0x20000000 0x04000000],
    kern := put_object 100 (ProcessObject \<lparr>process_threads = [1], process_status = Running\<rparr>) two_threads\<rparr>"

lemma heap_demo_result: "\<exists>r s'. control_allocate 1 100 0 0x3000 0x10003 3 heap_demo = Inr (r, 0x14000000, s')"
proof -
  have region: "memory_region_of 0x10003 100 heap_demo = Inr 0" by code_simp
  obtain mm where mm: "allocate_in 0 100 0x3000 heap_demo = Inr (Some 0x20000000, put_region 0 mm heap_demo)"
    by (simp add: allocate_in_def heap_demo_def AllocateBlock_def MemoryManager_init_def owner_lock_def)
  have space: "spaces (put_region 0 mm heap_demo) 100 = new_process True" "linear_base_addr (put_region 0 mm heap_demo) 100 = 0x14000000"
    by (simp_all add: put_region_def heap_demo_def two_processes_def)
  have found: "FindAvailableVirtualMemory 0x3000 0x14000000 0x14003000 (new_process True) = Some 0x14000000" by code_simp
  have "valid_range 0x14000000 0x3000" "valid_range 0x20000000 0x3000" by (simp_all add: valid_range_def)
  from map_spec [OF vm_inv_new this, of True 3] obtain p where "MapVirtualMemory 0x20000000 0x3000 0x14000000 3 (new_process True) = Inr (True, p)"
    by auto
  then have map: "map_space 100 0x20000000 0x3000 0x14000000 3 (put_region 0 mm heap_demo) = Inr (True, put_space 100 p (put_region 0 mm heap_demo))"
    by (simp add: map_space_def space)
  have "(case Reschedule 1 (kern heap_demo) of Inr _ \<Rightarrow> True | Inl _ \<Rightarrow> False)" by code_simp
  then obtain k where "Reschedule 1 (kern heap_demo) = Inr k" by (auto split: sum.splits)
  then have "on_kernel (Reschedule 1) (put_space 100 p (put_region 0 mm heap_demo)) = Inr ((put_space 100 p (put_region 0 mm heap_demo))\<lparr>kern := k\<rparr>)"
    by (simp add: on_kernel_def put_space_def put_region_def)
  then show ?thesis by (simp add: control_allocate_def region mm space found map)
qed

theorem heap_allocation_witness:
  "\<exists>r s'. control_allocate 1 100 0 0x3000 0x10003 3 heap_demo = Inr (r, 0x14000000, s')
    \<and> mem_owner (memory_regions s' ! 0) 0x20002fff = Some 100 \<and> ResolveVirtualAddr 0x14002345 (spaces s' 100) = Some 0x20002345"
proof -
  obtain r s' where r: "control_allocate 1 100 0 0x3000 0x10003 3 heap_demo = Inr (r, 0x14000000, s')" using heap_demo_result by blast
  have region: "memory_region_of 0x10003 100 heap_demo = Inr 0" "owner_exists heap_demo 100" by code_simp+
  have demo: "memory_regions heap_demo = [MemoryManager_init 0x20000000 0x04000000]" "spaces heap_demo 100 = new_process True" "linear_base_addr heap_demo 100 = 0x14000000"
    by (simp_all add: heap_demo_def two_processes_def)
  have regions: "0 < length (memory_regions heap_demo)" "mm_inv (owner_exists heap_demo) (memory_regions heap_demo ! 0)"
    unfolding demo by (simp, simp only: nth_Cons_0, rule mm_inv_init) (simp add: block_range_def)
  have init: "\<forall>(a, b) \<in> set (free (memory_regions heap_demo ! 0)). 4096 dvd uint a" "0x20000000 \<le> uint (region_start_paddr (memory_regions heap_demo ! 0))"
    "uint (region_start_paddr (memory_regions heap_demo ! 0)) + uint (region_size_bytes (memory_regions heap_demo ! 0)) \<le> 0x30000000"
    unfolding demo by (simp_all add: MemoryManager_init_def)
  have space: "vm_inv (spaces heap_demo 100)" "4096 dvd uint (linear_base_addr heap_demo 100)" "uint (linear_base_addr heap_demo 100) \<le> 0x30000000"
    "4096 dvd uint (0x3000 :: u32)" "0 < uint (0x3000 :: u32)"
    "\<forall>(a, b) \<in> set (virtual_memory (spaces heap_demo 100)). uint a + uint (vsize b) + uint (0x3000 :: u32) < 4294967296"
    unfolding demo by (rule vm_inv_new) (simp_all add: new_process_def)
  have zero: "4096 dvd uint (0 :: u32)" "uint (0 :: u32) + uint (0x3000 :: u32) < 4294967296" by simp_all
  obtain paddr where a: "\<forall>x. in_range paddr 0x3000 x \<longrightarrow> mem_owner (memory_regions heap_demo ! 0) x = None \<and> mem_owner (memory_regions s' ! 0) x = Some 100"
    "\<forall>x. in_range 0x14000000 0x3000 x \<longrightarrow> ResolveVirtualAddr x (spaces heap_demo 100) = None \<and> ResolveVirtualAddr x (spaces s' 100) = Some (paddr + (x - 0x14000000))"
    "if (0 :: u32) \<noteq> 0 then 0x14000000 = (0 :: u32) else if (0x10003 :: u32) AND 0x10000 \<noteq> 0 then 0x14000000 = linear_base_addr heap_demo 100 + (paddr - 0x20000000)
      else 0x08000000 \<le> uint (0x14000000 :: u32) \<and> uint (0x14000000 :: u32) + uint (0x3000 :: u32) \<le> 0x10000000"
    using heap_allocation [OF r region(1) regions region(2) init space(1-5) zero space(6)] by (elim exE conjE)
  have "(0x10003 :: u32) AND 0x10000 \<noteq> 0" by simp
  from a(3) [unfolded if_P [OF this]] have "0x14000000 = 0x14000000 + (paddr - 0x20000000)" unfolding demo by simp
  then have "paddr = 0x20000000" by (simp only: add_cancel_right_right right_minus_eq)
  then show ?thesis using r a(1) [rule_format, of "0x20002fff"] a(2) [rule_format, of "0x14002345"] by (simp add: in_range_def)
qed

text \<open>The arbiter wakes the wrong thread first: of two threads that wait at the same address, a signal for one wakes the one
  with the higher number, which is the lower priority.\<close>

theorem arbitration_wakes_lower_priority:
  "(let waiting = \<lambda>prio. \<lparr>parent_process = 100, status = WaitingForArbitration, priority = prio, timeout_at = - 1, arbitration_address = 0x00100000,
      promised_result = 0, wait_list = [], wait_for_all = False, wake_index = 0, woken_object = None\<rparr>;
      k = two_threads\<lparr>threads := [1 \<mapsto> waiting 0x18, 2 \<mapsto> waiting 0x30], ready_queue := []\<rparr>
    in case arbitrate_signal 0x00100000 1 k of Inr k' \<Rightarrow> ready_queue k' = [2] \<and> waiting_for_arbitration 0x00100000 k' 1 | Inl _ \<Rightarrow> False)"
  by code_simp

end
