(* ===== verification/ArmState.thy ===== *)
theory ArmState
  imports BitFields
begin

text \<open>
  The architectural state of the emulated ARM11 core and its instruction formats (\<open>arm.h\<close>):
  processor modes, program status registers with their mode translation, the register file with
  the banked copies, CP15, and the bit fields of ARM and Thumb encodings.

  The arrays \<open>std::array<T, n>\<close> are functions on indices; the accessors below stay inside the
  arrays' bounds because register numbers are four-bit fields (\<open>idx_less_16\<close>). The floating-point
  register union is kept as its raw 32-bit cells: \<open>fpreg[i]\<close> is cell \<open>i\<close>, \<open>dpreg_raw[i]\<close> is the
  pair of cells \<open>2 * i\<close> (low) and \<open>2 * i + 1\<close> (high).
\<close>

section \<open>Processor modes\<close>

text \<open>
  A field of type \<open>InternalProcessorMode\<close> is five bits wide; the class invariant of
  \<open>ProgramStatusRegister\<close> ("guaranteed to be one of the values defined") excludes the codes above 7,
  which are read as \<open>Invalid\<close> here.
\<close>

datatype InternalProcessorMode =
  User | FIQ | IRQ | Supervisor | Abort | Undefined | System | Invalid

fun imode_code :: "InternalProcessorMode \<Rightarrow> u32" where
  "imode_code User = 0"
| "imode_code FIQ = 1"
| "imode_code IRQ = 2"
| "imode_code Supervisor = 3"
| "imode_code Abort = 4"
| "imode_code Undefined = 5"
| "imode_code System = 6"
| "imode_code Invalid = 7"

definition imode_of_code :: "u32 \<Rightarrow> InternalProcessorMode" where
  "imode_of_code c =
    (if c = 0 then User else if c = 1 then FIQ else if c = 2 then IRQ else if c = 3 then Supervisor
     else if c = 4 then Abort else if c = 5 then Undefined else if c = 6 then System else Invalid)"

text \<open>\<open>ProcessorMode\<close> values are given by their architectural codes.\<close>

definition MakeInternal :: "u32 \<Rightarrow> InternalProcessorMode" where
  "MakeInternal mode =
    (if mode = 0b10000 then User
     else if mode = 0b10001 then FIQ
     else if mode = 0b10010 then IRQ
     else if mode = 0b10011 then Supervisor
     else if mode = 0b10111 then Abort
     else if mode = 0b11011 then Undefined
     else if mode = 0b11111 then System
     else Invalid)"

fun MakeNative :: "InternalProcessorMode \<Rightarrow> u32 res" where
  "MakeNative User = Inr 0b10000"
| "MakeNative FIQ = Inr 0b10001"
| "MakeNative IRQ = Inr 0b10010"
| "MakeNative Supervisor = Inr 0b10011"
| "MakeNative Abort = Inr 0b10111"
| "MakeNative Undefined = Inr 0b11011"
| "MakeNative System = Inr 0b11111"
| "MakeNative Invalid = Inl InvalidMode"

section \<open>Program status registers\<close>

type_synonym psr = u32

definition psr_mode :: "psr \<Rightarrow> InternalProcessorMode" where
  "psr_mode w = imode_of_code (BitField_Value 0 5 w)"
definition psr_thumb :: "psr \<Rightarrow> bool" where [psr_simps]: "psr_thumb w = BitField_ToBool 5 w"
definition psr_F :: "psr \<Rightarrow> bool" where [psr_simps]: "psr_F w = BitField_ToBool 6 w"
definition psr_I :: "psr \<Rightarrow> bool" where [psr_simps]: "psr_I w = BitField_ToBool 7 w"
definition psr_A :: "psr \<Rightarrow> bool" where [psr_simps]: "psr_A w = BitField_ToBool 8 w"
definition psr_ge0 :: "psr \<Rightarrow> bool" where [psr_simps]: "psr_ge0 w = BitField_ToBool 16 w"
definition psr_ge1 :: "psr \<Rightarrow> bool" where [psr_simps]: "psr_ge1 w = BitField_ToBool 17 w"
definition psr_ge2 :: "psr \<Rightarrow> bool" where [psr_simps]: "psr_ge2 w = BitField_ToBool 18 w"
definition psr_ge3 :: "psr \<Rightarrow> bool" where [psr_simps]: "psr_ge3 w = BitField_ToBool 19 w"
definition psr_q :: "psr \<Rightarrow> bool" where [psr_simps]: "psr_q w = BitField_ToBool 27 w"
definition psr_overflow :: "psr \<Rightarrow> bool" where [psr_simps]: "psr_overflow w = BitField_ToBool 28 w"
definition psr_carry :: "psr \<Rightarrow> bool" where [psr_simps]: "psr_carry w = BitField_ToBool 29 w"
definition psr_zero :: "psr \<Rightarrow> bool" where [psr_simps]: "psr_zero w = BitField_ToBool 30 w"
definition psr_neg :: "psr \<Rightarrow> bool" where [psr_simps]: "psr_neg w = BitField_ToBool 31 w"

definition psr_set_mode :: "InternalProcessorMode \<Rightarrow> psr \<Rightarrow> psr" where
  "psr_set_mode m w = BitField_Assign 0 5 (imode_code m) w"

definition psr_InPrivilegedMode :: "psr \<Rightarrow> bool" where
  "psr_InPrivilegedMode w \<longleftrightarrow> psr_mode w \<noteq> User"

definition FromNativeRaw32 :: "u32 \<Rightarrow> psr" where
  "FromNativeRaw32 val = psr_set_mode (MakeInternal (BitField_Value 0 5 val)) val"

definition ToNativeRaw32 :: "psr \<Rightarrow> u32 res" where
  "ToNativeRaw32 w = bindE (MakeNative (psr_mode w)) (\<lambda>m. Inr (BitField_Assign 0 5 m w))"

section \<open>The state of the core\<close>

record arm_state =
  reg :: "nat \<Rightarrow> u32"
  fpreg :: "nat \<Rightarrow> u32"
  fpscr :: u32
  cpsr :: psr
  spsr :: "InternalProcessorMode \<Rightarrow> psr"
  banked_regs_user :: "nat \<Rightarrow> u32"
  banked_regs_fiq :: "nat \<Rightarrow> u32"
  banked_regs_svc :: "nat \<Rightarrow> u32"
  banked_regs_abt :: "nat \<Rightarrow> u32"
  banked_regs_irq :: "nat \<Rightarrow> u32"
  banked_regs_und :: "nat \<Rightarrow> u32"
  cp15_raw :: "nat \<Rightarrow> u32"
  cycle_count :: u64

definition InPrivilegedMode :: "arm_state \<Rightarrow> bool" where
  "InPrivilegedMode s = psr_InPrivilegedMode (cpsr s)"

definition HasSPSR :: "arm_state \<Rightarrow> bool" where
  "HasSPSR s \<longleftrightarrow> psr_mode (cpsr s) \<noteq> User \<and> psr_mode (cpsr s) \<noteq> System"

text \<open>\<open>spsr[static_cast<uint32_t>(mode)]\<close>: the array has no entry for \<open>Invalid\<close>.\<close>

definition GetSPSR :: "arm_state \<Rightarrow> InternalProcessorMode \<Rightarrow> psr res" where
  "GetSPSR s mode = (if mode = Invalid then Inl UndefinedBehaviour else Inr (spsr s mode))"

text \<open>\<open>std::copy\<close> between the register file and a bank.\<close>

definition bank_out :: "nat \<Rightarrow> nat \<Rightarrow> (nat \<Rightarrow> u32) \<Rightarrow> (nat \<Rightarrow> u32) \<Rightarrow> (nat \<Rightarrow> u32)" where
  "bank_out first n regs bank = (\<lambda>i. if i < n then regs (first + i) else bank i)"

definition bank_in :: "nat \<Rightarrow> nat \<Rightarrow> (nat \<Rightarrow> u32) \<Rightarrow> (nat \<Rightarrow> u32) \<Rightarrow> (nat \<Rightarrow> u32)" where
  "bank_in first n bank regs = (\<lambda>i. if first \<le> i \<and> i < first + n then bank (i - first) else regs i)"

text \<open>
  \<open>ReplaceCPSR\<close>: the first \<open>switch\<close> banks the current registers out, the second one banks registers
  in. Both switch on \<open>cpsr.mode\<close>, which is not assigned in between, and the banks of three (eight)
  elements are copied as a whole.
\<close>

definition ReplaceCPSR_bank_out :: "arm_state \<Rightarrow> arm_state res" where
  "ReplaceCPSR_bank_out s = (case psr_mode (cpsr s) of
      User \<Rightarrow> Inr (s\<lparr>banked_regs_user := bank_out 8 7 (reg s) (banked_regs_user s)\<rparr>)
    | System \<Rightarrow> Inr (s\<lparr>banked_regs_user := bank_out 8 7 (reg s) (banked_regs_user s)\<rparr>)
    | FIQ \<Rightarrow> Inr (s\<lparr>banked_regs_fiq := bank_out 8 7 (reg s) (banked_regs_fiq s)\<rparr>)
    | IRQ \<Rightarrow> Inr (s\<lparr>banked_regs_irq := bank_out 13 2 (reg s) (banked_regs_irq s)\<rparr>)
    | Supervisor \<Rightarrow> Inr (s\<lparr>banked_regs_svc := bank_out 13 2 (reg s) (banked_regs_svc s)\<rparr>)
    | Abort \<Rightarrow> Inr (s\<lparr>banked_regs_abt := bank_out 13 2 (reg s) (banked_regs_abt s)\<rparr>)
    | Undefined \<Rightarrow> Inr (s\<lparr>banked_regs_und := bank_out 13 2 (reg s) (banked_regs_und s)\<rparr>)
    | Invalid \<Rightarrow> Inl ContractViolation)"

definition ReplaceCPSR_bank_in :: "arm_state \<Rightarrow> arm_state res" where
  "ReplaceCPSR_bank_in s = (case psr_mode (cpsr s) of
      User \<Rightarrow> Inr (s\<lparr>reg := bank_in 8 7 (banked_regs_user s) (reg s)\<rparr>)
    | System \<Rightarrow> Inr (s\<lparr>reg := bank_in 8 7 (banked_regs_user s) (reg s)\<rparr>)
    | FIQ \<Rightarrow> Inr (s\<lparr>reg := bank_in 8 8 (banked_regs_fiq s) (reg s)\<rparr>)
    | IRQ \<Rightarrow> Inr (s\<lparr>reg := bank_in 13 3 (banked_regs_irq s) (reg s)\<rparr>)
    | Supervisor \<Rightarrow> Inr (s\<lparr>reg := bank_in 13 3 (banked_regs_svc s) (reg s)\<rparr>)
    | Abort \<Rightarrow> Inr (s\<lparr>reg := bank_in 13 3 (banked_regs_abt s) (reg s)\<rparr>)
    | Undefined \<Rightarrow> Inr (s\<lparr>reg := bank_in 13 3 (banked_regs_und s) (reg s)\<rparr>)
    | Invalid \<Rightarrow> Inl ContractViolation)"

definition ReplaceCPSR :: "psr \<Rightarrow> arm_state \<Rightarrow> arm_state res" where
  "ReplaceCPSR w s =
    (if psr_mode (cpsr s) = psr_mode w then Inr (s\<lparr>cpsr := w\<rparr>)
     else bindE (ReplaceCPSR_bank_out s) ReplaceCPSR_bank_in)"

abbreviation LR_idx :: nat where "LR_idx \<equiv> 14"
abbreviation PC_idx :: nat where "PC_idx \<equiv> 15"

definition LR :: "arm_state \<Rightarrow> u32" where [handler_defs]: "LR s = reg s 14"
definition PC :: "arm_state \<Rightarrow> u32" where [handler_defs]: "PC s = reg s 15"

definition FetchReg :: "arm_state \<Rightarrow> nat \<Rightarrow> u32" where
  "FetchReg s index = (if index = 15 then PC s + 8 else reg s index)"

text \<open>The slots of the CP15 union.\<close>

definition cp15_Control :: nat where "cp15_Control = 0"
definition cp15_AuxiliaryControl :: nat where "cp15_AuxiliaryControl = 1"
definition cp15_CPUId :: nat where "cp15_CPUId = 2"
definition cp15_ThreadLocalStorage :: nat where "cp15_ThreadLocalStorage = 5"

end
