(* ===== verification/ArmInstr.thy ===== *)
theory ArmInstr
  imports ArmState
begin

text \<open>
  The formats of ARM and Thumb instructions (\<open>union ARMInstr\<close>, \<open>union ThumbInstr\<close> of \<open>arm.h\<close>): one
  accessor per bit field. One-bit fields are read as \<open>bool\<close>, register numbers as \<open>nat\<close>, everything
  else as the 32-bit (16-bit) value the field has in C++. The fields that both unions name alike
  carry the prefix \<open>t_\<close> for Thumb; \<open>instr_R\<close> is the field \<open>R\<close>.
\<close>

type_synonym ARMInstr = u32
type_synonym ThumbInstr = u16

section \<open>ARM instructions\<close>

definition cond :: "ARMInstr \<Rightarrow> u32" where [arm_fields]: "cond i = BitField_Value 28 4 i"
definition opcode_prim :: "ARMInstr \<Rightarrow> u32" where [arm_fields]: "opcode_prim i = BitField_Value 24 4 i"
definition identifier_4_23 :: "ARMInstr \<Rightarrow> u32" where [arm_fields]: "identifier_4_23 i = BitField_Value 4 20 i"
definition branch_target :: "ARMInstr \<Rightarrow> u32" where [arm_fields]: "branch_target i = BitField_ValueS 0 24 i"
definition immed_8 :: "ARMInstr \<Rightarrow> u32" where [arm_fields]: "immed_8 i = BitField_Value 0 8 i"
definition instr_R :: "ARMInstr \<Rightarrow> bool" where [arm_fields]: "instr_R i = BitField_ToBool 22 i"
definition msr_I :: "ARMInstr \<Rightarrow> bool" where [arm_fields]: "msr_I i = BitField_ToBool 25 i"
definition msr_field_mask :: "ARMInstr \<Rightarrow> u32" where [arm_fields]: "msr_field_mask i = BitField_Value 16 4 i"
definition addr1_shift_imm :: "ARMInstr \<Rightarrow> u32" where [arm_fields]: "addr1_shift_imm i = BitField_Value 7 5 i"
definition rotate_imm :: "ARMInstr \<Rightarrow> u32" where [arm_fields]: "rotate_imm i = BitField_Value 8 4 i"
definition addr1_S :: "ARMInstr \<Rightarrow> bool" where [arm_fields]: "addr1_S i = BitField_ToBool 20 i"
definition addr3_immed_lo :: "ARMInstr \<Rightarrow> u32" where [arm_fields]: "addr3_immed_lo i = BitField_Value 0 4 i"
definition addr3_immed_hi :: "ARMInstr \<Rightarrow> u32" where [arm_fields]: "addr3_immed_hi i = BitField_Value 8 4 i"
definition addr4_registers :: "ARMInstr \<Rightarrow> u32" where [arm_fields]: "addr4_registers i = BitField_Value 0 16 i"
definition addr4_L :: "ARMInstr \<Rightarrow> bool" where [arm_fields]: "addr4_L i = BitField_ToBool 20 i"
definition addr4_W :: "ARMInstr \<Rightarrow> bool" where [arm_fields]: "addr4_W i = BitField_ToBool 21 i"
definition addr4_S :: "ARMInstr \<Rightarrow> bool" where [arm_fields]: "addr4_S i = BitField_ToBool 22 i"
definition addr4_U :: "ARMInstr \<Rightarrow> bool" where [arm_fields]: "addr4_U i = BitField_ToBool 23 i"
definition addr4_P :: "ARMInstr \<Rightarrow> bool" where [arm_fields]: "addr4_P i = BitField_ToBool 24 i"
definition ldr_W :: "ARMInstr \<Rightarrow> bool" where [arm_fields]: "ldr_W i = BitField_ToBool 21 i"
definition ldr_U :: "ARMInstr \<Rightarrow> bool" where [arm_fields]: "ldr_U i = BitField_ToBool 23 i"
definition ldr_P :: "ARMInstr \<Rightarrow> bool" where [arm_fields]: "ldr_P i = BitField_ToBool 24 i"
definition ldr_I :: "ARMInstr \<Rightarrow> bool" where [arm_fields]: "ldr_I i = BitField_ToBool 25 i"
definition addr5_offset :: "ARMInstr \<Rightarrow> u32" where [arm_fields]: "addr5_offset i = BitField_Value 0 8 i"
definition addr5_D :: "ARMInstr \<Rightarrow> bool" where [arm_fields]: "addr5_D i = BitField_ToBool 22 i"
definition ldr_shift_imm :: "ARMInstr \<Rightarrow> u32" where [arm_fields]: "ldr_shift_imm i = BitField_Value 7 5 i"
definition ldr_offset :: "ARMInstr \<Rightarrow> u32" where [arm_fields]: "ldr_offset i = BitField_Value 0 12 i"
definition idx_rm :: "ARMInstr \<Rightarrow> nat" where [arm_fields]: "idx_rm i = unat (BitField_Value 0 4 i)"
definition idx_rs :: "ARMInstr \<Rightarrow> nat" where [arm_fields]: "idx_rs i = unat (BitField_Value 8 4 i)"
definition idx_rd :: "ARMInstr \<Rightarrow> nat" where [arm_fields]: "idx_rd i = unat (BitField_Value 12 4 i)"
definition idx_rn :: "ARMInstr \<Rightarrow> nat" where [arm_fields]: "idx_rn i = unat (BitField_Value 16 4 i)"
definition sat_imm :: "ARMInstr \<Rightarrow> nat" where [arm_fields]: "sat_imm i = unat (BitField_Value 16 5 i)"
definition cps_F :: "ARMInstr \<Rightarrow> bool" where [arm_fields]: "cps_F i = BitField_ToBool 6 i"
definition cps_I :: "ARMInstr \<Rightarrow> bool" where [arm_fields]: "cps_I i = BitField_ToBool 7 i"
definition cps_A :: "ARMInstr \<Rightarrow> bool" where [arm_fields]: "cps_A i = BitField_ToBool 8 i"
definition cps_imod_enable :: "ARMInstr \<Rightarrow> bool" where [arm_fields]: "cps_imod_enable i = BitField_ToBool 19 i"
definition cps_imod_value :: "ARMInstr \<Rightarrow> bool" where [arm_fields]: "cps_imod_value i = BitField_ToBool 18 i"
definition cps_mmod :: "ARMInstr \<Rightarrow> bool" where [arm_fields]: "cps_mmod i = BitField_ToBool 17 i"
definition cps_mode :: "ARMInstr \<Rightarrow> u32" where [arm_fields]: "cps_mode i = BitField_Value 0 5 i"
definition coproc_id :: "ARMInstr \<Rightarrow> u32" where [arm_fields]: "coproc_id i = BitField_Value 8 4 i"
definition coproc_opcode1 :: "ARMInstr \<Rightarrow> u32" where [arm_fields]: "coproc_opcode1 i = BitField_Value 21 3 i"
definition coproc_opcode2 :: "ARMInstr \<Rightarrow> u32" where [arm_fields]: "coproc_opcode2 i = BitField_Value 5 3 i"
definition uxtb_rotate :: "ARMInstr \<Rightarrow> nat" where [arm_fields]: "uxtb_rotate i = unat (BitField_Value 10 2 i)"
definition vfp_data_M :: "ARMInstr \<Rightarrow> bool" where [arm_fields]: "vfp_data_M i = BitField_ToBool 5 i"
definition vfp_data_N :: "ARMInstr \<Rightarrow> bool" where [arm_fields]: "vfp_data_N i = BitField_ToBool 7 i"
definition vfp_data_opcode_s :: "ARMInstr \<Rightarrow> bool" where [arm_fields]: "vfp_data_opcode_s i = BitField_ToBool 6 i"
definition vfp_data_opcode_r :: "ARMInstr \<Rightarrow> bool" where [arm_fields]: "vfp_data_opcode_r i = BitField_ToBool 20 i"
definition vfp_data_opcode_q :: "ARMInstr \<Rightarrow> bool" where [arm_fields]: "vfp_data_opcode_q i = BitField_ToBool 21 i"
definition vfp_data_opcode_p :: "ARMInstr \<Rightarrow> bool" where [arm_fields]: "vfp_data_opcode_p i = BitField_ToBool 23 i"

text \<open>Operand shifter modes (\<open>OperandShifterMode\<close>, the same codes as \<open>AddressingShift\<close>).\<close>

datatype OperandShifterMode = LSL | LSR | ASR | ROR_RRX

definition shifter_mode_of_code :: "u32 \<Rightarrow> OperandShifterMode" where
  "shifter_mode_of_code c =
    (if c = 0 then LSL else if c = 1 then LSR else if c = 2 then ASR else ROR_RRX)"

definition addr1_shift :: "ARMInstr \<Rightarrow> OperandShifterMode" where
  [arm_fields]: "addr1_shift i = shifter_mode_of_code (BitField_Value 5 2 i)"

definition ldr_shift :: "ARMInstr \<Rightarrow> OperandShifterMode" where
  [arm_fields]: "ldr_shift i = shifter_mode_of_code (BitField_Value 5 2 i)"

definition ExpandMSRFieldMask :: "ARMInstr \<Rightarrow> u32" where
  "ExpandMSRFieldMask i =
     (msr_field_mask i AND 0x8) * (push_bit 21 0xFF)
  OR (msr_field_mask i AND 0x4) * (push_bit 14 0xFF)
  OR (msr_field_mask i AND 0x2) * (push_bit 7 0xFF)
  OR (msr_field_mask i AND 0x1) * 0xFF"

datatype AddrMode1Encoding = Enc_Imm | Enc_ShiftByImm | Enc_ShiftByReg | Enc_Unknown

definition GetAddrMode1Encoding :: "ARMInstr \<Rightarrow> AddrMode1Encoding" where
  "GetAddrMode1Encoding raw =
    (if BitField_Value 26 2 raw \<noteq> 0 then Enc_Unknown
     else if BitField_ToBool 25 raw then Enc_Imm
     else if \<not> BitField_ToBool 4 raw then Enc_ShiftByImm
     else if \<not> BitField_ToBool 7 raw then Enc_ShiftByReg
     else Enc_Unknown)"

datatype AddrMode3AccessType =
    LoadSignedByte | LoadSignedHalfword | LoadUnsignedHalfword
  | LoadDoubleword | StoreByte | StoreHalfword | StoreDoubleword
  | Addr3_Invalid

section \<open>Thumb instructions\<close>

definition opcode_upper3 :: "ThumbInstr \<Rightarrow> u16" where [arm_fields]: "opcode_upper3 i = BitField_Value 13 3 i"
definition opcode_upper4 :: "ThumbInstr \<Rightarrow> u16" where [arm_fields]: "opcode_upper4 i = BitField_Value 12 4 i"
definition opcode_upper5 :: "ThumbInstr \<Rightarrow> u16" where [arm_fields]: "opcode_upper5 i = BitField_Value 11 5 i"
definition opcode_upper7 :: "ThumbInstr \<Rightarrow> u16" where [arm_fields]: "opcode_upper7 i = BitField_Value 9 7 i"
definition opcode_upper8 :: "ThumbInstr \<Rightarrow> u16" where [arm_fields]: "opcode_upper8 i = BitField_Value 8 8 i"
definition opcode_upper9 :: "ThumbInstr \<Rightarrow> u16" where [arm_fields]: "opcode_upper9 i = BitField_Value 7 9 i"
definition opcode_upper10 :: "ThumbInstr \<Rightarrow> u16" where [arm_fields]: "opcode_upper10 i = BitField_Value 6 10 i"
definition t_idx_rd_low :: "ThumbInstr \<Rightarrow> u16" where [arm_fields]: "t_idx_rd_low i = BitField_Value 0 3 i"
definition t_idx_rm :: "ThumbInstr \<Rightarrow> u16" where [arm_fields]: "t_idx_rm i = BitField_Value 3 3 i"
definition t_idx_rn :: "ThumbInstr \<Rightarrow> u16" where [arm_fields]: "t_idx_rn i = BitField_Value 6 3 i"
definition t_idx_rd_high :: "ThumbInstr \<Rightarrow> u16" where [arm_fields]: "t_idx_rd_high i = BitField_Value 8 3 i"
definition idx_rm_upperbit :: "ThumbInstr \<Rightarrow> u16" where [arm_fields]: "idx_rm_upperbit i = BitField_Value 6 1 i"
definition idx_rd_upperbit :: "ThumbInstr \<Rightarrow> u16" where [arm_fields]: "idx_rd_upperbit i = BitField_Value 7 1 i"
definition immed_mid_5 :: "ThumbInstr \<Rightarrow> u16" where [arm_fields]: "immed_mid_5 i = BitField_Value 6 5 i"
definition immed_mid_5_lower3 :: "ThumbInstr \<Rightarrow> u16" where [arm_fields]: "immed_mid_5_lower3 i = BitField_Value 6 3 i"
definition immed_mid_5_upper2 :: "ThumbInstr \<Rightarrow> u16" where [arm_fields]: "immed_mid_5_upper2 i = BitField_Value 9 2 i"
definition immed_low_7 :: "ThumbInstr \<Rightarrow> u16" where [arm_fields]: "immed_low_7 i = BitField_Value 0 7 i"
definition immed_low_8 :: "ThumbInstr \<Rightarrow> u16" where [arm_fields]: "immed_low_8 i = BitField_Value 0 8 i"
definition signed_immed_low_8 :: "ThumbInstr \<Rightarrow> u16" where [arm_fields]: "signed_immed_low_8 i = BitField_ValueS 0 8 i"
definition signed_immed_11 :: "ThumbInstr \<Rightarrow> u16" where [arm_fields]: "signed_immed_11 i = BitField_ValueS 0 11 i"
definition unsigned_immed_11 :: "ThumbInstr \<Rightarrow> u16" where [arm_fields]: "unsigned_immed_11 i = BitField_Value 0 11 i"
definition t_cond :: "ThumbInstr \<Rightarrow> u16" where [arm_fields]: "t_cond i = BitField_Value 8 4 i"
definition register_list :: "ThumbInstr \<Rightarrow> u16" where [arm_fields]: "register_list i = BitField_Value 0 8 i"

section \<open>Register numbers are in range\<close>

lemma idx_less_16 [simp]:
  "idx_rm i < 16" "idx_rs i < 16" "idx_rd i < 16" "idx_rn i < 16"
  using unat_BitField_Value_less [of 0 4 i] unat_BitField_Value_less [of 8 4 i]
    unat_BitField_Value_less [of 12 4 i] unat_BitField_Value_less [of 16 4 i]
  by (simp_all add: arm_fields)

lemma uxtb_rotate_less_4 [simp]: "uxtb_rotate i < 4"
  using unat_BitField_Value_less [of 10 2 i] by (simp add: uxtb_rotate_def)

lemma sat_imm_less_32 [simp]: "sat_imm i < 32"
  using unat_BitField_Value_less [of 16 5 i] by (simp add: sat_imm_def)

end
