(* ===== verification/InterpCore.thy ===== *)
theory InterpCore
  imports ArmInstr
begin

text \<open>
  What every instruction handler of the interpreter is built from (\<open>interpreter.cpp\<close>): next-instruction
  and link helpers, the updates of the condition flags, the evaluation of condition codes, and the
  shifter operand of addressing mode 1. A handler maps the state of the core and an instruction to
  the new state and the address of the next instruction, or to an exception.
\<close>

section \<open>Handlers\<close>

type_synonym cpu_handler = "arm_state \<Rightarrow> ARMInstr \<Rightarrow> (arm_state \<times> u32) res"

text \<open>\<open>HandlerStub\<close>, \<open>HandlerStubAnnotated\<close> and \<open>HandlerStubWithMessage\<close> throw; only the text differs.\<close>

definition HandlerStub :: "ARMInstr \<Rightarrow> 'a res" where
  "HandlerStub instr = Inl (UnknownInstruction instr)"

definition set_reg :: "nat \<Rightarrow> u32 \<Rightarrow> arm_state \<Rightarrow> arm_state" where
  "set_reg i v s = s\<lparr>reg := (reg s)(i := v)\<rparr>"

definition set_cpsr :: "psr \<Rightarrow> arm_state \<Rightarrow> arm_state" where
  "set_cpsr w s = s\<lparr>cpsr := w\<rparr>"

definition Link :: "arm_state \<Rightarrow> arm_state" where
  "Link s = set_reg 14 (PC s + 4) s"

definition NextInstr :: "arm_state \<Rightarrow> u32" where
  "NextInstr s = PC s + 4"

section \<open>Condition flags\<close>

definition UpdateCPSR_N :: "u32 \<Rightarrow> arm_state \<Rightarrow> arm_state" where
  "UpdateCPSR_N val s = set_cpsr (BitField_Assign 31 1 (drop_bit 31 val) (cpsr s)) s"

definition UpdateCPSR_Z :: "u32 \<Rightarrow> arm_state \<Rightarrow> arm_state" where
  "UpdateCPSR_Z val s = set_cpsr (BitField_AssignBool 30 (val = 0) (cpsr s)) s"

definition UpdateCPSR_C :: "bool \<Rightarrow> arm_state \<Rightarrow> arm_state" where
  "UpdateCPSR_C val s = set_cpsr (BitField_AssignBool 29 val (cpsr s)) s"

definition GetCarry :: "u32 \<Rightarrow> u32 \<Rightarrow> bool" where
  "GetCarry left right \<longleftrightarrow> drop_bit 31 left + drop_bit 31 right > drop_bit 31 (left + right)"

definition GetCarry_with :: "u32 \<Rightarrow> u32 \<Rightarrow> u32 \<Rightarrow> bool" where
  "GetCarry_with left right cpsr_c \<longleftrightarrow>
    drop_bit 31 left + drop_bit 31 right > drop_bit 31 (left + right + cpsr_c)"

text \<open>\<open>GetCarryT<uint8_t>\<close>: the shifted operands are promoted to \<open>int\<close> before they are added.\<close>

definition GetCarryT8 :: "u8 \<Rightarrow> u8 \<Rightarrow> bool" where
  "GetCarryT8 left right \<longleftrightarrow>
    uint (drop_bit 7 left) + uint (drop_bit 7 right) > uint (drop_bit 7 (left + right))"

definition UpdateCPSR_C_FromCarry :: "u32 \<Rightarrow> u32 \<Rightarrow> arm_state \<Rightarrow> arm_state" where
  "UpdateCPSR_C_FromCarry left right s =
    set_cpsr (BitField_AssignBool 29 (GetCarry left right) (cpsr s)) s"

definition UpdateCPSR_C_FromCarry_with :: "u32 \<Rightarrow> u32 \<Rightarrow> u32 \<Rightarrow> arm_state \<Rightarrow> arm_state" where
  "UpdateCPSR_C_FromCarry_with left right cpsr_c s =
    set_cpsr (BitField_AssignBool 29 (GetCarry_with left right cpsr_c) (cpsr s)) s"

definition UpdateCPSR_C_FromBorrow :: "u32 \<Rightarrow> u32 \<Rightarrow> arm_state \<Rightarrow> arm_state" where
  "UpdateCPSR_C_FromBorrow left right s =
    (let borrow = left < right in set_cpsr (BitField_AssignBool 29 (\<not> borrow) (cpsr s)) s)"

text \<open>\<open>left < (static_cast<uint64_t>(right) + !cpsr_c)\<close>, compared in 64 bits.\<close>

definition UpdateCPSR_C_FromBorrow_with :: "u32 \<Rightarrow> u32 \<Rightarrow> bool \<Rightarrow> arm_state \<Rightarrow> arm_state" where
  "UpdateCPSR_C_FromBorrow_with left right cpsr_c s =
    (let borrow = (ucast left :: u64) < ucast right + of_bool (\<not> cpsr_c)
     in set_cpsr (BitField_AssignBool 29 (\<not> borrow) (cpsr s)) s)"

definition GetOverflowFromAdd :: "u32 \<Rightarrow> u32 \<Rightarrow> u32 \<Rightarrow> bool" where
  "GetOverflowFromAdd left right result \<longleftrightarrow>
    drop_bit 31 (NOT (left XOR right) AND (left XOR result) AND (right XOR result)) \<noteq> 0"

definition UpdateCPSR_V_FromAdd :: "u32 \<Rightarrow> u32 \<Rightarrow> u32 \<Rightarrow> arm_state \<Rightarrow> arm_state" where
  "UpdateCPSR_V_FromAdd left right result s =
    set_cpsr (BitField_AssignBool 28 (GetOverflowFromAdd left right result) (cpsr s)) s"

definition UpdateCPSR_V_FromSub :: "u32 \<Rightarrow> u32 \<Rightarrow> u32 \<Rightarrow> arm_state \<Rightarrow> arm_state" where
  "UpdateCPSR_V_FromSub left right result s =
    set_cpsr (BitField_Assign 28 1 (drop_bit 31 ((left XOR right) AND (left XOR result))) (cpsr s)) s"

text \<open>The overload with a carry: the 64-bit sum of the sign-extended operands and the carry.\<close>

definition UpdateCPSR_V_FromSub_with :: "u32 \<Rightarrow> u32 \<Rightarrow> u32 \<Rightarrow> bool \<Rightarrow> arm_state \<Rightarrow> arm_state" where
  "UpdateCPSR_V_FromSub_with left right result carry s =
    (let signed_sum = (scast left :: u64) + scast (NOT right) + of_bool carry
     in set_cpsr (BitField_AssignBool 28 ((scast result :: u64) \<noteq> signed_sum) (cpsr s)) s)"

definition EvalCond :: "arm_state \<Rightarrow> u32 \<Rightarrow> bool res" where
  "EvalCond s c =
    (let n = psr_neg (cpsr s); z = psr_zero (cpsr s); cy = psr_carry (cpsr s); v = psr_overflow (cpsr s)
     in if c = 0xE then Inr True
        else if c = 0x0 then Inr z
        else if c = 0x1 then Inr (\<not> z)
        else if c = 0x2 then Inr cy
        else if c = 0x3 then Inr (\<not> cy)
        else if c = 0x4 then Inr n
        else if c = 0x5 then Inr (\<not> n)
        else if c = 0x6 then Inr v
        else if c = 0x7 then Inr (\<not> v)
        else if c = 0x8 then Inr (cy \<and> \<not> z)
        else if c = 0x9 then Inr (\<not> cy \<or> z)
        else if c = 0xa then Inr (n = v)
        else if c = 0xb then Inr (n \<noteq> v)
        else if c = 0xc then Inr (\<not> z \<and> n = v)
        else if c = 0xd then Inr (z \<or> n \<noteq> v)
        else Inl ConditionNotImplemented)"

text \<open>\<open>if (!EvalCond(ctx, instr.cond)) return NextInstr(ctx);\<close> at the head of the handlers.\<close>

definition when_cond :: "arm_state \<Rightarrow> ARMInstr \<Rightarrow> (arm_state \<times> u32) res \<Rightarrow> (arm_state \<times> u32) res" where
  "when_cond s instr body =
    bindE (EvalCond s (cond instr)) (\<lambda>c. if \<not> c then Inr (s, NextInstr s) else body)"

section \<open>Shifter operands\<close>

definition RotateRight :: "u32 \<Rightarrow> nat \<Rightarrow> u32" where
  "RotateRight value bits =
    (if bits = 0 \<or> bits = 32 then value
     else drop_bit bits value OR push_bit (32 - bits) value)"

record ShifterOperand =
  so_value :: u32
  so_carry_out :: bool

text \<open>
  \<open>0xFFFFFFFF << (32 - bits)\<close> is evaluated whatever the sign: for \<open>bits = 0\<close> (outside the stated
  precondition) it shifts by the width of the type, as does \<open>val >> bits\<close> for \<open>bits \<ge> 32\<close>.
\<close>

definition ArithmeticShiftRight :: "u32 \<Rightarrow> nat \<Rightarrow> u32 res" where
  "ArithmeticShiftRight val bits =
    (if bits = 0 \<or> 32 \<le> bits then Inl UndefinedBehaviour
     else let msb = drop_bit 31 val
          in Inr (drop_bit bits val OR msb * push_bit (32 - bits) 0xFFFFFFFF))"

definition CalcShifterOperand :: "u32 \<Rightarrow> u32 \<Rightarrow> OperandShifterMode \<Rightarrow> bool \<Rightarrow> ShifterOperand res" where
  "CalcShifterOperand value shift_value mode carry =
    (let sh = unat (shift_value AND 0xFF) in
     case mode of
       LSL \<Rightarrow> Inr \<lparr>so_value = (if sh < 32 then push_bit sh value else 0),
                   so_carry_out = (if sh = 0 then carry
                                   else if sh \<le> 32 then drop_bit 31 (push_bit (sh - 1) value) \<noteq> 0
                                   else False)\<rparr>
     | LSR \<Rightarrow> Inr \<lparr>so_value = (if sh < 32 then drop_bit sh value else 0),
                   so_carry_out = (if sh = 0 then carry
                                   else if sh \<le> 32 then drop_bit (sh - 1) value AND 1 \<noteq> 0
                                   else False)\<rparr>
     | ASR \<Rightarrow> bindE (if sh = 0 then Inr value
                     else if sh \<le> 31 then ArithmeticShiftRight value sh
                     else Inr (0xFFFFFFFF * drop_bit 31 value))
               (\<lambda>v. bindE (if sh = 0 then Inr carry
                           else if sh < 32 then bindE (ArithmeticShiftRight value (sh - 1)) (\<lambda>x. Inr (x AND 1 \<noteq> 0))
                           else Inr (drop_bit 31 value \<noteq> 0))
               (\<lambda>c. Inr \<lparr>so_value = v, so_carry_out = c\<rparr>))
     | ROR_RRX \<Rightarrow>
         (let r = sh mod 32 in
          Inr \<lparr>so_value = (if r = 0 then value else RotateRight value r),
               so_carry_out = (if sh = 0 then carry
                               else if r = 0 then drop_bit 31 value \<noteq> 0
                               else RotateRight value (r - 1) AND 1 \<noteq> 0)\<rparr>))"

definition CalcShifterOperandFromImmediate ::
  "u32 \<Rightarrow> u32 \<Rightarrow> OperandShifterMode \<Rightarrow> bool \<Rightarrow> ShifterOperand res" where
  "CalcShifterOperandFromImmediate value shift_value mode carry =
    (case mode of
       LSL \<Rightarrow> CalcShifterOperand value shift_value mode carry
     | LSR \<Rightarrow> CalcShifterOperand value (if shift_value \<noteq> 0 then shift_value else 32) mode carry
     | ASR \<Rightarrow> CalcShifterOperand value (if shift_value \<noteq> 0 then shift_value else 32) mode carry
     | ROR_RRX \<Rightarrow>
         if shift_value \<noteq> 0 then CalcShifterOperand value shift_value mode carry
         else Inr \<lparr>so_value = push_bit 31 (of_bool carry) OR drop_bit 1 value,
                   so_carry_out = value AND 1 \<noteq> 0\<rparr>)"

definition GetAddr1ShifterOperand :: "arm_state \<Rightarrow> ARMInstr \<Rightarrow> ShifterOperand option res" where
  "GetAddr1ShifterOperand s instr =
    (case GetAddrMode1Encoding instr of
       Enc_Imm \<Rightarrow>
         (let result = RotateRight (immed_8 instr) (2 * unat (rotate_imm instr))
          in Inr (Some \<lparr>so_value = result,
               so_carry_out = (if rotate_imm instr \<noteq> 0 then drop_bit 31 result \<noteq> 0
                               else psr_carry (cpsr s))\<rparr>))
     | Enc_ShiftByImm \<Rightarrow>
         bindE (CalcShifterOperandFromImmediate (FetchReg s (idx_rm instr)) (addr1_shift_imm instr)
                  (addr1_shift instr) (psr_carry (cpsr s))) (\<lambda>so. Inr (Some so))
     | Enc_ShiftByReg \<Rightarrow>
         bindE (CalcShifterOperand (FetchReg s (idx_rm instr)) (FetchReg s (idx_rs instr))
                  (addr1_shift instr) (psr_carry (cpsr s))) (\<lambda>so. Inr (Some so))
     | Enc_Unknown \<Rightarrow> Inr None)"

text \<open>\<open>if (!shifter_operand) return HandlerStubWithMessage(...)\<close>.\<close>

definition with_shifter_operand ::
  "arm_state \<Rightarrow> ARMInstr \<Rightarrow> (ShifterOperand \<Rightarrow> (arm_state \<times> u32) res) \<Rightarrow> (arm_state \<times> u32) res" where
  "with_shifter_operand s instr body =
    bindE (GetAddr1ShifterOperand s instr)
      (\<lambda>so. case so of None \<Rightarrow> HandlerStub instr | Some so \<Rightarrow> body so)"

section \<open>Reading after writing\<close>

lemma set_reg_simps [simp]:
  "reg (set_reg i v s) = (reg s)(i := v)" "cpsr (set_reg i v s) = cpsr s"
  "spsr (set_reg i v s) = spsr s" "fpreg (set_reg i v s) = fpreg s" "fpscr (set_reg i v s) = fpscr s"
  by (simp_all add: set_reg_def)

lemma set_cpsr_simps [simp]:
  "reg (set_cpsr w s) = reg s" "cpsr (set_cpsr w s) = w"
  "spsr (set_cpsr w s) = spsr s" "fpreg (set_cpsr w s) = fpreg s" "fpscr (set_cpsr w s) = fpscr s"
  by (simp_all add: set_cpsr_def)

lemmas flag_update_defs =
  UpdateCPSR_N_def UpdateCPSR_Z_def UpdateCPSR_C_def UpdateCPSR_C_FromCarry_def
  UpdateCPSR_C_FromCarry_with_def UpdateCPSR_C_FromBorrow_def UpdateCPSR_C_FromBorrow_with_def
  UpdateCPSR_V_FromAdd_def UpdateCPSR_V_FromSub_def UpdateCPSR_V_FromSub_with_def

lemma reg_flag_update [simp]:
  "reg (UpdateCPSR_N a s) = reg s" "reg (UpdateCPSR_Z a s) = reg s" "reg (UpdateCPSR_C b s) = reg s"
  "reg (UpdateCPSR_C_FromCarry a c s) = reg s" "reg (UpdateCPSR_C_FromCarry_with a c d s) = reg s"
  "reg (UpdateCPSR_C_FromBorrow a c s) = reg s" "reg (UpdateCPSR_C_FromBorrow_with a c b s) = reg s"
  "reg (UpdateCPSR_V_FromAdd a c d s) = reg s" "reg (UpdateCPSR_V_FromSub a c d s) = reg s"
  "reg (UpdateCPSR_V_FromSub_with a c d b s) = reg s"
  by (simp_all add: flag_update_defs Let_def)

text \<open>Each update writes one flag: bits 31 (N), 30 (Z), 29 (C) and 28 (V) of the CPSR.\<close>

lemma bit_cpsr_update:
  "bit (cpsr (UpdateCPSR_N a s)) n \<longleftrightarrow> (if n = 31 then bit a 31 else bit (cpsr s) n)"
  "bit (cpsr (UpdateCPSR_Z a s)) n \<longleftrightarrow> (if n = 30 then a = 0 else bit (cpsr s) n)"
  "bit (cpsr (UpdateCPSR_C b s)) n \<longleftrightarrow> (if n = 29 then b else bit (cpsr s) n)"
  "bit (cpsr (UpdateCPSR_C_FromCarry a c s)) n \<longleftrightarrow> (if n = 29 then GetCarry a c else bit (cpsr s) n)"
  "bit (cpsr (UpdateCPSR_C_FromCarry_with a c d s)) n \<longleftrightarrow>
    (if n = 29 then GetCarry_with a c d else bit (cpsr s) n)"
  "bit (cpsr (UpdateCPSR_C_FromBorrow a c s)) n \<longleftrightarrow> (if n = 29 then c \<le> a else bit (cpsr s) n)"
  "bit (cpsr (UpdateCPSR_C_FromBorrow_with a c b s)) n \<longleftrightarrow>
    (if n = 29 then \<not> (ucast a :: u64) < ucast c + of_bool (\<not> b) else bit (cpsr s) n)"
  "bit (cpsr (UpdateCPSR_V_FromAdd a c d s)) n \<longleftrightarrow>
    (if n = 28 then GetOverflowFromAdd a c d else bit (cpsr s) n)"
  "bit (cpsr (UpdateCPSR_V_FromSub a c d s)) n \<longleftrightarrow>
    (if n = 28 then bit ((a XOR c) AND (a XOR d)) 31 else bit (cpsr s) n)"
  "bit (cpsr (UpdateCPSR_V_FromSub_with a c d b s)) n \<longleftrightarrow>
    (if n = 28 then (scast d :: u64) \<noteq> scast a + scast (NOT c) + of_bool b else bit (cpsr s) n)"
  by (auto simp: flag_update_defs Let_def bit_BitField_Assign bit_BitField_AssignBool bit_simps)

section \<open>Carry, borrow and overflow\<close>

lemma GetCarry_with_iff:
  "GetCarry_with l r (of_bool c) \<longleftrightarrow> 4294967296 \<le> uint l + uint r + of_bool c"
proof -
  have sum: "(of_bool b + of_bool d > (of_bool e :: u32)) \<longleftrightarrow> (b \<and> d) \<or> ((b \<or> d) \<and> \<not> e)" for b d e
    by (cases b; cases d; cases e) simp_all
  show ?thesis
    using uint_u32_bounds [of l] uint_u32_bounds [of r]
    by (cases c) (auto simp: GetCarry_with_def drop_bit_31 sum u32_arith split: if_splits)
qed

lemma GetCarry_iff: "GetCarry l r \<longleftrightarrow> 4294967296 \<le> uint l + uint r"
  using GetCarry_with_iff [of l r False] by (simp add: GetCarry_with_def GetCarry_def)

lemma GetOverflowFromAdd_bit:
  "GetOverflowFromAdd l r d \<longleftrightarrow> bit l 31 = bit r 31 \<and> bit d 31 \<noteq> bit l 31"
  by (auto simp: GetOverflowFromAdd_def drop_bit_31 bit_simps)

lemma overflow_from_add:
  "GetOverflowFromAdd l r (l + r + of_bool c) \<longleftrightarrow>
    sint (l + r + of_bool c) \<noteq> sint l + sint r + of_bool c"
  using uint_u32_bounds [of l] uint_u32_bounds [of r]
  by (cases c) (auto simp: GetOverflowFromAdd_bit u32_arith split: if_splits)

lemma overflow_from_sub:
  "bit ((l XOR r) AND (l XOR (l - r :: u32))) 31 \<longleftrightarrow> sint (l - r) \<noteq> sint l - sint r"
proof -
  have "bit ((l XOR r) AND (l XOR (l - r))) 31 \<longleftrightarrow> bit l 31 \<noteq> bit r 31 \<and> bit l 31 \<noteq> bit (l - r) 31"
    by (simp add: bit_and_iff bit_xor_iff)
  moreover have "(bit l 31 \<noteq> bit r 31 \<and> bit l 31 \<noteq> bit (l - r) 31) \<longleftrightarrow> sint (l - r) \<noteq> sint l - sint r"
    using uint_u32_bounds [of l] uint_u32_bounds [of r]
    by (auto simp: u32_arith split: if_splits)
  ultimately show ?thesis by blast
qed

lemma borrow_with:
  "\<not> (ucast l :: u64) < ucast (r :: u32) + of_bool (\<not> c) \<longleftrightarrow> uint r + of_bool (\<not> c) \<le> uint (l :: u32)"
proof -
  have "uint (ucast r + of_bool (\<not> c) :: u64) = uint r + of_bool (\<not> c)"
    using uint_u32_bounds [of r] by (cases c) (simp_all add: uint_plus_if')
  then show ?thesis by (simp add: word_less_def not_less)
qed

lemma overflow_from_sub_with:
  "(scast (d :: u32) :: u64) \<noteq> scast (l :: u32) + scast (NOT r) + of_bool c \<longleftrightarrow>
    sint d \<noteq> sint l - sint (r :: u32) - of_bool (\<not> c)"
proof -
  let ?sum = "scast l + scast (NOT r) + of_bool c :: u64"
  have "sint ?sum = sint l - sint r - of_bool (\<not> c)"
  proof -
    have "?sum = word_of_int (sint l + sint (NOT r) + of_bool c)"
      by (simp only: scast_eq of_int_add of_int_of_bool)
    also have "sint l + sint (NOT r) + of_bool c = sint l - sint r - of_bool (\<not> c)"
      by (cases c) (simp_all add: sint_not_u32)
    finally have "?sum = word_of_int (sint l - sint r - of_bool (\<not> c))" .
    then have "sint ?sum = signed_take_bit 63 (sint l - sint r - of_bool (\<not> c))"
      by (simp only: sint_sbintrunc') simp
    moreover have "- (2 ^ 63) \<le> sint l - sint r - of_bool (\<not> c)"
      "sint l - sint r - of_bool (\<not> c) < 2 ^ 63"
      using sint_u32_bounds [of l] sint_u32_bounds [of r] by (cases c; simp)+
    ultimately show ?thesis
      by (simp only: signed_take_bit_int_eq_self)
  qed
  moreover have "a = b \<longleftrightarrow> sint a = sint b" for a b :: u64
    by (rule word_eq_iff_signed)
  ultimately show ?thesis by simp
qed

section \<open>The shifter against its arithmetic specification\<close>

text \<open>
  The reference: a shift to the left multiplies, the shifts to the right divide the unsigned or the
  signed value and round down, a rotation rotates; the carry is the last bit shifted out.
\<close>

definition shift_ref :: "OperandShifterMode \<Rightarrow> nat \<Rightarrow> u32 \<Rightarrow> u32" where
  "shift_ref mode n v = (case mode of
      LSL \<Rightarrow> word_of_int (uint v * 2 ^ n)
    | LSR \<Rightarrow> word_of_int (uint v div 2 ^ n)
    | ASR \<Rightarrow> word_of_int (sint v div 2 ^ n)
    | ROR_RRX \<Rightarrow> word_rotr n v)"

definition shift_carry_ref :: "OperandShifterMode \<Rightarrow> nat \<Rightarrow> u32 \<Rightarrow> bool \<Rightarrow> bool" where
  "shift_carry_ref mode n v c =
    (if n = 0 then c
     else case mode of
        LSL \<Rightarrow> n \<le> 32 \<and> bit v (32 - n)
      | LSR \<Rightarrow> bit v (n - 1)
      | ASR \<Rightarrow> bit (sint v) (n - 1)
      | ROR_RRX \<Rightarrow> bit v ((n - 1) mod 32))"

lemma bit_shift_ref:
  "bit (shift_ref LSL n v) k \<longleftrightarrow> n \<le> k \<and> k < 32 \<and> bit v (k - n)"
  "bit (shift_ref LSR n v) k \<longleftrightarrow> bit v (k + n)"
  "bit (shift_ref ASR n v) k \<longleftrightarrow> k < 32 \<and> bit (sint v) (k + n)"
  "bit (shift_ref ROR_RRX n v) k \<longleftrightarrow> k < 32 \<and> bit v ((k + n) mod 32)"
  by (auto simp: shift_ref_def bit_word_rotr_iff bit_uint_iff bit_simps add.commute
      simp flip: push_bit_eq_mult drop_bit_eq_div dest: bit_imp_le_length)

lemma drop_bit_and_1: "drop_bit n (v :: u32) AND 1 \<noteq> 0 \<longleftrightarrow> bit v n"
  by (simp add: and_one_eq odd_iff_mod_2_eq_one bit_iff_odd_drop_bit flip: odd_iff_mod_2_eq_one)

lemma and_1_iff: "(v :: u32) AND 1 \<noteq> 0 \<longleftrightarrow> bit v 0"
  using drop_bit_and_1 [of 0 v] by simp

lemma bit_RotateRight:
  "n \<le> 32 \<Longrightarrow> bit (RotateRight v n) k \<longleftrightarrow> k < 32 \<and> bit v ((k + n) mod 32)"
  by (auto simp: RotateRight_def bit_simps mod_if add.commute dest: bit_imp_le_length)

lemma bit_sint_u32: "bit (sint (v :: u32)) n \<longleftrightarrow> bit v (if n < 32 then n else 31)"
  by (auto simp: bit_sint_iff not_less dest: bit_imp_le_length)

lemma bit_arithmetic_fill:
  "n < 32 \<Longrightarrow> bit (drop_bit 31 v * push_bit (32 - n) 0xFFFFFFFF :: u32) k \<longleftrightarrow>
    bit v 31 \<and> 32 - n \<le> k \<and> k < 32"
proof -
  have "(0xFFFFFFFF :: u32) = - 1" by simp
  then have "drop_bit 31 v * push_bit (32 - n) 0xFFFFFFFF = (if bit v 31 then push_bit (32 - n) (- 1) else 0)"
    by (simp only: drop_bit_31) simp
  then show ?thesis by (auto simp: bit_simps)
qed

lemma ArithmeticShiftRight_eq:
  assumes "0 < n" "n < 32"
  shows "ArithmeticShiftRight v n = Inr (shift_ref ASR n v)"
proof -
  have "drop_bit n v OR drop_bit 31 v * push_bit (32 - n) 0xFFFFFFFF = shift_ref ASR n v"
    (is "?l = _")
  proof (rule bit_word_eqI)
    fix k assume "k < LENGTH(32)"
    with assms show "bit ?l k \<longleftrightarrow> bit (shift_ref ASR n v) k"
      unfolding bit_or_iff bit_arithmetic_fill [OF assms(2)] bit_shift_ref bit_sint_u32 bit_drop_bit_eq
      by (auto simp: add.commute dest: bit_imp_le_length)
  qed
  with assms show ?thesis by (simp add: ArithmeticShiftRight_def)
qed

lemma shift_ref_0 [simp]: "shift_ref mode 0 v = v"
  by (cases mode; rule bit_word_eqI; simp add: bit_shift_ref bit_sint_u32)

lemma shift_ref_large: "32 \<le> n \<Longrightarrow> shift_ref LSL n v = 0" "32 \<le> n \<Longrightarrow> shift_ref LSR n v = 0"
  "32 \<le> n \<Longrightarrow> shift_ref ASR n v = 0xFFFFFFFF * drop_bit 31 v"
  subgoal by (rule bit_word_eqI) (simp add: bit_shift_ref)
  subgoal by (rule bit_word_eqI) (auto simp: bit_shift_ref dest: bit_imp_le_length)
  subgoal premises prems
  proof -
    have "shift_ref ASR n v = (if bit v 31 then - 1 else 0)"
      using prems by (intro bit_word_eqI) (auto simp: bit_shift_ref bit_sint_u32)
    then show ?thesis by (simp add: drop_bit_31)
  qed
  done

lemma shift_ref_small: "n < 32 \<Longrightarrow> push_bit n v = shift_ref LSL n v"
  "n < 32 \<Longrightarrow> drop_bit n v = shift_ref LSR n v"
  by (intro bit_word_eqI; auto simp: bit_shift_ref bit_simps add.commute)+

lemma RotateRight_mod:
  "RotateRight v (n mod 32) = shift_ref ROR_RRX n v"
  by (intro bit_word_eqI) (auto simp: bit_RotateRight bit_shift_ref mod_simps)

text \<open>
  The shifter agrees with the reference for every mode and amount except the arithmetic shift to
  the right by one, for which the carry is computed by a shift by \<open>0\<close> outside its precondition.
\<close>

lemma CalcShifterOperand_ref:
  fixes v sv :: u32
  defines "n \<equiv> unat (sv AND 0xFF)"
  assumes ok: "\<not> (mode = ASR \<and> n = 1)"
  shows "CalcShifterOperand v sv mode c =
    Inr \<lparr>so_value = shift_ref mode n v, so_carry_out = shift_carry_ref mode n v c\<rparr>"
proof (cases mode)
  case LSL
  show ?thesis unfolding LSL
    by (auto simp: CalcShifterOperand_def shift_carry_ref_def n_def [symmetric] Let_def shift_ref_small
        shift_ref_large drop_bit_31 bit_shift_ref Suc_diff_le le_Suc_eq)
next
  case LSR
  show ?thesis unfolding LSR
    by (auto simp: CalcShifterOperand_def shift_carry_ref_def n_def [symmetric] Let_def shift_ref_small
        shift_ref_large and_1_iff bit_shift_ref dest: bit_imp_le_length)
next
  case ASR
  consider "n = 0" | "1 < n" "n < 32" | "32 \<le> n" using ok ASR by linarith
  then show ?thesis
  proof cases
    case 2
    then have "0 < n - 1" "n - 1 < 32" "0 < n" by simp_all
    with 2 show ?thesis unfolding ASR
      by (simp add: CalcShifterOperand_def shift_carry_ref_def n_def [symmetric] Let_def
        ArithmeticShiftRight_eq and_1_iff bit_shift_ref)
  next
    case 3
    then have "(if n - 1 < 32 then n - 1 else 31) = 31" by auto
    then have "bit (sint v) (n - 1) \<longleftrightarrow> bit v 31" by (simp only: bit_sint_u32)
    with 3 show ?thesis unfolding ASR
      by (simp add: CalcShifterOperand_def shift_carry_ref_def n_def [symmetric] Let_def
        shift_ref_large drop_bit_31)
  qed (simp add: CalcShifterOperand_def shift_carry_ref_def n_def [symmetric] Let_def ASR)
next
  case ROR_RRX
  have less: "n mod 32 - 1 \<le> 32" by simp
  have "n mod 32 \<noteq> 0 \<Longrightarrow> (n - 1) mod 32 = n mod 32 - 1"
    by (cases n) (simp_all add: mod_Suc split: if_splits)
  moreover have "n mod 32 = 0 \<Longrightarrow> n \<noteq> 0 \<Longrightarrow> (n - 1) mod 32 = 31"
    by (cases n) (simp_all add: mod_Suc split: if_splits)
  moreover have "n mod 32 = 0 \<Longrightarrow> shift_ref ROR_RRX n v = v"
    by (metis RotateRight_mod RotateRight_def)
  ultimately show ?thesis unfolding ROR_RRX
    using bit_RotateRight [OF less, of v 0]
    by (auto simp: CalcShifterOperand_def shift_carry_ref_def n_def [symmetric] Let_def
        RotateRight_mod and_1_iff drop_bit_31 shift_ref_0)
qed

lemma CalcShifterOperand_ASR_1:
  "unat (sv AND 0xFF) = 1 \<Longrightarrow> CalcShifterOperand v sv ASR c = Inl UndefinedBehaviour"
  by (simp add: CalcShifterOperand_def Let_def ArithmeticShiftRight_def)

end
