(* ===== verification/AluHandlers.thy ===== *)
theory AluHandlers
  imports InterpCore
begin

text \<open>
  The data-processing instructions of the interpreter (\<open>interpreter.cpp\<close>): moves, logic, addition and
  subtraction with their flags, compares and tests. Each handler is translated as it stands,
  including which of them read the program counter as a plain register (\<open>ctx.cpu.reg[...]\<close>) and which
  as the instruction's address plus 8 (\<open>FetchReg\<close>).
\<close>

section \<open>Definitions\<close>

text \<open>The flag updates of the logical instructions; V is unaffected.\<close>

definition logic_flags :: "u32 \<Rightarrow> bool \<Rightarrow> arm_state \<Rightarrow> arm_state" where
  "logic_flags result carry_out s =
    UpdateCPSR_C carry_out (UpdateCPSR_Z result (UpdateCPSR_N result s))"

definition HandlerMov :: cpu_handler where
  "HandlerMov s instr = when_cond s instr
    (if addr1_S instr \<and> idx_rd instr = PC_idx then HandlerStub instr
     else with_shifter_operand s instr (\<lambda>so.
       let result = so_value so;
           s1 = set_reg (idx_rd instr) result s;
           s2 = (if addr1_S instr then logic_flags result (so_carry_out so) s1 else s1)
       in Inr (s2, if idx_rd instr = PC_idx then PC s2 else NextInstr s2)))"

definition HandlerMvn :: cpu_handler where
  "HandlerMvn s instr = when_cond s instr
    (if idx_rd instr = PC_idx then HandlerStub instr
     else with_shifter_operand s instr (\<lambda>so.
       let result = NOT (so_value so);
           s1 = set_reg (idx_rd instr) result s;
           s2 = (if addr1_S instr then logic_flags result (so_carry_out so) s1 else s1)
       in Inr (s2, NextInstr s2)))"

definition HandlerBic :: cpu_handler where
  "HandlerBic s instr = when_cond s instr
    (if idx_rd instr = PC_idx then HandlerStub instr
     else with_shifter_operand s instr (\<lambda>so.
       let result = reg s (idx_rn instr) AND NOT (so_value so);
           s1 = set_reg (idx_rd instr) result s;
           s2 = (if addr1_S instr then logic_flags result (so_carry_out so) s1 else s1)
       in Inr (s2, NextInstr s2)))"

definition HandlerEor :: cpu_handler where
  "HandlerEor s instr = when_cond s instr
    (if idx_rd instr = PC_idx then HandlerStub instr
     else with_shifter_operand s instr (\<lambda>so.
       let result = reg s (idx_rn instr) XOR so_value so;
           s1 = set_reg (idx_rd instr) result s;
           s2 = (if addr1_S instr then logic_flags result (so_carry_out so) s1 else s1)
       in Inr (s2, NextInstr s2)))"

definition HandlerAnd :: cpu_handler where
  "HandlerAnd s instr = when_cond s instr
    (if idx_rd instr = PC_idx then HandlerStub instr
     else with_shifter_operand s instr (\<lambda>so.
       let result = FetchReg s (idx_rn instr) AND so_value so;
           s1 = set_reg (idx_rd instr) result s;
           s2 = (if addr1_S instr then logic_flags result (so_carry_out so) s1 else s1)
       in Inr (s2, NextInstr s2)))"

definition HandlerOrr :: cpu_handler where
  "HandlerOrr s instr = when_cond s instr
    (if idx_rd instr = PC_idx then HandlerStub instr
     else with_shifter_operand s instr (\<lambda>so.
       let result = FetchReg s (idx_rn instr) OR so_value so;
           s1 = set_reg (idx_rd instr) result s;
           s2 = (if addr1_S instr then logic_flags result (so_carry_out so) s1 else s1)
       in Inr (s2, NextInstr s2)))"

definition HandlerTeq :: cpu_handler where
  "HandlerTeq s instr = when_cond s instr
    (if idx_rd instr = PC_idx then HandlerStub instr
     else with_shifter_operand s instr (\<lambda>so.
       let alu_out = FetchReg s (idx_rn instr) XOR so_value so;
           s1 = logic_flags alu_out (so_carry_out so) s
       in Inr (s1, NextInstr s1)))"

definition HandlerTst :: cpu_handler where
  "HandlerTst s instr = when_cond s instr
    (if idx_rd instr = PC_idx then HandlerStub instr
     else with_shifter_operand s instr (\<lambda>so.
       let alu_out = FetchReg s (idx_rn instr) AND so_value so;
           s1 = logic_flags alu_out (so_carry_out so) s
       in Inr (s1, NextInstr s1)))"

definition HandlerAdd :: cpu_handler where
  "HandlerAdd s instr = when_cond s instr
    (if addr1_S instr \<and> idx_rd instr = PC_idx then HandlerStub instr
     else with_shifter_operand s instr (\<lambda>so.
       let rn = FetchReg s (idx_rn instr);
           result = rn + so_value so;
           s1 = set_reg (idx_rd instr) result s;
           s2 = (if addr1_S instr
                 then UpdateCPSR_V_FromAdd rn (so_value so) result
                       (UpdateCPSR_C_FromCarry rn (so_value so)
                         (UpdateCPSR_Z result (UpdateCPSR_N result s1)))
                 else s1)
       in Inr (s2, if idx_rd instr = PC_idx then reg s2 PC_idx else NextInstr s2)))"

definition HandlerAdc :: cpu_handler where
  "HandlerAdc s instr = when_cond s instr
    (if idx_rd instr = PC_idx then HandlerStub instr
     else with_shifter_operand s instr (\<lambda>so.
       let rn = FetchReg s (idx_rn instr);
           cy = of_bool (psr_carry (cpsr s));
           result = rn + so_value so + cy;
           s1 = set_reg (idx_rd instr) result s;
           s2 = (if addr1_S instr
                 then UpdateCPSR_V_FromAdd rn (so_value so) result
                       (UpdateCPSR_C_FromCarry_with rn (so_value so) cy
                         (UpdateCPSR_Z result (UpdateCPSR_N result s1)))
                 else s1)
       in Inr (s2, NextInstr s2)))"

definition HandlerSbc :: cpu_handler where
  "HandlerSbc s instr = when_cond s instr
    (if idx_rd instr = PC_idx then HandlerStub instr
     else with_shifter_operand s instr (\<lambda>so.
       let rn = FetchReg s (idx_rn instr);
           cy = psr_carry (cpsr s);
           result = rn - so_value so - of_bool (\<not> cy);
           s1 = set_reg (idx_rd instr) result s;
           s2 = (if addr1_S instr
                 then UpdateCPSR_C_FromBorrow_with (rn) (so_value so) cy
                       (UpdateCPSR_V_FromSub_with (rn) (so_value so) result cy
                         (UpdateCPSR_Z result (UpdateCPSR_N result s1)))
                 else s1)
       in Inr (s2, NextInstr s2)))"

definition HandlerRsc :: cpu_handler where
  "HandlerRsc s instr = when_cond s instr
    (if idx_rd instr = PC_idx then HandlerStub instr
     else with_shifter_operand s instr (\<lambda>so.
       let rn = FetchReg s (idx_rn instr);
           cy = psr_carry (cpsr s);
           result = so_value so - rn - of_bool (\<not> cy);
           s1 = set_reg (idx_rd instr) result s;
           s2 = (if addr1_S instr
                 then UpdateCPSR_C_FromBorrow_with (so_value so) (rn) cy
                       (UpdateCPSR_V_FromSub_with (so_value so) (rn) result cy
                         (UpdateCPSR_Z result (UpdateCPSR_N result s1)))
                 else s1)
       in Inr (s2, NextInstr s2)))"

definition HandlerSub :: cpu_handler where
  "HandlerSub s instr = when_cond s instr
    (if idx_rd instr = PC_idx then HandlerStub instr
     else with_shifter_operand s instr (\<lambda>so.
       let rn = FetchReg s (idx_rn instr);
           result = rn - so_value so;
           s1 = set_reg (idx_rd instr) result s;
           s2 = (if addr1_S instr
                 then UpdateCPSR_V_FromSub (rn) (so_value so) result
                       (UpdateCPSR_C_FromBorrow (rn) (so_value so)
                         (UpdateCPSR_Z result (UpdateCPSR_N result s1)))
                 else s1)
       in Inr (s2, NextInstr s2)))"

definition HandlerRsb :: cpu_handler where
  "HandlerRsb s instr = when_cond s instr
    (if idx_rd instr = PC_idx then HandlerStub instr
     else with_shifter_operand s instr (\<lambda>so.
       let rn = FetchReg s (idx_rn instr);
           result = so_value so - rn;
           s1 = set_reg (idx_rd instr) result s;
           s2 = (if addr1_S instr
                 then UpdateCPSR_V_FromSub (so_value so) (rn) result
                       (UpdateCPSR_C_FromBorrow (so_value so) (rn)
                         (UpdateCPSR_Z result (UpdateCPSR_N result s1)))
                 else s1)
       in Inr (s2, NextInstr s2)))"

definition HandlerCmp :: cpu_handler where
  "HandlerCmp s instr = when_cond s instr
    (with_shifter_operand s instr (\<lambda>so.
       let rn = reg s (idx_rn instr);
           alu_out = rn - so_value so;
           s1 = UpdateCPSR_V_FromSub rn (so_value so) alu_out
                 (UpdateCPSR_C_FromBorrow rn (so_value so)
                   (UpdateCPSR_Z alu_out (UpdateCPSR_N alu_out s)))
       in Inr (s1, NextInstr s1)))"

definition HandlerCmn :: cpu_handler where
  "HandlerCmn s instr = when_cond s instr
    (with_shifter_operand s instr (\<lambda>so.
       let rn = reg s (idx_rn instr);
           alu_out = rn + so_value so;
           s1 = UpdateCPSR_V_FromAdd rn (so_value so) alu_out
                 (UpdateCPSR_C_FromCarry rn (so_value so)
                   (UpdateCPSR_Z alu_out (UpdateCPSR_N alu_out s)))
       in Inr (s1, NextInstr s1)))"

section \<open>The reference arithmetic\<close>

text \<open>
  The architecture defines additions and subtractions by one primitive: the sum of two operands and
  a carry, with the carry out and the signed overflow read off the sums over the integers. A
  subtraction adds the complement.
\<close>

definition AddWithCarry :: "u32 \<Rightarrow> u32 \<Rightarrow> bool \<Rightarrow> u32 \<times> bool \<times> bool" where
  "AddWithCarry x y c =
    (let unsigned_sum = uint x + uint y + of_bool c;
         signed_sum = sint x + sint y + of_bool c;
         result = word_of_int unsigned_sum
     in (result, uint result \<noteq> unsigned_sum, sint result \<noteq> signed_sum))"

datatype arith_op = ADD | ADC | SUB | SBC | RSB | RSC

fun arith_ref :: "arith_op \<Rightarrow> u32 \<Rightarrow> u32 \<Rightarrow> bool \<Rightarrow> u32 \<times> bool \<times> bool" where
  "arith_ref ADD a b c = AddWithCarry a b False"
| "arith_ref ADC a b c = AddWithCarry a b c"
| "arith_ref SUB a b c = AddWithCarry a (NOT b) True"
| "arith_ref SBC a b c = AddWithCarry a (NOT b) c"
| "arith_ref RSB a b c = AddWithCarry (NOT a) b True"
| "arith_ref RSC a b c = AddWithCarry (NOT a) b c"

fun arith_handler :: "arith_op \<Rightarrow> cpu_handler" where
  "arith_handler ADD = HandlerAdd"
| "arith_handler ADC = HandlerAdc"
| "arith_handler SUB = HandlerSub"
| "arith_handler SBC = HandlerSbc"
| "arith_handler RSB = HandlerRsb"
| "arith_handler RSC = HandlerRsc"

text \<open>The logical instructions, and the instructions that only set flags.\<close>

datatype logic_op = MOV | MVN | BIC | EOR | AND_op | ORR

fun logic_ref :: "logic_op \<Rightarrow> u32 \<Rightarrow> u32 \<Rightarrow> u32" where
  "logic_ref MOV a b = b"
| "logic_ref MVN a b = NOT b"
| "logic_ref BIC a b = a AND NOT b"
| "logic_ref EOR a b = a XOR b"
| "logic_ref AND_op a b = a AND b"
| "logic_ref ORR a b = a OR b"

fun logic_handler :: "logic_op \<Rightarrow> cpu_handler" where
  "logic_handler MOV = HandlerMov"
| "logic_handler MVN = HandlerMvn"
| "logic_handler BIC = HandlerBic"
| "logic_handler EOR = HandlerEor"
| "logic_handler AND_op = HandlerAnd"
| "logic_handler ORR = HandlerOrr"

datatype compare_op = CMP | CMN | TST | TEQ

definition nz_of :: "u32 \<Rightarrow> bool \<Rightarrow> bool \<Rightarrow> bool \<times> bool \<times> bool \<times> bool" where
  "nz_of r c v = (sint r < 0, r = 0, c, v)"

fun compare_ref :: "compare_op \<Rightarrow> u32 \<Rightarrow> ShifterOperand \<Rightarrow> bool \<Rightarrow> bool \<times> bool \<times> bool \<times> bool" where
  "compare_ref CMP a so old_v = (case arith_ref SUB a (so_value so) False of (r, c, v) \<Rightarrow> nz_of r c v)"
| "compare_ref CMN a so old_v = (case arith_ref ADD a (so_value so) False of (r, c, v) \<Rightarrow> nz_of r c v)"
| "compare_ref TST a so old_v = nz_of (a AND so_value so) (so_carry_out so) old_v"
| "compare_ref TEQ a so old_v = nz_of (a XOR so_value so) (so_carry_out so) old_v"

fun compare_handler :: "compare_op \<Rightarrow> cpu_handler" where
  "compare_handler CMP = HandlerCmp"
| "compare_handler CMN = HandlerCmn"
| "compare_handler TST = HandlerTst"
| "compare_handler TEQ = HandlerTeq"

definition nzcv :: "psr \<Rightarrow> bool \<times> bool \<times> bool \<times> bool" where
  "nzcv w = (psr_neg w, psr_zero w, psr_carry w, psr_overflow w)"

text \<open>Two states that agree on everything of a core but its general registers and the four flags at the top of the CPSR.\<close>

definition same_rest :: "arm_state \<Rightarrow> arm_state \<Rightarrow> bool" where
  "same_rest s t \<longleftrightarrow> t\<lparr>reg := reg s, cpsr := cpsr s\<rparr> = s \<and> take_bit 28 (cpsr t) = take_bit 28 (cpsr s)"

text \<open>A small state for concrete runs: \<open>CMP r0, r1\<close> and \<open>ADDS r2, r0, r1\<close> on \<open>r0 = 5\<close>, \<open>r1 = 7\<close>.\<close>

definition example_state :: arm_state where
  "example_state = \<lparr>reg = (\<lambda>_. 0)(0 := 5, 1 := 7, 15 := 0x1000), fpreg = (\<lambda>_. 0), fpscr = 0, cpsr = 0,
     spsr = (\<lambda>_. 0), banked_regs_user = (\<lambda>_. 0), banked_regs_fiq = (\<lambda>_. 0), banked_regs_svc = (\<lambda>_. 0),
     banked_regs_abt = (\<lambda>_. 0), banked_regs_irq = (\<lambda>_. 0), banked_regs_und = (\<lambda>_. 0),
     cp15_raw = (\<lambda>_. 0), cycle_count = 0\<rparr>"

section \<open>Flag updates against the reference\<close>

lemma AddWithCarry_add:
  "AddWithCarry a b c =
    (a + b + of_bool c, GetCarry_with a b (of_bool c), GetOverflowFromAdd a b (a + b + of_bool c))"
proof -
  have "word_of_int (uint a + uint b + of_bool c) = a + b + of_bool c"
    by (cases c) simp_all
  moreover have "uint (a + b + of_bool c) \<noteq> uint a + uint b + of_bool c
      \<longleftrightarrow> 4294967296 \<le> uint a + uint b + of_bool c"
    using uint_u32_bounds [of a] uint_u32_bounds [of b]
    by (cases c) (auto simp: uint_add_u32 split: if_splits)
  ultimately show ?thesis
    by (simp add: AddWithCarry_def Let_def GetCarry_with_iff overflow_from_add)
qed

lemma AddWithCarry_commute: "AddWithCarry a b c = AddWithCarry b a c"
  by (simp add: AddWithCarry_def ac_simps)

lemma AddWithCarry_sub:
  "AddWithCarry a (NOT b) c =
    (a - b - of_bool (\<not> c), uint b + of_bool (\<not> c) \<le> uint a,
     sint (a - b - of_bool (\<not> c)) \<noteq> sint a - sint b - of_bool (\<not> c))"
proof -
  have r: "word_of_int (uint a + uint (NOT b) + of_bool c) = a - b - of_bool (\<not> c)"
    by (cases c) (simp_all add: not_eq_complement)
  have "uint (a - b - of_bool (\<not> c)) \<noteq> uint a + uint (NOT b) + of_bool c
      \<longleftrightarrow> uint b + of_bool (\<not> c) \<le> uint a"
    using uint_u32_bounds [of a] uint_u32_bounds [of b]
    by (cases c) (auto simp: uint_sub_u32 uint_not_u32 split: if_splits)
  moreover have "sint a + sint (NOT b) + of_bool c = sint a - sint b - of_bool (\<not> c)"
    by (cases c) (simp_all add: sint_not_u32)
  ultimately show ?thesis by (simp only: AddWithCarry_def Let_def r)
qed

lemma same_rest_refl [simp]: "same_rest s s"
  by (simp add: same_rest_def)

lemma same_rest_flags:
  "same_rest s t \<Longrightarrow> same_rest s (set_reg i v t)"
  "same_rest s t \<Longrightarrow> same_rest s (UpdateCPSR_N a t)"
  "same_rest s t \<Longrightarrow> same_rest s (UpdateCPSR_Z a t)"
  "same_rest s t \<Longrightarrow> same_rest s (UpdateCPSR_C b t)"
  "same_rest s t \<Longrightarrow> same_rest s (UpdateCPSR_C_FromCarry a c t)"
  "same_rest s t \<Longrightarrow> same_rest s (UpdateCPSR_C_FromCarry_with a c d t)"
  "same_rest s t \<Longrightarrow> same_rest s (UpdateCPSR_C_FromBorrow a c t)"
  "same_rest s t \<Longrightarrow> same_rest s (UpdateCPSR_C_FromBorrow_with a c b t)"
  "same_rest s t \<Longrightarrow> same_rest s (UpdateCPSR_V_FromAdd a c d t)"
  "same_rest s t \<Longrightarrow> same_rest s (UpdateCPSR_V_FromSub a c d t)"
  "same_rest s t \<Longrightarrow> same_rest s (UpdateCPSR_V_FromSub_with a c d b t)"
proof -
  have cp: "same_rest s (set_cpsr w t)" if "same_rest s t" "take_bit 28 w = take_bit 28 (cpsr t)" for w
    using that unfolding same_rest_def set_cpsr_def by simp
  have low: "take_bit 28 (BitField_AssignBool p b w) = take_bit 28 w"
    "take_bit 28 (BitField_Assign p (Suc 0) v w) = take_bit 28 w" if "28 \<le> p" "p < 32" for p b v and w :: u32
    using that by (intro bit_word_eqI; auto simp: bit_take_bit_iff bit_BitField_AssignBool bit_BitField_Assign)+
  assume "same_rest s t"
  then show "same_rest s (set_reg i v t)"
    unfolding same_rest_def set_reg_def by simp
  show "same_rest s (UpdateCPSR_N a t)" "same_rest s (UpdateCPSR_Z a t)" "same_rest s (UpdateCPSR_C b t)"
    "same_rest s (UpdateCPSR_C_FromCarry a c t)" "same_rest s (UpdateCPSR_C_FromCarry_with a c d t)"
    "same_rest s (UpdateCPSR_C_FromBorrow a c t)" "same_rest s (UpdateCPSR_C_FromBorrow_with a c b t)"
    "same_rest s (UpdateCPSR_V_FromAdd a c d t)" "same_rest s (UpdateCPSR_V_FromSub a c d t)"
    "same_rest s (UpdateCPSR_V_FromSub_with a c d b t)"
    using \<open>same_rest s t\<close> by (simp_all add: flag_update_defs Let_def cp low)
qed

text \<open>The condition flags after the four updates of an arithmetic instruction, in either order.\<close>

lemma nzcv_update:
  "nzcv (cpsr (UpdateCPSR_V_FromAdd a b r (UpdateCPSR_C_FromCarry a b (UpdateCPSR_Z r (UpdateCPSR_N r s)))))
    = (bit r 31, r = 0, GetCarry a b, GetOverflowFromAdd a b r)"
  "nzcv (cpsr (UpdateCPSR_V_FromAdd a b r (UpdateCPSR_C_FromCarry_with a b cy (UpdateCPSR_Z r (UpdateCPSR_N r s)))))
    = (bit r 31, r = 0, GetCarry_with a b cy, GetOverflowFromAdd a b r)"
  "nzcv (cpsr (UpdateCPSR_V_FromSub a b r (UpdateCPSR_C_FromBorrow a b (UpdateCPSR_Z r (UpdateCPSR_N r s)))))
    = (bit r 31, r = 0, b \<le> a, bit ((a XOR b) AND (a XOR r)) 31)"
  "nzcv (cpsr (UpdateCPSR_C_FromBorrow_with a b c (UpdateCPSR_V_FromSub_with a b r c (UpdateCPSR_Z r (UpdateCPSR_N r s)))))
    = (bit r 31, r = 0, \<not> (ucast a :: u64) < ucast b + of_bool (\<not> c),
       (scast r :: u64) \<noteq> scast a + scast (NOT b) + of_bool c)"
  "nzcv (cpsr (logic_flags r co s)) = (bit r 31, r = 0, co, psr_overflow (cpsr s))"
  by (simp_all add: nzcv_def psr_simps bit_cpsr_update logic_flags_def del: word_not_simps)

lemma same_rest_logic_flags: "same_rest s t \<Longrightarrow> same_rest s (logic_flags r co t)"
  by (simp add: logic_flags_def same_rest_flags)

lemma reg_logic_flags [simp]: "reg (logic_flags r co s) = reg s"
  by (simp add: logic_flags_def)

section \<open>Data-processing instructions\<close>

lemma when_cond_True: "EvalCond s (cond instr) = Inr True \<Longrightarrow> when_cond s instr body = body"
  by (simp add: when_cond_def)

lemma with_shifter_operand_Some:
  "GetAddr1ShifterOperand s instr = Inr (Some so) \<Longrightarrow> with_shifter_operand s instr body = body so"
  by (simp add: with_shifter_operand_def)

lemmas alu_prologue = when_cond_True with_shifter_operand_Some

lemma AddWithCarry_sub_flip:
  "AddWithCarry (NOT b) a c =
    (a - b - of_bool (\<not> c), uint b + of_bool (\<not> c) \<le> uint a,
     sint (a - b - of_bool (\<not> c)) \<noteq> sint a - sint b - of_bool (\<not> c))"
  using AddWithCarry_sub [of a b c] by (simp only: AddWithCarry_commute)

lemma GetCarry_with_0: "GetCarry_with a b 0 = GetCarry a b"
  by (simp add: GetCarry_def GetCarry_with_def)

lemma arith_ref_flags:
  "arith_ref ADD a b c = (a + b, GetCarry a b, GetOverflowFromAdd a b (a + b))"
  "arith_ref ADC a b c =
    (a + b + of_bool c, GetCarry_with a b (of_bool c), GetOverflowFromAdd a b (a + b + of_bool c))"
  "arith_ref SUB a b c = (a - b, b \<le> a, bit ((a XOR b) AND (a XOR (a - b))) 31)"
  "arith_ref RSB b a c = (a - b, b \<le> a, bit ((a XOR b) AND (a XOR (a - b))) 31)"
  "arith_ref SBC a b c = (a - b - of_bool (\<not> c), \<not> (ucast a :: u64) < ucast b + of_bool (\<not> c),
      (scast (a - b - of_bool (\<not> c)) :: u64) \<noteq> scast a + scast (NOT b) + of_bool c)"
  "arith_ref RSC b a c = (a - b - of_bool (\<not> c), \<not> (ucast a :: u64) < ucast b + of_bool (\<not> c),
      (scast (a - b - of_bool (\<not> c)) :: u64) \<noteq> scast a + scast (NOT b) + of_bool c)"
  unfolding arith_ref.simps AddWithCarry_sub AddWithCarry_sub_flip overflow_from_sub borrow_with
    overflow_from_sub_with
  by (simp_all add: AddWithCarry_add GetCarry_with_0 word_le_def)

declare arith_ref.simps [simp del]

text \<open>Every arithmetic instruction, once its condition holds and its operand is computed.\<close>

lemmas arith_step = alu_prologue Let_def NextInstr_def PC_def nzcv_update same_rest_flags
  bit_word_msb_sint [symmetric]

text \<open>
  C10: an addition or subtraction whose condition holds (ADD, ADC, SUB, SBC, RSB, RSC, destination
  other than the PC) writes the result of the reference sum to its destination register and nothing
  else, goes on to the next instruction, and with the S bit sets N, Z, C and V to the sign, the
  zeroness, the carry (no borrow) and the signed overflow of that sum over the integers; without it
  the flags are kept.
\<close>

theorem arithmetic_instructions:
  assumes "EvalCond s (cond instr) = Inr True"
    and "GetAddr1ShifterOperand s instr = Inr (Some so)"
    and "idx_rd instr \<noteq> PC_idx"
    and ref: "arith_ref op (FetchReg s (idx_rn instr)) (so_value so) (psr_carry (cpsr s)) = (r, c, v)"
  shows "\<exists>s'. arith_handler op s instr = Inr (s', PC s + 4)
    \<and> reg s' = (reg s)(idx_rd instr := r)
    \<and> nzcv (cpsr s') = (if addr1_S instr then (sint r < 0, r = 0, c, v) else nzcv (cpsr s))
    \<and> same_rest s s'"
proof (cases op)
  case ADD
  with ref show ?thesis by (auto simp: HandlerAdd_def assms(1-3) arith_ref_flags arith_step)
next
  case ADC
  with ref show ?thesis by (auto simp: HandlerAdc_def assms(1-3) arith_ref_flags arith_step)
next
  case SUB
  with ref show ?thesis by (auto simp: HandlerSub_def assms(1-3) arith_ref_flags arith_step)
next
  case SBC
  with ref show ?thesis by (auto simp: HandlerSbc_def assms(1-3) arith_ref_flags arith_step)
next
  case RSB
  with ref show ?thesis by (auto simp: HandlerRsb_def assms(1-3) arith_ref_flags arith_step)
next
  case RSC
  with ref show ?thesis by (auto simp: HandlerRsc_def assms(1-3) arith_ref_flags arith_step)
qed

text \<open>
  C11: a logical instruction whose condition holds (MOV, MVN, BIC, EOR, AND, ORR, neither operand
  register the PC) writes the bitwise result to its destination register and nothing else; with
  the S bit N and Z follow the result, C is the carry out of the shifter and V is kept.
\<close>

theorem logical_instructions:
  assumes "EvalCond s (cond instr) = Inr True"
    and "GetAddr1ShifterOperand s instr = Inr (Some so)"
    and "idx_rd instr \<noteq> PC_idx" and "idx_rn instr \<noteq> PC_idx"
    and r: "r = logic_ref op (reg s (idx_rn instr)) (so_value so)"
  shows "\<exists>s'. logic_handler op s instr = Inr (s', PC s + 4)
    \<and> reg s' = (reg s)(idx_rd instr := r)
    \<and> nzcv (cpsr s') = (if addr1_S instr then (sint r < 0, r = 0, so_carry_out so, psr_overflow (cpsr s))
                        else nzcv (cpsr s))
    \<and> same_rest s s'"
  unfolding r
  by (cases op; auto simp: HandlerMov_def HandlerMvn_def HandlerBic_def HandlerEor_def HandlerAnd_def
      HandlerOrr_def assms(1-4) arith_step same_rest_logic_flags FetchReg_def)

lemma compare_handler_flags:
  assumes "EvalCond s (cond instr) = Inr True"
    and "GetAddr1ShifterOperand s instr = Inr (Some so)"
    and "idx_rd instr \<noteq> PC_idx" and "idx_rn instr \<noteq> PC_idx"
  shows "\<exists>s'. compare_handler op s instr = Inr (s', PC s + 4)
    \<and> reg s' = reg s
    \<and> nzcv (cpsr s') = compare_ref op (reg s (idx_rn instr)) so (psr_overflow (cpsr s))
    \<and> same_rest s s'"
  by (cases op; auto simp: HandlerCmp_def HandlerCmn_def HandlerTst_def HandlerTeq_def assms arith_step
      arith_ref_flags nz_of_def same_rest_logic_flags FetchReg_def)

section \<open>Conditions\<close>

text \<open>The conditions, read off the four flags.\<close>

lemma EvalCond_nzcv:
  assumes "nzcv (cpsr s) = (n, z, cy, v)"
  shows "map (EvalCond s) [0, 1, 2, 3, 4, 5, 6, 7, 8, 9, 10, 11, 12, 13, 14] =
    map Inr [z, \<not> z, cy, \<not> cy, n, \<not> n, v, \<not> v, cy \<and> \<not> z, \<not> cy \<or> z, n = v, n \<noteq> v,
             \<not> z \<and> n = v, z \<or> n \<noteq> v, True]"
  using assms by (simp add: EvalCond_def nzcv_def Let_def)

text \<open>The sign of a difference and its overflow decide the signed order.\<close>

lemma signed_less_from_flags:
  "(sint (a - b :: u32) < 0 \<longleftrightarrow> (sint (a - b) \<noteq> sint a - sint b)) \<longleftrightarrow> sint b \<le> sint a"
  "(sint (a - b :: u32) < 0 \<longleftrightarrow> (sint (a - b) = sint a - sint b)) \<longleftrightarrow> \<not> sint b \<le> sint a"
  using uint_u32_bounds [of a] uint_u32_bounds [of b] by (auto simp: u32_arith split: if_splits)

text \<open>
  C12: after a compare, the condition codes EQ, NE, CS, CC, HI, LS, GE, LT, GT and LE hold exactly
  when the operands are equal, different, and in the unsigned or signed order the code names.
\<close>

theorem conditions_after_compare:
  assumes "EvalCond s (cond instr) = Inr True"
    and "GetAddr1ShifterOperand s instr = Inr (Some so)"
    and cmp: "HandlerCmp s instr = Inr (s', pc)"
    and ab: "a = reg s (idx_rn instr)" "b = so_value so"
  shows "map (EvalCond s') [0, 1, 2, 3, 8, 9, 10, 11, 12, 13] =
    map Inr [a = b, a \<noteq> b, b \<le> a, a < b, b < a, a \<le> b,
             sint b \<le> sint a, sint a < sint b, sint b < sint a, sint a \<le> sint b]"
proof -
  have "nzcv (cpsr s') = (sint (a - b) < 0, a - b = 0, b \<le> a, sint (a - b) \<noteq> sint a - sint b)"
    using cmp unfolding overflow_from_sub [symmetric]
    by (auto simp: HandlerCmp_def assms(1,2) ab arith_step)
  moreover have "sint b < sint a \<longleftrightarrow> a \<noteq> b \<and> sint b \<le> sint a" "sint a \<le> sint b \<longleftrightarrow> a = b \<or> \<not> sint b \<le> sint a"
    "sint a < sint b \<longleftrightarrow> \<not> sint b \<le> sint a" "b < a \<longleftrightarrow> b \<le> a \<and> a \<noteq> b" "a \<le> b \<longleftrightarrow> \<not> b \<le> a \<or> a = b"
    "a < b \<longleftrightarrow> \<not> b \<le> a"
    using word_eq_iff_signed [of a b, where 'a = int] by auto
  ultimately show ?thesis
    using EvalCond_nzcv [of s'] signed_less_from_flags [of a b] by simp
qed

lemma example_instrs:
  "EvalCond example_state (cond 0xE1500001) = Inr True"
  "EvalCond example_state (cond 0xE0902001) = Inr True"
  "GetAddr1ShifterOperand example_state 0xE1500001 = Inr (Some \<lparr>so_value = 7, so_carry_out = False\<rparr>)"
  "GetAddr1ShifterOperand example_state 0xE0902001 = Inr (Some \<lparr>so_value = 7, so_carry_out = False\<rparr>)"
  "idx_rn 0xE1500001 = 0" "idx_rn 0xE0902001 = 0" "idx_rd 0xE1500001 = 0" "idx_rd 0xE0902001 = 2"
  "addr1_S 0xE0902001"
  by code_simp+

lemma example_regs: "reg example_state 0 = 5" "reg example_state (Suc 0) = 7" "reg example_state 15 = 0x1000"
  "cpsr example_state = 0" "FetchReg example_state 0 = 5" "PC example_state = 0x1000"
  by (simp_all add: example_state_def FetchReg_def PC_def)

theorem conditions_after_compare_witness:
  "\<exists>s' pc. HandlerCmp example_state 0xE1500001 = Inr (s', pc) \<and>
    map (EvalCond s') [0, 1, 2, 3, 8, 9, 10, 11, 12, 13] =
    map Inr [False, True, False, True, False, True, False, True, False, True]"
proof -
  from compare_handler_flags [OF example_instrs(1,3), of CMP]
  obtain s' where 3: "HandlerCmp example_state 0xE1500001 = Inr (s', 0x1004)"
    by (auto simp: example_instrs example_regs)
  show ?thesis using conditions_after_compare [OF example_instrs(1,3) 3 refl refl] 3
    by (auto simp: example_regs example_instrs)
qed

theorem arithmetic_instructions_witness:
  "\<exists>s'. arith_handler ADD example_state 0xE0902001 = Inr (s', 0x1004)
    \<and> reg s' = (reg example_state)(2 := 12) \<and> nzcv (cpsr s') = (False, False, False, False)"
proof -
  have "idx_rd 0xE0902001 \<noteq> PC_idx" by (simp add: example_instrs)
  moreover have "arith_ref ADD (FetchReg example_state (idx_rn 0xE0902001)) 7 False = (12, False, False)"
    by code_simp
  ultimately show ?thesis
    using arithmetic_instructions [OF example_instrs(2,4), of ADD 12 False False]
    by (auto simp: example_instrs example_regs psr_carry_def BitField_ToBool_def BitField_Value_def)
qed

theorem logical_instructions_witness:
  "\<exists>s'. logic_handler EOR example_state 0xE0902001 = Inr (s', 0x1004)
    \<and> reg s' = (reg example_state)(2 := 2) \<and> nzcv (cpsr s') = (False, False, False, False)"
  using logical_instructions [OF example_instrs(2,4), of 2 EOR]
  by (auto simp: example_instrs example_regs psr_overflow_def BitField_ToBool_def BitField_Value_def)

end
