(* ===== verification/MediaHandlers.thy ===== *)
theory MediaHandlers
  imports AluHandlers
begin

text \<open>
  The media instructions of the interpreter (\<open>interpreter.cpp\<close>): parallel byte arithmetic, select,
  saturation, sign and zero extension, halfword packing, byte reversal, and the count of leading
  zeros. Registers are written in the order of the source, so that a destination which is also a
  source is read after it was overwritten where the code does so.
\<close>

section \<open>Definitions\<close>

definition any_pc :: "nat list \<Rightarrow> bool" where
  "any_pc idxs \<longleftrightarrow> PC_idx \<in> set idxs"

text \<open>\<open>if (!EvalCond(...)) ...; if (instr.idx_... == 15 || ...) return HandlerStubAnnotated(...)\<close>.\<close>

definition media_op :: "(ARMInstr \<Rightarrow> nat list) \<Rightarrow> (arm_state \<Rightarrow> ARMInstr \<Rightarrow> arm_state res) \<Rightarrow> cpu_handler" where
  "media_op regs body s instr = when_cond s instr
    (if any_pc (regs instr) then HandlerStub instr
     else bindE (body s instr) (\<lambda>s1. Inr (s1, NextInstr s1)))"

definition regs_nmd :: "ARMInstr \<Rightarrow> nat list" where
  "regs_nmd instr = [idx_rn instr, idx_rm instr, idx_rd instr]"

definition regs_md :: "ARMInstr \<Rightarrow> nat list" where
  "regs_md instr = [idx_rd instr, idx_rm instr]"

definition set_ge :: "nat \<Rightarrow> bool \<Rightarrow> arm_state \<Rightarrow> arm_state" where
  "set_ge i b s = set_cpsr (BitField_AssignBool (16 + i) b (cpsr s)) s"

definition set_q :: "arm_state \<Rightarrow> arm_state" where
  "set_q s = set_cpsr (BitField_AssignBool 27 True (cpsr s)) s"

text \<open>\<open>static_cast<uint8_t>(v) << shift\<close>: the shifted byte is an \<open>int\<close> again.\<close>

definition byte_lane :: "u32 \<Rightarrow> nat \<Rightarrow> u32" where
  "byte_lane v shift = push_bit shift (ucast (ucast v :: u8))"

definition HandlerUadd8 :: cpu_handler where
  "HandlerUadd8 = media_op regs_nmd (\<lambda>s instr.
     let rn = FetchReg s (idx_rn instr); rm = FetchReg s (idx_rm instr);
         result = byte_lane ((rn AND 0xFF) + (rm AND 0xFF)) 0
               OR byte_lane ((rn AND 0xFF00) + (rm AND 0xFF00)) 8
               OR byte_lane ((rn AND 0xFF0000) + (rm AND 0xFF0000)) 16
               OR byte_lane ((rn AND 0xFF000000) + (rm AND 0xFF000000)) 24
     in Inr (set_ge 3 (GetCarryT8 (ucast (drop_bit 24 rn)) (ucast (drop_bit 24 rm)))
            (set_ge 2 (GetCarryT8 (ucast (drop_bit 16 rn)) (ucast (drop_bit 16 rm)))
            (set_ge 1 (GetCarryT8 (ucast (drop_bit 8 rn)) (ucast (drop_bit 8 rm)))
            (set_ge 0 (GetCarryT8 (ucast rn) (ucast rm))
            (set_reg (idx_rd instr) result s))))))"

definition HandlerUqadd8 :: cpu_handler where
  "HandlerUqadd8 = media_op regs_nmd (\<lambda>s instr.
     let rn = FetchReg s (idx_rn instr); rm = FetchReg s (idx_rm instr);
         result = min 255 ((rn + rm) AND 0xFF)
               OR push_bit 8 (min 255 ((drop_bit 8 rn + drop_bit 8 rm) AND 0xFF))
               OR push_bit 16 (min 255 ((drop_bit 16 rn + drop_bit 16 rm) AND 0xFF))
               OR push_bit 24 (min 255 ((drop_bit 24 rn + drop_bit 24 rm) AND 0xFF))
     in Inr (set_reg (idx_rd instr) result s))"

definition HandlerUhadd8 :: cpu_handler where
  "HandlerUhadd8 = media_op regs_nmd (\<lambda>s instr.
     let rn = FetchReg s (idx_rn instr); rm = FetchReg s (idx_rm instr);
         result = byte_lane (((rn AND 0xFF) + (rm AND 0xFF)) div 2) 0
               OR byte_lane (((rn AND 0xFF00) + (rm AND 0xFF00)) div 2) 8
               OR byte_lane (((rn AND 0xFF0000) + (rm AND 0xFF0000)) div 2) 16
               OR byte_lane (((rn AND 0xFF000000) + (rm AND 0xFF000000)) div 2) 24
     in Inr (set_reg (idx_rd instr) result s))"

text \<open>\<open>ComparisonType\<close> is \<open>int8_t\<close> or \<open>uint8_t\<close>; all four comparisons are assigned to \<open>ge0\<close>.\<close>

definition lane_ge :: "bool \<Rightarrow> u32 \<Rightarrow> u32 \<Rightarrow> nat \<Rightarrow> bool" where
  "lane_ge is_signed rn rm shift =
    (let a = ucast (drop_bit shift rn) :: u8; b = ucast (drop_bit shift rm) :: u8
     in if is_signed then sint b \<le> sint a else b \<le> a)"

definition HandlerXsub8 :: "bool \<Rightarrow> cpu_handler" where
  "HandlerXsub8 is_signed = media_op regs_nmd (\<lambda>s instr.
     let rn = FetchReg s (idx_rn instr); rm = FetchReg s (idx_rm instr);
         result = byte_lane ((rn AND 0xFF) - (rm AND 0xFF)) 0
               OR byte_lane ((rn AND 0xFF00) - (rm AND 0xFF00)) 8
               OR byte_lane ((rn AND 0xFF0000) - (rm AND 0xFF0000)) 16
               OR byte_lane ((rn AND 0xFF000000) - (rm AND 0xFF000000)) 24
     in Inr (set_ge 0 (lane_ge is_signed rn rm 24)
            (set_ge 0 (lane_ge is_signed rn rm 16)
            (set_ge 0 (lane_ge is_signed rn rm 8)
            (set_ge 0 (lane_ge is_signed rn rm 0)
            (set_reg (idx_rd instr) result s))))))"

definition HandlerQsub8 :: cpu_handler where
  "HandlerQsub8 = media_op regs_nmd (\<lambda>s instr.
     let rn = FetchReg s (idx_rn instr); rm = FetchReg s (idx_rm instr);
         result =
           (if (rm AND 0xFF) \<le> (rn AND 0xFF) + 0x80
            then ((rn AND 0xFF) - (rm AND 0xFF)) AND 0xFF else 0)
        OR (if (drop_bit 8 rm AND 0xFF) \<le> (drop_bit 8 rn AND 0xFF) + 0x80
            then ((rn AND 0xFF00) - (rm AND 0xFF00)) AND 0xFF00 else 0)
        OR (if (drop_bit 16 rm AND 0xFF) \<le> (drop_bit 16 rn AND 0xFF) + 0x80
            then ((rn AND 0xFF0000) - (rm AND 0xFF0000)) AND 0xFF0000 else 0)
        OR (if drop_bit 24 rm \<le> drop_bit 24 rn + 0x80
            then ((rn AND 0xFF000000) - (rm AND 0xFF000000)) AND 0xFF000000 else 0)
     in Inr (set_reg (idx_rd instr) result s))"

text \<open>One lane of \<open>UQSUB8\<close>: \<open>if ((rn & m) >= (rm & m)) result |= (rn & m) - (rm & m)\<close>.\<close>

definition uqsub_lane :: "u32 \<Rightarrow> u32 \<Rightarrow> u32 \<Rightarrow> u32" where
  "uqsub_lane m rn rm = (if rm AND m \<le> rn AND m then (rn AND m) - (rm AND m) else 0)"

definition HandlerUqsub8 :: cpu_handler where
  "HandlerUqsub8 = media_op regs_nmd (\<lambda>s instr.
     let rn = FetchReg s (idx_rn instr); rm = FetchReg s (idx_rm instr);
         result = uqsub_lane 0xFF rn rm OR uqsub_lane 0xFF00 rn rm
               OR uqsub_lane 0xFF0000 rn rm OR uqsub_lane 0xFF000000 rn rm
     in Inr (set_reg (idx_rd instr) result s))"

definition HandlerSel :: cpu_handler where
  "HandlerSel = media_op regs_nmd (\<lambda>s instr.
     let rn = reg s (idx_rn instr); rm = reg s (idx_rm instr);
         result = (0xFF AND (if psr_ge0 (cpsr s) then rn else rm))
               OR (0xFF00 AND (if psr_ge1 (cpsr s) then rn else rm))
               OR (0xFF0000 AND (if psr_ge2 (cpsr s) then rn else rm))
               OR (0xFF000000 AND (if psr_ge3 (cpsr s) then rn else rm))
     in Inr (set_reg (idx_rd instr) result s))"

text \<open>\<open>boost::algorithm::clamp<int32_t>\<close>, on the bit patterns of its arguments.\<close>

definition clamp_s32 :: "u32 \<Rightarrow> u32 \<Rightarrow> u32 \<Rightarrow> u32" where
  "clamp_s32 val lo hi = (if sint val < sint lo then lo else if sint hi < sint val then hi else val)"

definition saturate :: "u32 \<Rightarrow> u32 \<Rightarrow> ARMInstr \<Rightarrow> u32 \<Rightarrow> arm_state \<Rightarrow> arm_state" where
  "saturate lo hi instr operand s =
    (let r = clamp_s32 operand lo hi; s1 = set_reg (idx_rd instr) r s
     in if r \<noteq> operand then set_q s1 else s1)"

definition HandlerUsat :: cpu_handler where
  "HandlerUsat = media_op regs_md (\<lambda>s instr.
     bindE (CalcShifterOperand (FetchReg s (idx_rm instr)) (addr1_shift_imm instr) (addr1_shift instr) False)
       (\<lambda>so. Inr (saturate 0 (push_bit (sat_imm instr) 1 - 1) instr (so_value so) s)))"

text \<open>For \<open>sat_imm = 31\<close> the negation of \<open>int32_t { 1 } << 31\<close> overflows.\<close>

definition HandlerSsat :: cpu_handler where
  "HandlerSsat = media_op regs_md (\<lambda>s instr.
     bindE (CalcShifterOperand (FetchReg s (idx_rm instr)) (addr1_shift_imm instr) (addr1_shift instr) False)
       (\<lambda>so. if sat_imm instr = 31 then Inl UndefinedBehaviour
             else Inr (saturate (- push_bit (sat_imm instr) 1) (push_bit (sat_imm instr) 1 - 1)
                         instr (so_value so) s)))"

definition rotated_rm :: "arm_state \<Rightarrow> ARMInstr \<Rightarrow> u32" where
  "rotated_rm s instr = RotateRight (FetchReg s (idx_rm instr)) (8 * uxtb_rotate instr)"

definition sext8 :: "u32 \<Rightarrow> u32" where
  "sext8 v = scast (ucast v :: u8)"

definition sext16 :: "u32 \<Rightarrow> u32" where
  "sext16 v = scast (ucast v :: u16)"

definition HandlerUxtb16 :: cpu_handler where
  "HandlerUxtb16 = media_op regs_md (\<lambda>s instr.
     Inr (set_reg (idx_rd instr) (rotated_rm s instr AND 0xFF00FF) s))"

definition HandlerUxtb :: cpu_handler where
  "HandlerUxtb = media_op regs_md (\<lambda>s instr.
     Inr (set_reg (idx_rd instr) (rotated_rm s instr AND 0xFF) s))"

definition HandlerUxtab :: cpu_handler where
  "HandlerUxtab = media_op regs_md (\<lambda>s instr.
     if idx_rn instr = PC_idx then HandlerStub instr
     else Inr (set_reg (idx_rd instr) (reg s (idx_rn instr) + (rotated_rm s instr AND 0xFF)) s))"

definition HandlerSxtb :: cpu_handler where
  "HandlerSxtb = media_op regs_md (\<lambda>s instr.
     Inr (set_reg (idx_rd instr) (sext8 (rotated_rm s instr AND 0xFF)) s))"

definition HandlerUxtah :: cpu_handler where
  "HandlerUxtah = media_op regs_md (\<lambda>s instr.
     let offset = (if idx_rn instr = 15 then 0 else reg s (idx_rn instr))
     in Inr (set_reg (idx_rd instr) (offset + (rotated_rm s instr AND 0xFFFF)) s))"

definition HandlerSxtab :: cpu_handler where
  "HandlerSxtab = media_op regs_md (\<lambda>s instr.
     if idx_rn instr = 15 then HandlerStub instr
     else Inr (set_reg (idx_rd instr) (reg s (idx_rn instr) + sext8 (rotated_rm s instr)) s))"

definition HandlerSxtah :: cpu_handler where
  "HandlerSxtah = media_op regs_md (\<lambda>s instr.
     let offset = (if idx_rn instr = 15 then 0 else reg s (idx_rn instr))
     in Inr (set_reg (idx_rd instr) (offset + sext16 (rotated_rm s instr)) s))"

definition HandlerPkhbt :: cpu_handler where
  "HandlerPkhbt = media_op regs_nmd (\<lambda>s instr.
     let rd = idx_rd instr;
         s1 = set_reg rd (reg s (idx_rn instr) AND 0xFFFF) s
     in Inr (set_reg rd (reg s1 rd OR
          (push_bit (unat (addr1_shift_imm instr)) (reg s1 (idx_rm instr)) AND 0xFFFF0000)) s1))"

definition HandlerPkhtb :: cpu_handler where
  "HandlerPkhtb = media_op regs_nmd (\<lambda>s instr.
     let rd = idx_rd instr;
         s1 = set_reg rd 0 s
     in bindE (if addr1_shift_imm instr = 0
               then Inr (set_reg rd (reg s1 rd OR (signed_drop_bit 31 (reg s1 (idx_rm instr)) AND 0xFFFF)) s1)
               else bindE (ArithmeticShiftRight (reg s1 (idx_rm instr)) (unat (addr1_shift_imm instr)))
                      (\<lambda>v. Inr (set_reg rd (reg s1 rd OR v) s1)))
          (\<lambda>s2. Inr (set_reg rd (reg s2 rd OR (reg s2 (idx_rn instr) AND 0xFFFF0000)) s2)))"

definition rev_bytes :: "u32 \<Rightarrow> u32" where
  "rev_bytes v =
     (let b0 = v AND 0xFF; b1 = drop_bit 8 v AND 0xFF; b2 = drop_bit 16 v AND 0xFF; b3 = drop_bit 24 v AND 0xFF
      in b3 OR push_bit 8 b2 OR push_bit 16 b1 OR push_bit 24 b0)"

definition rev16_bytes :: "u32 \<Rightarrow> u32" where
  "rev16_bytes v =
     (let b0 = v AND 0xFF; b1 = drop_bit 8 v AND 0xFF; b2 = drop_bit 16 v AND 0xFF; b3 = drop_bit 24 v AND 0xFF
      in (b1 OR push_bit 8 b0) OR push_bit 16 (b3 OR push_bit 8 b2))"

definition HandlerRev :: cpu_handler where
  "HandlerRev = media_op regs_md (\<lambda>s instr. Inr (set_reg (idx_rd instr) (rev_bytes (reg s (idx_rm instr))) s))"

definition HandlerRev16 :: cpu_handler where
  "HandlerRev16 = media_op regs_md (\<lambda>s instr. Inr (set_reg (idx_rd instr) (rev16_bytes (reg s (idx_rm instr))) s))"

text \<open>The loop of \<open>HandlerClz\<close>: \<open>while (rm != 0) { rm >>= 1; --rd; }\<close>.\<close>

function clz_loop :: "u32 \<Rightarrow> u32 \<Rightarrow> u32" where
  "clz_loop rm rd = (if rm \<noteq> 0 then clz_loop (drop_bit 1 rm) (rd - 1) else rd)"
  by pat_completeness auto

lemma drop_bit_1_less: "(w :: u32) \<noteq> 0 \<Longrightarrow> unat (drop_bit (Suc 0) w) < unat w"
  by (simp add: drop_bit_eq_div unat_div unat_gt_0)

termination clz_loop
  by (relation "measure (\<lambda>(rm, _). unat rm)") (simp_all add: drop_bit_1_less)

declare clz_loop.simps [simp del]

definition HandlerClz :: cpu_handler where
  "HandlerClz = media_op regs_md (\<lambda>s instr.
     Inr (set_reg (idx_rd instr) (clz_loop (FetchReg s (idx_rm instr)) 32) s))"

section \<open>Running a media instruction\<close>

lemma media_op_ok:
  assumes "EvalCond s (cond instr) = Inr True" and "PC_idx \<notin> set (regs instr)"
  shows "media_op regs body s instr = bindE (body s instr) (\<lambda>s1. Inr (s1, NextInstr s1))"
  using assms by (simp add: media_op_def when_cond_True any_pc_def)

lemma regs_simps [simp]: "set (regs_md instr) = {idx_rd instr, idx_rm instr}"
  "set (regs_nmd instr) = {idx_rn instr, idx_rm instr, idx_rd instr}"
  by (auto simp: regs_md_def regs_nmd_def)

lemma NextInstr_set_reg [simp]: "i \<noteq> 15 \<Longrightarrow> NextInstr (set_reg i v s) = PC s + 4"
  by (simp add: NextInstr_def PC_def)

section \<open>Count leading zeros\<close>

text \<open>The number of significant bits: the least \<open>n\<close> such that every set bit is below \<open>n\<close>.\<close>

lemma clz_loop_bits:
  "n \<le> 32 \<Longrightarrow> (\<forall>i\<ge>n. \<not> bit rm i) \<Longrightarrow> (0 < n \<longrightarrow> bit rm (n - 1)) \<Longrightarrow> clz_loop rm rd = rd - of_nat n"
proof (induction rm rd arbitrary: n rule: clz_loop.induct)
  case (1 rm rd)
  show ?case
  proof (cases n)
    case 0
    then have "rm = 0" using 1(3) by (intro bit_word_eqI) simp
    then show ?thesis using 0 by (simp add: clz_loop.simps)
  next
    case (Suc m)
    then have "rm \<noteq> 0" using 1 by auto
    moreover have "clz_loop (drop_bit 1 rm) (rd - 1) = rd - 1 - of_nat m"
      using 1 \<open>rm \<noteq> 0\<close> Suc by (intro 1(1)) (auto simp: bit_drop_bit_eq)
    ultimately show ?thesis using Suc by (simp add: clz_loop.simps [of rm])
  qed
qed

lemma significant_bits: "\<exists>n\<le>m. (\<forall>i. n \<le> i \<and> i < m \<longrightarrow> \<not> bit (v :: u32) i) \<and> (0 < n \<longrightarrow> bit v (n - 1))"
proof (induction m)
  case (Suc m)
  then obtain n where n: "n \<le> m" "\<forall>i. n \<le> i \<and> i < m \<longrightarrow> \<not> bit v i" "0 < n \<longrightarrow> bit v (n - 1)" by blast
  show ?case
  proof (cases "bit v m")
    case True
    then show ?thesis by (intro exI [of _ "Suc m"]) auto
  next
    case False
    with n show ?thesis by (intro exI [of _ n]) (auto simp: less_Suc_eq)
  qed
qed simp

lemma clz_loop_correct:
  defines "n \<equiv> \<lambda>v. unat (clz_loop v 32)"
  shows "n v \<le> 32 \<and> (\<forall>i < n v. \<not> bit v (31 - i)) \<and> (n v < 32 \<longrightarrow> bit v (31 - n v))"
proof -
  obtain k where k: "k \<le> 32" "\<forall>i\<ge>k. \<not> bit v i" "0 < k \<longrightarrow> bit v (k - 1)"
    using significant_bits [of 32 v] bit_imp_le_length [of v] by fastforce
  then have "clz_loop v 32 = of_nat (32 - k)" by (simp add: clz_loop_bits of_nat_diff)
  then have "n v = 32 - k" unfolding n_def by (simp only: unsigned_of_nat) (simp add: take_bit_nat_eq_self)
  with k show ?thesis by (auto simp: Suc_diff_le)
qed

text \<open>
  CLZ terminates for every operand and writes the number of leading zero bits of its operand:
  that many bits from the top are clear, and the next one is set unless the operand is zero.
\<close>

theorem clz_counts_leading_zeros:
  assumes "EvalCond s (cond instr) = Inr True" and "idx_rd instr \<noteq> PC_idx" and "idx_rm instr \<noteq> PC_idx"
  shows "\<exists>n \<le> 32. HandlerClz s instr = Inr (set_reg (idx_rd instr) (of_nat n) s, PC s + 4)
    \<and> (\<forall>i < n. \<not> bit (reg s (idx_rm instr)) (31 - i))
    \<and> (n < 32 \<longrightarrow> bit (reg s (idx_rm instr)) (31 - n))"
  using assms clz_loop_correct [of "reg s (idx_rm instr)"]
  by (intro exI [of _ "unat (clz_loop (reg s (idx_rm instr)) 32)"])
    (auto simp: HandlerClz_def media_op_ok FetchReg_def)

theorem clz_counts_leading_zeros_witness:
  "\<exists>n \<le> 32. HandlerClz example_state 0xE16F2F11 = Inr (set_reg 2 (of_nat n) example_state, 0x1004)
    \<and> (\<forall>i < n. \<not> bit (7 :: u32) (31 - i)) \<and> (n < 32 \<longrightarrow> bit (7 :: u32) (31 - n))"
proof -
  have 1: "EvalCond example_state (cond 0xE16F2F11) = Inr True" by code_simp
  have idx: "idx_rd 0xE16F2F11 = 2" "idx_rm 0xE16F2F11 = 1" by code_simp+
  show ?thesis using clz_counts_leading_zeros [OF 1] by (simp add: idx example_regs)
qed

section \<open>Byte reversal\<close>

lemma bit_rev_bytes:
  "i < 4 \<Longrightarrow> j < 8 \<Longrightarrow> bit (rev_bytes v) (8 * i + j) \<longleftrightarrow> bit v (8 * (3 - i) + j)"
  "i < 4 \<Longrightarrow> j < 8 \<Longrightarrow> bit (rev16_bytes v) (8 * i + j) \<longleftrightarrow> bit v (8 * (if even i then i + 1 else i - 1) + j)"
proof -
  have ff: "bit (0xFF :: u32) n \<longleftrightarrow> n < 8" for n
  proof -
    have "(0xFF :: u32) = mask 8" by (simp add: mask_numeral)
    then have "bit (0xFF :: u32) n \<longleftrightarrow> bit (mask 8 :: u32) n" by (simp only:)
    then show ?thesis by (simp only: bit_mask_iff) auto
  qed
  assume "i < 4" "j < 8"
  then consider "i = 0" | "i = 1" | "i = 2" | "i = 3" by linarith
  then show "bit (rev_bytes v) (8 * i + j) \<longleftrightarrow> bit v (8 * (3 - i) + j)"
    using \<open>j < 8\<close> unfolding rev_bytes_def Let_def
    by cases (simp_all only: bit_or_iff bit_and_iff bit_push_bit_iff bit_drop_bit_eq ff o_apply,
        simp_all add: not_le)
  from \<open>i < 4\<close> consider "i = 0" | "i = 1" | "i = 2" | "i = 3" by linarith
  then show "bit (rev16_bytes v) (8 * i + j) \<longleftrightarrow> bit v (8 * (if even i then i + 1 else i - 1) + j)"
    using \<open>j < 8\<close> unfolding rev16_bytes_def Let_def
    by cases (simp_all only: bit_or_iff bit_and_iff bit_push_bit_iff bit_drop_bit_eq ff o_apply,
        simp_all add: not_le)
qed

lemma rev_bytes_involution: "rev_bytes (rev_bytes v) = v" "rev16_bytes (rev16_bytes v) = v"
proof -
  have idx: "n = 8 * (n div 8) + n mod 8" "n div 8 < 4" "n mod 8 < 8" if "n < 32" for n :: nat
    using that by auto
  show "rev_bytes (rev_bytes v) = v"
  proof (rule bit_word_eqI)
    fix n assume "n < LENGTH(32)"
    then show "bit (rev_bytes (rev_bytes v)) n \<longleftrightarrow> bit v n"
      using bit_rev_bytes(1) [of "n div 8" "n mod 8" "rev_bytes v"]
        bit_rev_bytes(1) [of "3 - n div 8" "n mod 8" v] idx [of n] by simp
  qed
  show "rev16_bytes (rev16_bytes v) = v"
  proof (rule bit_word_eqI)
    fix n assume "n < LENGTH(32)"
    then have n: "n div 8 < 4" by auto
    let ?k = "if even (n div 8) then n div 8 + 1 else n div 8 - 1"
    have "?k < 4" "(if even ?k then ?k + 1 else ?k - 1) = n div 8" using n by (auto elim!: oddE)
    with n \<open>n < LENGTH(32)\<close> show "bit (rev16_bytes (rev16_bytes v)) n \<longleftrightarrow> bit v n"
      using bit_rev_bytes(2) [of "n div 8" "n mod 8" "rev16_bytes v"]
        bit_rev_bytes(2) [of ?k "n mod 8" v] idx [of n] by simp
  qed
qed

text \<open>
  REV and REV16 write a byte permutation of their operand, the four bytes in reverse order and
  the bytes of either halfword swapped, change nothing else, and undo themselves when run twice.
\<close>

theorem byte_reversal:
  assumes "EvalCond s (cond instr) = Inr True" and "idx_rd instr \<noteq> PC_idx" and "idx_rm instr \<noteq> PC_idx"
  shows "\<exists>r q. HandlerRev s instr = Inr (set_reg (idx_rd instr) r s, PC s + 4)
    \<and> HandlerRev16 s instr = Inr (set_reg (idx_rd instr) q s, PC s + 4)
    \<and> (\<forall>i<4. take_bit 8 (drop_bit (8 * i) r) = take_bit 8 (drop_bit (8 * (3 - i)) (reg s (idx_rm instr)))
         \<and> take_bit 8 (drop_bit (8 * i) q)
           = take_bit 8 (drop_bit (8 * (if even i then i + 1 else i - 1)) (reg s (idx_rm instr))))
    \<and> rev_bytes r = reg s (idx_rm instr) \<and> rev16_bytes q = reg s (idx_rm instr)"
proof -
  let ?v = "reg s (idx_rm instr)"
  have "take_bit 8 (drop_bit (8 * i) (rev_bytes ?v)) = take_bit 8 (drop_bit (8 * (3 - i)) ?v)"
    "take_bit 8 (drop_bit (8 * i) (rev16_bytes ?v))
      = take_bit 8 (drop_bit (8 * (if even i then i + 1 else i - 1)) ?v)" if "i < 4" for i
    using bit_rev_bytes [OF that, of _ ?v]
    by (intro bit_word_eqI; auto simp: bit_take_bit_iff bit_drop_bit_eq add.commute)+
  then show ?thesis
    using assms rev_bytes_involution
    by (intro exI [of _ "rev_bytes ?v"] exI [of _ "rev16_bytes ?v"])
      (simp add: HandlerRev_def HandlerRev16_def media_op_ok)
qed

theorem byte_reversal_witness:
  "\<exists>r q. HandlerRev example_state 0xE6BF2F30 = Inr (set_reg 2 r example_state, 0x1004)
    \<and> HandlerRev16 example_state 0xE6BF2F30 = Inr (set_reg 2 q example_state, 0x1004)
    \<and> rev_bytes r = 5 \<and> rev16_bytes q = 5"
proof -
  have 1: "EvalCond example_state (cond 0xE6BF2F30) = Inr True" by code_simp
  have idx: "idx_rd 0xE6BF2F30 = 2" "idx_rm 0xE6BF2F30 = 0" by code_simp+
  have "2 \<noteq> PC_idx" "0 \<noteq> PC_idx" by simp_all
  from byte_reversal [OF 1, unfolded idx, OF this] show ?thesis
    by (auto simp: example_regs)
qed

section \<open>Saturation\<close>

lemma sint_word_of_int_u32:
  "- 2147483648 \<le> k \<Longrightarrow> k < 2147483648 \<Longrightarrow> sint (word_of_int k :: u32) = k"
  by (simp add: signed_of_int signed_take_bit_int_eq_self)

lemma sint_pow2: "n < 31 \<Longrightarrow> sint (push_bit n 1 - 1 :: u32) = 2 ^ n - 1"
  "n < 31 \<Longrightarrow> sint (- push_bit n 1 :: u32) = - (2 ^ n)"
proof -
  assume "n < 31"
  then have "(2 :: int) ^ n < 2 ^ 31" by (intro power_strict_increasing) auto
  then have less: "(2 :: int) ^ n < 2147483648" by simp
  have pos: "(0 :: int) < 2 ^ n" by simp
  have *: "(push_bit n 1 - 1 :: u32) = word_of_int (2 ^ n - 1)" "(- push_bit n 1 :: u32) = word_of_int (- (2 ^ n))"
    by (simp_all add: push_bit_eq_mult)
  show "sint (push_bit n 1 - 1 :: u32) = 2 ^ n - 1" "sint (- push_bit n 1 :: u32) = - (2 ^ n)"
    unfolding * using less pos
    by (intro sint_word_of_int_u32; linarith)+
qed

lemma clamp_s32_eq:
  "sint lo \<le> sint hi \<Longrightarrow> sint (clamp_s32 v lo hi) = max (sint lo) (min (sint hi) (sint v))"
  by (auto simp: clamp_s32_def)

lemma psr_q_set_q [simp]: "psr_q (cpsr (set_q s))" "reg (set_q s) = reg s"
  by (simp_all add: set_q_def psr_q_def bit_BitField_AssignBool)

lemma reg_saturate: "reg (saturate lo hi instr v s) = (reg s)(idx_rd instr := clamp_s32 v lo hi)"
  by (simp add: saturate_def Let_def)

lemma saturate_props:
  assumes "sint lo \<le> sint hi"
  shows "sint (reg (saturate lo hi instr v s) (idx_rd instr)) = max (sint lo) (min (sint hi) (sint v))"
    and "psr_q (cpsr (saturate lo hi instr v s)) \<longleftrightarrow> psr_q (cpsr s) \<or> \<not> (sint lo \<le> sint v \<and> sint v \<le> sint hi)"
    and "i \<noteq> idx_rd instr \<Longrightarrow> reg (saturate lo hi instr v s) i = reg s i"
proof -
  have "clamp_s32 v lo hi = v \<longleftrightarrow> sint (clamp_s32 v lo hi) = sint v" by (auto simp: word_eq_iff_signed)
  then show "psr_q (cpsr (saturate lo hi instr v s)) \<longleftrightarrow> psr_q (cpsr s) \<or> \<not> (sint lo \<le> sint v \<and> sint v \<le> sint hi)"
    using assms by (auto simp: saturate_def Let_def clamp_s32_eq)
qed (use assms in \<open>simp_all add: reg_saturate clamp_s32_eq\<close>)

text \<open>
  C38: USAT and SSAT write the shifted operand, read signed, clamped to \<open>[0, 2^n - 1]\<close> and to
  \<open>[- 2^n, 2^n - 1]\<close> (for \<open>n < 31\<close>), and set the sticky flag Q exactly when the operand was out of range.
\<close>

theorem saturation:
  assumes "EvalCond s (cond instr) = Inr True" and "idx_rd instr \<noteq> PC_idx" and "idx_rm instr \<noteq> PC_idx"
    and "CalcShifterOperand (reg s (idx_rm instr)) (addr1_shift_imm instr) (addr1_shift instr) False = Inr so"
    and n: "n = sat_imm instr" "n < 31"
    and v: "v = sint (so_value so)"
  shows "(\<exists>s'. HandlerUsat s instr = Inr (s', PC s + 4)
      \<and> sint (reg s' (idx_rd instr)) = max 0 (min (2 ^ n - 1) v)
      \<and> (psr_q (cpsr s') \<longleftrightarrow> psr_q (cpsr s) \<or> v \<notin> {0 .. 2 ^ n - 1}))
    \<and> (\<exists>s'. HandlerSsat s instr = Inr (s', PC s + 4)
      \<and> sint (reg s' (idx_rd instr)) = max (- (2 ^ n)) (min (2 ^ n - 1) v)
      \<and> (psr_q (cpsr s') \<longleftrightarrow> psr_q (cpsr s) \<or> v \<notin> {- (2 ^ n) .. 2 ^ n - 1}))"
proof -
  have pc: "NextInstr (saturate lo hi instr w s) = PC s + 4" if "sint lo \<le> sint hi" for lo hi w
    using saturate_props(3) [OF that, of 15 instr w s] assms(2) by (simp add: NextInstr_def PC_def)
  note run = media_op_ok [OF assms(1)] FetchReg_def assms(2-4) n(1) [symmetric]
  have lo: "sint (0 :: u32) \<le> sint (push_bit n 1 - 1 :: u32)"
    and slo: "sint (- push_bit n 1 :: u32) \<le> sint (push_bit n 1 - 1 :: u32)"
    using n(2) by (simp_all only: sint_pow2) simp_all
  have "\<exists>s'. HandlerUsat s instr = Inr (s', PC s + 4)
      \<and> sint (reg s' (idx_rd instr)) = max 0 (min (2 ^ n - 1) v)
      \<and> (psr_q (cpsr s') \<longleftrightarrow> psr_q (cpsr s) \<or> v \<notin> {0 .. 2 ^ n - 1})"
    using saturate_props(1,2) [OF lo, of instr "so_value so" s] pc [OF lo, of "so_value so"] assms(2,3)
    by (simp add: HandlerUsat_def run sint_pow2 [OF n(2)] v del: push_bit_of_1)
  moreover have "\<exists>s'. HandlerSsat s instr = Inr (s', PC s + 4)
      \<and> sint (reg s' (idx_rd instr)) = max (- (2 ^ n)) (min (2 ^ n - 1) v)
      \<and> (psr_q (cpsr s') \<longleftrightarrow> psr_q (cpsr s) \<or> v \<notin> {- (2 ^ n) .. 2 ^ n - 1})"
    using saturate_props(1,2) [OF slo, of instr "so_value so" s] pc [OF slo, of "so_value so"] assms(2,3) n(2)
    by (simp add: HandlerSsat_def run sint_pow2 [OF n(2)] v del: push_bit_of_1)
  ultimately show ?thesis by blast
qed

text \<open>\<open>USAT r2, #2, r1\<close> (and the same fields for SSAT): 7 is clamped to 3.\<close>

theorem saturation_witness:
  "\<exists>s'. HandlerUsat example_state 0xE6E22011 = Inr (s', 0x1004) \<and> sint (reg s' 2) = 3 \<and> psr_q (cpsr s')"
proof -
  have 1: "EvalCond example_state (cond 0xE6E22011) = Inr True" by code_simp
  have idx: "idx_rd 0xE6E22011 = 2" "idx_rm 0xE6E22011 = 1" "sat_imm 0xE6E22011 = 2" by code_simp+
  have so: "CalcShifterOperand 7 (addr1_shift_imm 0xE6E22011) (addr1_shift 0xE6E22011) False
      = Inr \<lparr>so_value = 7, so_carry_out = False\<rparr>" by code_simp
  have "2 \<noteq> PC_idx" "1 \<noteq> PC_idx" "(2 :: nat) < 31" by simp_all
  from saturation [OF 1, unfolded idx, OF this(1,2) _ refl this(3) refl,
      of "\<lparr>so_value = 7, so_carry_out = False\<rparr>"] so show ?thesis
    by (auto simp: example_regs)
qed

section \<open>Parallel additions\<close>

text \<open>
  UADD8 adds only the lowest of the four bytes: the upper lanes are truncated before they are
  shifted down, so the destination always holds the low byte of the sum and zeros above it.
\<close>

theorem uadd8_upper_lanes_lost:
  assumes "EvalCond s (cond instr) = Inr True"
    and "idx_rn instr \<noteq> PC_idx" and "idx_rm instr \<noteq> PC_idx" and "idx_rd instr \<noteq> PC_idx"
  shows "\<exists>s'. HandlerUadd8 s instr = Inr (s', PC s + 4)
    \<and> reg s' = (reg s)(idx_rd instr := take_bit 8 (reg s (idx_rn instr) + reg s (idx_rm instr)))"
proof -
  have lane: "byte_lane v n = push_bit n (take_bit 8 v)" for v n
  proof -
    have "ucast (ucast v :: u8) = take_bit 8 v" by (rule bit_word_eqI) (auto simp: bit_simps)
    then show ?thesis by (simp only: byte_lane_def)
  qed
  have sum: "take_bit 8 (a + b) = take_bit 8 (take_bit 8 a + take_bit 8 b)" for a b :: u32
  proof -
    have add: "uint (x + y) = take_bit 32 (uint x + uint y)" for x y :: u32
      by (simp add: uint_word_ariths take_bit_eq_mod)
    have "uint (take_bit 8 (a + b)) = uint (take_bit 8 (take_bit 8 a + take_bit 8 b))"
      by (simp only: unsigned_take_bit_eq add take_bit_take_bit min.absorb1 take_bit_add)
    then show ?thesis by (simp only: word_uint_eq_iff)
  qed
  have z: "byte_lane ((a AND m) + (b AND m)) n = 0" if "take_bit 8 m = 0" for a b m n
    using that unfolding lane by (subst sum) (simp only: take_bit_and, simp)
  have low: "byte_lane ((a AND 0xFF) + (b AND 0xFF)) 0 = take_bit 8 (a + b)" for a b
  proof -
    have "(0xFF :: u32) = mask 8" by (simp add: mask_numeral)
    then have "a AND 0xFF = take_bit 8 a" "b AND 0xFF = take_bit 8 b" by (simp_all only: take_bit_eq_mask)
    then show ?thesis unfolding lane by (simp only: push_bit_0_id id_apply sum [of a b])
  qed
  have m: "take_bit 8 (0xFF00 :: u32) = 0" "take_bit 8 (0xFF0000 :: u32) = 0" "take_bit 8 (0xFF000000 :: u32) = 0"
    by simp_all
  have pc: "PC_idx \<notin> set (regs_nmd instr)" using assms by simp
  have ge: "reg (set_ge i b t) = reg t" "NextInstr (set_ge i b t) = NextInstr t" for i b t
    by (simp_all add: set_ge_def NextInstr_def PC_def)
  show ?thesis
    unfolding HandlerUadd8_def media_op_ok [where regs = regs_nmd, OF assms(1) pc]
    by (simp only: Let_def bindE_simps ge low z [OF m(1)] z [OF m(2)] z [OF m(3)])
      (simp add: ge FetchReg_def assms)
qed

theorem uadd8_upper_lanes_lost_witness:
  "\<exists>s'. HandlerUadd8 (set_reg 0 0x01010105 example_state) 0xE6502F91 = Inr (s', 0x1004) \<and> reg s' 2 = 12"
proof -
  have 1: "EvalCond (set_reg 0 0x01010105 example_state) (cond 0xE6502F91) = Inr True" by code_simp
  have idx: "idx_rd 0xE6502F91 = 2" "idx_rm 0xE6502F91 = 1" "idx_rn 0xE6502F91 = 0" by code_simp+
  show ?thesis using uadd8_upper_lanes_lost [OF 1] by (auto simp: idx example_regs PC_def)
qed

end
