(* ===== verification/MulHandlers.thy ===== *)
theory MulHandlers
  imports AluHandlers
begin

text \<open>
  The multiplications of the interpreter (\<open>interpreter.cpp\<close>): 32-bit, 64-bit and halfword multiplies
  with their accumulating variants, and the sub-dispatcher \<open>Handler00x0\<close>. A C++ product or sum of
  signed integers that leaves the type's range is undefined behaviour.
\<close>

section \<open>Definitions\<close>

definition HandlerMul :: cpu_handler where
  "HandlerMul s instr = when_cond s instr
    (if idx_rd instr = PC_idx then HandlerStub instr
     else let result = FetchReg s (idx_rm instr) * FetchReg s (idx_rs instr);
              s1 = set_reg (idx_rn instr) result s;
              s2 = (if addr1_S instr then UpdateCPSR_Z result (UpdateCPSR_N result s1) else s1)
          in Inr (s2, NextInstr s2))"

definition HandlerMla :: cpu_handler where
  "HandlerMla s instr = when_cond s instr
    (if idx_rd instr = PC_idx then HandlerStub instr
     else let result = FetchReg s (idx_rm instr) * FetchReg s (idx_rs instr) + FetchReg s (idx_rd instr);
              s1 = set_reg (idx_rn instr) result s;
              s2 = (if addr1_S instr then UpdateCPSR_Z result (UpdateCPSR_N result s1) else s1)
          in Inr (s2, NextInstr s2))"

text \<open>
  \<open>static_cast<int16_t>(static_cast<uint16_t>(value >> shift))\<close>, converted to \<open>int32_t\<close>. The shift of
  the first operand is 0 or 16, the one of the second is a \<open>bool\<close>.
\<close>

definition halfword_operand :: "u32 \<Rightarrow> nat \<Rightarrow> u32" where
  "halfword_operand value shift = scast (ucast (drop_bit shift value) :: u16)"

definition smul_input1 :: "arm_state \<Rightarrow> ARMInstr \<Rightarrow> u32" where
  "smul_input1 s instr =
    halfword_operand (FetchReg s (idx_rm instr)) (16 * unat (BitField_Value 5 1 instr))"

definition smul_input2 :: "arm_state \<Rightarrow> ARMInstr \<Rightarrow> u32" where
  "smul_input2 s instr =
    halfword_operand (FetchReg s (idx_rs instr)) (of_bool (BitField_ToBool 6 instr))"

definition HandlerSmulxx :: cpu_handler where
  "HandlerSmulxx s instr = when_cond s instr
    (if idx_rn instr = 15 \<or> idx_rs instr = 15 \<or> idx_rm instr = 15 then HandlerStub instr
     else let s1 = set_reg (idx_rn instr) (smul_input1 s instr * smul_input2 s instr) s
          in Inr (s1, NextInstr s1))"

definition HandlerUmaal :: cpu_handler where
  "HandlerUmaal s instr = when_cond s instr
    (if idx_rm instr = 15 \<or> idx_rs instr = 15 \<or> idx_rd instr = 15 \<or> idx_rn instr = 15
     then HandlerStub instr
     else if idx_rd instr = idx_rn instr then HandlerStub instr
     else let result = (ucast (FetchReg s (idx_rs instr)) :: u64) * ucast (FetchReg s (idx_rm instr))
                         + ucast (reg s (idx_rd instr)) + ucast (reg s (idx_rn instr));
              s1 = set_reg (idx_rn instr) (ucast (drop_bit 32 result))
                     (set_reg (idx_rd instr) (ucast (result AND 0xFFFFFFFF)) s)
          in Inr (s1, NextInstr s1))"

text \<open>The common end of the long multiplies: write both halves, then N and Z of the 64-bit result.\<close>

definition store_long :: "ARMInstr \<Rightarrow> u64 \<Rightarrow> arm_state \<Rightarrow> arm_state" where
  "store_long instr result s =
    (let s1 = set_reg (idx_rn instr) (ucast (drop_bit 32 result))
                (set_reg (idx_rd instr) (ucast (result AND 0xFFFFFFFF)) s)
     in if addr1_S instr
        then UpdateCPSR_Z (reg s1 (idx_rd instr) OR reg s1 (idx_rn instr))
               (UpdateCPSR_N (reg s1 (idx_rn instr)) s1)
        else s1)"

definition HandlerSmull :: cpu_handler where
  "HandlerSmull s instr = when_cond s instr
    (if idx_rd instr = 15 \<or> idx_rn instr = 15 then HandlerStub instr
     else if idx_rd instr = idx_rn instr then HandlerStub instr
     else let s1 = store_long instr
                ((scast (FetchReg s (idx_rs instr)) :: u64) * scast (FetchReg s (idx_rm instr))) s
          in Inr (s1, NextInstr s1))"

definition HandlerUmull :: cpu_handler where
  "HandlerUmull s instr = when_cond s instr
    (if idx_rd instr = 15 \<or> idx_rn instr = 15 then HandlerStub instr
     else if idx_rd instr = idx_rn instr then HandlerStub instr
     else let s1 = store_long instr
                ((ucast (FetchReg s (idx_rs instr)) :: u64) * ucast (FetchReg s (idx_rm instr))) s
          in Inr (s1, NextInstr s1))"

text \<open>
  \<open>input1 * input2 + static_cast<int32_t>(rd)\<close> is computed as \<open>int\<close>: when the sum leaves the range, the
  behaviour is undefined before the overflow is tested for.
\<close>

definition HandlerSmlaxx :: cpu_handler where
  "HandlerSmlaxx s instr = when_cond s instr
    (if idx_rd instr = 15 \<or> idx_rn instr = 15 \<or> idx_rs instr = 15 \<or> idx_rm instr = 15
     then HandlerStub instr
     else let product = smul_input1 s instr * smul_input2 s instr;
              acc = FetchReg s (idx_rd instr);
              result = product + acc
          in if sint result \<noteq> sint product + sint acc then Inl UndefinedBehaviour
             else let s1 = (if GetOverflowFromAdd product acc result
                            then set_cpsr (BitField_AssignBool 27 True (cpsr s)) s else s);
                      s2 = set_reg (idx_rn instr) result s1
                  in Inr (s2, NextInstr s2))"

definition HandlerSmlal :: cpu_handler where
  "HandlerSmlal s instr = when_cond s instr
    (if idx_rd instr = 15 \<or> idx_rn instr = 15 then HandlerStub instr
     else if idx_rd instr = idx_rn instr then HandlerStub instr
     else let s1 = store_long instr
                ((scast (FetchReg s (idx_rs instr)) :: u64) * scast (FetchReg s (idx_rm instr))
                  + ucast (reg s (idx_rd instr)) + push_bit 32 (ucast (reg s (idx_rn instr)))) s
          in Inr (s1, NextInstr s1))"

definition HandlerUmlal :: cpu_handler where
  "HandlerUmlal s instr = when_cond s instr
    (if idx_rd instr = 15 \<or> idx_rn instr = 15 then HandlerStub instr
     else if idx_rd instr = idx_rn instr then HandlerStub instr
     else let s1 = store_long instr
                ((ucast (FetchReg s (idx_rs instr)) :: u64) * ucast (FetchReg s (idx_rm instr))
                  + ucast (reg s (idx_rd instr)) + push_bit 32 (ucast (reg s (idx_rn instr)))) s
          in Inr (s1, NextInstr s1))"

definition Handler00x0 :: cpu_handler where
  "Handler00x0 s instr =
    (if instr AND 0xFE000F0 = 0x0200090 then HandlerMla s instr
     else if instr AND 0xFF000F0 = 0x0400090 then HandlerUmaal s instr
     else if instr AND 0xFE000F0 = 0x0C00090 then HandlerSmull s instr
     else if instr AND 0xFE000F0 = 0x0E00090 then HandlerSmlal s instr
     else if instr AND 0xFE000F0 = 0x0800090 then HandlerUmull s instr
     else if instr AND 0xFE000F0 = 0x0A00090 then HandlerUmlal s instr
     else HandlerStub instr)"

text \<open>The 64-bit value of a pair of registers.\<close>

definition reg_pair :: "arm_state \<Rightarrow> nat \<Rightarrow> nat \<Rightarrow> int" where
  "reg_pair s lo hi = uint (reg s lo) + 2 ^ 32 * uint (reg s hi)"

section \<open>Halves of a 64-bit word\<close>

lemma uint_low_half: "uint (ucast (w AND 0xFFFFFFFF) :: u32) = uint (w :: u64) mod 4294967296"
proof -
  have "(0xFFFFFFFF :: u64) = mask 32" by (simp add: mask_numeral)
  then have "w AND 0xFFFFFFFF = take_bit 32 w" by (simp only: take_bit_eq_mask)
  then show ?thesis by (simp add: unsigned_ucast_eq take_bit_eq_mod uint_mod)
qed

lemma uint_high_half: "uint (ucast (drop_bit 32 w) :: u32) = uint (w :: u64) div 4294967296"
proof -
  have less: "uint w < 2 ^ 64" using uint_lt2p [of w] by simp
  then have "uint w div 2 ^ 32 < 2 ^ 32" by simp
  then have "take_bit 32 (uint w div 2 ^ 32) = uint w div 2 ^ 32"
    by (intro take_bit_int_eq_self) (simp_all add: pos_imp_zdiv_nonneg_iff)
  moreover have "uint (ucast (drop_bit 32 w) :: u32) = take_bit 32 (uint w div 2 ^ 32)"
    by (simp only: unsigned_ucast_eq unsigned_drop_bit_eq drop_bit_eq_div) (simp add: uint_div)
  ultimately show ?thesis by simp
qed

lemma reg_pair_halves:
  assumes "lo \<noteq> hi"
  shows "reg_pair (set_reg hi (ucast (drop_bit 32 w)) (set_reg lo (ucast (w AND 0xFFFFFFFF)) s)) lo hi
    = uint (w :: u64)"
  using assms div_mult_mod_eq [of "uint w" 4294967296]
  by (simp add: reg_pair_def uint_low_half uint_high_half)

section \<open>Long multiplications\<close>

datatype long_op = UMULL | UMLAL | SMULL | SMLAL

fun long_handler :: "long_op \<Rightarrow> cpu_handler" where
  "long_handler UMULL = HandlerUmull"
| "long_handler UMLAL = HandlerUmlal"
| "long_handler SMULL = HandlerSmull"
| "long_handler SMLAL = HandlerSmlal"

text \<open>The mathematical result: a product of the operands, plus the old pair for the accumulating forms.\<close>

fun long_ref :: "long_op \<Rightarrow> u32 \<Rightarrow> u32 \<Rightarrow> int \<Rightarrow> int" where
  "long_ref UMULL a b acc = uint a * uint b"
| "long_ref UMLAL a b acc = uint a * uint b + acc"
| "long_ref SMULL a b acc = sint a * sint b"
| "long_ref SMLAL a b acc = sint a * sint b + acc"

lemma store_long_regs:
  assumes "idx_rd instr \<noteq> idx_rn instr" "idx_rd instr \<noteq> 15" "idx_rn instr \<noteq> 15"
  shows "reg_pair (store_long instr w s) (idx_rd instr) (idx_rn instr) = uint w"
    and "i \<noteq> idx_rd instr \<Longrightarrow> i \<noteq> idx_rn instr \<Longrightarrow> reg (store_long instr w s) i = reg s i"
    and "same_rest s (store_long instr w s)"
  using reg_pair_halves [OF assms(1), of w s] assms
  by (auto simp: store_long_def Let_def reg_pair_def same_rest_flags)

lemma store_long_zero:
  "idx_rd instr \<noteq> idx_rn instr \<Longrightarrow>
    reg (store_long instr w s) (idx_rd instr) OR reg (store_long instr w s) (idx_rn instr) = 0
    \<longleftrightarrow> w = 0"
proof -
  assume ne: "idx_rd instr \<noteq> idx_rn instr"
  have "w = 0 \<longleftrightarrow> uint w = 0" by (simp add: word_uint_eq_iff)
  also have "\<dots> \<longleftrightarrow> uint w mod 4294967296 = 0 \<and> uint w div 4294967296 = 0"
    using div_mult_mod_eq [of "uint w" 4294967296] by auto
  also have "\<dots> \<longleftrightarrow> (ucast (w AND 0xFFFFFFFF) :: u32) = 0 \<and> (ucast (drop_bit 32 w) :: u32) = 0"
    unfolding uint_low_half [symmetric] uint_high_half [symmetric] by (simp add: word_uint_eq_iff)
  finally show ?thesis using ne by (simp add: store_long_def Let_def or_eq_0_iff)
qed

lemma long_word:
  "(ucast (a :: u32) :: u64) * ucast (b :: u32) = word_of_int (uint a * uint b)"
  "(scast (a :: u32) :: u64) * scast (b :: u32) = word_of_int (sint a * sint b)"
  "(ucast (reg s lo) :: u64) + push_bit 32 (ucast (reg s hi)) = word_of_int (reg_pair s lo hi)"
  by (simp_all add: reg_pair_def push_bit_eq_mult)

lemma long_handler_word:
  assumes "EvalCond s (cond instr) = Inr True"
    and "idx_rd instr \<noteq> 15" and "idx_rn instr \<noteq> 15" and "idx_rd instr \<noteq> idx_rn instr"
  shows "long_handler op s instr = (let s' = store_long instr (word_of_int
      (long_ref op (FetchReg s (idx_rs instr)) (FetchReg s (idx_rm instr))
        (reg_pair s (idx_rd instr) (idx_rn instr)))) s in Inr (s', PC s + 4))"
proof -
  have pc: "NextInstr (store_long instr w s) = PC s + 4" for w
    using store_long_regs(2) [of instr 15 w s] assms by (simp add: NextInstr_def PC_def)
  show ?thesis
    unfolding Let_def
    by (cases op) (simp_all only: long_handler.simps long_ref.simps HandlerUmull_def HandlerUmlal_def
        HandlerSmull_def HandlerSmlal_def when_cond_True [OF assms(1)] assms if_False pc Let_def
        long_word add.assoc of_int_add simp_thms)
qed

lemma store_long_nzcv:
  assumes "idx_rd instr \<noteq> idx_rn instr"
  shows "nzcv (cpsr (store_long instr w s)) =
    (if addr1_S instr then (bit w 63, w = 0, psr_carry (cpsr s), psr_overflow (cpsr s)) else nzcv (cpsr s))"
  using store_long_zero [OF assms, of w s]
  by (auto simp: store_long_def Let_def nzcv_def psr_simps bit_cpsr_update bit_simps assms)

text \<open>
  C37: UMULL, UMLAL, SMULL and SMLAL leave in the register pair the exact 64-bit product of the
  operands read unsigned or signed (plus the old pair, modulo \<open>2 ^ 64\<close>), keep every other register,
  and with the S bit set N to bit 63 and Z to the zeroness of the 64-bit result.
\<close>

theorem long_multiplications:
  assumes "EvalCond s (cond instr) = Inr True"
    and regs: "idx_rd instr \<noteq> 15" "idx_rn instr \<noteq> 15" "idx_rd instr \<noteq> idx_rn instr"
    and v: "v = long_ref op (FetchReg s (idx_rs instr)) (FetchReg s (idx_rm instr))
      (reg_pair s (idx_rd instr) (idx_rn instr))"
  shows "\<exists>s'. long_handler op s instr = Inr (s', PC s + 4)
    \<and> reg_pair s' (idx_rd instr) (idx_rn instr) = v mod 2 ^ 64
    \<and> (\<forall>i. i \<notin> {idx_rd instr, idx_rn instr} \<longrightarrow> reg s' i = reg s i)
    \<and> nzcv (cpsr s') = (if addr1_S instr
         then (bit v 63, v mod 2 ^ 64 = 0, psr_carry (cpsr s), psr_overflow (cpsr s)) else nzcv (cpsr s))
    \<and> same_rest s s'"
proof (intro exI conjI)
  let ?w = "word_of_int v :: u64"
  show "long_handler op s instr = Inr (store_long instr ?w s, PC s + 4)"
    using long_handler_word [OF assms(1-4), of op] by (simp add: v)
  show "reg_pair (store_long instr ?w s) (idx_rd instr) (idx_rn instr) = v mod 2 ^ 64"
    using regs by (simp add: store_long_regs take_bit_eq_mod unsigned_of_int)
  show "\<forall>i. i \<notin> {idx_rd instr, idx_rn instr} \<longrightarrow> reg (store_long instr ?w s) i = reg s i"
    using regs by (simp add: store_long_regs)
  have "?w = 0 \<longleftrightarrow> v mod 2 ^ 64 = 0" by (simp add: word_uint_eq_iff unsigned_of_int take_bit_eq_mod)
  moreover have "bit ?w 63 \<longleftrightarrow> bit v 63" by (simp add: bit_simps)
  ultimately show "nzcv (cpsr (store_long instr ?w s)) = (if addr1_S instr
         then (bit v 63, v mod 2 ^ 64 = 0, psr_carry (cpsr s), psr_overflow (cpsr s)) else nzcv (cpsr s))"
    using store_long_nzcv [OF regs(3), of ?w s] by simp
  show "same_rest s (store_long instr ?w s)"
    using regs by (simp add: store_long_regs)
qed

text \<open>\<open>SMULL r2, r3, r0, r1\<close> on the example state.\<close>

theorem long_multiplications_witness:
  "\<exists>s'. long_handler SMULL example_state 0xE0C32190 = Inr (s', 0x1004)
    \<and> reg_pair s' 2 3 = 35"
proof -
  have 1: "EvalCond example_state (cond 0xE0C32190) = Inr True" by code_simp
  have idx: "idx_rd 0xE0C32190 = 2" "idx_rn 0xE0C32190 = 3" "idx_rs 0xE0C32190 = 1" "idx_rm 0xE0C32190 = 0"
    by code_simp+
  show ?thesis
    using long_multiplications [OF 1, where op = SMULL]
    by (auto simp: idx example_regs FetchReg_def sint_u32)
qed

lemma umaal_no_overflow:
  "uint (a :: u32) * uint (b :: u32) + uint (c :: u32) + uint (d :: u32) < 2 ^ 64"
proof -
  have "uint a * uint b \<le> 4294967295 * 4294967295"
    using uint_u32_bounds [of a] uint_u32_bounds [of b] by (intro mult_mono) auto
  then show ?thesis using uint_u32_bounds [of c] uint_u32_bounds [of d] by simp
qed

text \<open>
  UMAAL never loses a carry: the pair holds the product of the two operands plus both old
  registers, exactly, for all operands.
\<close>

theorem umaal_exact:
  assumes "EvalCond s (cond instr) = Inr True"
    and "idx_rm instr \<noteq> 15" "idx_rs instr \<noteq> 15" "idx_rd instr \<noteq> 15" "idx_rn instr \<noteq> 15"
    and "idx_rd instr \<noteq> idx_rn instr"
  shows "\<exists>s'. HandlerUmaal s instr = Inr (s', PC s + 4)
    \<and> reg_pair s' (idx_rd instr) (idx_rn instr) =
        uint (reg s (idx_rs instr)) * uint (reg s (idx_rm instr))
        + uint (reg s (idx_rd instr)) + uint (reg s (idx_rn instr))
    \<and> cpsr s' = cpsr s"
proof -
  let ?v = "uint (reg s (idx_rs instr)) * uint (reg s (idx_rm instr))
        + uint (reg s (idx_rd instr)) + uint (reg s (idx_rn instr))"
  let ?w = "word_of_int ?v :: u64"
  have "uint ?w = ?v"
    by (rule word_of_int_inverse [OF refl]) (use umaal_no_overflow in simp_all)
  moreover have "?w = ucast (reg s (idx_rs instr)) * ucast (reg s (idx_rm instr))
      + ucast (reg s (idx_rd instr)) + ucast (reg s (idx_rn instr))"
    by simp
  ultimately show ?thesis
    using reg_pair_halves [OF assms(6), of ?w s] assms
    by (simp add: HandlerUmaal_def when_cond_True FetchReg_def NextInstr_def PC_def Let_def)
qed

theorem umaal_exact_witness:
  "\<exists>s'. HandlerUmaal (set_reg 2 9 example_state) 0xE0432190 = Inr (s', 0x1004)
    \<and> reg_pair s' 2 3 = 44"
proof -
  have 1: "EvalCond (set_reg 2 9 example_state) (cond 0xE0432190) = Inr True" by code_simp
  have idx: "idx_rd 0xE0432190 = 2" "idx_rn 0xE0432190 = 3" "idx_rs 0xE0432190 = 1" "idx_rm 0xE0432190 = 0"
    by code_simp+
  have r3: "reg example_state 3 = 0" by (simp add: example_state_def)
  show ?thesis
    using umaal_exact [OF 1] by (auto simp: idx example_regs r3 PC_def)
qed

end
