(* ===== verification/ExecContext.thy ===== *)
theory ExecContext
  imports PhysicalMemory MediaHandlers MulHandlers
begin

text \<open>
  The context an instruction runs in (\<open>InterpreterExecutionContext\<close>: the core, the address monitor of
  the exclusive accesses, and the memory behind its processor's page table) and what the handlers
  need from outside: the device and hook handlers, the host's floating-point operations, and the
  switch to the kernel at a system call.

  \<open>float\<close> and \<open>double\<close> values are their bit patterns; which arithmetic they follow is left to the host
  by the language, so the operations are fields of the record \<open>fpu\<close>, one per width. The fields
  \<open>fp_nextafter_*\<close> are \<open>std::nextafter(v, 0)\<close> on a 32-bit integer, converted to the type;
  \<open>fp_trunc_*\<close> are the conversions to a 32-bit integer, undefined outside its range.
\<close>

record 'f fp_ops =
  fp_fma :: "'f \<Rightarrow> 'f \<Rightarrow> 'f \<Rightarrow> 'f"
  fp_neg :: "'f \<Rightarrow> 'f"
  fp_add :: "'f \<Rightarrow> 'f \<Rightarrow> 'f"
  fp_sub :: "'f \<Rightarrow> 'f \<Rightarrow> 'f"
  fp_mul :: "'f \<Rightarrow> 'f \<Rightarrow> 'f"
  fp_div :: "'f \<Rightarrow> 'f \<Rightarrow> 'f"
  fp_sqrt :: "'f \<Rightarrow> 'f"
  fp_less :: "'f \<Rightarrow> 'f \<Rightarrow> bool"
  fp_equal :: "'f \<Rightarrow> 'f \<Rightarrow> bool"
  fp_greater_equal :: "'f \<Rightarrow> 'f \<Rightarrow> bool"
  fp_greater :: "'f \<Rightarrow> 'f \<Rightarrow> bool"
  fp_zero :: "'f"
  fp_of_uint :: "u32 \<Rightarrow> 'f"
  fp_of_sint :: "u32 \<Rightarrow> 'f"
  fp_nextafter_uint :: "u32 \<Rightarrow> 'f"
  fp_nextafter_sint :: "u32 \<Rightarrow> 'f"
  fp_trunc_uint :: "'f \<Rightarrow> u32 res"
  fp_trunc_sint :: "'f \<Rightarrow> u32 res"

record fpu =
  single_ops :: "u32 fp_ops"
  double_ops :: "u64 fp_ops"
  double_to_single :: "u64 \<Rightarrow> u32"
  single_to_double :: "u32 \<Rightarrow> u64"

record 'd ctx =
  cpu :: arm_state
  monitor_address :: "u32 option"
  mem :: "'d physmem"
  proc :: nat

text \<open>
  \<open>yield_for_svc\<close> is \<open>Thread::YieldForSVC\<close> up to the point where the thread is resumed: the kernel
  may have changed registers and memory by then, or have stopped the thread.
\<close>

record 'd env =
  hdl :: "'d handlers"
  fpu_ops :: fpu
  yield_for_svc :: "u32 \<Rightarrow> 'd ctx \<Rightarrow> 'd ctx res"

type_synonym 'd handler = "'d env \<Rightarrow> 'd ctx \<Rightarrow> ARMInstr \<Rightarrow> ('d ctx \<times> u32) res"

section \<open>Memory accesses of a context\<close>

text \<open>The page table of the context's processor, a subscriber of physical memory.\<close>

definition page_table_of :: "'d ctx \<Rightarrow> page_table res" where
  "page_table_of c =
    (if proc c < length (subscribers (mem c)) then Inr (subscribers (mem c) ! proc c)
     else Inl UndefinedBehaviour)"

definition ReadVirtualMemory :: "'d env \<Rightarrow> width \<Rightarrow> u32 \<Rightarrow> 'd ctx \<Rightarrow> (u32 \<times> 'd ctx) res" where
  "ReadVirtualMemory e w address c =
    bindE (page_table_of c) (\<lambda>pt.
    bindE (VM_Read (hdl e) pt w address (mem c)) (\<lambda>(v, m).
    Inr (v, c\<lparr>mem := m\<rparr>)))"

definition WriteVirtualMemory :: "'d env \<Rightarrow> width \<Rightarrow> u32 \<Rightarrow> u32 \<Rightarrow> 'd ctx \<Rightarrow> 'd ctx res" where
  "WriteVirtualMemory e w address v c =
    bindE (page_table_of c) (\<lambda>pt.
    bindE (VM_Write (hdl e) pt w address v (mem c)) (\<lambda>m.
    Inr (c\<lparr>mem := m\<rparr>)))"

section \<open>Handlers on contexts\<close>

text \<open>A handler that takes a \<open>CPUContext\<close> touches the core only.\<close>

definition on_cpu :: "cpu_handler \<Rightarrow> 'd handler" where
  "on_cpu h e c instr = bindE (h (cpu c) instr) (\<lambda>(s, pc). Inr (c\<lparr>cpu := s\<rparr>, pc))"

definition ctx_when_cond :: "'d ctx \<Rightarrow> ARMInstr \<Rightarrow> ('d ctx \<times> u32) res \<Rightarrow> ('d ctx \<times> u32) res" where
  "ctx_when_cond c instr body =
    bindE (EvalCond (cpu c) (cond instr)) (\<lambda>b. if \<not> b then Inr (c, NextInstr (cpu c)) else body)"

definition map_cpu :: "(arm_state \<Rightarrow> arm_state) \<Rightarrow> 'd ctx \<Rightarrow> 'd ctx" where
  "map_cpu f c = c\<lparr>cpu := f (cpu c)\<rparr>"

abbreviation put_reg :: "nat \<Rightarrow> u32 \<Rightarrow> 'd ctx \<Rightarrow> 'd ctx" where
  "put_reg i v \<equiv> map_cpu (set_reg i v)"

abbreviation set_thumb :: "bool \<Rightarrow> arm_state \<Rightarrow> arm_state" where
  "set_thumb b s \<equiv> set_cpsr (BitField_AssignBool 5 b (cpsr s)) s"

section \<open>Lemmas\<close>

lemma map_cpu_simps [simp]:
  "cpu (map_cpu f c) = f (cpu c)" "mem (map_cpu f c) = mem c" "proc (map_cpu f c) = proc c"
  "monitor_address (map_cpu f c) = monitor_address c"
  by (simp_all add: map_cpu_def)

lemma page_table_of_map_cpu [simp]: "page_table_of (map_cpu f c) = page_table_of c"
  by (simp add: page_table_of_def)

lemma ctx_when_cond_True: "EvalCond (cpu c) (cond instr) = Inr True \<Longrightarrow> ctx_when_cond c instr body = body"
  by (simp add: ctx_when_cond_def)

text \<open>A memory access touches nothing of a context but its memory.\<close>

lemma ReadVirtualMemory_frame:
  "ReadVirtualMemory e w a c = Inr (v, c') \<Longrightarrow>
    cpu c' = cpu c \<and> proc c' = proc c \<and> monitor_address c' = monitor_address c"
  by (auto simp: ReadVirtualMemory_def bindE_eq_Inr)

lemma WriteVirtualMemory_frame:
  "WriteVirtualMemory e w a v c = Inr c' \<Longrightarrow>
    cpu c' = cpu c \<and> proc c' = proc c \<and> monitor_address c' = monitor_address c"
  by (auto simp: WriteVirtualMemory_def bindE_eq_Inr)

text \<open>A context for concrete runs.\<close>

definition example_ctx :: "unit ctx" where
  "example_ctx = \<lparr>cpu = example_state, monitor_address = None, mem = example_mem, proc = 0\<rparr>"

end
