(* ===== verification/LoadStore.thy ===== *)
theory LoadStore
  imports ExecContext
begin

text \<open>
  Loads and stores of the interpreter (\<open>interpreter.cpp\<close>): addressing modes 2 and 3, load and store
  multiple, the exclusive accesses with their address monitor, and the floating-point transfers.
  Every access goes through the page table of the context's processor and may throw.
\<close>

section \<open>Addressing mode 3\<close>

definition addr3_offset :: "arm_state \<Rightarrow> ARMInstr \<Rightarrow> u32" where
  "addr3_offset s instr =
    (if ldr_U instr then 1 else - 1)
    * (if BitField_ToBool 22 instr then push_bit 4 (addr3_immed_hi instr) OR addr3_immed_lo instr
       else reg s (idx_rm instr))"

text \<open>The \<open>switch (AccessType)\<close> of \<open>HandlerAddrMode3\<close>.\<close>

definition addr3_access ::
  "AddrMode3AccessType \<Rightarrow> 'd env \<Rightarrow> u32 \<Rightarrow> ARMInstr \<Rightarrow> 'd ctx \<Rightarrow> 'd ctx res" where
  "addr3_access AccessType e address instr c =
    (let rd = idx_rd instr;
         unpredictable = (odd rd \<and> rd \<noteq> 14 \<and> address AND 0x7 \<noteq> 0)
     in case AccessType of
       LoadSignedByte \<Rightarrow> bindE (ReadVirtualMemory e W8 address c) (\<lambda>(v, c). Inr (put_reg rd (sext8 v) c))
     | StoreByte \<Rightarrow> WriteVirtualMemory e W8 address (reg (cpu c) rd) c
     | LoadSignedHalfword \<Rightarrow>
         bindE (ReadVirtualMemory e W16 address c) (\<lambda>(v, c). Inr (put_reg rd (sext16 v) c))
     | LoadUnsignedHalfword \<Rightarrow> bindE (ReadVirtualMemory e W16 address c) (\<lambda>(v, c). Inr (put_reg rd v c))
     | StoreHalfword \<Rightarrow> WriteVirtualMemory e W16 address (reg (cpu c) rd) c
     | LoadDoubleword \<Rightarrow>
         if unpredictable then HandlerStub instr
         else bindE (ReadVirtualMemory e W32 address c) (\<lambda>(v, c).
              let c = put_reg rd v c in
              bindE (ReadVirtualMemory e W32 (address + 4) c) (\<lambda>(v, c). Inr (put_reg (rd + 1) v c)))
     | StoreDoubleword \<Rightarrow>
         if unpredictable then HandlerStub instr
         else bindE (WriteVirtualMemory e W32 address (reg (cpu c) rd) c) (\<lambda>c.
              WriteVirtualMemory e W32 (address + 4) (reg (cpu c) (rd + 1)) c)
     | Addr3_Invalid \<Rightarrow> HandlerStub instr)"

definition HandlerAddrMode3 :: "AddrMode3AccessType \<Rightarrow> 'd handler" where
  "HandlerAddrMode3 AccessType e c instr = ctx_when_cond c instr
    (if idx_rd instr = 15 then HandlerStub instr
     else if \<not> ldr_P instr \<and> ldr_W instr then HandlerStub instr
     else let offset = addr3_offset (cpu c) instr;
              base = reg (cpu c) (idx_rn instr);
              address = (if ldr_P instr then base + offset else base)
          in bindE (addr3_access AccessType e address instr c) (\<lambda>c.
             let address = (if \<not> ldr_P instr then address + offset else address)
             in if \<not> ldr_P instr \<or> ldr_W instr
                then let c = put_reg (idx_rn instr) address c
                     in if idx_rn instr = 15 then HandlerStub instr else Inr (c, NextInstr (cpu c))
                else Inr (c, NextInstr (cpu c))))"

section \<open>Addressing mode 2\<close>

text \<open>The load of \<open>HandlerMemoryAccess\<close>; a load to the PC switches the instruction set.\<close>

definition memory_load :: "bool \<Rightarrow> 'd env \<Rightarrow> u32 \<Rightarrow> ARMInstr \<Rightarrow> 'd ctx \<Rightarrow> 'd ctx res" where
  "memory_load byte_access e base instr c =
    bindE (ReadVirtualMemory e (if byte_access then W8 else W32) base c) (\<lambda>(value, c).
      if idx_rd instr \<noteq> 15 then Inr (put_reg (idx_rd instr) value c)
      else if value AND 3 = 2 then HandlerStub instr
      else Inr (put_reg (idx_rd instr) (value AND 0xFFFFFFFE) (map_cpu (set_thumb (bit value 0)) c)))"

definition memory_offset :: "arm_state \<Rightarrow> ARMInstr \<Rightarrow> u32 res" where
  "memory_offset s instr =
    bindE (if ldr_I instr
           then bindE (CalcShifterOperandFromImmediate (FetchReg s (idx_rm instr)) (ldr_shift_imm instr)
                         (ldr_shift instr) (psr_carry (cpsr s))) (\<lambda>so. Inr (so_value so))
           else Inr (ldr_offset instr))
      (\<lambda>v. Inr ((if ldr_U instr then 1 else - 1) * v))"

definition HandlerMemoryAccess :: "bool \<Rightarrow> bool \<Rightarrow> 'd handler" where
  "HandlerMemoryAccess byte_access store e c instr = ctx_when_cond c instr
    (if ldr_I instr \<and> instr AND 0x10 \<noteq> 0 then HandlerStub instr
     else if idx_rn instr = idx_rd instr \<and> (\<not> ldr_P instr \<or> ldr_W instr) then HandlerStub instr
     else bindE (memory_offset (cpu c) instr) (\<lambda>offset.
          let base = FetchReg (cpu c) (idx_rn instr);
              base = (if ldr_P instr then base + offset else base)
          in bindE (if store
                    then WriteVirtualMemory e (if byte_access then W8 else W32) base
                           (FetchReg (cpu c) (idx_rd instr)) c
                    else memory_load byte_access e base instr c) (\<lambda>c.
             if (\<not> ldr_P instr \<or> ldr_W instr) \<and> idx_rn instr = 15 then HandlerStub instr
             else let c = (if \<not> ldr_P instr \<or> ldr_W instr
                           then put_reg (idx_rn instr) (if \<not> ldr_P instr then base + offset else base) c
                           else c)
                  in Inr (c, if \<not> store \<and> idx_rd instr = 15 then reg (cpu c) 15 else NextInstr (cpu c)))))"

section \<open>Load and store multiple\<close>

text \<open>The local variables of the loop of \<open>HandlerLDM_STM\<close>.\<close>

record 'd ldm_state =
  ldm_ctx :: "'d ctx"
  ldm_addr :: u32
  ldm_addr2 :: u32
  ldm_next_pc :: u32

definition addr4_step :: "ARMInstr \<Rightarrow> u32" where
  "addr4_step instr = (if addr4_U instr then 4 else - 4)"

text \<open>The access for register \<open>i\<close>: the new context and program counter.\<close>

definition ldm_stm_access ::
  "bool \<Rightarrow> 'd env \<Rightarrow> ARMInstr \<Rightarrow> nat \<Rightarrow> u32 \<Rightarrow> u32 \<Rightarrow> 'd ctx \<Rightarrow> ('d ctx \<times> u32) res" where
  "ldm_stm_access Load e instr i addr2 next_pc c =
    (if i = PC_idx then
       if Load then
         bindE (ReadVirtualMemory e W32 addr2 c) (\<lambda>(val, c).
           let c = map_cpu (set_thumb (bit val 0)) c
           in if addr4_S instr
              then bindE (GetSPSR (cpu c) (psr_mode (cpsr (cpu c)))) (\<lambda>w.
                   bindE (ReplaceCPSR w (cpu c)) (\<lambda>s. Inr (c\<lparr>cpu := s\<rparr>, val AND NOT 1)))
              else Inr (c, val AND NOT 1))
       else bindE (WriteVirtualMemory e W32 addr2 (FetchReg (cpu c) i) c) (\<lambda>c. Inr (c, next_pc))
     else if Load then
       bindE (ReadVirtualMemory e W32 addr2 c) (\<lambda>(v, c). Inr (put_reg i v c, next_pc))
     else if 8 \<le> i \<and> InPrivilegedMode (cpu c) then
       bindE (WriteVirtualMemory e W32 addr2 (banked_regs_user (cpu c) (i - 8)) c) (\<lambda>c. Inr (c, next_pc))
     else bindE (WriteVirtualMemory e W32 addr2 (FetchReg (cpu c) i) c) (\<lambda>c. Inr (c, next_pc)))"

definition ldm_stm_step :: "bool \<Rightarrow> 'd env \<Rightarrow> ARMInstr \<Rightarrow> nat \<Rightarrow> 'd ldm_state \<Rightarrow> 'd ldm_state res" where
  "ldm_stm_step Load e instr i st =
    (if \<not> bit (addr4_registers instr) i then Inr st
     else bindE (ldm_stm_access Load e instr i (ldm_addr2 st) (ldm_next_pc st) (ldm_ctx st)) (\<lambda>(c, pc).
       Inr \<lparr>ldm_ctx = c, ldm_addr = ldm_addr st + addr4_step instr, ldm_addr2 = ldm_addr2 st + 4,
            ldm_next_pc = pc\<rparr>))"

definition registers_accessed :: "ARMInstr \<Rightarrow> u32" where
  "registers_accessed instr = of_nat (length (filter (bit (addr4_registers instr)) [0 ..< 16]))"

definition ldm_start :: "ARMInstr \<Rightarrow> u32 \<Rightarrow> u32" where
  "ldm_start instr addr =
    addr - (if addr4_U instr then 0 else 4 * (registers_accessed instr - 1))
         + (if addr4_P instr then addr4_step instr else 0)"

definition HandlerLDM_STM :: "bool \<Rightarrow> 'd handler" where
  "HandlerLDM_STM Load e c instr = ctx_when_cond c instr
    (if addr4_registers instr = 0 then HandlerStub instr
     else if Load \<and> addr4_S instr \<and> \<not> HasSPSR (cpu c) then HandlerStub instr
     else let addr = FetchReg (cpu c) (idx_rn instr)
          in bindE (foldE (ldm_stm_step Load e instr) [0 ..< 16]
                 \<lparr>ldm_ctx = c, ldm_addr = addr, ldm_addr2 = ldm_start instr addr,
                  ldm_next_pc = NextInstr (cpu c)\<rparr>) (\<lambda>st.
             Inr (if addr4_W instr then put_reg (idx_rn instr) (ldm_addr st) (ldm_ctx st) else ldm_ctx st,
                  ldm_next_pc st)))"

section \<open>Exclusive accesses\<close>

definition monitor_address_mask :: u32 where
  "monitor_address_mask = 0xffffff8"

definition ClearExclusive :: "'d ctx \<Rightarrow> 'd ctx" where
  "ClearExclusive c = c\<lparr>monitor_address := None\<rparr>"

definition MarkExclusive :: "u32 \<Rightarrow> 'd ctx \<Rightarrow> 'd ctx" where
  "MarkExclusive new_address c = c\<lparr>monitor_address := Some (new_address AND monitor_address_mask)\<rparr>"

definition PrepareExclusiveStore :: "u32 \<Rightarrow> 'd ctx \<Rightarrow> (bool \<times> 'd ctx) res" where
  "PrepareExclusiveStore addr c = (case monitor_address c of
      None \<Rightarrow> Inr (False, c)
    | Some m \<Rightarrow> if m \<noteq> addr AND monitor_address_mask then Inl InvalidOperation
                else Inr (True, c\<lparr>monitor_address := None\<rparr>))"

text \<open>\<open>HandlerLdrex\<close>, \<open>HandlerLdrexb\<close>, \<open>HandlerLdrexh\<close> differ in the width only, as do the stores.\<close>

definition HandlerLdrex_width :: "width \<Rightarrow> 'd handler" where
  "HandlerLdrex_width w e c instr = ctx_when_cond c instr
    (let addr = FetchReg (cpu c) (idx_rn instr)
     in bindE (ReadVirtualMemory e w addr (MarkExclusive addr c)) (\<lambda>(v, c).
        let c = put_reg (idx_rd instr) v c in Inr (c, NextInstr (cpu c))))"

definition HandlerStrex_width :: "width \<Rightarrow> 'd handler" where
  "HandlerStrex_width w e c instr = ctx_when_cond c instr
    (let addr = FetchReg (cpu c) (idx_rn instr)
     in bindE (PrepareExclusiveStore addr c) (\<lambda>(ok, c).
        if ok
        then bindE (WriteVirtualMemory e w addr (FetchReg (cpu c) (idx_rm instr)) c) (\<lambda>c.
             let c = put_reg (idx_rd instr) 0 c in Inr (c, NextInstr (cpu c)))
        else let c = put_reg (idx_rd instr) 1 c in Inr (c, NextInstr (cpu c))))"

definition HandlerLdrex :: "'d handler" where "HandlerLdrex = HandlerLdrex_width W32"
definition HandlerStrex :: "'d handler" where "HandlerStrex = HandlerStrex_width W32"
definition HandlerLdrexb :: "'d handler" where "HandlerLdrexb = HandlerLdrex_width W8"
definition HandlerStrexb :: "'d handler" where "HandlerStrexb = HandlerStrex_width W8"
definition HandlerLdrexh :: "'d handler" where "HandlerLdrexh = HandlerLdrex_width W16"
definition HandlerStrexh :: "'d handler" where "HandlerStrexh = HandlerStrex_width W16"

definition HandlerLdrexd :: "'d handler" where
  "HandlerLdrexd e c instr = ctx_when_cond c instr
    (if odd (idx_rd instr) \<or> idx_rd instr = LR_idx \<or> idx_rn instr = PC_idx then HandlerStub instr
     else let addr = FetchReg (cpu c) (idx_rn instr)
          in bindE (ReadVirtualMemory e W32 addr (MarkExclusive addr c)) (\<lambda>(v, c).
             let c = put_reg (idx_rd instr) v c
             in bindE (ReadVirtualMemory e W32 (addr + 4) c) (\<lambda>(v, c).
                let c = put_reg (idx_rd instr + 1) v c in Inr (c, NextInstr (cpu c)))))"

definition HandlerStrexd :: "'d handler" where
  "HandlerStrexd e c instr = ctx_when_cond c instr
    (if odd (idx_rm instr) \<or> idx_rm instr = LR_idx \<or> idx_rn instr = PC_idx \<or> idx_rd instr = PC_idx
     then HandlerStub instr
     else if idx_rd instr = idx_rn instr \<or> idx_rd instr = idx_rm instr \<or> idx_rd instr = idx_rm instr + 1
     then HandlerStub instr
     else let addr = FetchReg (cpu c) (idx_rn instr)
          in bindE (PrepareExclusiveStore addr c) (\<lambda>(ok, c).
             if ok
             then bindE (WriteVirtualMemory e W32 addr (FetchReg (cpu c) (idx_rm instr)) c) (\<lambda>c.
                  bindE (WriteVirtualMemory e W32 (addr + 4) (FetchReg (cpu c) (idx_rm instr + 1)) c) (\<lambda>c.
                  let c = put_reg (idx_rd instr) 0 c in Inr (c, NextInstr (cpu c))))
             else let c = put_reg (idx_rd instr) 1 c in Inr (c, NextInstr (cpu c))))"

section \<open>Floating-point transfers\<close>

text \<open>\<open>fpreg\<close> has 32 cells; an index past its end is undefined behaviour.\<close>

definition LoadOrStoreFloat :: "'d env \<Rightarrow> u32 \<Rightarrow> nat \<Rightarrow> bool \<Rightarrow> 'd ctx \<Rightarrow> 'd ctx res" where
  "LoadOrStoreFloat e address i load c =
    (if 32 \<le> i then Inl UndefinedBehaviour
     else if load
     then bindE (ReadVirtualMemory e W32 address c) (\<lambda>(v, c).
            Inr (map_cpu (\<lambda>s. s\<lparr>fpreg := (fpreg s)(i := v)\<rparr>) c))
     else WriteVirtualMemory e W32 address (fpreg (cpu c) i) c)"

definition idx_fd :: "ARMInstr \<Rightarrow> nat" where
  "idx_fd instr = 2 * idx_rd instr + of_bool (addr5_D instr)"

definition LoadStoreFloatSingle :: "'d handler" where
  "LoadStoreFloatSingle e c instr = ctx_when_cond c instr
    (let is_double = BitField_ToBool 8 instr;
         rn = FetchReg (cpu c) (idx_rn instr);
         address = (if ldr_U instr then rn + 4 * addr5_offset instr else rn - 4 * addr5_offset instr)
     in bindE (foldE (\<lambda>r c. LoadOrStoreFloat e (address + 4 * of_nat r) (idx_fd instr + r) (addr4_L instr) c)
                 [0 ..< (if is_double then 2 else 1)] c)
          (\<lambda>c. Inr (c, NextInstr (cpu c))))"

definition LoadStoreFloatMultiple :: "'d handler" where
  "LoadStoreFloatMultiple e c instr = ctx_when_cond c instr
    (let is_double = BitField_ToBool 8 instr;
         rn = FetchReg (cpu c) (idx_rn instr);
         off = addr5_offset instr;
         decrement = (ldr_P instr \<and> \<not> ldr_U instr \<and> ldr_W instr);
         start_addr = (if decrement then rn - 4 * off else rn);
         word_count = off - of_bool (is_double \<and> odd off);
         updated_rn = (if \<not> ldr_P instr \<and> ldr_U instr \<and> ldr_W instr then rn + 4 * off else rn);
         updated_rn = (if decrement then updated_rn - 4 * off else updated_rn)
     in bindE (foldE (\<lambda>r c. LoadOrStoreFloat e (start_addr + 4 * of_nat r) (idx_fd instr + r) (addr4_L instr) c)
                 [0 ..< unat word_count] c)
          (\<lambda>c. if addr4_W instr
               then let c = put_reg (idx_rn instr) updated_rn c
                    in if idx_rn instr = PC_idx then HandlerStub instr else Inr (c, NextInstr (cpu c))
               else Inr (c, NextInstr (cpu c))))"

end
