(* ===== verification/SystemHandlers.thy ===== *)
theory SystemHandlers
  imports LoadStore
begin

text \<open>
  Branches, status register accesses, coprocessor 15, the vector floating-point unit and system calls
  (\<open>interpreter.cpp\<close>). Call logging (\<open>RecordCall\<close>, whose body is empty, and \<open>ControlFlowLogger\<close>) leaves
  no trace in the state.
\<close>

section \<open>Branches\<close>

definition HandlerBranch :: "bool \<Rightarrow> cpu_handler" where
  "HandlerBranch link s instr = when_cond s instr
    (let s1 = (if link then Link s else s)
     in Inr (s1, PC s1 + 8 + 4 * branch_target instr))"

definition HandlerBranchExchange :: "bool \<Rightarrow> cpu_handler" where
  "HandlerBranchExchange link s instr =
    (if identifier_4_23 instr AND NOT 0b10 \<noteq> 0b00101111111111110001 then HandlerStub instr
     else when_cond s instr
       (let target = reg s (idx_rm instr);
            s1 = (if link then Link s else s);
            s2 = set_thumb (bit target 0) s1
        in Inr (s2, target AND NOT 1)))"

section \<open>Status registers\<close>

definition HandlerCPS :: cpu_handler where
  "HandlerCPS s instr = when_cond s instr
    (if \<not> cps_imod_enable instr \<and> \<not> cps_imod_value instr \<and> \<not> cps_mmod instr then HandlerStub instr
     else if \<not> cps_imod_enable instr \<and> cps_imod_value instr then HandlerStub instr
     else if \<not> psr_InPrivilegedMode (cpsr s) then Inr (s, NextInstr s)
     else let v = cps_imod_value instr;
              w = cpsr s;
              w = (if cps_imod_enable instr \<and> cps_A instr then BitField_AssignBool 8 v w else w);
              w = (if cps_imod_enable instr \<and> cps_I instr then BitField_AssignBool 7 v w else w);
              w = (if cps_imod_enable instr \<and> cps_F instr then BitField_AssignBool 6 v w else w);
              w = (if cps_mmod instr then psr_set_mode (MakeInternal (cps_mode instr)) w else w);
              s1 = set_cpsr w s
          in Inr (s1, NextInstr s1))"

definition HandlerMRS :: cpu_handler where
  "HandlerMRS s instr =
    (if idx_rd instr = PC_idx then HandlerStub instr
     else if instr_R instr \<and> \<not> HasSPSR s then HandlerStub instr
     else when_cond s instr
       (bindE (if instr_R instr then bindE (GetSPSR s (psr_mode (cpsr s))) ToNativeRaw32
               else ToNativeRaw32 (cpsr s)) (\<lambda>v.
        let s1 = set_reg (idx_rd instr) v s in Inr (s1, NextInstr s1))))"

definition UnallocMask :: u32 where "UnallocMask = 0x06F0FC00"
definition UserMask :: u32 where "UserMask = 0xF80F0200"
definition PrivMask :: u32 where "PrivMask = 0x000001DF"
definition StateMask :: u32 where "StateMask = 0x01000020"

text \<open>
  The mask of writable bits; \<open>None\<close> where a privileged write to the CPSR names execution state bits.
\<close>

definition msr_spr_mask :: "arm_state \<Rightarrow> ARMInstr \<Rightarrow> u32 \<Rightarrow> u32 option" where
  "msr_spr_mask s instr operand =
    (if \<not> instr_R instr
     then if InPrivilegedMode s
          then if operand AND StateMask \<noteq> 0 then None else Some (UserMask OR PrivMask)
          else Some UserMask
     else Some (UserMask OR (PrivMask OR StateMask)))"

definition HandlerMSR :: cpu_handler where
  "HandlerMSR s instr = when_cond s instr
    (if instr_R instr \<and> \<not> HasSPSR s then HandlerStub instr
     else let operand = (if msr_I instr then RotateRight (immed_8 instr) (2 * unat (rotate_imm instr))
                         else FetchReg s (idx_rm instr));
              mode = psr_mode (cpsr s)
          in if operand AND UnallocMask \<noteq> 0 then HandlerStub instr
             else bindE (if instr_R instr then GetSPSR s mode else Inr (cpsr s)) (\<lambda>spr.
                  bindE (ToNativeRaw32 spr) (\<lambda>spr_raw.
                  case msr_spr_mask s instr operand of
                    None \<Rightarrow> HandlerStub instr
                  | Some spr_mask \<Rightarrow>
                      let mask = ExpandMSRFieldMask instr AND spr_mask;
                          spr_new = FromNativeRaw32 ((spr_raw AND NOT mask) OR (operand AND mask))
                      in bindE (if \<not> instr_R instr then ReplaceCPSR spr_new s
                                else Inr (s\<lparr>spsr := (spsr s)(mode := spr_new)\<rparr>))
                           (\<lambda>s1. Inr (s1, NextInstr s1)))))"

section \<open>Coprocessor 15\<close>

definition cp15_selector :: "ARMInstr \<Rightarrow> u32" where
  "cp15_selector instr =
    push_bit 8 (of_nat (idx_rn instr)) OR push_bit 4 (of_nat (idx_rm instr)) OR coproc_opcode2 instr"

definition mrc_data :: "arm_state \<Rightarrow> ARMInstr \<Rightarrow> u32 option" where
  "mrc_data s instr =
    (if cp15_selector instr = 0x005 then Some (cp15_raw s cp15_CPUId)
     else if cp15_selector instr = 0x100 then Some (cp15_raw s cp15_Control)
     else if cp15_selector instr = 0x101 then Some (cp15_raw s cp15_AuxiliaryControl)
     else if cp15_selector instr = 0xd03 then Some (cp15_raw s cp15_ThreadLocalStorage)
     else None)"

definition HandlerMRC :: cpu_handler where
  "HandlerMRC s instr = when_cond s instr
    (if coproc_id instr \<noteq> 15 then HandlerStub instr
     else if coproc_opcode1 instr \<noteq> 0 then HandlerStub instr
     else case mrc_data s instr of
         None \<Rightarrow> HandlerStub instr
       | Some data \<Rightarrow>
           if idx_rd instr = PC_idx then HandlerStub instr
           else let s1 = set_reg (idx_rd instr) data s in Inr (s1, NextInstr s1))"

definition HandlerMCR :: cpu_handler where
  "HandlerMCR s instr = when_cond s instr
    (if coproc_id instr \<noteq> 15 then HandlerStub instr
     else if coproc_opcode1 instr \<noteq> 0 then HandlerStub instr
     else if idx_rn instr = 0 then HandlerStub instr
     else if idx_rd instr = 15 then HandlerStub instr
     else let sel = cp15_selector instr; v = reg s (idx_rd instr)
          in if sel = 0x100 then Inr (s\<lparr>cp15_raw := (cp15_raw s)(cp15_Control := v)\<rparr>, NextInstr s)
             else if sel = 0x101 then Inr (s\<lparr>cp15_raw := (cp15_raw s)(cp15_AuxiliaryControl := v)\<rparr>, NextInstr s)
             else if sel \<in> {0x750, 0x754, 0x760, 0x7a4, 0x7a5} then Inr (s, NextInstr s)
             else HandlerStub instr)"

section \<open>Floating point\<close>

text \<open>\<open>dpreg[i]\<close> and \<open>dpreg_raw[i]\<close> share the cells \<open>2 i\<close> (low) and \<open>2 i + 1\<close> (high) of \<open>fpreg\<close>.\<close>

definition set_fpreg :: "nat \<Rightarrow> u32 \<Rightarrow> arm_state \<Rightarrow> arm_state" where
  "set_fpreg i v s = s\<lparr>fpreg := (fpreg s)(i := v)\<rparr>"

definition get_dpreg :: "arm_state \<Rightarrow> nat \<Rightarrow> u64" where
  "get_dpreg s i = push_bit 32 (ucast (fpreg s (2 * i + 1))) OR ucast (fpreg s (2 * i))"

definition set_dpreg :: "nat \<Rightarrow> u64 \<Rightarrow> arm_state \<Rightarrow> arm_state" where
  "set_dpreg i v s = set_fpreg (2 * i + 1) (ucast (drop_bit 32 v)) (set_fpreg (2 * i) (ucast v) s)"

definition HandlerFMDRR :: cpu_handler where
  "HandlerFMDRR s instr = when_cond s instr
    (if idx_rn instr = PC_idx \<or> idx_rd instr = PC_idx then HandlerStub instr
     else let s1 = set_fpreg (2 * idx_rm instr) (reg s (idx_rd instr))
                     (set_fpreg (2 * idx_rm instr + 1) (reg s (idx_rn instr)) s)
          in Inr (s1, NextInstr s1))"

definition HandlerFMRDD :: cpu_handler where
  "HandlerFMRDD s instr = when_cond s instr
    (if idx_rn instr = PC_idx \<or> idx_rd instr = PC_idx then HandlerStub instr
     else let s1 = set_reg (idx_rd instr) (fpreg s (2 * idx_rm instr))
                     (set_reg (idx_rn instr) (fpreg s (2 * idx_rm instr + 1)) s)
          in Inr (s1, NextInstr s1))"

definition ClampToIntegerRange ::
  "'f fp_ops \<Rightarrow> (u32 \<Rightarrow> 'f) \<Rightarrow> ('f \<Rightarrow> u32 res) \<Rightarrow> 'f \<Rightarrow> u32 \<Rightarrow> u32 \<Rightarrow> u32 res" where
  "ClampToIntegerRange ops nextafter trunc value min_v max_v =
    (if fp_less ops value (nextafter min_v) then Inr min_v
     else if fp_greater ops value (nextafter max_v) then Inr max_v
     else trunc value)"

definition idx_single_d :: "ARMInstr \<Rightarrow> nat" where
  "idx_single_d instr = 2 * idx_rd instr + of_bool (addr5_D instr)"
definition idx_single_n :: "ARMInstr \<Rightarrow> nat" where
  "idx_single_n instr = 2 * idx_rn instr + of_bool (vfp_data_N instr)"
definition idx_single_m :: "ARMInstr \<Rightarrow> nat" where
  "idx_single_m instr = 2 * idx_rm instr + of_bool (vfp_data_M instr)"

text \<open>The multiply-accumulate, add, multiply and divide groups: the new value of \<open>regs[idx_fd]\<close>.\<close>

definition vfp_arith :: "'f fp_ops \<Rightarrow> ARMInstr \<Rightarrow> 'f \<Rightarrow> 'f \<Rightarrow> 'f \<Rightarrow> 'f option" where
  "vfp_arith ops instr d n m =
    (let p = vfp_data_opcode_p instr; q = vfp_data_opcode_q instr;
         r = vfp_data_opcode_r instr; s = vfp_data_opcode_s instr
     in if \<not> p \<and> \<not> q then
          Some (if \<not> r \<and> \<not> s then fp_fma ops n m d
                else if \<not> r \<and> s then fp_fma ops n (fp_neg ops m) d
                else if r \<and> \<not> s then fp_fma ops n m (fp_neg ops d)
                else fp_fma ops n (fp_neg ops m) (fp_neg ops d))
        else if \<not> p \<and> q \<and> r then Some (if s then fp_sub ops n m else fp_add ops n m)
        else if \<not> p \<and> q \<and> \<not> r then Some (if s then fp_mul ops (fp_neg ops n) m else fp_mul ops n m)
        else if p \<and> \<not> q \<and> \<not> r \<and> \<not> s then Some (fp_div ops n m)
        else None)"

definition vfp_is_extension :: "ARMInstr \<Rightarrow> bool" where
  "vfp_is_extension instr \<longleftrightarrow> vfp_data_opcode_p instr \<and> vfp_data_opcode_q instr
     \<and> vfp_data_opcode_r instr \<and> vfp_data_opcode_s instr"

text \<open>\<open>FCMP(E)(Z)\<close>: less, equal, greater-or-equal-or-unordered and unordered are bits 31 to 28 of the FPSCR.\<close>

definition vfp_compare :: "'f fp_ops \<Rightarrow> 'f \<Rightarrow> 'f \<Rightarrow> u32 \<Rightarrow> u32" where
  "vfp_compare ops d m w =
    (let w1 = BitField_AssignBool 31 (fp_less ops d m) w;
         w2 = BitField_AssignBool 30 (fp_equal ops d m) w1;
         w3 = BitField_AssignBool 29 (\<not> fp_less ops d m) w2
     in BitField_AssignBool 28 (BitField_ToBool 29 w3 \<and> \<not> fp_greater_equal ops d m) w3)"

text \<open>
  The extension opcodes, by the register file of the width (\<open>rd\<close>, \<open>wr\<close>) and the conversion to the
  other width (\<open>cvt\<close>).
\<close>

definition vfp_extension ::
  "'f fp_ops \<Rightarrow> (arm_state \<Rightarrow> nat \<Rightarrow> 'f) \<Rightarrow> (nat \<Rightarrow> 'f \<Rightarrow> arm_state \<Rightarrow> arm_state) \<Rightarrow> (arm_state \<Rightarrow> arm_state)
    \<Rightarrow> nat \<Rightarrow> nat \<Rightarrow> ARMInstr \<Rightarrow> arm_state \<Rightarrow> arm_state res" where
  "vfp_extension ops rd wr cvt fd fm instr s =
    (let n = idx_single_n instr; x = rd s fm; d = rd s fd
     in if n = 0b00000 then Inr (wr fd x s)
        else if n = 0b00001 then Inr (wr fd (if fp_greater ops x (fp_zero ops) then x else fp_neg ops x) s)
        else if n = 0b00011 then Inr (wr fd (fp_sqrt ops x) s)
        else if n = 0b01000 \<or> n = 0b01001 then Inr (s\<lparr>fpscr := vfp_compare ops d x (fpscr s)\<rparr>)
        else if n = 0b01010 \<or> n = 0b01011 then Inr (s\<lparr>fpscr := vfp_compare ops d (fp_zero ops) (fpscr s)\<rparr>)
        else if n = 0b10000 then Inr (wr fd (fp_of_uint ops (fpreg s (idx_single_m instr))) s)
        else if n = 0b10001 then Inr (wr fd (fp_of_sint ops (fpreg s (idx_single_m instr))) s)
        else if n = 0b11000 \<or> n = 0b11001 then
          bindE (ClampToIntegerRange ops (fp_nextafter_uint ops) (fp_trunc_uint ops) x 0 0xFFFFFFFF)
            (\<lambda>v. Inr (set_fpreg (idx_single_d instr) v s))
        else if n = 0b11010 \<or> n = 0b11011 then
          bindE (ClampToIntegerRange ops (fp_nextafter_sint ops) (fp_trunc_sint ops) x 0x80000000 0x7FFFFFFF)
            (\<lambda>v. Inr (set_fpreg (idx_single_d instr) v s))
        else if n = 0b00010 then Inr (wr fd (fp_neg ops x) s)
        else if n = 0b01111 then Inr (cvt s)
        else HandlerStub instr)"

definition vfp_data_processing ::
  "'f fp_ops \<Rightarrow> (arm_state \<Rightarrow> nat \<Rightarrow> 'f) \<Rightarrow> (nat \<Rightarrow> 'f \<Rightarrow> arm_state \<Rightarrow> arm_state) \<Rightarrow> (arm_state \<Rightarrow> arm_state)
    \<Rightarrow> nat \<Rightarrow> nat \<Rightarrow> nat \<Rightarrow> cpu_handler" where
  "vfp_data_processing ops rd wr cvt fd fn fm s instr = when_cond s instr
    (case vfp_arith ops instr (rd s fd) (rd s fn) (rd s fm) of
       Some v \<Rightarrow> let s1 = wr fd v s in Inr (s1, NextInstr s1)
     | None \<Rightarrow>
         if vfp_is_extension instr
         then bindE (vfp_extension ops rd wr cvt fd fm instr s) (\<lambda>s1. Inr (s1, NextInstr s1))
         else HandlerStub instr)"

definition HandlerVFPDataProcessing :: "bool \<Rightarrow> fpu \<Rightarrow> cpu_handler" where
  "HandlerVFPDataProcessing IsDouble f s instr =
    (if IsDouble
     then vfp_data_processing (double_ops f) get_dpreg set_dpreg
            (\<lambda>s. set_fpreg (idx_single_d instr) (double_to_single f (get_dpreg s (idx_rm instr))) s)
            (idx_rd instr) (idx_rn instr) (idx_rm instr) s instr
     else vfp_data_processing (single_ops f) fpreg set_fpreg
            (\<lambda>s. set_dpreg (idx_rd instr) (single_to_double f (fpreg s (idx_single_m instr))) s)
            (idx_single_d instr) (idx_single_n instr) (idx_single_m instr) s instr)"

text \<open>\<open>FMSTAT\<close>: the condition flags of the FPSCR become those of the CPSR.\<close>

definition fmstat :: "arm_state \<Rightarrow> arm_state" where
  "fmstat s = set_cpsr
    (BitField_AssignBool 28 (BitField_ToBool 28 (fpscr s))
      (BitField_AssignBool 29 (BitField_ToBool 29 (fpscr s))
        (BitField_AssignBool 30 (BitField_ToBool 30 (fpscr s))
          (BitField_AssignBool 31 (BitField_ToBool 31 (fpscr s)) (cpsr s))))) s"

definition HandlerVFPRegisterTransfer :: cpu_handler where
  "HandlerVFPRegisterTransfer s instr = when_cond s instr
    (let is_double = BitField_ToBool 8 instr;
         idx_fn = idx_single_n instr;
         rd = idx_rd instr;
         op = drop_bit 20 instr AND 0xF
     in bindE
       (if op = 0b0000 then
          if is_double then HandlerStub instr else Inr (set_fpreg idx_fn (FetchReg s rd) s)
        else if op = 0b0001 then
          if rd = PC_idx then HandlerStub instr
          else if is_double then HandlerStub instr
          else Inr (set_reg rd (fpreg s idx_fn) s)
        else if op = 0b0010 then
          if rd = PC_idx then HandlerStub instr
          else if \<not> is_double then HandlerStub instr
          else if 32 \<le> idx_fn + 1 then Inl UndefinedBehaviour
          else Inr (set_fpreg (idx_fn + 1) (reg s rd) s)
        else if op = 0b1110 then
          if is_double then HandlerStub instr
          else if idx_fn = 0b00010 then Inr (s\<lparr>fpscr := FetchReg s rd\<rparr>) else HandlerStub instr
        else if op = 0b1111 then
          if is_double then HandlerStub instr
          else if idx_fn \<noteq> 0b00010 then HandlerStub instr
          else if rd = PC_idx then Inr (fmstat s)
          else Inr (set_reg rd (fpscr s) s)
        else HandlerStub instr)
       (\<lambda>s1. Inr (s1, NextInstr s1)))"

section \<open>System calls\<close>

definition HandlerSWI :: "'d handler" where
  "HandlerSWI e c instr = ctx_when_cond c instr
    (bindE (yield_for_svc e (instr AND 0xFFFFFF) (ClearExclusive c)) (\<lambda>c. Inr (c, NextInstr (cpu c))))"

end
