(* ===== verification/Dispatch.thy ===== *)
theory Dispatch
  imports SystemHandlers
begin

text \<open>
  Instruction dispatch (\<open>arm/arm_meta.hpp\<close>, \<open>interpreter.cpp\<close>): the table of instruction patterns, the
  generation of the 8192-entry dispatch table from it, the key of an instruction word, the handlers of
  the instructions the table names, and the older mask-based dispatchers it falls back to.
\<close>

section \<open>Instruction patterns\<close>

datatype Instr =
    I_AND | I_EOR | I_SUB | I_RSB | I_ADD | I_ADC | I_SBC | I_RSC | I_TST | I_TEQ | I_CMP | I_CMN
  | I_ORR | I_MOV | I_BIC | I_MVN | I_MUL
  | I_SSUB8 | I_QSUB8 | I_UADD8 | I_USUB8 | I_UQADD8 | I_UQSUB8 | I_UHADD8 | I_SSAT | I_USAT
  | I_SXTAH | I_UXTB16 | I_UXTAH
  | I_B | I_BL | I_BX | I_BLX | I_BLXImm
  | I_LDR | I_LDRB | I_LDRH | I_LDRSH | I_LDRSB | I_LDRD | I_STR | I_STRB | I_STRH | I_STRD
  | I_LDM | I_STM | I_MSR | I_MRRC | I_MCRR
  | I_VLDR | I_VSTR | I_VLDM | I_VSTM | I_VFP_S | I_VFP_D | I_MRRC_VFP | I_MCRR_VFP | I_SWI

definition meta_table :: "(Instr \<times> string) list" where
  "meta_table = [
    (I_AND, ''cccc00A0000SnnnnddddAAAAAAAAAAAA''),
    (I_EOR, ''cccc00A0001SnnnnddddAAAAAAAAAAAA''),
    (I_SUB, ''cccc00A0010SnnnnddddAAAAAAAAAAAA''),
    (I_RSB, ''cccc00A0011SnnnnddddAAAAAAAAAAAA''),
    (I_ADD, ''cccc00A0100SnnnnddddAAAAAAAAAAAA''),
    (I_ADC, ''cccc00A0101SnnnnddddAAAAAAAAAAAA''),
    (I_SBC, ''cccc00A0110SnnnnddddAAAAAAAAAAAA''),
    (I_RSC, ''cccc00A0111SnnnnddddAAAAAAAAAAAA''),
    (I_TST, ''cccc00A10001nnnnooooAAAAAAAAAAAA''),
    (I_TEQ, ''cccc00A10011nnnnooooAAAAAAAAAAAA''),
    (I_CMP, ''cccc00A10101nnnnooooAAAAAAAAAAAA''),
    (I_CMN, ''cccc00A10111nnnnooooAAAAAAAAAAAA''),
    (I_ORR, ''cccc00A1100SnnnnddddAAAAAAAAAAAA''),
    (I_MOV, ''cccc00A1101SooooddddAAAAAAAAAAAA''),
    (I_BIC, ''cccc00A1110SnnnnddddAAAAAAAAAAAA''),
    (I_MVN, ''cccc00A1111SooooddddAAAAAAAAAAAA''),
    (I_MUL, ''cccc0000000Sddddoooossss1001mmmm''),
    (I_SSUB8, ''cccc01100001nnnndddd////1111mmmm''),
    (I_QSUB8, ''cccc01100010nnnndddd////1111mmmm''),
    (I_UADD8, ''cccc01100101nnnndddd////1001mmmm''),
    (I_USUB8, ''cccc01100101nnnndddd////1111mmmm''),
    (I_UQADD8, ''cccc01100110nnnndddd////1001mmmm''),
    (I_UQSUB8, ''cccc01100110nnnndddd////1111mmmm''),
    (I_UHADD8, ''cccc01100111nnnndddd////1001mmmm''),
    (I_SSAT, ''cccc0110101-----dddd------01mmmm''),
    (I_USAT, ''cccc0110111-----dddd------01mmmm''),
    (I_SXTAH, ''cccc01101011nnnndddd--oo0111mmmm''),
    (I_UXTB16, ''cccc011011001111dddd--oo0111mmmm''),
    (I_UXTAH, ''cccc01101111nnnndddd--oo0111mmmm''),
    (I_B, ''cccc1010------------------------''),
    (I_BL, ''cccc1011------------------------''),
    (I_BX, ''cccc00010010////////////0001mmmm''),
    (I_BLX, ''cccc00010010////////////0011mmmm''),
    (I_BLXImm, ''1111101-------------------------''),
    (I_LDR, ''cccc01BBB0B1nnnnddddBBBBBBBBBBBB''),
    (I_STR, ''cccc01BBB0B0nnnnddddBBBBBBBBBBBB''),
    (I_LDRB, ''cccc01BBB1B1nnnnddddBBBBBBBBBBBB''),
    (I_STRB, ''cccc01BBB1B0nnnnddddBBBBBBBBBBBB''),
    (I_STRH, ''cccc000CCCC0nnnnddddCCCC1011CCCC''),
    (I_LDRD, ''cccc000CCCC0nnnnddddCCCC1101CCCC''),
    (I_STRD, ''cccc000CCCC0nnnnddddCCCC1111CCCC''),
    (I_LDRH, ''cccc000CCCC1nnnnddddCCCC1011CCCC''),
    (I_LDRSB, ''cccc000CCCC1nnnnddddCCCC1101CCCC''),
    (I_LDRSH, ''cccc000CCCC1nnnnddddCCCC1111CCCC''),
    (I_LDM, ''cccc100DDDD1nnnnDDDDDDDDDDDDDDDD''),
    (I_STM, ''cccc100DDDD0nnnnDDDDDDDDDDDDDDDD''),
    (I_MSR, ''cccc00110-10----////------------''),
    (I_MSR, ''cccc00010-10----////oooo0000mmmm''),
    (I_MRRC, ''cccc11000101nnnnddddPPPPPPPPmmmm''),
    (I_MCRR, ''cccc11000100nnnnddddPPPPPPPPmmmm''),
    (I_SWI, ''cccc1111------------------------''),
    (I_VLDM, ''cccc110PPPP1nnnndddd101PEEEEEEEE''),
    (I_VSTM, ''cccc110PPPP0nnnndddd101PEEEEEEEE''),
    (I_MRRC_VFP, ''cccc11000101nnnndddd101P00P1mmmm''),
    (I_MCRR_VFP, ''cccc11000100nnnndddd101P00P1mmmm''),
    (I_VLDR, ''cccc1101EE01nnnndddd101PPPPPPPPP''),
    (I_VSTR, ''cccc1101EE00nnnndddd101PPPPPPPPP''),
    (I_VFP_S, ''cccc1110PdPPnnnndddd1010nPm0mmmm''),
    (I_VFP_D, ''cccc1110PdPPnnnndddd1011nPm0mmmm'')]"

section \<open>The dispatch table\<close>

text \<open>The key consists of the bits 4 to 7 (8 to 11 for coprocessor instructions) and 20 to 27.\<close>

definition is_coprocessor_op :: "string \<Rightarrow> bool" where
  "is_coprocessor_op enc \<longleftrightarrow> CHR ''E'' \<in> set enc \<or> CHR ''P'' \<in> set enc"

definition index_bits :: "string \<Rightarrow> nat list" where
  "index_bits enc =
    (if is_coprocessor_op enc then [23, 22, 21, 20] else [27, 26, 25, 24]) @ [11, 10, 9, 8, 7, 6, 5, 4]"

text \<open>A key bit is fixed to 0 (\<open>'0'\<close>, \<open>'o'\<close>), fixed to 1 (\<open>'1'\<close>, \<open>'/'\<close>) or dynamic.\<close>

definition key_char :: "string \<Rightarrow> nat \<Rightarrow> char" where
  "key_char enc key_bit = enc ! (index_bits enc ! key_bit)"

definition fixed0 :: "char \<Rightarrow> bool" where "fixed0 c \<longleftrightarrow> c \<in> {CHR ''0'', CHR ''o''}"
definition fixed1 :: "char \<Rightarrow> bool" where "fixed1 c \<longleftrightarrow> c \<in> {CHR ''1'', CHR ''/''}"

definition output_key :: "string \<Rightarrow> u32" where
  "output_key enc = fold (\<lambda>b k. if fixed1 (key_char enc b) then k OR push_bit b 1 else k) [0 ..< 12] 0"

definition dynamic_bits :: "string \<Rightarrow> nat list" where
  "dynamic_bits enc = filter (\<lambda>b. \<not> fixed0 (key_char enc b) \<and> \<not> fixed1 (key_char enc b)) [0 ..< 12]"

definition dynamic_key :: "string \<Rightarrow> nat \<Rightarrow> u32" where
  "dynamic_key enc encoding_index =
    fold (\<lambda>i k. if bit encoding_index i then k OR push_bit (dynamic_bits enc ! i) 1 else k)
      [0 ..< length (dynamic_bits enc)] (output_key enc)"

text \<open>The constraints specific to addressing modes; a key that violates them is skipped.\<close>

definition key_allowed :: "Instr \<Rightarrow> string \<Rightarrow> u32 \<Rightarrow> bool" where
  "key_allowed i enc k \<longleftrightarrow>
    \<not> (CHR ''A'' \<in> set enc \<and> k = k OR 0b1001 \<and> \<not> bit k 9) \<and>
    \<not> (CHR ''B'' \<in> set enc \<and> k = k OR 0b1 \<and> bit k 9) \<and>
    \<not> (CHR ''E'' \<in> set enc \<and> i \<in> {I_VLDM, I_VSTM, I_VLDR, I_VSTR} \<and> bit k 5 \<and> bit k 7 = bit k 8)"

definition is_unconditional_op :: "string \<Rightarrow> bool" where
  "is_unconditional_op enc \<longleftrightarrow> take 4 enc = ''1111''"

definition entry_keys :: "Instr \<Rightarrow> string \<Rightarrow> u32 list" where
  "entry_keys i enc =
    map (\<lambda>k. if is_unconditional_op enc then k OR push_bit 12 1 else k)
      (filter (key_allowed i enc) (map (dynamic_key enc) [0 ..< 2 ^ length (dynamic_bits enc)]))"

definition GenerateDispatchTable :: "(Instr \<Rightarrow> 'h) \<Rightarrow> 'h \<Rightarrow> u32 \<Rightarrow> 'h" where
  "GenerateDispatchTable f default_value =
    fold (\<lambda>(i, enc) table. fold (\<lambda>k table. table(k := f i)) (entry_keys i enc) table)
      meta_table (\<lambda>_. default_value)"

definition BuildDispatchTableKey :: "u32 \<Rightarrow> u32" where
  "BuildDispatchTableKey arm_instr =
    (let is_coprocessor = (drop_bit 25 arm_instr AND 0x7 = 0b110 \<or> drop_bit 24 arm_instr AND 0xf = 0b1110);
         lower_key = (if is_coprocessor then drop_bit 8 (arm_instr AND 0xf00) else drop_bit 4 (arm_instr AND 0xf0))
     in push_bit 12 (of_bool (drop_bit 28 arm_instr = 0xf)) OR drop_bit 16 (arm_instr AND 0xff00000) OR lower_key)"

section \<open>Dispatch by masks\<close>

text \<open>\<open>(instr.raw & mask) == value\<close>.\<close>

abbreviation masked :: "ARMInstr \<Rightarrow> u32 \<Rightarrow> u32 \<Rightarrow> bool" where
  "masked instr m v \<equiv> instr AND m = v"

definition Handler0001 :: "'d handler" where
  "Handler0001 e c instr =
    (if masked instr 0xFFF0FF0 0x16F0F10 then on_cpu HandlerClz e c instr
     else if masked instr 0xFF00FF0 0x1800F90 then HandlerStrex e c instr
     else if masked instr 0xFF00FFF 0x1900F9F then HandlerLdrex e c instr
     else if masked instr 0xFF00FF0 0x1A00F90 then HandlerStrexd e c instr
     else if masked instr 0xFF00FFF 0x1B00F9F then HandlerLdrexd e c instr
     else if masked instr 0xFF00FF0 0x1C00F90 then HandlerStrexb e c instr
     else if masked instr 0xFF00FFF 0x1D00F9F then HandlerLdrexb e c instr
     else if masked instr 0xFF00FF0 0x1E00F90 then HandlerStrexh e c instr
     else if masked instr 0xFF00FFF 0x1F00F9F then HandlerLdrexh e c instr
     else if masked instr 0xF400F90 0x1000090 then Inl UnexpectedDispatch
     else if masked instr 0xF400090 0x1400090 then Inl UnexpectedDispatch
     else if identifier_4_23 instr AND NOT 0b10 = 0b00101111111111110001
     then on_cpu (HandlerBranchExchange (identifier_4_23 instr AND 0b10 \<noteq> 0)) e c instr
     else if masked instr 0xFBF0FFF 0x10F0000 then on_cpu HandlerMRS e c instr
     else if masked instr 0xFB0FFF0 0x120F000 then on_cpu HandlerMSR e c instr
     else if masked instr 0xFF0F000 0x1500000 then on_cpu HandlerCmp e c instr
     else if masked instr 0xFF0F000 0x1700000 then on_cpu HandlerCmn e c instr
     else if masked instr 0xFEF0000 0x1A00000 then on_cpu HandlerMov e c instr
     else if masked instr 0xFEF0000 0x1E00000 then on_cpu HandlerMvn e c instr
     else if masked instr 0xFE00000 0x1800000 then on_cpu HandlerOrr e c instr
     else if masked instr 0xFE00000 0x1C00000 then on_cpu HandlerBic e c instr
     else if masked instr 0xFF0F000 0x1100000 then on_cpu HandlerTst e c instr
     else if masked instr 0xFF0F000 0x1300000 then on_cpu HandlerTeq e c instr
     else if masked instr 0xFF0F000 0x1200000 then on_cpu HandlerTeq e c instr
     else if masked instr 0xFF00090 0x1000080 then on_cpu HandlerSmlaxx e c instr
     else if masked instr 0xFF0F090 0x1600080 then on_cpu HandlerSmulxx e c instr
     else HandlerStub instr)"

definition Handler0011 :: "'d handler" where
  "Handler0011 e c instr =
    (if masked instr 0xFEF0000 0x3A00000 then on_cpu HandlerMov e c instr
     else if masked instr 0xFEF0000 0x3E00000 then on_cpu HandlerMvn e c instr
     else if masked instr 0xFE00000 0x3800000 then on_cpu HandlerOrr e c instr
     else if masked instr 0xFE00000 0x3C00000 then on_cpu HandlerBic e c instr
     else if masked instr 0xFF0F000 0x3100000 then on_cpu HandlerTst e c instr
     else if masked instr 0xFF0F000 0x3300000 then on_cpu HandlerTeq e c instr
     else if masked instr 0xFF0F000 0x3200000 then on_cpu HandlerTeq e c instr
     else if masked instr 0xFB0F000 0x320F000 then on_cpu HandlerMSR e c instr
     else if masked instr 0xFF0F000 0x3500000 then on_cpu HandlerCmp e c instr
     else if masked instr 0xFF0F000 0x3700000 then on_cpu HandlerCmn e c instr
     else HandlerStub instr)"

definition Handler01xx :: "'d handler" where
  "Handler01xx e c instr =
    (if cond instr = 0xF then
       if masked instr 0xD70F000 0x550F000 then Inr (c, NextInstr (cpu c)) else HandlerStub instr
     else if masked instr 0xFE00030 0x6E00010 then on_cpu HandlerUsat e c instr
     else if masked instr 0xFFF03F0 0x6CF0070 then Inl UnexpectedDispatch
     else if masked instr 0xFFF03F0 0x6EF0070 then on_cpu HandlerUxtb e c instr
     else if masked instr 0xFF003F0 0x6E00070 then on_cpu HandlerUxtab e c instr
     else if masked instr 0xFFF03F0 0x6FF0070 then Inl UnexpectedDispatch
     else if masked instr 0xFFF03F0 0x6AF0070 then on_cpu HandlerSxtb e c instr
     else if masked instr 0xFFF03F0 0x6BF0070 then Inl UnexpectedDispatch
     else if masked instr 0xFF003F0 0x6A00070 then on_cpu HandlerSxtab e c instr
     else if masked instr 0xFF003F0 0x6B00070 then Inl UnexpectedDispatch
     else if masked instr 0xFF00FF0 0x6500F90 then Inl UnexpectedDispatch
     else if masked instr 0xFF00FF0 0x6600F90 then Inl UnexpectedDispatch
     else if masked instr 0xFF00FF0 0x6700F90 then Inl UnexpectedDispatch
     else if masked instr 0xFF00FF0 0x6100FF0 then Inl UnexpectedDispatch
     else if masked instr 0xFF00FF0 0x6500FF0 then Inl UnexpectedDispatch
     else if masked instr 0xFF00FF0 0x6600FF0 then Inl UnexpectedDispatch
     else if masked instr 0xFF00FF0 0x6800FB0 then on_cpu HandlerSel e c instr
     else if masked instr 0xFF00070 0x6800010 then on_cpu HandlerPkhbt e c instr
     else if masked instr 0xFF00070 0x6800050 then on_cpu HandlerPkhtb e c instr
     else if masked instr 0xFFF0FF0 0x6BF0F30 then on_cpu HandlerRev e c instr
     else if masked instr 0xFFF0FF0 0x6BF0FB0 then on_cpu HandlerRev16 e c instr
     else HandlerStub instr)"

definition on_fpu :: "(fpu \<Rightarrow> cpu_handler) \<Rightarrow> 'd handler" where
  "on_fpu h e = on_cpu (h (fpu_ops e)) e"

definition Handler1110 :: "'d handler" where
  "Handler1110 e c instr =
    (if masked instr 0xF000F10 0xE000A00 then on_fpu (HandlerVFPDataProcessing False) e c instr
     else if masked instr 0xF000F10 0xE000B00 then on_fpu (HandlerVFPDataProcessing True) e c instr
     else if masked instr 0xF000E7F 0xE000A10 then on_cpu HandlerVFPRegisterTransfer e c instr
     else if masked instr 0x100010 0x100010 then on_cpu HandlerMRC e c instr
     else if masked instr 0x100010 0x10 then on_cpu HandlerMCR e c instr
     else HandlerStub instr)"

text \<open>\<open>Handler100P\<close>, \<open>Handler1100\<close>, \<open>Handler1101\<close>, \<open>Handler1111\<close> only throw.\<close>

definition HandlerUnreached :: "'d handler" where
  "HandlerUnreached e c instr = HandlerStub instr"

definition handlers_arm_prim :: "'d handler list" where
  "handlers_arm_prim =
    [on_cpu Handler00x0, Handler0001, on_cpu Handler00x0, Handler0011,
     Handler01xx, Handler01xx, Handler01xx, Handler01xx,
     HandlerUnreached, HandlerUnreached, on_cpu (HandlerBranch False), on_cpu (HandlerBranch True),
     HandlerUnreached, HandlerUnreached, Handler1110, HandlerUnreached]"

definition LegacyHandler :: "'d handler" where
  "LegacyHandler e c instr = (handlers_arm_prim ! unat (opcode_prim instr)) e c instr"

section \<open>Handlers of the patterns\<close>

definition HandlerVFP :: "bool \<Rightarrow> 'd handler" where
  "HandlerVFP IsDouble e c instr =
    (if BitField_ToBool 4 instr then on_cpu HandlerVFPRegisterTransfer e c instr
     else on_fpu (HandlerVFPDataProcessing IsDouble) e c instr)"

fun LookupHandler :: "Instr \<Rightarrow> 'd handler" where
  "LookupHandler I_AND = on_cpu HandlerAnd"
| "LookupHandler I_EOR = on_cpu HandlerEor"
| "LookupHandler I_SUB = on_cpu HandlerSub"
| "LookupHandler I_RSB = on_cpu HandlerRsb"
| "LookupHandler I_ADD = on_cpu HandlerAdd"
| "LookupHandler I_ADC = on_cpu HandlerAdc"
| "LookupHandler I_SBC = on_cpu HandlerSbc"
| "LookupHandler I_RSC = on_cpu HandlerRsc"
| "LookupHandler I_TST = on_cpu HandlerTst"
| "LookupHandler I_TEQ = on_cpu HandlerTeq"
| "LookupHandler I_CMP = on_cpu HandlerCmp"
| "LookupHandler I_CMN = on_cpu HandlerCmn"
| "LookupHandler I_ORR = on_cpu HandlerOrr"
| "LookupHandler I_MOV = on_cpu HandlerMov"
| "LookupHandler I_BIC = on_cpu HandlerBic"
| "LookupHandler I_MVN = on_cpu HandlerMvn"
| "LookupHandler I_MUL = on_cpu HandlerMul"
| "LookupHandler I_SSUB8 = on_cpu (HandlerXsub8 True)"
| "LookupHandler I_QSUB8 = on_cpu HandlerQsub8"
| "LookupHandler I_UADD8 = on_cpu HandlerUadd8"
| "LookupHandler I_USUB8 = on_cpu (HandlerXsub8 False)"
| "LookupHandler I_UQADD8 = on_cpu HandlerUqadd8"
| "LookupHandler I_UQSUB8 = on_cpu HandlerUqsub8"
| "LookupHandler I_UHADD8 = on_cpu HandlerUhadd8"
| "LookupHandler I_SSAT = on_cpu HandlerSsat"
| "LookupHandler I_USAT = on_cpu HandlerUsat"
| "LookupHandler I_SXTAH = on_cpu HandlerSxtah"
| "LookupHandler I_UXTB16 = on_cpu HandlerUxtb16"
| "LookupHandler I_UXTAH = on_cpu HandlerUxtah"
| "LookupHandler I_B = on_cpu (HandlerBranch False)"
| "LookupHandler I_BL = on_cpu (HandlerBranch True)"
| "LookupHandler I_BX = on_cpu (HandlerBranchExchange False)"
| "LookupHandler I_LDR = HandlerMemoryAccess False False"
| "LookupHandler I_LDRB = HandlerMemoryAccess True False"
| "LookupHandler I_LDRH = HandlerAddrMode3 LoadUnsignedHalfword"
| "LookupHandler I_LDRSH = HandlerAddrMode3 LoadSignedHalfword"
| "LookupHandler I_LDRSB = HandlerAddrMode3 LoadSignedByte"
| "LookupHandler I_LDRD = HandlerAddrMode3 LoadDoubleword"
| "LookupHandler I_STR = HandlerMemoryAccess False True"
| "LookupHandler I_STRB = HandlerMemoryAccess True True"
| "LookupHandler I_STRH = HandlerAddrMode3 StoreHalfword"
| "LookupHandler I_STRD = HandlerAddrMode3 StoreDoubleword"
| "LookupHandler I_LDM = HandlerLDM_STM True"
| "LookupHandler I_STM = HandlerLDM_STM False"
| "LookupHandler I_MSR = on_cpu HandlerMSR"
| "LookupHandler I_VLDR = LoadStoreFloatSingle"
| "LookupHandler I_VSTR = LoadStoreFloatSingle"
| "LookupHandler I_VLDM = LoadStoreFloatMultiple"
| "LookupHandler I_VSTM = LoadStoreFloatMultiple"
| "LookupHandler I_VFP_S = HandlerVFP False"
| "LookupHandler I_VFP_D = HandlerVFP True"
| "LookupHandler I_MCRR_VFP = on_cpu HandlerFMDRR"
| "LookupHandler I_MRRC_VFP = on_cpu HandlerFMRDD"
| "LookupHandler I_SWI = HandlerSWI"
| "LookupHandler _ = LegacyHandler"

definition default_dispatch_table :: "u32 \<Rightarrow> 'd handler" where
  "default_dispatch_table = GenerateDispatchTable LookupHandler LegacyHandler"

section \<open>The keys of a pattern\<close>

lemma bit_fold_or:
  "bit (fold (\<lambda>x k. if P x then k OR push_bit (g x) 1 else k) xs (k0 :: u32)) b \<longleftrightarrow>
    bit k0 b \<or> (b < 32 \<and> (\<exists>x \<in> set xs. P x \<and> g x = b))"
  by (induction xs arbitrary: k0) (auto simp: bit_simps)

lemma bit_output_key: "bit (output_key enc) b \<longleftrightarrow> b < 12 \<and> fixed1 (key_char enc b)"
  by (auto simp: output_key_def bit_fold_or)

lemma not_fixed01: "\<not> (fixed0 c \<and> fixed1 c)"
  by (auto simp: fixed0_def fixed1_def)

lemma set_dynamic_bits:
  "set (dynamic_bits enc) = {b. b < 12 \<and> \<not> fixed0 (key_char enc b) \<and> \<not> fixed1 (key_char enc b)}"
  by (auto simp: dynamic_bits_def)

lemma bit_dynamic_key:
  "bit (dynamic_key enc n) b \<longleftrightarrow>
    b < 12 \<and> (fixed1 (key_char enc b) \<or>
      (\<exists>i < length (dynamic_bits enc). bit n i \<and> dynamic_bits enc ! i = b))"
proof -
  have "dynamic_bits enc ! i < 12" if "i < length (dynamic_bits enc)" for i
    using nth_mem [OF that] by (simp add: set_dynamic_bits)
  then show ?thesis by (auto simp: dynamic_key_def bit_fold_or bit_output_key)
qed

text \<open>A key matches a pattern when its fixed bits do; the dynamic bits are free.\<close>

definition bits_match :: "string \<Rightarrow> u32 \<Rightarrow> bool" where
  "bits_match enc k \<longleftrightarrow> (\<forall>b < 12. (fixed0 (key_char enc b) \<longrightarrow> \<not> bit k b) \<and> (fixed1 (key_char enc b) \<longrightarrow> bit k b))"

lemma dynamic_keys_complete:
  assumes "bits_match enc k" and small: "\<And>b. bit k b \<Longrightarrow> b < 12"
  shows "k \<in> dynamic_key enc ` {0 ..< 2 ^ length (dynamic_bits enc)}"
proof
  let ?bs = "map (bit k) (dynamic_bits enc)"
  let ?n = "horner_sum of_bool 2 ?bs :: nat"
  show "?n \<in> {0 ..< 2 ^ length (dynamic_bits enc)}"
    using horner_sum_of_bool_2_less [of ?bs] by simp
  show "k = dynamic_key enc ?n"
  proof (rule bit_word_eqI)
    fix b assume "b < LENGTH(32)"
    have "(\<exists>i < length (dynamic_bits enc). bit ?n i \<and> dynamic_bits enc ! i = b)
        \<longleftrightarrow> b \<in> set (dynamic_bits enc) \<and> bit k b"
      by (auto simp: bit_horner_sum_bit_iff in_set_conv_nth)
    then have "bit (dynamic_key enc ?n) b \<longleftrightarrow>
        b < 12 \<and> (fixed1 (key_char enc b) \<or> b \<in> set (dynamic_bits enc) \<and> bit k b)"
      by (simp only: bit_dynamic_key)
    moreover have "bit k b \<longrightarrow> b < 12" using small by blast
    moreover have "b < 12 \<Longrightarrow> (fixed0 (key_char enc b) \<longrightarrow> \<not> bit k b) \<and> (fixed1 (key_char enc b) \<longrightarrow> bit k b)"
      using assms(1) by (simp add: bits_match_def)
    ultimately show "bit k b \<longleftrightarrow> bit (dynamic_key enc ?n) b"
      unfolding set_dynamic_bits by blast
  qed
qed

lemma dynamic_keys_sound:
  assumes "k \<in> dynamic_key enc ` N"
  shows "bits_match enc k \<and> (bit k b \<longrightarrow> b < 12)"
proof -
  have "fixed0 (key_char enc b) \<Longrightarrow> b \<notin> set (dynamic_bits enc)" for b by (simp add: set_dynamic_bits)
  then show ?thesis
    using assms not_fixed01 by (fastforce simp: bits_match_def bit_dynamic_key in_set_conv_nth)
qed

definition key_matches :: "Instr \<Rightarrow> string \<Rightarrow> u32 \<Rightarrow> bool" where
  "key_matches i enc k \<longleftrightarrow>
    (let low = take_bit 12 k in
      bits_match enc low \<and> key_allowed i enc low \<and> k = (if is_unconditional_op enc then low OR push_bit 12 1 else low))"

lemma set_entry_keys: "k \<in> set (entry_keys i enc) \<longleftrightarrow> key_matches i enc k"
proof -
  let ?K = "dynamic_key enc ` {0 ..< 2 ^ length (dynamic_bits enc)}"
  let ?top = "\<lambda>k. if is_unconditional_op enc then k OR push_bit 12 1 else k :: u32"
  have K: "l \<in> ?K \<longleftrightarrow> bits_match enc l \<and> take_bit 12 l = l" for l
  proof
    assume l: "l \<in> ?K"
    then have "bits_match enc l" "\<And>b. bit l b \<Longrightarrow> b < 12" using dynamic_keys_sound by blast+
    then show "bits_match enc l \<and> take_bit 12 l = l" by (auto simp: bit_eq_iff bit_take_bit_iff)
  next
    assume l: "bits_match enc l \<and> take_bit 12 l = l"
    then have "\<And>b. bit l b \<Longrightarrow> b < 12" by (metis bit_take_bit_iff)
    with l show "l \<in> ?K" using dynamic_keys_complete by blast
  qed
  have low: "take_bit 12 (?top l) = l" if "take_bit 12 l = l" for l
    using that by (auto simp: take_bit_or)
  have "k \<in> set (entry_keys i enc) \<longleftrightarrow> (\<exists>l. l \<in> ?K \<and> key_allowed i enc l \<and> k = ?top l)"
    by (auto simp: entry_keys_def)
  also have "\<dots> \<longleftrightarrow> key_matches i enc k"
  proof
    assume "\<exists>l. l \<in> ?K \<and> key_allowed i enc l \<and> k = ?top l"
    then obtain l where l: "bits_match enc l" "take_bit 12 l = l" "key_allowed i enc l" "k = ?top l"
      using K by blast
    have "take_bit 12 k = l" unfolding l(4) by (rule low [OF l(2)])
    then show "key_matches i enc k" using l by (simp add: key_matches_def)
  next
    assume k: "key_matches i enc k"
    then have "take_bit 12 k \<in> ?K" unfolding K by (simp add: key_matches_def Let_def)
    with k show "\<exists>l. l \<in> ?K \<and> key_allowed i enc l \<and> k = ?top l"
      unfolding key_matches_def Let_def by blast
  qed
  finally show ?thesis .
qed

section \<open>The table against the pattern list\<close>

lemma fold_update: "fold (\<lambda>k t. t(k := v)) ks t k = (if k \<in> set ks then v else t k)"
  by (induction ks arbitrary: t) auto

lemma fold_table:
  "fold (\<lambda>(i, enc) t. fold (\<lambda>k t. t(k := f i)) (ks i enc) t) xs t k =
    (case find (\<lambda>(i, enc). k \<in> set (ks i enc)) (rev xs) of None \<Rightarrow> t k | Some (i, _) \<Rightarrow> f i)"
proof (induction xs rule: rev_induct)
  case (snoc x xs)
  then show ?case by (cases x) (simp add: fold_update del: fun_upd_apply)
qed simp

lemma GenerateDispatchTable_eq:
  "GenerateDispatchTable f d k =
    (case find (\<lambda>(i, enc). key_matches i enc k) (rev meta_table) of None \<Rightarrow> d | Some (i, _) \<Rightarrow> f i)"
  by (simp add: GenerateDispatchTable_def fold_table set_entry_keys)

section \<open>Dispatch of an instruction word\<close>

definition is_coprocessor :: "u32 \<Rightarrow> bool" where
  "is_coprocessor w \<longleftrightarrow> drop_bit 25 w AND 0x7 = 0b110 \<or> drop_bit 24 w AND 0xf = 0b1110"

lemma bit_literals:
  "bit (0xf00 :: u32) b \<longleftrightarrow> 8 \<le> b \<and> b < 12" "bit (0xf0 :: u32) b \<longleftrightarrow> 4 \<le> b \<and> b < 8"
  "bit (0xff00000 :: u32) b \<longleftrightarrow> 20 \<le> b \<and> b < 28"
proof -
  have "(0xf00 :: u32) = push_bit 8 (mask 4)" "(0xf0 :: u32) = push_bit 4 (mask 4)"
    "(0xff00000 :: u32) = push_bit 20 (mask 8)" by (simp_all add: mask_numeral)
  then show "bit (0xf00 :: u32) b \<longleftrightarrow> 8 \<le> b \<and> b < 12" "bit (0xf0 :: u32) b \<longleftrightarrow> 4 \<le> b \<and> b < 8"
    "bit (0xff00000 :: u32) b \<longleftrightarrow> 20 \<le> b \<and> b < 28"
    by (simp_all only: bit_push_bit_iff bit_mask_iff, auto)
qed

lemma bit_BuildDispatchTableKey:
  "bit (BuildDispatchTableKey w) b \<longleftrightarrow>
    (if b < 4 then bit w (b + (if is_coprocessor w then 8 else 4))
     else if b < 12 then bit w (b + 16)
     else b = 12 \<and> drop_bit 28 w = 0xf)"
proof -
  have "bit (push_bit 12 (of_bool P) :: u32) b \<longleftrightarrow> b = 12 \<and> P" for P
    by (auto simp: bit_simps)
  moreover have "bit (drop_bit 16 (w AND 0xff00000)) b \<longleftrightarrow> 4 \<le> b \<and> b < 12 \<and> bit w (b + 16)"
    unfolding bit_drop_bit_eq o_apply bit_and_iff bit_literals by (auto simp: add.commute)
  moreover have "bit (drop_bit 8 (w AND 0xf00)) b \<longleftrightarrow> b < 4 \<and> bit w (b + 8)"
    unfolding bit_drop_bit_eq o_apply bit_and_iff bit_literals by (auto simp: add.commute)
  moreover have "bit (drop_bit 4 (w AND 0xf0)) b \<longleftrightarrow> b < 4 \<and> bit w (b + 4)"
    unfolding bit_drop_bit_eq o_apply bit_and_iff bit_literals by (auto simp: add.commute)
  ultimately show ?thesis
    unfolding BuildDispatchTableKey_def Let_def is_coprocessor_def [symmetric] bit_or_iff
    by (auto simp del: drop_bit_and bit_drop_bit_eq)
qed

lemma BuildDispatchTableKey_less: "unat (BuildDispatchTableKey w) < 8192"
proof -
  have "take_bit 13 (BuildDispatchTableKey w) = BuildDispatchTableKey w"
    by (rule bit_word_eqI) (auto simp: bit_take_bit_iff bit_BuildDispatchTableKey)
  moreover have "unat (take_bit 13 v) < 8192" for v :: u32
    by (simp only: unsigned_take_bit_eq) (simp add: take_bit_eq_mod)
  ultimately show ?thesis by metis
qed

text \<open>
  A word matches a pattern when the fixed bits among the bits 20 to 27 and 4 to 7 (coprocessor
  instructions: 8 to 11) agree and the word is not excluded by the constraints of its addressing mode.
\<close>

definition word_matches :: "Instr \<Rightarrow> string \<Rightarrow> u32 \<Rightarrow> bool" where
  "word_matches i enc w \<longleftrightarrow>
    (\<forall>p \<in> set (index_bits enc). (fixed0 (enc ! p) \<longrightarrow> \<not> bit w (31 - p)) \<and> (fixed1 (enc ! p) \<longrightarrow> bit w (31 - p)))
    \<and> \<not> (CHR ''A'' \<in> set enc \<and> bit w 4 \<and> bit w 7 \<and> \<not> bit w 25)
    \<and> \<not> (CHR ''B'' \<in> set enc \<and> bit w 4 \<and> bit w 25)
    \<and> \<not> (CHR ''E'' \<in> set enc \<and> i \<in> {I_VLDM, I_VSTM, I_VLDR, I_VSTR} \<and> bit w 21 \<and> bit w 23 = bit w 24)
    \<and> (is_unconditional_op enc \<longleftrightarrow> cond w = 0xF)"

text \<open>What the table of patterns guarantees: coprocessor patterns are told apart by bits 24 to 27.\<close>

definition nibble_coprocessor :: "nat \<Rightarrow> bool" where
  "nibble_coprocessor n \<longleftrightarrow> n \<in> {12, 13, 14}"

definition pattern_ok :: "string \<Rightarrow> bool" where
  "pattern_ok enc \<longleftrightarrow>
    (\<forall>n \<in> set [0 ..< 16]. nibble_coprocessor n \<noteq> is_coprocessor_op enc \<longrightarrow>
      (\<exists>p \<in> set [4, 5, 6, 7]. (fixed0 (enc ! p) \<and> bit n (7 - p)) \<or> (fixed1 (enc ! p) \<and> \<not> bit n (7 - p))))
    \<and> (is_coprocessor_op enc \<longrightarrow> CHR ''A'' \<notin> set enc \<and> CHR ''B'' \<notin> set enc)"

lemma meta_table_ok: "list_all (\<lambda>(i, enc). pattern_ok enc) meta_table"
  by code_simp

lemma uint_low_bits:
  "uint ((x :: u32) AND 0x7) = 4 * of_bool (bit x 2) + 2 * of_bool (bit x 1) + of_bool (bit x 0)"
  "uint ((x :: u32) AND 0xf) = 8 * of_bool (bit x 3) + 4 * of_bool (bit x 2) + 2 * of_bool (bit x 1) + of_bool (bit x 0)"
proof -
  have 7: "(0x7 :: u32) = mask 3" and f: "(0xf :: u32) = mask 4" by (simp_all add: mask_numeral)
  have 4: "(4 :: nat) = Suc 3" by simp
  have t3: "take_bit 3 (k :: int) = 4 * of_bool (bit k 2) + 2 * of_bool (bit k 1) + of_bool (bit k 0)" for k
    unfolding numeral_3_eq_3 by (simp add: take_bit_Suc_from_most numeral_2_eq_2)
  have t4: "take_bit 4 (k :: int) = 8 * of_bool (bit k 3) + take_bit 3 k" for k
    unfolding 4 take_bit_Suc_from_most by simp
  show "uint (x AND 0x7) = 4 * of_bool (bit x 2) + 2 * of_bool (bit x 1) + of_bool (bit x 0)"
    unfolding 7 take_bit_eq_mask [symmetric] unsigned_take_bit_eq t3 by (simp only: bit_uint_iff) simp
  show "uint (x AND 0xf) = 8 * of_bool (bit x 3) + 4 * of_bool (bit x 2) + 2 * of_bool (bit x 1) + of_bool (bit x 0)"
    unfolding f take_bit_eq_mask [symmetric] unsigned_take_bit_eq t4 t3 by (simp only: bit_uint_iff) simp
qed

lemma is_coprocessor_bits:
  "is_coprocessor w \<longleftrightarrow> bit w 27 \<and> bit w 26 \<and> \<not> (bit w 25 \<and> bit w 24)"
proof -
  have "is_coprocessor w \<longleftrightarrow> uint (drop_bit 25 w AND 0x7) = 6 \<or> uint (drop_bit 24 w AND 0xf) = 14"
    by (simp only: is_coprocessor_def word_uint_eq_iff) simp
  also have "\<dots> \<longleftrightarrow> bit w 27 \<and> bit w 26 \<and> \<not> (bit w 25 \<and> bit w 24)"
    unfolding uint_low_bits bit_drop_bit_eq o_apply
    by (cases "bit w 24"; cases "bit w 25"; cases "bit w 26"; cases "bit w 27") simp_all
  finally show ?thesis .
qed

lemma cond_F_iff: "drop_bit 28 w = 0xf \<longleftrightarrow> cond w = 0xF"
proof -
  have "cond w = drop_bit 28 w"
    unfolding cond_def by (subst BitField_Value_eq)
      (simp, rule bit_word_eqI, auto simp: bit_simps dest: bit_imp_le_length)
  then show ?thesis by simp
qed

lemma length_index_bits [simp]: "length (index_bits enc) = 12"
  by (simp add: index_bits_def)

lemma less_12: "b < 12 \<longleftrightarrow> b \<in> {0, 1, 2, 3, 4, 5, 6, 7, 8, 9, 10, 11 :: nat}"
  by (simp, presburger)

lemma index_bits_nth:
  "b < 12 \<Longrightarrow> index_bits enc ! b =
    (if b < 4 then (if is_coprocessor_op enc then 23 - b else 27 - b) else 15 - b)"
  unfolding less_12 by (auto simp: index_bits_def)

text \<open>Where the pattern and the word are both coprocessor operations, or both not, the key carries the word's bits.\<close>

lemma key_bit_of_word:
  assumes "is_coprocessor_op enc = is_coprocessor w \<or> 4 \<le> b" and "b < 12"
  shows "bit (BuildDispatchTableKey w) b \<longleftrightarrow> bit w (31 - index_bits enc ! b)"
proof -
  have "31 - (23 - b) = b + 8" "31 - (27 - b) = b + 4" if "b < 4" using that by auto
  moreover have "31 - (15 - b) = b + 16" using assms(2) by auto
  ultimately show ?thesis
    using assms unfolding bit_BuildDispatchTableKey index_bits_nth [OF assms(2)] by (auto simp: add.commute)
qed

lemma bits_match_word:
  assumes "is_coprocessor_op enc = is_coprocessor w"
  shows "bits_match enc (take_bit 12 (BuildDispatchTableKey w)) \<longleftrightarrow>
    (\<forall>p \<in> set (index_bits enc). (fixed0 (enc ! p) \<longrightarrow> \<not> bit w (31 - p)) \<and> (fixed1 (enc ! p) \<longrightarrow> bit w (31 - p)))"
  unfolding bits_match_def all_set_conv_all_nth length_index_bits key_char_def
  using key_bit_of_word [of enc w] assms by (simp add: bit_take_bit_iff)

lemma all_set_nibbles: "(\<forall>n \<in> set [0 ..< 16]. P n) \<Longrightarrow> n < 16 \<Longrightarrow> P (n :: nat)"
  by simp

lemma nibble_of_word:
  fixes w :: u32
  defines "n \<equiv> horner_sum of_bool 2 (map (bit w) [24, 25, 26, 27]) :: nat"
  shows "n < 16" "nibble_coprocessor n \<longleftrightarrow> is_coprocessor w"
    "p \<in> {4, 5, 6, 7} \<Longrightarrow> bit n (7 - p) \<longleftrightarrow> bit w (31 - p)"
proof -
  show "n < 16" using horner_sum_of_bool_2_less [of "map (bit w) [24, 25, 26, 27]"] unfolding n_def by simp
  have n: "n = of_bool (bit w 24) + 2 * (of_bool (bit w 25) + 2 * (of_bool (bit w 26) + 2 * of_bool (bit w 27)))"
    unfolding n_def by simp
  show "nibble_coprocessor n \<longleftrightarrow> is_coprocessor w"
    unfolding is_coprocessor_bits nibble_coprocessor_def n
    by (cases "bit w 24"; cases "bit w 25"; cases "bit w 26"; cases "bit w 27") (simp_all only: of_bool_eq, simp_all)
  show "bit n (7 - p) \<longleftrightarrow> bit w (31 - p)" if "p \<in> {4, 5, 6, 7}"
    using that unfolding n_def bit_horner_sum_bit_iff by auto
qed

lemma mismatch_pattern:
  assumes ok: "pattern_ok enc" and ne: "is_coprocessor_op enc \<noteq> is_coprocessor w"
  obtains p where "p \<in> {4, 5, 6, 7}"
    "(fixed0 (enc ! p) \<and> bit w (31 - p)) \<or> (fixed1 (enc ! p) \<and> \<not> bit w (31 - p))"
proof -
  let ?n = "horner_sum of_bool 2 (map (bit w) [24, 25, 26, 27]) :: nat"
  have "nibble_coprocessor ?n \<noteq> is_coprocessor_op enc" using ne nibble_of_word(2) [of w] by (simp only:)
  then have "\<exists>p \<in> set [4, 5, 6, 7]. (fixed0 (enc ! p) \<and> bit ?n (7 - p)) \<or> (fixed1 (enc ! p) \<and> \<not> bit ?n (7 - p))"
    using ok [unfolded pattern_ok_def, THEN conjunct1, THEN all_set_nibbles, OF nibble_of_word(1) [of w]] by (rule rev_mp)
  then obtain p where p: "p \<in> set [4, 5, 6, 7]"
    "(fixed0 (enc ! p) \<and> bit ?n (7 - p)) \<or> (fixed1 (enc ! p) \<and> \<not> bit ?n (7 - p))"
    by (rule bexE)
  from p(1) have 4: "p \<in> {4, 5, 6, 7}" by simp
  show thesis using that [OF 4] p(2) unfolding nibble_of_word(3) [OF 4] .
qed

lemma mismatch_word:
  assumes ok: "pattern_ok enc" and ne: "is_coprocessor_op enc \<noteq> is_coprocessor w"
  shows "\<not> bits_match enc (take_bit 12 (BuildDispatchTableKey w))"
    and "\<exists>p \<in> set (index_bits enc). (fixed0 (enc ! p) \<and> bit w (31 - p)) \<or> (fixed1 (enc ! p) \<and> \<not> bit w (31 - p))"
proof -
  obtain p where p: "p \<in> {4, 5, 6, 7}"
    "(fixed0 (enc ! p) \<and> bit w (31 - p)) \<or> (fixed1 (enc ! p) \<and> \<not> bit w (31 - p))"
    using mismatch_pattern [OF assms] .
  have idx: "index_bits enc ! (15 - p) = p" "15 - p < 12" "4 \<le> 15 - p"
    using p(1) by (auto simp: index_bits_nth)
  have key: "bit (BuildDispatchTableKey w) (15 - p) \<longleftrightarrow> bit w (31 - p)"
    using key_bit_of_word [of enc w "15 - p"] idx by simp
  have "p \<in> set (index_bits enc)" using nth_mem [of "15 - p" "index_bits enc"] idx by simp
  with p(2) show "\<exists>p \<in> set (index_bits enc). (fixed0 (enc ! p) \<and> bit w (31 - p)) \<or> (fixed1 (enc ! p) \<and> \<not> bit w (31 - p))"
    by blast
  have "bit (take_bit 12 (BuildDispatchTableKey w)) (15 - p) \<longleftrightarrow> bit w (31 - p)"
    using key idx(2) by (simp only: bit_take_bit_iff) simp
  then show "\<not> bits_match enc (take_bit 12 (BuildDispatchTableKey w))"
    using p(2) idx unfolding bits_match_def key_char_def by metis
qed

lemma or_absorb_iff: "(k :: u32) = k OR m \<longleftrightarrow> (\<forall>b. bit m b \<longrightarrow> bit k b)"
proof
  assume "k = k OR m"
  then show "\<forall>b. bit m b \<longrightarrow> bit k b" by (metis bit_or_iff)
qed (auto intro!: bit_word_eqI simp: bit_or_iff)

lemma key_allowed_word:
  assumes "is_coprocessor_op enc \<longrightarrow> CHR ''A'' \<notin> set enc \<and> CHR ''B'' \<notin> set enc"
    and "is_coprocessor_op enc = is_coprocessor w"
  shows "key_allowed i enc (take_bit 12 (BuildDispatchTableKey w)) \<longleftrightarrow>
    \<not> (CHR ''A'' \<in> set enc \<and> bit w 4 \<and> bit w 7 \<and> \<not> bit w 25)
    \<and> \<not> (CHR ''B'' \<in> set enc \<and> bit w 4 \<and> bit w 25)
    \<and> \<not> (CHR ''E'' \<in> set enc \<and> i \<in> {I_VLDM, I_VSTM, I_VLDR, I_VSTR} \<and> bit w 21 \<and> bit w 23 = bit w 24)"
proof -
  have 9: "(0b1001 :: u32) = 2 ^ 3 OR 2 ^ 0" by simp
  have 1: "(0b1 :: u32) = 2 ^ 0" by simp
  have k9: "k = k OR 0b1001 \<longleftrightarrow> bit k 0 \<and> bit k 3" for k :: u32
    unfolding or_absorb_iff 9 bit_or_iff bit_exp_iff
  proof
    assume a: "\<forall>b. possible_bit TYPE(32 word) b \<and> b = 3 \<or> possible_bit TYPE(32 word) b \<and> b = 0 \<longrightarrow> bit k b"
    show "bit k 0 \<and> bit k 3" using a [rule_format, of 0] a [rule_format, of 3] by simp
  qed simp
  have k1: "k = k OR 0b1 \<longleftrightarrow> bit k 0" for k :: u32
    unfolding or_absorb_iff 1 bit_exp_iff by auto
  show ?thesis
    using assms unfolding key_allowed_def k9 k1 bit_take_bit_iff bit_BuildDispatchTableKey by auto
qed

lemma take_bit_OR_bit:
  fixes k :: u32 assumes "\<And>b. bit k b \<Longrightarrow> b \<le> 12"
  shows "k = take_bit 12 k OR push_bit 12 1 \<longleftrightarrow> bit k 12" and "k = take_bit 12 k \<longleftrightarrow> \<not> bit k 12"
proof -
  have b: "bit (push_bit 12 1 :: u32) b \<longleftrightarrow> b = 12" for b
    by (simp only: bit_push_bit_iff bit_1_iff) auto
  have le: "b < 12 \<or> b = 12" if "bit k b" for b using assms [OF that] by linarith
  show "k = take_bit 12 k OR push_bit 12 1 \<longleftrightarrow> bit k 12"
  proof
    assume "k = take_bit 12 k OR push_bit 12 1"
    then show "bit k 12" using b bit_or_iff by metis
  next
    assume "bit k 12"
    then show "k = take_bit 12 k OR push_bit 12 1"
      using le by (intro bit_word_eqI) (auto simp only: bit_or_iff b bit_take_bit_iff)
  qed
  show "k = take_bit 12 k \<longleftrightarrow> \<not> bit k 12"
  proof
    assume "k = take_bit 12 k"
    then show "\<not> bit k 12" by (metis bit_take_bit_iff less_irrefl)
  next
    assume "\<not> bit k 12"
    then show "k = take_bit 12 k"
      using le by (intro bit_word_eqI) (auto simp only: bit_take_bit_iff)
  qed
qed

lemma key_matches_word:
  assumes ok: "pattern_ok enc"
  shows "key_matches i enc (BuildDispatchTableKey w) \<longleftrightarrow> word_matches i enc w"
proof (cases "is_coprocessor_op enc = is_coprocessor w")
  case True
  have "bit (BuildDispatchTableKey w) 12 \<longleftrightarrow> cond w = 0xF"
    by (simp add: bit_BuildDispatchTableKey cond_F_iff)
  moreover have "\<And>b. bit (BuildDispatchTableKey w) b \<Longrightarrow> b \<le> 12"
    by (auto simp: bit_BuildDispatchTableKey split: if_splits)
  ultimately have top: "BuildDispatchTableKey w = (if is_unconditional_op enc
      then take_bit 12 (BuildDispatchTableKey w) OR push_bit 12 1 else take_bit 12 (BuildDispatchTableKey w))
    \<longleftrightarrow> (is_unconditional_op enc \<longleftrightarrow> cond w = 0xF)"
    using take_bit_OR_bit [of "BuildDispatchTableKey w"] by auto
  have "is_coprocessor_op enc \<longrightarrow> CHR ''A'' \<notin> set enc \<and> CHR ''B'' \<notin> set enc"
    using ok unfolding pattern_ok_def by (rule conjunct2)
  note allowed = key_allowed_word [OF this True]
  show ?thesis
    unfolding key_matches_def word_matches_def Let_def bits_match_word [OF True] allowed top by blast
next
  case False
  note mm = mismatch_word [OF ok False]
  have "\<not> key_matches i enc (BuildDispatchTableKey w)"
    using mm(1) unfolding key_matches_def Let_def by blast
  moreover have "\<not> word_matches i enc w"
    using mm(2) unfolding word_matches_def by blast
  ultimately show ?thesis by blast
qed

lemma find_cong_on: "(\<And>x. x \<in> set xs \<Longrightarrow> P x = Q x) \<Longrightarrow> find P xs = find Q xs"
  by (induction xs) auto

lemma table_at_word:
  "GenerateDispatchTable f default_value (BuildDispatchTableKey w) =
    (case find (\<lambda>(i, enc). word_matches i enc w) (rev meta_table) of
       None \<Rightarrow> default_value | Some (i, _) \<Rightarrow> f i)"
proof -
  have "key_matches i enc (BuildDispatchTableKey w) = word_matches i enc w" if "(i, enc) \<in> set (rev meta_table)" for i enc
    using that meta_table_ok by (intro key_matches_word) (auto simp: list_all_iff)
  then have "find (\<lambda>(i, enc). key_matches i enc (BuildDispatchTableKey w)) (rev meta_table)
      = find (\<lambda>(i, enc). word_matches i enc w) (rev meta_table)"
    by (intro find_cong_on) auto
  then show ?thesis by (simp only: GenerateDispatchTable_eq)
qed


end
