(* ===== verification/Thumb.thy ===== *)
theory Thumb
  imports Dispatch
begin

text \<open>
  Thumb instructions (\<open>arm/thumb.cpp\<close>, \<open>interpreter.cpp\<close>): the translation of a 16-bit instruction
  to an equivalent ARM instruction, and the dispatcher that runs the translation or the few
  instructions that have none.
\<close>

section \<open>Translation to ARM instructions\<close>

record DecodedThumbInstr =
  arm_equivalent :: "ARMInstr option"
  may_read_pc :: bool
  may_modify_pc :: bool

definition arm_only :: "ARMInstr \<Rightarrow> DecodedThumbInstr" where
  "arm_only w = \<lparr>arm_equivalent = Some w, may_read_pc = False, may_modify_pc = False\<rparr>"

text \<open>
  The chain of \<open>if\<close> and \<open>else if\<close> of \<open>DecodeThumb\<close>, in five pieces; a piece that has no case for an
  instruction gives \<open>None\<close>.
\<close>

definition DecodeThumb_1 :: "ThumbInstr \<Rightarrow> DecodedThumbInstr res option" where
  "DecodeThumb_1 instr =
    (let z = (\<lambda>x. ucast x :: u32); arm = arm_only in
     if opcode_upper5 instr = 0b00000 then  \<comment> \<open>LSL (1)\<close>
        Some (Inr (arm (push_bit 16 0b1110000110110000 OR push_bit 12 (z (t_idx_rd_low instr)) OR
            push_bit 7 (z (immed_mid_5 instr)) OR z (t_idx_rm instr))))
     else if opcode_upper5 instr = 0b00010 then  \<comment> \<open>ASR (1)\<close>
        Some (Inr (arm (push_bit 16 0b1110000110110000 OR push_bit 12 (z (t_idx_rd_low instr)) OR
            push_bit 7 (z (immed_mid_5 instr)) OR push_bit 4 0b100 OR z (t_idx_rm instr))))
     else if opcode_upper10 instr = 0b0100000000 then  \<comment> \<open>AND\<close>
        Some (Inr (arm (push_bit 20 0b111000000001 OR push_bit 16 (z (t_idx_rd_low instr)) OR
            push_bit 12 (z (t_idx_rd_low instr)) OR z (t_idx_rm instr))))
     else if opcode_upper10 instr = 0b0100000101 then  \<comment> \<open>ADC\<close>
        Some (Inr (arm (push_bit 20 0b111000001011 OR push_bit 16 (z (t_idx_rd_low instr)) OR
            push_bit 12 (z (t_idx_rd_low instr)) OR z (t_idx_rm instr))))
     else if opcode_upper7 instr = 0b0001110 then  \<comment> \<open>ADD (1)\<close>
        Some (Inr (arm (push_bit 20 0b111000101001 OR push_bit 16 (z (t_idx_rm instr)) OR push_bit
            12 (z (t_idx_rd_low instr)) OR z (immed_mid_5_lower3 instr))))
     else if opcode_upper5 instr = 0b00110 then  \<comment> \<open>ADD (2)\<close>
        Some (Inr (arm (push_bit 20 0b111000101001 OR push_bit 16 (z (t_idx_rd_high instr)) OR
            push_bit 12 (z (t_idx_rd_high instr)) OR z (immed_low_8 instr))))
     else if opcode_upper7 instr = 0b0001100 then  \<comment> \<open>ADD (3)\<close>
        Some (Inr (arm (push_bit 20 0b111000001001 OR push_bit 16 (z (t_idx_rm instr)) OR push_bit
            12 (z (t_idx_rd_low instr)) OR z (t_idx_rn instr))))
     else if opcode_upper8 instr = 0b01000100 then  \<comment> \<open>ADD (4)\<close>
        (let idx_rd' = z (t_idx_rd_low instr) OR push_bit 3 (z (idx_rd_upperbit instr));
            idx_rm' = z (t_idx_rm instr) OR push_bit 3 (z (idx_rm_upperbit instr)) in
        Some (Inr \<lparr>arm_equivalent = Some (push_bit 20 0b111000001000 OR push_bit 16 idx_rd'
            OR push_bit 12 idx_rd' OR idx_rm'), may_read_pc = True, may_modify_pc = (idx_rd' =
            15)\<rparr>))
     else if opcode_upper5 instr = 0b10101 then  \<comment> \<open>ADD (6)\<close>
        Some (Inr (arm (push_bit 16 0b1110001010001101 OR push_bit 12 (z (t_idx_rd_high instr)) OR
            push_bit 8 0b1111 OR z (immed_low_8 instr))))
     else if opcode_upper9 instr = 0b101100000 then  \<comment> \<open>ADD (7)\<close>
        Some (Inr (arm (push_bit 7 0b1110001010001101110111110 OR z (immed_low_7 instr))))
     else None)"

definition DecodeThumb_2 :: "ThumbInstr \<Rightarrow> DecodedThumbInstr res option" where
  "DecodeThumb_2 instr =
    (let z = (\<lambda>x. ucast x :: u32); arm = arm_only in
     if opcode_upper10 instr = 0b0100001110 then  \<comment> \<open>BIC\<close>
        Some (Inr (arm (push_bit 20 0b111000011101 OR push_bit 16 (z (t_idx_rd_low instr)) OR
            push_bit 12 (z (t_idx_rd_low instr)) OR z (t_idx_rm instr))))
     else if opcode_upper10 instr = 0b0100001000 then  \<comment> \<open>TST\<close>
        Some (Inr (arm (push_bit 20 0b111000010001 OR push_bit 16 (z (t_idx_rd_low instr)) OR z
            (t_idx_rm instr))))
     else if opcode_upper7 instr = 0b0001111 then  \<comment> \<open>SUB (1)\<close>
        Some (Inr (arm (push_bit 20 0b111000100101 OR push_bit 16 (z (t_idx_rm instr)) OR push_bit
            12 (z (t_idx_rd_low instr)) OR z (immed_mid_5_lower3 instr))))
     else if opcode_upper5 instr = 0b00111 then  \<comment> \<open>SUB (2)\<close>
        Some (Inr (arm (push_bit 20 0b111000100101 OR push_bit 16 (z (t_idx_rd_high instr)) OR
            push_bit 12 (z (t_idx_rd_high instr)) OR z (immed_low_8 instr))))
     else if opcode_upper7 instr = 0b0001101 then  \<comment> \<open>SUB (3)\<close>
        Some (Inr (arm (push_bit 20 0b111000000101 OR push_bit 16 (z (t_idx_rm instr)) OR push_bit
            12 (z (t_idx_rd_low instr)) OR z (t_idx_rn instr))))
     else if opcode_upper9 instr = 0b101100001 then  \<comment> \<open>SUB (4)\<close>
        Some (Inr (arm (push_bit 7 0b1110001001001101110111110 OR z (immed_low_7 instr))))
     else if opcode_upper10 instr = 0b0100000110 then  \<comment> \<open>SBC\<close>
        Some (Inr (arm (push_bit 20 0b111000001101 OR push_bit 16 (z (t_idx_rd_low instr)) OR
            push_bit 12 (z (t_idx_rd_low instr)) OR z (t_idx_rm instr))))
     else if opcode_upper10 instr = 0b0100001100 then  \<comment> \<open>ORR\<close>
        Some (Inr (arm (push_bit 20 0b111000011001 OR push_bit 16 (z (t_idx_rd_low instr)) OR
            push_bit 12 (z (t_idx_rd_low instr)) OR z (t_idx_rm instr))))
     else if opcode_upper10 instr = 0b0100000001 then  \<comment> \<open>EOR\<close>
        Some (Inr (arm (push_bit 20 0b111000000011 OR push_bit 16 (z (t_idx_rd_low instr)) OR
            push_bit 12 (z (t_idx_rd_low instr)) OR z (t_idx_rm instr))))
     else if opcode_upper5 instr = 0b00100 then  \<comment> \<open>MOV (1)\<close>
        Some (Inr (arm (push_bit 16 0b1110001110110000 OR push_bit 12 (z (t_idx_rd_high instr)) OR
            z (immed_low_8 instr))))
     else if opcode_upper8 instr = 0b01000110 then  \<comment> \<open>MOV (3)\<close>
        (let idx_rd' = z (t_idx_rd_low instr) OR push_bit 3 (z (idx_rd_upperbit instr));
            idx_rm' = z (t_idx_rm instr) OR push_bit 3 (z (idx_rm_upperbit instr)) in
        Some (Inr \<lparr>arm_equivalent = Some (push_bit 20 0b111000011010 OR push_bit 12 idx_rd'
            OR idx_rm'), may_read_pc = True, may_modify_pc = (idx_rd' = 15)\<rparr>))
     else if opcode_upper10 instr = 0b0100001111 then  \<comment> \<open>MVN\<close>
        Some (Inr (arm (push_bit 16 0b1110000111110000 OR push_bit 12 (z (t_idx_rd_low instr)) OR
            z (t_idx_rm instr))))
     else None)"

definition DecodeThumb_3 :: "ThumbInstr \<Rightarrow> DecodedThumbInstr res option" where
  "DecodeThumb_3 instr =
    (let z = (\<lambda>x. ucast x :: u32); arm = arm_only in
     if opcode_upper5 instr = 0b00000 then  \<comment> \<open>LSL (1)\<close>
        Some (Inr (arm (push_bit 16 0b1110000110110000 OR push_bit 12 (z (t_idx_rd_low instr)) OR
            push_bit 7 (z (immed_mid_5 instr)) OR z (t_idx_rm instr))))
     else if opcode_upper10 instr = 0b0100000010 then  \<comment> \<open>LSL (2)\<close>
        Some (Inr (arm (push_bit 16 0b1110000110110000 OR push_bit 12 (z (t_idx_rd_low instr)) OR
            push_bit 8 (z (t_idx_rm instr)) OR 0b10000 OR z (t_idx_rd_low instr))))
     else if opcode_upper5 instr = 0b00001 then  \<comment> \<open>LSR (1)\<close>
        Some (Inr (arm (push_bit 16 0b1110000110110000 OR push_bit 12 (z (t_idx_rd_low instr)) OR
            push_bit 7 (z (immed_mid_5 instr)) OR 0b100000 OR z (t_idx_rm instr))))
     else if opcode_upper10 instr = 0b0100000011 then  \<comment> \<open>LSR (2)\<close>
        Some (Inr (arm (push_bit 16 0b1110000110110000 OR push_bit 12 (z (t_idx_rd_low instr)) OR
            push_bit 8 (z (t_idx_rm instr)) OR 0b110000 OR z (t_idx_rd_low instr))))
     else if opcode_upper10 instr = 0b0100001001 then  \<comment> \<open>NEG\<close>
        Some (Inr (arm (push_bit 20 0b111000100111 OR push_bit 16 (z (t_idx_rm instr)) OR push_bit
            12 (z (t_idx_rd_low instr)))))
     else if opcode_upper10 instr = 0b0100001101 then  \<comment> \<open>MUL\<close>
        Some (Inr (arm (push_bit 20 0b111000000001 OR push_bit 16 (z (t_idx_rd_low instr)) OR
            push_bit 8 (z (t_idx_rd_low instr)) OR push_bit 4 0b1001 OR z (t_idx_rm instr))))
     else if opcode_upper10 instr = 0b1011101000 then  \<comment> \<open>REV\<close>
        Some (Inr (arm (push_bit 16 0b1110011010111111 OR push_bit 12 (z (t_idx_rd_low instr)) OR
            push_bit 4 0b11110011 OR z (t_idx_rm instr))))
     else if opcode_upper10 instr = 0b0100000111 then  \<comment> \<open>ROR\<close>
        Some (Inr (arm (push_bit 16 0b1110000110110000 OR push_bit 12 (z (t_idx_rd_low instr)) OR
            push_bit 8 (z (t_idx_rm instr)) OR push_bit 4 0b0111 OR z (t_idx_rd_low instr))))
     else if opcode_upper10 instr = 0b1011001001 then  \<comment> \<open>SXTB\<close>
        Some (Inr (arm (push_bit 16 0b1110011010101111 OR push_bit 12 (z (t_idx_rd_low instr)) OR
            push_bit 4 0b0111 OR z (t_idx_rm instr))))
     else if opcode_upper10 instr = 0b1011001000 then  \<comment> \<open>SXTH\<close>
        Some (Inr (arm (push_bit 16 0b1110011010111111 OR push_bit 12 (z (t_idx_rd_low instr)) OR
            push_bit 4 0b0111 OR z (t_idx_rm instr))))
     else if opcode_upper10 instr = 0b1011001010 then  \<comment> \<open>UXTH\<close>
        Some (Inr (arm (push_bit 16 0b1110011011111111 OR push_bit 12 (z (t_idx_rd_low instr)) OR
            push_bit 4 0b0111 OR z (t_idx_rm instr))))
     else if opcode_upper10 instr = 0b1011001011 then  \<comment> \<open>UXTB\<close>
        Some (Inr (arm (push_bit 16 0b1110011011101111 OR push_bit 12 (z (t_idx_rd_low instr)) OR
            push_bit 4 0b0111 OR z (t_idx_rm instr))))
     else None)"

definition DecodeThumb_4 :: "ThumbInstr \<Rightarrow> DecodedThumbInstr res option" where
  "DecodeThumb_4 instr =
    (let z = (\<lambda>x. ucast x :: u32); arm = arm_only in
     if opcode_upper5 instr = 0b11001 then  \<comment> \<open>LDMIA\<close>
        (let has_rd = bit (register_list instr) (unat (t_idx_rd_high instr)) in
        Some (Inr (arm (push_bit 20 0b111010001001 OR push_bit 21 (of_bool (\<not> has_rd)) OR
            push_bit 16 (z (t_idx_rd_high instr)) OR z (register_list instr)))))
     else if opcode_upper5 instr = 0b01101 then  \<comment> \<open>LDR (1)\<close>
        Some (Inr (arm (push_bit 20 0b111001011001 OR push_bit 16 (z (t_idx_rm instr)) OR push_bit
            12 (z (t_idx_rd_low instr)) OR push_bit 2 (z (immed_mid_5 instr)))))
     else if opcode_upper7 instr = 0b0101100 then  \<comment> \<open>LDR (2)\<close>
        Some (Inr (arm (push_bit 20 0b111001111001 OR push_bit 16 (z (t_idx_rm instr)) OR push_bit
            12 (z (t_idx_rd_low instr)) OR z (t_idx_rn instr))))
     else if opcode_upper5 instr = 0b10011 then  \<comment> \<open>LDR (4)\<close>
        Some (Inr (arm (push_bit 16 0b1110010110011101 OR push_bit 12 (z (t_idx_rd_high instr)) OR
            push_bit 2 (z (immed_low_8 instr)))))
     else if opcode_upper5 instr = 0b01111 then  \<comment> \<open>LDRB (1)\<close>
        Some (Inr (arm (push_bit 20 0b111001011101 OR push_bit 16 (z (t_idx_rm instr)) OR push_bit
            12 (z (t_idx_rd_low instr)) OR z (immed_mid_5 instr))))
     else if opcode_upper7 instr = 0b0101110 then  \<comment> \<open>LDRB (2)\<close>
        Some (Inr (arm (push_bit 20 0b111001111101 OR push_bit 16 (z (t_idx_rm instr)) OR push_bit
            12 (z (t_idx_rd_low instr)) OR z (t_idx_rn instr))))
     else if opcode_upper7 instr = 0b0101011 then  \<comment> \<open>LDRSB\<close>
        Some (Inr (arm (push_bit 20 0b111000011001 OR push_bit 16 (z (t_idx_rm instr)) OR push_bit
            12 (z (t_idx_rd_low instr)) OR push_bit 4 0b1101 OR z (t_idx_rn instr))))
     else if opcode_upper7 instr = 0b0101111 then  \<comment> \<open>LDRSH\<close>
        Some (Inr (arm (push_bit 20 0b111000011001 OR push_bit 16 (z (t_idx_rm instr)) OR push_bit
            12 (z (t_idx_rd_low instr)) OR push_bit 4 0b1111 OR z (t_idx_rn instr))))
     else if opcode_upper5 instr = 0b10001 then  \<comment> \<open>LDRH (1)\<close>
        Some (Inr (arm (push_bit 20 0b111000011101 OR push_bit 16 (z (t_idx_rm instr)) OR push_bit
            12 (z (t_idx_rd_low instr)) OR push_bit 8 (z (immed_mid_5_upper2 instr)) OR push_bit 4
            0b1011 OR push_bit 1 (z (immed_mid_5_lower3 instr)))))
     else if opcode_upper7 instr = 0b0101101 then  \<comment> \<open>LDRH (2)\<close>
        Some (Inr (arm (push_bit 20 0b111000011001 OR push_bit 16 (z (t_idx_rm instr)) OR push_bit
            12 (z (t_idx_rd_low instr)) OR push_bit 4 0b1011 OR z (t_idx_rn instr))))
     else None)"

definition DecodeThumb_5 :: "ThumbInstr \<Rightarrow> DecodedThumbInstr res option" where
  "DecodeThumb_5 instr =
    (let z = (\<lambda>x. ucast x :: u32); arm = arm_only in
     if opcode_upper5 instr = 0b00101 then  \<comment> \<open>CMP (1)\<close>
        Some (Inr (arm (push_bit 20 0b111000110101 OR push_bit 16 (z (t_idx_rd_high instr)) OR z
            (immed_low_8 instr))))
     else if opcode_upper10 instr = 0b0100001010 then  \<comment> \<open>CMP (2)\<close>
        Some (Inr (arm (push_bit 20 0b111000010101 OR push_bit 16 (z (t_idx_rd_low instr)) OR z
            (t_idx_rm instr))))
     else if opcode_upper8 instr = 0b01000101 then  \<comment> \<open>CMP (3)\<close>
        Some (if idx_rd_upperbit instr = 0 \<and> idx_rm_upperbit instr = 0 then Inl
            InvalidOperation
              else if idx_rm_upperbit instr \<noteq> 0 \<and> t_idx_rm instr = 7 then Inl
            InvalidOperation
              else if idx_rd_upperbit instr \<noteq> 0 \<and> t_idx_rd_low instr = 7 then Inl
            NotImplementedError
              else Inr (arm (push_bit 20 0b111000010101 OR push_bit 19 (z (idx_rd_upperbit instr))
            OR push_bit 16 (z (t_idx_rd_low instr)) OR push_bit 3 (z (idx_rm_upperbit instr)) OR z
            (t_idx_rm instr))))
     else if opcode_upper5 instr = 0b11000 then  \<comment> \<open>STMIA\<close>
        Some (Inr (arm (push_bit 20 0b111010001010 OR push_bit 16 (z (t_idx_rd_high instr)) OR z
            (register_list instr))))
     else if opcode_upper5 instr = 0b01100 then  \<comment> \<open>STR (1)\<close>
        Some (Inr (arm (push_bit 20 0b111001011000 OR push_bit 16 (z (t_idx_rm instr)) OR push_bit
            12 (z (t_idx_rd_low instr)) OR push_bit 2 (z (immed_mid_5 instr)))))
     else if opcode_upper7 instr = 0b0101000 then  \<comment> \<open>STR (2)\<close>
        Some (Inr (arm (push_bit 20 0b111001111000 OR push_bit 16 (z (t_idx_rm instr)) OR push_bit
            12 (z (t_idx_rd_low instr)) OR z (t_idx_rn instr))))
     else if opcode_upper5 instr = 0b10010 then  \<comment> \<open>STR (3)\<close>
        Some (Inr (arm (push_bit 16 0b1110010110001101 OR push_bit 12 (z (t_idx_rd_high instr)) OR
            push_bit 2 (z (immed_low_8 instr)))))
     else if opcode_upper5 instr = 0b01110 then  \<comment> \<open>STRB (1)\<close>
        Some (Inr (arm (push_bit 20 0b111001011100 OR push_bit 16 (z (t_idx_rm instr)) OR push_bit
            12 (z (t_idx_rd_low instr)) OR z (immed_mid_5 instr))))
     else if opcode_upper7 instr = 0b0101010 then  \<comment> \<open>STRB (2)\<close>
        Some (Inr (arm (push_bit 20 0b111001111100 OR push_bit 16 (z (t_idx_rm instr)) OR push_bit
            12 (z (t_idx_rd_low instr)) OR z (t_idx_rn instr))))
     else if opcode_upper5 instr = 0b10000 then  \<comment> \<open>STRH (1)\<close>
        Some (Inr (arm (push_bit 20 0b111000011100 OR push_bit 16 (z (t_idx_rm instr)) OR push_bit
            12 (z (t_idx_rd_low instr)) OR push_bit 8 (z (immed_mid_5_upper2 instr)) OR push_bit 4
            0b1011 OR push_bit 1 (z (immed_mid_5_lower3 instr)))))
     else if opcode_upper7 instr = 0b0101001 then  \<comment> \<open>STRH (2)\<close>
        Some (Inr (arm (push_bit 20 0b111000011000 OR push_bit 16 (z (t_idx_rm instr)) OR push_bit
            12 (z (t_idx_rd_low instr)) OR push_bit 4 0b1011 OR z (t_idx_rn instr))))
     else if opcode_upper7 instr = 0b1011010 then  \<comment> \<open>PUSH\<close>
        Some (Inr (arm (push_bit 16 0b1110100100101101 OR push_bit 6 (z instr AND 0x100) OR z
            (register_list instr))))
     else None)"

definition DecodeThumb :: "ThumbInstr \<Rightarrow> DecodedThumbInstr res" where
  "DecodeThumb instr =
    (case DecodeThumb_1 instr of Some d \<Rightarrow> d | None \<Rightarrow>
    (case DecodeThumb_2 instr of Some d \<Rightarrow> d | None \<Rightarrow>
    (case DecodeThumb_3 instr of Some d \<Rightarrow> d | None \<Rightarrow>
    (case DecodeThumb_4 instr of Some d \<Rightarrow> d | None \<Rightarrow>
    (case DecodeThumb_5 instr of Some d \<Rightarrow> d | None \<Rightarrow>
      Inr \<lparr>arm_equivalent = None, may_read_pc = False, may_modify_pc = False\<rparr>)))))"

section \<open>Dispatch\<close>

definition HandlerStubThumb :: "ThumbInstr \<Rightarrow> 'a res" where
  "HandlerStubThumb instr = Inl (UnknownThumbInstruction instr)"

definition ForwardThumbToARM :: "(u32 \<Rightarrow> 'd handler) \<Rightarrow> 'd handler" where
  "ForwardThumbToARM table e c instr =
    bindE (table (BuildDispatchTableKey instr) e c instr) (\<lambda>(c1, _). Inr (c1, reg (cpu c1) 15 + 2))"

definition ForwardThumbToARMMayReadPC :: "(u32 \<Rightarrow> 'd handler) \<Rightarrow> 'd handler" where
  "ForwardThumbToARMMayReadPC table e c instr =
    (let old_pc = reg (cpu c) 15
     in bindE (table (BuildDispatchTableKey instr) e (put_reg 15 (old_pc - 4) c) instr)
          (\<lambda>(c1, _). Inr (c1, old_pc + 2)))"

text \<open>The operand register of \<open>BX\<close> and \<open>BLX\<close>.\<close>

definition thumb_rm :: "ThumbInstr \<Rightarrow> nat" where
  "thumb_rm instr = unat (t_idx_rm instr OR push_bit 3 (idx_rm_upperbit instr))"

definition thumb_add5 :: "'d ctx \<Rightarrow> ThumbInstr \<Rightarrow> ('d ctx \<times> u32) res" where
  "thumb_add5 c instr =
    (let result = ((reg (cpu c) 15 + 4) AND 0xfffffffc) + ucast (immed_low_8 instr) * 4;
         c1 = put_reg (unat (t_idx_rd_high instr)) result c
     in Inr (c1, reg (cpu c1) 15 + 2))"

definition thumb_ldr3 :: "'d env \<Rightarrow> 'd ctx \<Rightarrow> ThumbInstr \<Rightarrow> ('d ctx \<times> u32) res" where
  "thumb_ldr3 e c instr =
    (let arm_instr = push_bit 16 0b1110010110011111 OR push_bit 12 (ucast (t_idx_rd_high instr)) OR
           push_bit 2 (ucast (immed_low_8 instr));
         actual_pc = reg (cpu c) 15
     in bindE (HandlerMemoryAccess False False e (put_reg 15 ((actual_pc AND NOT 2) - 4) c) arm_instr)
          (\<lambda>(c1, _). Inr (c1, actual_pc + 2)))"

definition thumb_b1 :: "'d ctx \<Rightarrow> ThumbInstr \<Rightarrow> ('d ctx \<times> u32) res" where
  "thumb_b1 c instr =
    bindE (EvalCond (cpu c) (ucast (t_cond instr))) (\<lambda>b.
      if \<not> b then Inr (c, reg (cpu c) 15 + 2)
      else Inr (c, reg (cpu c) 15 + 4 + push_bit 1 (scast (signed_immed_low_8 instr))))"

definition thumb_branch :: "'d ctx \<Rightarrow> ThumbInstr \<Rightarrow> ('d ctx \<times> u32) res" where
  "thumb_branch c instr =
    (let k = BitField_Value 11 2 instr
     in if k = 0b00
        then Inr (c, reg (cpu c) 15 + 4 + push_bit 1 (scast (signed_immed_11 instr)))
        else if k = 0b10
        then Inr (put_reg LR_idx (PC (cpu c) + 4 + push_bit 12 (scast (signed_immed_11 instr))) c, PC (cpu c) + 2)
        else let thumb = BitField_Value 12 1 instr \<noteq> 0;
                 target = LR (cpu c) + push_bit 1 (ucast (unsigned_immed_11 instr));
                 target = (if \<not> thumb then target AND 0xFFFFFFFC else target);
                 c1 = put_reg LR_idx ((PC (cpu c) + 2) OR 1) c
             in Inr (map_cpu (set_thumb thumb) c1, target))"

definition thumb_blx2 :: "'d ctx \<Rightarrow> ThumbInstr \<Rightarrow> ('d ctx \<times> u32) res" where
  "thumb_blx2 c instr =
    (if thumb_rm instr = PC_idx then HandlerStubThumb instr
     else let target = reg (cpu c) (thumb_rm instr);
              c1 = put_reg LR_idx ((reg (cpu c) 15 + 2) OR 1) c
          in Inr (map_cpu (set_thumb (bit target 0)) c1, target AND 0xFFFFFFFE))"

definition thumb_bx :: "'d ctx \<Rightarrow> ThumbInstr \<Rightarrow> ('d ctx \<times> u32) res" where
  "thumb_bx c instr =
    (if thumb_rm instr = PC_idx then HandlerStubThumb instr
     else let target = reg (cpu c) (thumb_rm instr)
          in Inr (map_cpu (set_thumb (bit target 0)) c, target AND 0xFFFFFFFE))"

definition thumb_pop :: "'d env \<Rightarrow> 'd ctx \<Rightarrow> ThumbInstr \<Rightarrow> ('d ctx \<times> u32) res" where
  "thumb_pop e c instr =
    (let arm_instr = push_bit 16 0b1110100010111101 OR push_bit 7 (ucast instr AND 0x100) OR ucast (register_list instr)
     in bindE (HandlerLDM_STM True e c arm_instr) (\<lambda>(c1, ret).
          if instr AND 0x100 \<noteq> 0 then Inr (c1, ret) else Inr (c1, ret - 2)))"

definition DispatchThumb :: "(u32 \<Rightarrow> 'd handler) \<Rightarrow> 'd env \<Rightarrow> 'd ctx \<Rightarrow> ThumbInstr \<Rightarrow> ('d ctx \<times> u32) res" where
  "DispatchThumb table e c instr =
    bindE (DecodeThumb instr) (\<lambda>decoded.
      case arm_equivalent decoded of
        Some w \<Rightarrow>
          bindE (if may_read_pc decoded then ForwardThumbToARMMayReadPC table e c w
                 else ForwardThumbToARM table e c w) (\<lambda>(c1, next_instr).
            Inr (c1, if may_modify_pc decoded then reg (cpu c1) 15 else next_instr))
      | None \<Rightarrow>
          if opcode_upper5 instr = 0b10100 then thumb_add5 c instr
          else if opcode_upper5 instr = 0b01001 then thumb_ldr3 e c instr
          else if opcode_upper4 instr = 0b1101 then thumb_b1 c instr
          else if opcode_upper3 instr = 0b111 then thumb_branch c instr
          else if opcode_upper9 instr = 0b010001111 then thumb_blx2 c instr
          else if opcode_upper9 instr = 0b010001110 then thumb_bx c instr
          else if opcode_upper7 instr = 0b1011110 then thumb_pop e c instr
          else HandlerStubThumb instr)"

end
