(* ===== verification/Controller.thy ===== *)
theory Controller
  imports Prelude
begin

text \<open>
  The handshake between a debugger and the interpreter (\<open>ProcessorController\<close> in \<open>interpreter.h\<close>, the
  debugging branch of \<open>Interpreter::Run\<close> in \<open>interpreter.cpp\<close>), and the queue of events the interpreter
  reports. Two threads share the atomics \<open>request_pause\<close>, \<open>paused\<close>, \<open>request_continue\<close> and the field
  \<open>thread_to_pause\<close>; each is a program over these with one step per access, and a step of the system is a
  step of either. A busy-waiting loop whose condition holds has no step.
\<close>

section \<open>Shared state\<close>

type_synonym pause_target = "(u32 \<times> u32 option) option"

text \<open>Where the interpreter is in its loop, and the debugger in one of its requests.\<close>

datatype emu_loc =
    E_Top | E_ShouldPause | E_SetPaused | E_AwaitPauseAck | E_CheckPaused | E_AwaitContinue
  | E_Unpause | E_AwaitContinueAck | E_Step

datatype dbg_loc =
    D_Idle
  | P_Entry | P_Set | P_AwaitPaused | P_Clear | P_Assert
  | C_Set | C_AwaitRunning | C_Clear | C_Assert
  | S_SetPause | S_SetContinue | S_AwaitRunning | S_ClearContinue | S_AwaitPaused | S_ClearPause | S_Assert

record controller =
  request_pause :: bool
  paused :: bool
  request_continue :: bool
  thread_to_pause :: pause_target
  emu :: emu_loc
  dbg :: dbg_loc
  instructions :: nat

definition controller_init :: controller where
  "controller_init = \<lparr>request_pause = False, paused = False, request_continue = False, thread_to_pause = None,
    emu = E_Top, dbg = D_Idle, instructions = 0\<rparr>"

definition ShouldPause :: "u32 \<Rightarrow> u32 \<Rightarrow> controller \<Rightarrow> bool" where
  "ShouldPause process_id thread_id k =
    (if \<not> request_pause k then False
     else case thread_to_pause k of
         None \<Rightarrow> True
       | Some (p, t) \<Rightarrow> if p \<noteq> process_id then False else (case t of None \<Rightarrow> thread_id | Some t \<Rightarrow> t) = thread_id)"

section \<open>The interpreter\<close>

text \<open>
  One iteration with a debugger attached. At \<open>E_Top\<close> the breakpoints, the trap instructions and
  \<open>trap_on_resume\<close> are checked: \<open>hit\<close> says whether one of them set \<open>paused\<close>.
\<close>

inductive emu_step :: "u32 \<Rightarrow> u32 \<Rightarrow> controller \<Rightarrow> controller \<Rightarrow> bool" for pid tid where
  check: "emu k = E_Top \<Longrightarrow> emu_step pid tid k (k\<lparr>emu := E_ShouldPause, paused := paused k \<or> hit\<rparr>)"
| should: "emu k = E_ShouldPause \<Longrightarrow>
    emu_step pid tid k (k\<lparr>emu := if ShouldPause pid tid k then E_SetPaused else E_CheckPaused\<rparr>)"
| set_paused: "emu k = E_SetPaused \<Longrightarrow> emu_step pid tid k (k\<lparr>emu := E_AwaitPauseAck, paused := True\<rparr>)"
| pause_ack: "emu k = E_AwaitPauseAck \<Longrightarrow> \<not> request_pause k \<Longrightarrow> emu_step pid tid k (k\<lparr>emu := E_CheckPaused\<rparr>)"
| check_paused: "emu k = E_CheckPaused \<Longrightarrow>
    emu_step pid tid k (k\<lparr>emu := if paused k then E_AwaitContinue else E_Step\<rparr>)"
| continue: "emu k = E_AwaitContinue \<Longrightarrow> request_continue k \<Longrightarrow> emu_step pid tid k (k\<lparr>emu := E_Unpause\<rparr>)"
| unpause: "emu k = E_Unpause \<Longrightarrow> emu_step pid tid k (k\<lparr>emu := E_AwaitContinueAck, paused := False\<rparr>)"
| continue_ack: "emu k = E_AwaitContinueAck \<Longrightarrow> \<not> request_continue k \<Longrightarrow> emu_step pid tid k (k\<lparr>emu := E_Step\<rparr>)"
| instruction: "emu k = E_Step \<Longrightarrow>
    emu_step pid tid k (k\<lparr>emu := E_Top, instructions := instructions k + 1\<rparr>)"

section \<open>The debugger\<close>

text \<open>
  \<open>RequestPause\<close>, \<open>RequestContinue\<close> and \<open>RequestStep\<close>, called one at a time. The assertions at the start
  of the latter two are conditions on the call.
\<close>

inductive dbg_step :: "controller \<Rightarrow> controller \<Rightarrow> bool" where
  pause_noop: "dbg k = D_Idle \<Longrightarrow> paused k \<Longrightarrow> dbg_step k k"
| pause_call: "dbg k = D_Idle \<Longrightarrow> \<not> paused k \<Longrightarrow> dbg_step k (k\<lparr>dbg := P_Entry\<rparr>)"
| pause_entry: "dbg k = P_Entry \<Longrightarrow> dbg_step k (k\<lparr>dbg := P_Set, thread_to_pause := None\<rparr>)"
| pause_set: "dbg k = P_Set \<Longrightarrow> dbg_step k (k\<lparr>dbg := P_AwaitPaused, request_pause := True\<rparr>)"
| pause_wait: "dbg k = P_AwaitPaused \<Longrightarrow> paused k \<Longrightarrow> dbg_step k (k\<lparr>dbg := P_Clear\<rparr>)"
| pause_clear: "dbg k = P_Clear \<Longrightarrow> dbg_step k (k\<lparr>dbg := P_Assert, request_pause := False\<rparr>)"
| pause_return: "dbg k = P_Assert \<Longrightarrow> dbg_step k (k\<lparr>dbg := D_Idle\<rparr>)"
| continue_call: "dbg k = D_Idle \<Longrightarrow> paused k \<Longrightarrow> dbg_step k (k\<lparr>dbg := C_Set\<rparr>)"
| continue_set: "dbg k = C_Set \<Longrightarrow> dbg_step k (k\<lparr>dbg := C_AwaitRunning, request_continue := True\<rparr>)"
| continue_wait: "dbg k = C_AwaitRunning \<Longrightarrow> \<not> paused k \<Longrightarrow> dbg_step k (k\<lparr>dbg := C_Clear\<rparr>)"
| continue_clear: "dbg k = C_Clear \<Longrightarrow> dbg_step k (k\<lparr>dbg := C_Assert, request_continue := False\<rparr>)"
| continue_return: "dbg k = C_Assert \<Longrightarrow> dbg_step k (k\<lparr>dbg := D_Idle\<rparr>)"
| step_call: "dbg k = D_Idle \<Longrightarrow> paused k \<Longrightarrow> dbg_step k (k\<lparr>dbg := S_SetPause, thread_to_pause := target\<rparr>)"
| step_pause: "dbg k = S_SetPause \<Longrightarrow> dbg_step k (k\<lparr>dbg := S_SetContinue, request_pause := True\<rparr>)"
| step_continue: "dbg k = S_SetContinue \<Longrightarrow> dbg_step k (k\<lparr>dbg := S_AwaitRunning, request_continue := True\<rparr>)"
| step_wait: "dbg k = S_AwaitRunning \<Longrightarrow> \<not> paused k \<Longrightarrow> dbg_step k (k\<lparr>dbg := S_ClearContinue\<rparr>)"
| step_clear: "dbg k = S_ClearContinue \<Longrightarrow> dbg_step k (k\<lparr>dbg := S_AwaitPaused, request_continue := False\<rparr>)"
| step_paused: "dbg k = S_AwaitPaused \<Longrightarrow> paused k \<Longrightarrow> dbg_step k (k\<lparr>dbg := S_ClearPause\<rparr>)"
| step_clear_pause: "dbg k = S_ClearPause \<Longrightarrow> dbg_step k (k\<lparr>dbg := S_Assert, request_pause := False\<rparr>)"
| step_return: "dbg k = S_Assert \<Longrightarrow> dbg_step k (k\<lparr>dbg := D_Idle\<rparr>)"

definition system_step :: "u32 \<Rightarrow> u32 \<Rightarrow> controller \<Rightarrow> controller \<Rightarrow> bool" where
  "system_step pid tid k k' \<longleftrightarrow> emu_step pid tid k k' \<or> dbg_step k k'"

inductive ctl_reachable :: "u32 \<Rightarrow> u32 \<Rightarrow> controller \<Rightarrow> bool" for pid tid where
  start: "ctl_reachable pid tid controller_init"
| more: "ctl_reachable pid tid k \<Longrightarrow> system_step pid tid k k' \<Longrightarrow> ctl_reachable pid tid k'"

inductive_cases emu_stepE: "emu_step pid tid k k'"
inductive_cases dbg_stepE: "dbg_step k k'"

text \<open>The condition of the \<open>assert\<close> a debugger at the given place is about to evaluate.\<close>

definition assertion_holds :: "controller \<Rightarrow> bool" where
  "assertion_holds k = (case dbg k of
      P_Entry \<Rightarrow> \<not> paused k | P_Assert \<Rightarrow> paused k | C_Assert \<Rightarrow> \<not> paused k | S_Assert \<Rightarrow> paused k | _ \<Rightarrow> True)"

section \<open>Events\<close>

datatype event =
    Segfault u32 u32 | BreakpointHit u32 u32 | ProcessLaunched u32 u32 u32
  | ReadWatchpoint u32 u32 u32 | WriteWatchpoint u32 u32 u32

text \<open>\<open>Notify*\<close>: append to the queue.\<close>

definition Notify :: "event \<Rightarrow> event list \<Rightarrow> event list" where
  "Notify ev events = events @ [ev]"

text \<open>
  The handler \<open>on_event\<close> (the virtual \<open>On*\<close> functions) sees the queue with the event still at its front
  and may append to it; the front element is removed afterwards.
\<close>

partial_function (option) ProcessEventQueue ::
  "(event \<Rightarrow> event list \<times> 'h \<Rightarrow> event list \<times> 'h) \<Rightarrow> event list \<times> 'h \<Rightarrow> (event list \<times> 'h) option" where
  "ProcessEventQueue on_event s = (case fst s of
      [] \<Rightarrow> Some s
    | ev # _ \<Rightarrow> let (events, h) = on_event ev s in ProcessEventQueue on_event (tl events, h))"

section \<open>Invariant\<close>

definition ctl_inv :: "controller \<Rightarrow> bool" where
  "ctl_inv k \<longleftrightarrow>
    (emu k \<in> {E_Step, E_AwaitContinueAck, E_Top} \<longrightarrow> \<not> paused k)
    \<and> (emu k \<in> {E_AwaitPauseAck, E_AwaitContinue, E_Unpause} \<longrightarrow> paused k)
    \<and> (request_continue k \<longleftrightarrow> dbg k \<in> {C_AwaitRunning, C_Clear, S_AwaitRunning, S_ClearContinue})
    \<and> (request_pause k \<longleftrightarrow> dbg k \<in> {P_AwaitPaused, P_Clear, S_SetContinue, S_AwaitRunning, S_ClearContinue,
         S_AwaitPaused, S_ClearPause})
    \<and> (dbg k \<in> {P_Clear, P_Assert, C_Set, S_SetPause, S_SetContinue, S_ClearPause, S_Assert} \<longrightarrow> paused k)
    \<and> (request_continue k \<and> \<not> paused k \<longrightarrow> emu k = E_AwaitContinueAck)
    \<and> (dbg k \<in> {C_Clear, S_ClearContinue} \<longrightarrow> \<not> paused k)
    \<and> (emu k = E_Unpause \<longrightarrow> dbg k \<in> {C_AwaitRunning, S_AwaitRunning})"

lemma ctl_inv_init: "ctl_inv controller_init"
  by (simp add: ctl_inv_def controller_init_def)

lemma ctl_inv_emu: "emu_step pid tid k k' \<Longrightarrow> ctl_inv k \<Longrightarrow> ctl_inv k'"
  by (erule emu_stepE; cases "dbg k"; simp add: ctl_inv_def split: if_split; blast?)

lemma ctl_inv_dbg: "dbg_step k k' \<Longrightarrow> ctl_inv k \<Longrightarrow> ctl_inv k'"
  by (erule dbg_stepE; cases "emu k"; simp add: ctl_inv_def; blast?)

lemma ctl_reachable_inv: "ctl_reachable pid tid k \<Longrightarrow> ctl_inv k"
  by (induction rule: ctl_reachable.induct) (auto simp: system_step_def intro: ctl_inv_init ctl_inv_emu ctl_inv_dbg)

section \<open>The pause holds\<close>

lemma idle_emu_step:
  "emu_step pid tid k k' \<Longrightarrow> ctl_inv k \<Longrightarrow> dbg k = D_Idle \<Longrightarrow> paused k \<Longrightarrow>
    dbg k' = D_Idle \<and> paused k' \<and> instructions k' = instructions k"
  by (erule emu_stepE; simp add: ctl_inv_def)

text \<open>C23: a pause holds until the debugger ends it. Once the debugger is outside every request and the
  interpreter is paused, no sequence of steps of the interpreter executes an instruction or leaves the
  pause.\<close>
theorem pause_is_stable:
  assumes "ctl_reachable pid tid k" and "dbg k = D_Idle" and "paused k"
    and run: "(emu_step pid tid)\<^sup>*\<^sup>* k k'"
  shows "paused k' \<and> instructions k' = instructions k"
proof -
  have "ctl_inv k' \<and> dbg k' = D_Idle \<and> paused k' \<and> instructions k' = instructions k"
    using run
  proof (induction rule: rtranclp_induct)
    case base
    then show ?case using assms ctl_reachable_inv by blast
  next
    case (step k1 k2)
    then have "ctl_inv k2" using ctl_inv_emu by blast
    moreover have "dbg k2 = D_Idle \<and> paused k2 \<and> instructions k2 = instructions k1"
      using idle_emu_step [OF step.hyps(2)] step.IH by blast
    ultimately show ?case using step.IH by simp
  qed
  then show ?thesis by blast
qed

text \<open>A run that pauses before the first instruction.\<close>

abbreviation paused_state :: "dbg_loc \<Rightarrow> controller" where
  "paused_state d \<equiv> controller_init\<lparr>paused := True, emu := E_AwaitPauseAck, dbg := d\<rparr>"

lemma reachable_emu: "ctl_reachable pid tid k \<Longrightarrow> emu_step pid tid k k' \<Longrightarrow> ctl_reachable pid tid k'"
  by (rule ctl_reachable.more) (auto simp: system_step_def)

lemma reachable_dbg: "ctl_reachable pid tid k \<Longrightarrow> dbg_step k k' \<Longrightarrow> ctl_reachable pid tid k'"
  by (rule ctl_reachable.more) (auto simp: system_step_def)

lemma paused_state_reachable: "ctl_reachable pid tid (paused_state P_Assert)" "ctl_reachable pid tid (paused_state D_Idle)"
proof -
  note [simp] = controller_init_def ShouldPause_def
  note 0 = ctl_reachable.start [of pid tid]
  note 1 = reachable_dbg [OF 0 pause_call, simplified]
  note 2 = reachable_dbg [OF 1 pause_entry, simplified]
  note 3 = reachable_dbg [OF 2 pause_set, simplified]
  note 4 = reachable_emu [OF 3 check [where hit = False], simplified]
  note 5 = reachable_emu [OF 4 should, simplified]
  note 6 = reachable_emu [OF 5 set_paused, simplified]
  note 7 = reachable_dbg [OF 6 pause_wait, simplified]
  note 8 = reachable_dbg [OF 7 pause_clear, simplified]
  note 9 = reachable_dbg [OF 8 pause_return, simplified]
  show "ctl_reachable pid tid (paused_state P_Assert)" "ctl_reachable pid tid (paused_state D_Idle)"
    using 8 9 by simp_all
qed

theorem pause_is_stable_witness:
  "paused ((paused_state D_Idle)\<lparr>emu := E_CheckPaused\<rparr>)
    \<and> instructions ((paused_state D_Idle)\<lparr>emu := E_CheckPaused\<rparr>) = 0"
proof -
  have "emu_step 0 0 (paused_state D_Idle) ((paused_state D_Idle)\<lparr>emu := E_CheckPaused\<rparr>)"
    by (rule pause_ack) (simp_all add: controller_init_def)
  then have "(emu_step 0 0)\<^sup>*\<^sup>* (paused_state D_Idle) ((paused_state D_Idle)\<lparr>emu := E_CheckPaused\<rparr>)" ..
  from pause_is_stable [OF paused_state_reachable(2) _ _ this] show ?thesis by (simp add: controller_init_def)
qed

section \<open>Assertions\<close>

text \<open>The assertions at the end of \<open>RequestPause\<close> and \<open>RequestStep\<close> hold: when either is about to
  return, the interpreter is paused and is not executing an instruction.\<close>
theorem pause_assertions_hold:
  assumes "ctl_reachable pid tid k" and "dbg k \<in> {P_Assert, S_Assert}"
  shows "assertion_holds k \<and> emu k \<noteq> E_Step"
proof -
  have inv: "ctl_inv k" by (rule ctl_reachable_inv [OF assms(1)])
  from assms(2) have "paused k" by (elim insertE emptyE) (use inv in \<open>simp_all add: ctl_inv_def\<close>)
  moreover from this have "emu k \<noteq> E_Step"
    using inv [unfolded ctl_inv_def, THEN conjunct1] by blast
  ultimately show ?thesis using assms(2) by (auto simp: assertion_holds_def)
qed

theorem pause_assertions_hold_witness: "assertion_holds (paused_state P_Assert)"
  using pause_assertions_hold [OF paused_state_reachable(1)] by simp

text \<open>The assertion at the end of \<open>RequestContinue\<close> can fail. A breakpoint hit by the first
  instruction after the pause sets \<open>paused\<close> before the debugger evaluates \<open>assert(!paused)\<close>.\<close>
theorem continue_assertion_can_fail:
  "\<exists>k. ctl_reachable pid tid k \<and> dbg k = C_Assert \<and> \<not> assertion_holds k"
proof -
  note [simp] = controller_init_def
  note 0 = paused_state_reachable(2) [of pid tid]
  note 1 = reachable_emu [OF 0 pause_ack, simplified]
  note 2 = reachable_emu [OF 1 check_paused, simplified]
  note 3 = reachable_dbg [OF 2 continue_call, simplified]
  note 4 = reachable_dbg [OF 3 continue_set, simplified]
  note 5 = reachable_emu [OF 4 continue, simplified]
  note 6 = reachable_emu [OF 5 unpause, simplified]
  note 7 = reachable_dbg [OF 6 continue_wait, simplified]
  note 8 = reachable_dbg [OF 7 continue_clear, simplified]
  note 9 = reachable_emu [OF 8 continue_ack, simplified]
  note 10 = reachable_emu [OF 9 instruction, simplified]
  note 11 = reachable_emu [OF 10 check [where hit = True], simplified]
  then show ?thesis by (intro exI conjI) (assumption, simp_all add: assertion_holds_def)
qed

section \<open>Deadlock\<close>

definition stuck :: "u32 \<Rightarrow> u32 \<Rightarrow> controller \<Rightarrow> bool" where
  "stuck pid tid k \<longleftrightarrow> (\<forall>k'. \<not> system_step pid tid k k')"

lemma emu_blocked:
  "(\<forall>k'. \<not> emu_step pid tid k k') \<longleftrightarrow>
    (emu k = E_AwaitPauseAck \<and> request_pause k) \<or> (emu k = E_AwaitContinue \<and> \<not> request_continue k)
    \<or> (emu k = E_AwaitContinueAck \<and> request_continue k)"
  by (cases "emu k") (auto elim: emu_stepE intro: emu_step.intros)

lemma dbg_blocked:
  "(\<forall>k'. \<not> dbg_step k k') \<longleftrightarrow>
    (dbg k \<in> {P_AwaitPaused, S_AwaitPaused} \<and> \<not> paused k) \<or> (dbg k \<in> {C_AwaitRunning, S_AwaitRunning} \<and> paused k)"
  by (cases "dbg k"; cases "paused k") (auto elim: dbg_stepE intro: dbg_step.intros)

text \<open>C40: the handshake has exactly one deadlock. A reachable state in which neither thread can go on is one
  in which \<open>RequestStep\<close> waits for the interpreter to run while the interpreter still waits for the
  acknowledgement of the previous pause, which the new request has overwritten.\<close>
theorem only_deadlock:
  assumes "ctl_reachable pid tid k"
  shows "stuck pid tid k \<longleftrightarrow> emu k = E_AwaitPauseAck \<and> dbg k = S_AwaitRunning"
proof -
  have inv: "ctl_inv k" by (rule ctl_reachable_inv [OF assms])
  have "stuck pid tid k \<longleftrightarrow> (\<forall>k'. \<not> emu_step pid tid k k') \<and> (\<forall>k'. \<not> dbg_step k k')"
    by (auto simp: stuck_def system_step_def)
  also have "\<dots> \<longleftrightarrow> emu k = E_AwaitPauseAck \<and> dbg k = S_AwaitRunning"
    unfolding emu_blocked dbg_blocked using inv by (cases "dbg k"; cases "emu k"; simp add: ctl_inv_def)
  finally show ?thesis .
qed

lemma deadlock_reachable:
  "ctl_reachable pid tid ((paused_state S_AwaitRunning)\<lparr>request_pause := True, request_continue := True\<rparr>)"
proof -
  note [simp] = controller_init_def
  note 0 = paused_state_reachable(2) [of pid tid]
  note 1 = reachable_dbg [OF 0 step_call [where target = None], simplified]
  note 2 = reachable_dbg [OF 1 step_pause, simplified]
  note 3 = reachable_dbg [OF 2 step_continue, simplified]
  then show ?thesis by simp
qed

theorem only_deadlock_witness:
  "stuck 0 0 ((paused_state S_AwaitRunning)\<lparr>request_pause := True, request_continue := True\<rparr>)"
  using only_deadlock [OF deadlock_reachable] by simp

text \<open>A step requested right after a pause can hang both threads. The debugger pauses the interpreter,
  \<open>RequestPause\<close> returns and \<open>RequestStep\<close> is called before the interpreter has seen \<open>request_pause\<close>
  fall; from then on neither thread ever makes another step.\<close>
theorem step_after_pause_can_deadlock:
  "\<exists>k. ctl_reachable pid tid k \<and> dbg k = S_AwaitRunning \<and> stuck pid tid k"
proof (intro exI conjI)
  let ?k = "(paused_state S_AwaitRunning)\<lparr>request_pause := True, request_continue := True\<rparr>"
  show "ctl_reachable pid tid ?k" by (rule deadlock_reachable)
  show "dbg ?k = S_AwaitRunning" by simp
  have "\<forall>k'. \<not> emu_step pid tid ?k k'" "\<forall>k'. \<not> dbg_step ?k k'"
    unfolding emu_blocked dbg_blocked by simp_all
  then show "stuck pid tid ?k" by (auto simp: stuck_def system_step_def)
qed

section \<open>Single steps\<close>

text \<open>The steps of the system while a request is under way.\<close>

definition request_step :: "u32 \<Rightarrow> u32 \<Rightarrow> controller \<Rightarrow> controller \<Rightarrow> bool" where
  "request_step pid tid k k' \<longleftrightarrow> system_step pid tid k k' \<and> dbg k' \<noteq> D_Idle"

definition targets :: "u32 \<Rightarrow> u32 \<Rightarrow> pause_target \<Rightarrow> bool" where
  "targets pid tid t = (case t of None \<Rightarrow> True | Some (p, t) \<Rightarrow> p = pid \<and> (t = None \<or> t = Some tid))"

lemma ShouldPause_iff: "ShouldPause pid tid k \<longleftrightarrow> request_pause k \<and> targets pid tid (thread_to_pause k)"
  by (auto simp: ShouldPause_def targets_def split: option.splits)

definition step_progress :: "u32 \<Rightarrow> u32 \<Rightarrow> nat \<Rightarrow> controller \<Rightarrow> bool" where
  "step_progress pid tid n k \<longleftrightarrow> ctl_inv k
    \<and> targets pid tid (thread_to_pause k)
    \<and> dbg k \<in> {S_SetPause, S_SetContinue, S_AwaitRunning, S_ClearContinue, S_AwaitPaused, S_ClearPause, S_Assert}
    \<and> (dbg k \<in> {S_SetPause, S_SetContinue, S_AwaitRunning, S_ClearContinue} \<longrightarrow> instructions k = n)
    \<and> (dbg k = S_AwaitPaused \<longrightarrow>
        (if emu k \<in> {E_AwaitContinueAck, E_Step} then instructions k = n
         else emu k \<in> {E_Top, E_ShouldPause, E_SetPaused, E_AwaitPauseAck} \<and> instructions k = n + 1))
    \<and> (dbg k \<in> {S_ClearPause, S_Assert} \<longrightarrow> instructions k = n + 1)"

lemma step_progress_emu:
  assumes "emu_step pid tid k k'" and p: "step_progress pid tid n k"
  shows "step_progress pid tid n k'"
proof -
  have "ctl_inv k" using p by (simp add: step_progress_def)
  with assms(1) have inv': "ctl_inv k'" by (rule ctl_inv_emu)
  from assms(1) show ?thesis
    by (cases rule: emu_step.cases; cases "dbg k"; use p inv' in \<open>simp add: step_progress_def ctl_inv_def ShouldPause_iff\<close>)
qed

lemma step_progress_dbg:
  assumes "dbg_step k k'" and "dbg k' \<noteq> D_Idle" and p: "step_progress pid tid n k"
  shows "step_progress pid tid n k'"
proof -
  have "ctl_inv k" using p by (simp add: step_progress_def)
  with assms(1) have inv': "ctl_inv k'" by (rule ctl_inv_dbg)
  from assms(1) show ?thesis
    by (cases rule: dbg_step.cases; cases "emu k"; use p inv' assms(2) in \<open>simp add: step_progress_def ctl_inv_def ShouldPause_iff\<close>; blast?)
qed


text \<open>\<open>RequestStep\<close> executes exactly one instruction. From its call in a paused interpreter of the
  thread it targets to the point where it is about to return, the interpreter has executed one instruction,
  whatever the interleaving and whether or not a breakpoint was hit.\<close>
theorem step_executes_one:
  assumes "ctl_reachable pid tid k" and "dbg k = S_SetPause" and "targets pid tid (thread_to_pause k)"
    and run: "(request_step pid tid)\<^sup>*\<^sup>* k k'" and "dbg k' = S_Assert"
  shows "instructions k' = instructions k + 1"
proof -
  have "step_progress pid tid (instructions k) k'"
    using run
  proof (induction rule: rtranclp_induct)
    case base
    then show ?case using assms(2,3) ctl_reachable_inv [OF assms(1)] by (simp add: step_progress_def)
  next
    case (step k1 k2)
    then show ?case
      by (auto simp: request_step_def system_step_def intro: step_progress_emu step_progress_dbg)
  qed
  then show ?thesis using assms(5) by (simp add: step_progress_def)
qed

lemma request_step_emu: "emu_step pid tid k k' \<Longrightarrow> dbg k' \<noteq> D_Idle \<Longrightarrow> request_step pid tid k k'"
  and request_step_dbg: "dbg_step k k' \<Longrightarrow> dbg k' \<noteq> D_Idle \<Longrightarrow> request_step pid tid k k'"
  by (simp_all add: request_step_def system_step_def)

abbreviation ctl :: "bool \<Rightarrow> bool \<Rightarrow> bool \<Rightarrow> emu_loc \<Rightarrow> dbg_loc \<Rightarrow> nat \<Rightarrow> controller" where
  "ctl rp p rc e d n \<equiv> \<lparr>request_pause = rp, paused = p, request_continue = rc, thread_to_pause = None, emu = e, dbg = d, instructions = n\<rparr>"

lemma step_run:
  "(request_step 0 0)\<^sup>*\<^sup>* (ctl False True False E_AwaitContinue S_SetPause 0) (ctl False True False E_AwaitPauseAck S_Assert 1)"
proof -
  note [simp] = ShouldPause_def
  have refl: "(request_step 0 0)\<^sup>*\<^sup>* (ctl False True False E_AwaitContinue S_SetPause 0) (ctl False True False E_AwaitContinue S_SetPause 0)" ..
  note app = rtranclp.rtrancl_into_rtrancl [of "request_step 0 0"]
  note 1 = app [OF refl request_step_dbg [OF step_pause], simplified]
  note 2 = app [OF 1 request_step_dbg [OF step_continue], simplified]
  note 3 = app [OF 2 request_step_emu [OF continue], simplified]
  note 4 = app [OF 3 request_step_emu [OF unpause], simplified]
  note 5 = app [OF 4 request_step_dbg [OF step_wait], simplified]
  note 6 = app [OF 5 request_step_dbg [OF step_clear], simplified]
  note 7 = app [OF 6 request_step_emu [OF continue_ack], simplified]
  note 8 = app [OF 7 request_step_emu [OF instruction], simplified]
  note 9 = app [OF 8 request_step_emu [OF check [where hit = False]], simplified]
  note 10 = app [OF 9 request_step_emu [OF should], simplified]
  note 11 = app [OF 10 request_step_emu [OF set_paused], simplified]
  note 12 = app [OF 11 request_step_dbg [OF step_paused], simplified]
  note 13 = app [OF 12 request_step_dbg [OF step_clear_pause], simplified]
  then show ?thesis by simp
qed

lemma step_start: "ctl_reachable 0 0 (ctl False True False E_AwaitContinue S_SetPause 0)"
proof -
  note [simp] = controller_init_def
  note 0 = paused_state_reachable(2) [of 0 0]
  note 1 = reachable_emu [OF 0 pause_ack, simplified]
  note 2 = reachable_emu [OF 1 check_paused, simplified]
  note 3 = reachable_dbg [OF 2 step_call [where target = None], simplified]
  then show ?thesis by simp
qed

theorem step_executes_one_witness:
  "instructions (ctl False True False E_AwaitPauseAck S_Assert 1) = instructions (ctl False True False E_AwaitContinue S_SetPause 0) + 1"
  by (rule step_executes_one [OF step_start _ _ step_run]) (simp_all add: targets_def)

section \<open>The event queue\<close>

text \<open>Events are delivered in order. When the handlers leave the queue alone, processing it ends, the
  handler has seen every event exactly once in the order of the notifications, and the queue is empty.\<close>
theorem events_in_order:
  "ProcessEventQueue (\<lambda>ev (events, seen). (events, seen @ [ev])) (events, seen) = Some ([], seen @ events)"
proof (induction events arbitrary: seen)
  case Nil
  show ?case by (subst ProcessEventQueue.simps) simp
next
  case (Cons ev events)
  show ?case by (subst ProcessEventQueue.simps) (simp add: Cons)
qed

end
