(* ===== verification/Step.thy ===== *)
theory Step
  imports Thumb Controller
begin

text \<open>
  The interpreter loop (\<open>interpreter.cpp\<close>): fetching and executing one instruction, preemption, the batches of
  instructions run without a debugger, the checks before every instruction run with one, and the
  handlers of the interpreter that the JIT uses. The kernel is a parameter: which process and thread are
  active, and what the context is like when the scheduler resumes the thread.
\<close>

section \<open>One instruction\<close>

text \<open>\<open>ReadPhysicalMemory\<close>.\<close>

definition fetch :: "'d env \<Rightarrow> width \<Rightarrow> u32 \<Rightarrow> 'd ctx \<Rightarrow> (u32 \<times> 'd ctx) res" where
  "fetch e w pc_phys c = bindE (ReadLegacy (hdl e) w pc_phys (mem c)) (\<lambda>(v, m). Inr (v, c\<lparr>mem := m\<rparr>))"

text \<open>The instructions with condition field \<open>0xF\<close>: BLX to an immediate, CLREX and PLD.\<close>

definition unconditional_instr :: "'d ctx \<Rightarrow> ARMInstr \<Rightarrow> ('d ctx \<times> u32) res" where
  "unconditional_instr c instr =
    (if opcode_prim instr = 0b1010 \<or> opcode_prim instr = 0b1011 then
       let s = set_thumb True (Link (cpu c))
       in Inr (c\<lparr>cpu := s\<rparr>, PC s + 8 + ((4 * branch_target instr) OR drop_bit 23 (instr AND 0x1000000)))
     else if instr = 0xf57ff01f then Inr (ClearExclusive c, NextInstr (cpu c))
     else if masked instr 0xFD70F000 0xF550F000 then Inr (c, NextInstr (cpu c))
     else Inl (UnknownUnconditional instr))"

definition StepWithDispatchTable :: "(u32 \<Rightarrow> 'd handler) \<Rightarrow> 'd env \<Rightarrow> 'd ctx \<Rightarrow> 'd ctx res" where
  "StepWithDispatchTable table e c =
    bindE (page_table_of c) (\<lambda>pt.
    bindE (TranslateVirtualAddress pt (PC (cpu c))) (\<lambda>pc_phys.
    bindE
      (if psr_thumb (cpsr (cpu c))
       then bindE (fetch e W16 pc_phys c) (\<lambda>(v, c). DispatchThumb table e c (ucast v))
       else bindE (fetch e W32 pc_phys c) (\<lambda>(instr, c).
            if cond instr \<noteq> 0xf then table (BuildDispatchTableKey instr) e c instr
            else unconditional_instr c instr))
      (\<lambda>(c, pc). Inr (put_reg PC_idx pc c))))"

definition Step :: "'d env \<Rightarrow> 'd ctx \<Rightarrow> 'd ctx res" where
  "Step = StepWithDispatchTable default_dispatch_table"

section \<open>The loop\<close>

text \<open>
  \<open>active_ids\<close> gives the process and thread of \<open>os->active_thread\<close>; \<open>resume\<close> is
  \<open>SwitchToSchedulerFromThread\<close> up to the point where the thread runs again.
\<close>

record 'd kernel =
  active_ids :: "'d ctx \<Rightarrow> u32 \<times> u32"
  resume :: "'d ctx \<Rightarrow> 'd ctx res"

definition TriggerPreemption :: "'d kernel \<Rightarrow> 'd ctx \<Rightarrow> 'd ctx res" where
  "TriggerPreemption os c = (if active_ids os c = (7, 2) then Inr c else resume os (ClearExclusive c))"

definition count_cycle :: "'d ctx \<Rightarrow> 'd ctx" where
  "count_cycle = map_cpu (\<lambda>s. s\<lparr>cycle_count := cycle_count s + 1\<rparr>)"

fun run_instructions :: "'d env \<Rightarrow> nat \<Rightarrow> 'd ctx \<Rightarrow> 'd ctx res" where
  "run_instructions e 0 c = Inr c"
| "run_instructions e (Suc n) c = bindE (Step e (count_cycle c)) (run_instructions e n)"

text \<open>One iteration of \<open>Run\<close> without a debugger.\<close>

definition run_free :: "'d env \<Rightarrow> 'd kernel \<Rightarrow> 'd ctx \<Rightarrow> 'd ctx res" where
  "run_free e os c = bindE (run_instructions e 10000 c) (TriggerPreemption os)"

text \<open>
  With a debugger: the checks at the head of the iteration. The result says whether the interpreter paused
  itself (the \<open>hit\<close> of \<open>emu_step\<close>).
\<close>

record 'd debuggee =
  dctx :: "'d ctx"
  breakpoints :: "u32 list"
  trap_on_resume :: bool
  events :: "event list"

definition is_trap :: "'d env \<Rightarrow> 'd ctx \<Rightarrow> (bool \<times> 'd ctx) res" where
  "is_trap e c =
    (if \<not> psr_thumb (cpsr (cpu c))
     then bindE (ReadVirtualMemory e W32 (PC (cpu c)) c) (\<lambda>(instr, c). Inr (instr = 0xe7ffdefe, c))
     else bindE (ReadVirtualMemory e W16 (PC (cpu c)) c) (\<lambda>(instr, c). Inr (instr AND 0xff00 = 0xbe00, c)))"

definition debug_checks :: "'d env \<Rightarrow> 'd kernel \<Rightarrow> u32 \<Rightarrow> u32 \<Rightarrow> 'd debuggee \<Rightarrow> (bool \<times> 'd debuggee) res" where
  "debug_checks e os pid tid d =
    (let at_breakpoint = PC (cpu (dctx d)) \<in> set (breakpoints d);
         evs = (if at_breakpoint then Notify (BreakpointHit pid tid) (events d) else events d)
     in bindE (is_trap e (dctx d)) (\<lambda>(trap, c).
        let evs = (if trap then Notify (BreakpointHit pid tid) evs else evs);
            resumed = trap_on_resume d;
            (p, t) = active_ids os c;
            evs = (if resumed then Notify (BreakpointHit p t) evs else evs)
        in Inr (at_breakpoint \<or> trap \<or> resumed,
                d\<lparr>dctx := c, trap_on_resume := False, events := evs\<rparr>)))"

text \<open>The end of the iteration: one instruction, and preemption every 4096 cycles.\<close>

definition debug_step :: "'d env \<Rightarrow> 'd kernel \<Rightarrow> 'd debuggee \<Rightarrow> 'd debuggee res" where
  "debug_step e os d =
    bindE (Step e (dctx d)) (\<lambda>c.
    let c = count_cycle c
    in bindE (if cycle_count (cpu c) AND 0xFFF = 0 then TriggerPreemption os c else Inr c) (\<lambda>c.
       Inr (d\<lparr>dctx := c\<rparr>)))"

section \<open>The interpreter of the JIT\<close>

text \<open>\<open>coro\<close> is the call of the parent coroutine, up to the point where it is resumed.\<close>

definition HandlerBranchForTemporaryInterpreter :: "(u32 \<Rightarrow> 'd ctx \<Rightarrow> 'd ctx res) \<Rightarrow> bool \<Rightarrow> 'd handler" where
  "HandlerBranchForTemporaryInterpreter coro link e c instr =
    bindE (on_cpu (HandlerBranch link) e c instr) (\<lambda>(c, target).
    bindE (coro target c) (\<lambda>c. Inr (c, target)))"

definition HandlerSWIForTemporaryInterpreter :: "(u32 \<Rightarrow> 'd ctx \<Rightarrow> 'd ctx res) \<Rightarrow> 'd handler" where
  "HandlerSWIForTemporaryInterpreter coro e c instr =
    bindE (coro (reg (cpu c) 15) c) (\<lambda>c. Inr (c, NextInstr (cpu c)))"

definition LookupHandlerForTemporaryInterpreter :: "(u32 \<Rightarrow> 'd ctx \<Rightarrow> 'd ctx res) \<Rightarrow> Instr \<Rightarrow> 'd handler" where
  "LookupHandlerForTemporaryInterpreter coro i =
    (if i = I_BL then HandlerBranchForTemporaryInterpreter coro True
     else if i = I_SWI then HandlerSWIForTemporaryInterpreter coro
     else LookupHandler i)"

definition temporary_interpreter_dispatch_table :: "(u32 \<Rightarrow> 'd ctx \<Rightarrow> 'd ctx res) \<Rightarrow> u32 \<Rightarrow> 'd handler" where
  "temporary_interpreter_dispatch_table coro = GenerateDispatchTable (LookupHandlerForTemporaryInterpreter coro) LegacyHandler"

end
