(* ===== verification/ThumbCorrect.thy ===== *)
theory ThumbCorrect
  imports Thumb
begin

text \<open>
  Correctness of the Thumb translation (\<open>DecodeThumb\<close>) against the Thumb opcode map, and of the two-part
  long branch. The pattern table is compiled once to the fixed bits of its entries, so that the handler of a
  partially known word can be computed by simplification.
\<close>

section \<open>The translation against the instruction set\<close>

text \<open>
  A pattern in compiled form: its mnemonic, whether it is a coprocessor pattern, the fixed bits of its
  key, and whether its addressing mode excludes words.
\<close>

type_synonym pattern = "Instr \<times> bool \<times> bool option list \<times> bool \<times> bool \<times> bool \<times> bool"

definition fixed_bit :: "char \<Rightarrow> bool option" where
  "fixed_bit ch = (if fixed0 ch then Some False else if fixed1 ch then Some True else None)"

definition compile_pattern :: "Instr \<times> string \<Rightarrow> pattern" where
  "compile_pattern = (\<lambda>(i, enc).
    (i, is_coprocessor_op enc, map (\<lambda>p. fixed_bit (enc ! p)) (index_bits enc),
     CHR ''A'' \<in> set enc, CHR ''B'' \<in> set enc,
     CHR ''E'' \<in> set enc \<and> i \<in> {I_VLDM, I_VSTM, I_VLDR, I_VSTR}, is_unconditional_op enc))"

fun bits_ok :: "bool option list \<Rightarrow> bool list \<Rightarrow> bool" where
  "bits_ok (None # ps) (b # bs) = bits_ok ps bs"
| "bits_ok (Some v # ps) (b # bs) = (if b = v then bits_ok ps bs else False)"
| "bits_ok _ _ = True"

lemma bits_ok_map: "bits_ok (map g ps) (map h ps) \<longleftrightarrow> (\<forall>p \<in> set ps. \<forall>v. g p = Some v \<longrightarrow> h p = v)"
proof (induction ps)
  case (Cons p ps)
  then show ?case by (cases "g p") auto
qed simp

lemma bits_ok_append:
  "length ps = length bs \<Longrightarrow> bits_ok (ps @ ps') (bs @ bs') \<longleftrightarrow> bits_ok ps bs \<and> bits_ok ps' bs'"
  by (induction ps bs rule: bits_ok.induct) auto

text \<open>The bits of a word by position: 4 to 7, 8 to 11, 20 to 27.\<close>

definition pattern_matches :: "bool list \<Rightarrow> bool list \<Rightarrow> bool list \<Rightarrow> pattern \<Rightarrow> bool" where
  "pattern_matches lo cp hi = (\<lambda>(i, cop, ps, a, b, e, u).
    bits_ok (drop 4 ps) hi \<and> bits_ok (take 4 ps) (if cop then cp else lo)
    \<and> \<not> (a \<and> lo ! 0 \<and> lo ! 3 \<and> \<not> hi ! 5) \<and> \<not> (b \<and> lo ! 0 \<and> hi ! 5)
    \<and> \<not> (e \<and> hi ! 1 \<and> hi ! 3 = hi ! 4) \<and> \<not> u)"

definition mnemonic_at :: "bool list \<Rightarrow> bool list \<Rightarrow> bool list \<Rightarrow> Instr option" where
  "mnemonic_at lo cp hi = map_option fst (find (pattern_matches lo cp hi) (map compile_pattern (rev meta_table)))"

lemma word_matches_compiled:
  assumes "cond w \<noteq> 0xF"
  shows "word_matches i enc w \<longleftrightarrow>
    pattern_matches (map (bit w) [4, 5, 6, 7]) (map (bit w) [8, 9, 10, 11])
      (map (bit w) [20, 21, 22, 23, 24, 25, 26, 27]) (compile_pattern (i, enc))"
proof -
  have f: "(fixed0 ch \<longrightarrow> \<not> b) \<and> (fixed1 ch \<longrightarrow> b) \<longleftrightarrow> (\<forall>v. fixed_bit ch = Some v \<longrightarrow> b = v)" for ch b
    using not_fixed01 [of ch] by (auto simp: fixed_bit_def)
  let ?h = "\<lambda>p. bit w (31 - p)" and ?g = "\<lambda>p. fixed_bit (enc ! p)"
  let ?lo = "if is_coprocessor_op enc then [23, 22, 21, 20] else [27, 26, 25, 24 :: nat]"
  have "(\<forall>p \<in> set (index_bits enc). (fixed0 (enc ! p) \<longrightarrow> \<not> ?h p) \<and> (fixed1 (enc ! p) \<longrightarrow> ?h p))
      \<longleftrightarrow> bits_ok (map ?g (index_bits enc)) (map ?h (index_bits enc))"
    unfolding f bits_ok_map ..
  also have "\<dots> \<longleftrightarrow> bits_ok (take 4 (map ?g (index_bits enc))) (map ?h ?lo)
      \<and> bits_ok (drop 4 (map ?g (index_bits enc))) (map (bit w) [20, 21, 22, 23, 24, 25, 26, 27])"
    using bits_ok_append [of "take 4 (map ?g (index_bits enc))" "map ?h ?lo"
        "drop 4 (map ?g (index_bits enc))" "map (bit w) [20, 21, 22, 23, 24, 25, 26, 27]"]
    by (simp add: index_bits_def)
  also have "map ?h ?lo = (if is_coprocessor_op enc then map (bit w) [8, 9, 10, 11] else map (bit w) [4, 5, 6, 7])"
    by simp
  finally have *: "(\<forall>p \<in> set (index_bits enc). (fixed0 (enc ! p) \<longrightarrow> \<not> ?h p) \<and> (fixed1 (enc ! p) \<longrightarrow> ?h p)) \<longleftrightarrow>
      bits_ok (take 4 (map ?g (index_bits enc)))
        (if is_coprocessor_op enc then map (bit w) [8, 9, 10, 11] else map (bit w) [4, 5, 6, 7])
      \<and> bits_ok (drop 4 (map ?g (index_bits enc))) (map (bit w) [20, 21, 22, 23, 24, 25, 26, 27])" .
  have nth: "map (bit w) [4, 5, 6, 7] ! 0 = bit w 4" "map (bit w) [4, 5, 6, 7] ! 3 = bit w 7"
    "map (bit w) [20, 21, 22, 23, 24, 25, 26, 27] ! 5 = bit w 25"
    "map (bit w) [20, 21, 22, 23, 24, 25, 26, 27] ! 1 = bit w 21"
    "map (bit w) [20, 21, 22, 23, 24, 25, 26, 27] ! 3 = bit w 23"
    "map (bit w) [20, 21, 22, 23, 24, 25, 26, 27] ! 4 = bit w 24" by simp_all
  show ?thesis
    unfolding word_matches_def pattern_matches_def compile_pattern_def prod.case * nth using assms by blast
qed

lemma find_map: "find P (map f xs) = map_option f (find (\<lambda>x. P (f x)) xs)"
  by (induction xs) auto

lemma GenerateDispatchTable_mnemonic:
  assumes "cond w \<noteq> 0xF"
  shows "GenerateDispatchTable f d (BuildDispatchTableKey w) =
    (case mnemonic_at (map (bit w) [4, 5, 6, 7]) (map (bit w) [8, 9, 10, 11])
            (map (bit w) [20, 21, 22, 23, 24, 25, 26, 27]) of
       None \<Rightarrow> d | Some i \<Rightarrow> f i)"
proof -
  have eq: "find (\<lambda>(i, enc). word_matches i enc w) xs = find (\<lambda>x. pattern_matches (map (bit w) [4, 5, 6, 7])
      (map (bit w) [8, 9, 10, 11]) (map (bit w) [20, 21, 22, 23, 24, 25, 26, 27]) (compile_pattern x)) xs" for xs
    by (rule find_cong_on) (auto simp only: word_matches_compiled [OF assms] split: prod.split)
  have fst: "fst (compile_pattern x) = fst x" for x by (simp add: compile_pattern_def split: prod.split)
  have "GenerateDispatchTable f d (BuildDispatchTableKey w) =
    (case find (\<lambda>(i, enc). word_matches i enc w) (rev meta_table) of None \<Rightarrow> d | Some (i, _) \<Rightarrow> f i)"
    by (rule table_at_word)
  then show ?thesis
    unfolding mnemonic_at_def find_map eq by (simp add: fst split: option.split prod.split)
qed

abbreviation b0 :: "bool option" where "b0 \<equiv> Some False"
abbreviation b1 :: "bool option" where "b1 \<equiv> Some True"
abbreviation bx :: "bool option" where "bx \<equiv> None"

lemma compiled_table: "map compile_pattern (rev meta_table) = [
    (I_VFP_D, True, [b1, b1, b0, b1, bx, bx, bx, bx, b0, b1, b1, b1], False, False, False, False),
    (I_VFP_S, True, [b0, b1, b0, b1, bx, bx, bx, bx, b0, b1, b1, b1], False, False, False, False),
    (I_VSTR, True, [bx, b1, b0, b1, b0, b0, bx, bx, b1, b0, b1, b1], False, False, True, False),
    (I_VLDR, True, [bx, b1, b0, b1, b1, b0, bx, bx, b1, b0, b1, b1], False, False, True, False),
    (I_MCRR_VFP, True, [bx, b1, b0, b1, b0, b0, b1, b0, b0, b0, b1, b1], False, False, False, False),
    (I_MRRC_VFP, True, [bx, b1, b0, b1, b1, b0, b1, b0, b0, b0, b1, b1], False, False, False, False),
    (I_VSTM, True, [bx, b1, b0, b1, b0, bx, bx, bx, bx, b0, b1, b1], False, False, True, False),
    (I_VLDM, True, [bx, b1, b0, b1, b1, bx, bx, bx, bx, b0, b1, b1], False, False, True, False),
    (I_SWI, False, [bx, bx, bx, bx, bx, bx, bx, bx, b1, b1, b1, b1], False, False, False, False),
    (I_MCRR, True, [bx, bx, bx, bx, b0, b0, b1, b0, b0, b0, b1, b1], False, False, False, False),
    (I_MRRC, True, [bx, bx, bx, bx, b1, b0, b1, b0, b0, b0, b1, b1], False, False, False, False),
    (I_MSR, False, [b0, b0, b0, b0, b0, b1, bx, b0, b1, b0, b0, b0], False, False, False, False),
    (I_MSR, False, [bx, bx, bx, bx, b0, b1, bx, b0, b1, b1, b0, b0], False, False, False, False),
    (I_STM, False, [bx, bx, bx, bx, b0, bx, bx, bx, bx, b0, b0, b1], False, False, False, False),
    (I_LDM, False, [bx, bx, bx, bx, b1, bx, bx, bx, bx, b0, b0, b1], False, False, False, False),
    (I_LDRSH, False, [b1, b1, b1, b1, b1, bx, bx, bx, bx, b0, b0, b0], False, False, False, False),
    (I_LDRSB, False, [b1, b0, b1, b1, b1, bx, bx, bx, bx, b0, b0, b0], False, False, False, False),
    (I_LDRH, False, [b1, b1, b0, b1, b1, bx, bx, bx, bx, b0, b0, b0], False, False, False, False),
    (I_STRD, False, [b1, b1, b1, b1, b0, bx, bx, bx, bx, b0, b0, b0], False, False, False, False),
    (I_LDRD, False, [b1, b0, b1, b1, b0, bx, bx, bx, bx, b0, b0, b0], False, False, False, False),
    (I_STRH, False, [b1, b1, b0, b1, b0, bx, bx, bx, bx, b0, b0, b0], False, False, False, False),
    (I_STRB, False, [bx, bx, bx, bx, b0, bx, b1, bx, bx, bx, b1, b0], False, True, False, False),
    (I_LDRB, False, [bx, bx, bx, bx, b1, bx, b1, bx, bx, bx, b1, b0], False, True, False, False),
    (I_STR, False, [bx, bx, bx, bx, b0, bx, b0, bx, bx, bx, b1, b0], False, True, False, False),
    (I_LDR, False, [bx, bx, bx, bx, b1, bx, b0, bx, bx, bx, b1, b0], False, True, False, False),
    (I_BLXImm, False, [bx, bx, bx, bx, bx, bx, bx, bx, bx, b1, b0, b1], False, False, False, True),
    (I_BLX, False, [b1, b1, b0, b0, b0, b1, b0, b0, b1, b0, b0, b0], False, False, False, False),
    (I_BX, False, [b1, b0, b0, b0, b0, b1, b0, b0, b1, b0, b0, b0], False, False, False, False),
    (I_BL, False, [bx, bx, bx, bx, bx, bx, bx, bx, b1, b1, b0, b1], False, False, False, False),
    (I_B, False, [bx, bx, bx, bx, bx, bx, bx, bx, b0, b1, b0, b1], False, False, False, False),
    (I_UXTAH, False, [b1, b1, b1, b0, b1, b1, b1, b1, b0, b1, b1, b0], False, False, False, False),
    (I_UXTB16, False, [b1, b1, b1, b0, b0, b0, b1, b1, b0, b1, b1, b0], False, False, False, False),
    (I_SXTAH, False, [b1, b1, b1, b0, b1, b1, b0, b1, b0, b1, b1, b0], False, False, False, False),
    (I_USAT, False, [b1, b0, bx, bx, bx, b1, b1, b1, b0, b1, b1, b0], False, False, False, False),
    (I_SSAT, False, [b1, b0, bx, bx, bx, b1, b0, b1, b0, b1, b1, b0], False, False, False, False),
    (I_UHADD8, False, [b1, b0, b0, b1, b1, b1, b1, b0, b0, b1, b1, b0], False, False, False, False),
    (I_UQSUB8, False, [b1, b1, b1, b1, b0, b1, b1, b0, b0, b1, b1, b0], False, False, False, False),
    (I_UQADD8, False, [b1, b0, b0, b1, b0, b1, b1, b0, b0, b1, b1, b0], False, False, False, False),
    (I_USUB8, False, [b1, b1, b1, b1, b1, b0, b1, b0, b0, b1, b1, b0], False, False, False, False),
    (I_UADD8, False, [b1, b0, b0, b1, b1, b0, b1, b0, b0, b1, b1, b0], False, False, False, False),
    (I_QSUB8, False, [b1, b1, b1, b1, b0, b1, b0, b0, b0, b1, b1, b0], False, False, False, False),
    (I_SSUB8, False, [b1, b1, b1, b1, b1, b0, b0, b0, b0, b1, b1, b0], False, False, False, False),
    (I_MUL, False, [b1, b0, b0, b1, bx, b0, b0, b0, b0, b0, b0, b0], False, False, False, False),
    (I_MVN, False, [bx, bx, bx, bx, bx, b1, b1, b1, b1, bx, b0, b0], True, False, False, False),
    (I_BIC, False, [bx, bx, bx, bx, bx, b0, b1, b1, b1, bx, b0, b0], True, False, False, False),
    (I_MOV, False, [bx, bx, bx, bx, bx, b1, b0, b1, b1, bx, b0, b0], True, False, False, False),
    (I_ORR, False, [bx, bx, bx, bx, bx, b0, b0, b1, b1, bx, b0, b0], True, False, False, False),
    (I_CMN, False, [bx, bx, bx, bx, b1, b1, b1, b0, b1, bx, b0, b0], True, False, False, False),
    (I_CMP, False, [bx, bx, bx, bx, b1, b0, b1, b0, b1, bx, b0, b0], True, False, False, False),
    (I_TEQ, False, [bx, bx, bx, bx, b1, b1, b0, b0, b1, bx, b0, b0], True, False, False, False),
    (I_TST, False, [bx, bx, bx, bx, b1, b0, b0, b0, b1, bx, b0, b0], True, False, False, False),
    (I_RSC, False, [bx, bx, bx, bx, bx, b1, b1, b1, b0, bx, b0, b0], True, False, False, False),
    (I_SBC, False, [bx, bx, bx, bx, bx, b0, b1, b1, b0, bx, b0, b0], True, False, False, False),
    (I_ADC, False, [bx, bx, bx, bx, bx, b1, b0, b1, b0, bx, b0, b0], True, False, False, False),
    (I_ADD, False, [bx, bx, bx, bx, bx, b0, b0, b1, b0, bx, b0, b0], True, False, False, False),
    (I_RSB, False, [bx, bx, bx, bx, bx, b1, b1, b0, b0, bx, b0, b0], True, False, False, False),
    (I_SUB, False, [bx, bx, bx, bx, bx, b0, b1, b0, b0, bx, b0, b0], True, False, False, False),
    (I_EOR, False, [bx, bx, bx, bx, bx, b1, b0, b0, b0, bx, b0, b0], True, False, False, False),
    (I_AND, False, [bx, bx, bx, bx, bx, b0, b0, b0, b0, bx, b0, b0], True, False, False, False)]"
  by code_simp

text \<open>
  ARM instructions in the forms Thumb needs, with their encoding: condition AL, data processing with a rotated immediate or a
  shifted register, multiplication, loads and stores with an offset that is added to the base, of a word or a byte, of a
  halfword or with a sign, loads and stores of several registers, and extension and byte reversal.
\<close>

datatype data_operand = Immediate (rotation: u32) (unrotated: u32) | ShiftByImmediate (shifted: u32) (shift_kind: u32) (amount: u32)
  | ShiftByRegister (shifted: u32) (shift_kind: u32) (amount_register: u32)

datatype arm_offset = OffsetImmediate u32 | OffsetRegister u32

datatype arm_instruction =
    DataProcessing Instr bool u32 u32 data_operand      \<comment> \<open>sets flags, Rn, Rd\<close>
  | Multiply u32 u32 u32                                \<comment> \<open>sets flags: Rd, Rm, Rs\<close>
  | WordOrByte Instr u32 u32 arm_offset              \<comment> \<open>Rn, Rd\<close>
  | HalfwordOrSigned Instr u32 u32 arm_offset        \<comment> \<open>Rn, Rd\<close>
  | Multiple Instr bool bool u32 u32                    \<comment> \<open>decrement before, write back, Rn, list\<close>
  | Extend Instr u32 u32                                \<comment> \<open>Rd, Rm\<close>
  | ExtendByte bool u32 u32                             \<comment> \<open>signed, Rd, Rm\<close>
  | ReverseBytes u32 u32                                \<comment> \<open>Rd, Rm\<close>

definition data_opcode :: "Instr \<Rightarrow> u32" where
  "data_opcode i = the (map_of (zip [I_AND, I_EOR, I_SUB, I_RSB, I_ADD, I_ADC, I_SBC, I_RSC, I_TST, I_TEQ, I_CMP, I_CMN, I_ORR, I_MOV, I_BIC, I_MVN]
    [0, 1, 2, 3, 4, 5, 6, 7, 8, 9, 10, 11, 12, 13, 14, 15]) i)"

fun encode_operand :: "data_operand \<Rightarrow> u32" where
  "encode_operand (Immediate rot imm) = 0x02000000 OR push_bit 8 rot OR imm"
| "encode_operand (ShiftByImmediate rm kind n) = push_bit 7 n OR push_bit 5 kind OR rm"
| "encode_operand (ShiftByRegister rm kind rs) = push_bit 8 rs OR push_bit 5 kind OR 0x10 OR rm"

definition encode_registers :: "u32 \<Rightarrow> u32 \<Rightarrow> u32" where
  "encode_registers rn rd = push_bit 16 rn OR push_bit 12 rd"

fun encode_word_offset :: "arm_offset \<Rightarrow> u32" where
  "encode_word_offset (OffsetImmediate n) = n"
| "encode_word_offset (OffsetRegister rm) = 0x02000000 OR rm"

fun encode_half_offset :: "arm_offset \<Rightarrow> u32" where
  "encode_half_offset (OffsetImmediate n) = 0x00400000 OR push_bit 8 (drop_bit 4 n) OR (n AND 0xF)"
| "encode_half_offset (OffsetRegister rm) = rm"

fun encode :: "arm_instruction \<Rightarrow> ARMInstr" where
  "encode (DataProcessing i s rn rd operand) =
    0xE0000000 OR push_bit 21 (data_opcode i) OR push_bit 20 (of_bool s) OR encode_registers rn rd OR encode_operand operand"
| "encode (Multiply rd rm rs) = 0xE0100090 OR push_bit 16 rd OR push_bit 8 rs OR rm"
| "encode (WordOrByte i rn rd off) =
    0xE5800000 OR push_bit 22 (of_bool (i = I_LDRB \<or> i = I_STRB)) OR push_bit 20 (of_bool (i = I_LDR \<or> i = I_LDRB))
      OR encode_registers rn rd OR encode_word_offset off"
| "encode (HalfwordOrSigned i rn rd off) =
    0xE1800090 OR push_bit 20 (of_bool (i \<noteq> I_STRH)) OR push_bit 6 (of_bool (i = I_LDRSB \<or> i = I_LDRSH)) OR push_bit 5 (of_bool (i \<noteq> I_LDRSB))
      OR encode_registers rn rd OR encode_half_offset off"
| "encode (Multiple i decrement_before write_back rn list) =
    0xE8000000 OR push_bit 24 (of_bool decrement_before) OR push_bit 23 (of_bool (\<not> decrement_before)) OR push_bit 21 (of_bool write_back)
      OR push_bit 20 (of_bool (i = I_LDM)) OR push_bit 16 rn OR list"
| "encode (Extend i rd rm) = 0xE6BF0070 OR push_bit 22 (of_bool (i = I_UXTAH)) OR push_bit 12 rd OR rm"
| "encode (ExtendByte signed_byte rd rm) = 0xE6AF0070 OR push_bit 22 (of_bool (\<not> signed_byte)) OR push_bit 12 rd OR rm"
| "encode (ReverseBytes rd rm) = 0xE6BF0F30 OR push_bit 12 rd OR rm"

text \<open>The handler of an instruction.\<close>

fun arm_handler :: "arm_instruction \<Rightarrow> 'd handler" where
  "arm_handler (DataProcessing i _ _ _ _) = LookupHandler i"
| "arm_handler (Multiply _ _ _) = LookupHandler I_MUL"
| "arm_handler (WordOrByte i _ _ _) = LookupHandler i"
| "arm_handler (HalfwordOrSigned i _ _ _) = LookupHandler i"
| "arm_handler (Multiple i _ _ _ _) = LookupHandler i"
| "arm_handler (Extend i _ _) = LookupHandler i"
| "arm_handler (ExtendByte signed_byte _ _) = on_cpu (if signed_byte then HandlerSxtb else HandlerUxtb)"
| "arm_handler (ReverseBytes _ _) = on_cpu HandlerRev"

text \<open>
  The Thumb instruction set by its opcode map: the ARM instruction that does what a Thumb instruction does, with its
  operands. Branches, system calls, loads relative to the program counter, addition to the program counter and POP, which
  have an effect of their own, are not in it.
\<close>

definition bits_nat :: "bool list \<Rightarrow> nat" where "bits_nat = foldl (\<lambda>n b. 2 * n + of_bool b) 0"

definition thumb_bits :: "ThumbInstr \<Rightarrow> nat \<Rightarrow> nat \<Rightarrow> nat" where
  "thumb_bits instr hi lo = bits_nat (map (bit instr) (rev [lo ..< hi + 1]))"

definition thumb_field :: "ThumbInstr \<Rightarrow> nat \<Rightarrow> nat \<Rightarrow> u32" where
  "thumb_field instr hi lo = ucast (take_bit (hi + 1 - lo) (drop_bit lo instr))"

text \<open>The operations on two low registers, and those of which one register may be a high one.\<close>

definition thumb_alu :: "ThumbInstr \<Rightarrow> arm_instruction" where
  "thumb_alu instr =
    (let rd = thumb_field instr 2 0; rm = thumb_field instr 5 3;
         dp = (\<lambda>i. DataProcessing i True rd rd (ShiftByImmediate rm 0 0));
         compare = (\<lambda>i. DataProcessing i True rd 0 (ShiftByImmediate rm 0 0));
         shift = (\<lambda>kind. DataProcessing I_MOV True 0 rd (ShiftByRegister rd kind rm))
     in [dp I_AND, dp I_EOR, shift 0, shift 1, shift 2, dp I_ADC, dp I_SBC, shift 3,
         compare I_TST, DataProcessing I_RSB True rm rd (Immediate 0 0), compare I_CMP, compare I_CMN,
         dp I_ORR, Multiply rd rm rd, dp I_BIC, DataProcessing I_MVN True 0 rd (ShiftByImmediate rm 0 0)] ! thumb_bits instr 9 6)"

definition thumb_high_rd :: "ThumbInstr \<Rightarrow> u32" where
  "thumb_high_rd instr = push_bit 3 (thumb_field instr 7 7) OR thumb_field instr 2 0"

definition thumb_high :: "ThumbInstr \<Rightarrow> arm_instruction" where
  "thumb_high instr =
    (let rd = thumb_high_rd instr; rm = thumb_field instr 6 3
     in [DataProcessing I_ADD False rd rd (ShiftByImmediate rm 0 0), DataProcessing I_CMP True rd 0 (ShiftByImmediate rm 0 0),
         DataProcessing I_MOV False 0 rd (ShiftByImmediate rm 0 0)] ! thumb_bits instr 9 8)"

definition thumb_register_offset :: "ThumbInstr \<Rightarrow> arm_instruction" where
  "thumb_register_offset instr =
    (let rd = thumb_field instr 2 0; rn = thumb_field instr 5 3; off = OffsetRegister (thumb_field instr 8 6)
     in [WordOrByte I_STR rn rd off, HalfwordOrSigned I_STRH rn rd off, WordOrByte I_STRB rn rd off, HalfwordOrSigned I_LDRSB rn rd off,
         WordOrByte I_LDR rn rd off, HalfwordOrSigned I_LDRH rn rd off, WordOrByte I_LDRB rn rd off, HalfwordOrSigned I_LDRSH rn rd off]
        ! thumb_bits instr 11 9)"

definition thumb_reference :: "ThumbInstr \<Rightarrow> arm_instruction option" where
  "thumb_reference instr =
    (let op = thumb_bits instr 15 11;
         rd = thumb_field instr 2 0; rm = thumb_field instr 5 3; rn = thumb_field instr 8 6; rd8 = thumb_field instr 10 8;
         imm5 = thumb_field instr 10 6; imm7 = thumb_field instr 6 0; imm8 = thumb_field instr 7 0;
         sp = 13
     in if op \<in> {0, 1, 2} then Some (DataProcessing I_MOV True 0 rd (ShiftByImmediate rm (of_nat op) imm5))
        else if op = 3
        then Some (DataProcessing (if bit instr 9 then I_SUB else I_ADD) True rm rd (if bit instr 10 then Immediate 0 rn else ShiftByImmediate rn 0 0))
        else if op = 4 then Some (DataProcessing I_MOV True 0 rd8 (Immediate 0 imm8))
        else if op = 5 then Some (DataProcessing I_CMP True rd8 0 (Immediate 0 imm8))
        else if op = 6 then Some (DataProcessing I_ADD True rd8 rd8 (Immediate 0 imm8))
        else if op = 7 then Some (DataProcessing I_SUB True rd8 rd8 (Immediate 0 imm8))
        else if op = 8 then
          if \<not> bit instr 10 then Some (thumb_alu instr)
          else if thumb_bits instr 9 8 < 3 then Some (thumb_high instr) else None
        else if op \<in> {10, 11} then Some (thumb_register_offset instr)
        else if op = 12 then Some (WordOrByte I_STR rm rd (OffsetImmediate (push_bit 2 imm5)))
        else if op = 13 then Some (WordOrByte I_LDR rm rd (OffsetImmediate (push_bit 2 imm5)))
        else if op = 14 then Some (WordOrByte I_STRB rm rd (OffsetImmediate imm5))
        else if op = 15 then Some (WordOrByte I_LDRB rm rd (OffsetImmediate imm5))
        else if op = 16 then Some (HalfwordOrSigned I_STRH rm rd (OffsetImmediate (push_bit 1 imm5)))
        else if op = 17 then Some (HalfwordOrSigned I_LDRH rm rd (OffsetImmediate (push_bit 1 imm5)))
        else if op = 18 then Some (WordOrByte I_STR sp rd8 (OffsetImmediate (push_bit 2 imm8)))
        else if op = 19 then Some (WordOrByte I_LDR sp rd8 (OffsetImmediate (push_bit 2 imm8)))
        else if op = 21 then Some (DataProcessing I_ADD False sp rd8 (Immediate 15 imm8))
        else if op = 22 then
          if thumb_bits instr 10 8 = 0
          then Some (DataProcessing (if bit instr 7 then I_SUB else I_ADD) False sp sp (Immediate 15 imm7))
          else if thumb_bits instr 10 9 = 2
          then Some (Multiple I_STM True True sp (push_bit 14 (thumb_field instr 8 8) OR imm8))
          else if thumb_bits instr 10 6 = 8 then Some (Extend I_SXTAH rd rm)
          else if thumb_bits instr 10 6 = 9 then Some (ExtendByte True rd rm)
          else if thumb_bits instr 10 6 = 10 then Some (Extend I_UXTAH rd rm)
          else if thumb_bits instr 10 6 = 11 then Some (ExtendByte False rd rm)
          else None
        else if op = 23 then if thumb_bits instr 10 6 = 8 then Some (ReverseBytes rd rm) else None
        else if op = 24 then Some (Multiple I_STM False True rd8 imm8)
        else if op = 25 then Some (Multiple I_LDM False (\<not> bit instr (unat rd8)) rd8 imm8)
        else None)"

text \<open>What the translation of an instruction to the ARM word \<open>w\<close> has to give.\<close>

definition thumb_ok :: "'d env \<Rightarrow> 'd ctx \<Rightarrow> ThumbInstr \<Rightarrow> ARMInstr \<Rightarrow> bool" where
  "thumb_ok e c instr w \<longleftrightarrow> cond w = 0xE \<and> (case thumb_reference instr of None \<Rightarrow> False
    | Some a \<Rightarrow> w = encode a \<and> default_dispatch_table (BuildDispatchTableKey w) e c w = arm_handler a e c w)"

lemma cond_bits:
  "cond w = 0xE \<longleftrightarrow> bit w 31 \<and> bit w 30 \<and> bit w 29 \<and> \<not> bit w 28"
  "cond w = 0xF \<longleftrightarrow> bit w 31 \<and> bit w 30 \<and> bit w 29 \<and> bit w 28"
proof -
  have "cond w = take_bit 4 (drop_bit 28 w)" by (simp add: cond_def BitField_Value_eq)
  moreover have "(0xf :: u32) = mask 4" by (simp add: mask_numeral)
  ultimately have "uint (cond w) = uint (drop_bit 28 w AND 0xf)" by (simp only: take_bit_eq_mask)
  then have u: "uint (cond w) = 8 * of_bool (bit w 31) + 4 * of_bool (bit w 30) + 2 * of_bool (bit w 29) + of_bool (bit w 28)"
    unfolding uint_low_bits bit_drop_bit_eq o_apply by simp
  have E: "cond w = 0xE \<longleftrightarrow> uint (cond w) = 14" and F: "cond w = 0xF \<longleftrightarrow> uint (cond w) = 15"
    by (simp_all add: word_uint_eq_iff)
  show "cond w = 0xE \<longleftrightarrow> bit w 31 \<and> bit w 30 \<and> bit w 29 \<and> \<not> bit w 28"
    "cond w = 0xF \<longleftrightarrow> bit w 31 \<and> bit w 30 \<and> bit w 29 \<and> bit w 28"
    unfolding E F u by (cases "bit w 28"; cases "bit w 29"; cases "bit w 30"; cases "bit w 31"; simp)+
qed

lemma All_less_32: "(\<forall>n < 32. P n) \<longleftrightarrow> (\<forall>n < 16. P n) \<and> (\<forall>n < 16. P (n + 16 :: nat))"
proof
  assume r: "(\<forall>n < 16. P n) \<and> (\<forall>n < 16. P (n + 16))"
  show "\<forall>n < 32. P n"
  proof (intro allI impI)
    fix n :: nat assume "n < 32"
    then show "P n" using r spec [of "\<lambda>n. n < 16 \<longrightarrow> P (n + 16)" "n - 16"] by (cases "n < 16") auto
  qed
qed auto

lemma thumb_okI:
  fixes e :: "'d env"
  assumes "bit w 31 \<and> bit w 30 \<and> bit w 29 \<and> \<not> bit w 28"
    and "case thumb_reference instr of None \<Rightarrow> False | Some a \<Rightarrow> (\<forall>n < 32. bit w n \<longleftrightarrow> bit (encode a) n)"
    and "(case mnemonic_at (map (bit w) [4, 5, 6, 7]) (map (bit w) [8, 9, 10, 11])
            (map (bit w) [20, 21, 22, 23, 24, 25, 26, 27]) of None \<Rightarrow> LegacyHandler | Some i \<Rightarrow> LookupHandler i) e c w =
      (case thumb_reference instr of None \<Rightarrow> (\<lambda>_ _ _. Inl UnexpectedDispatch) | Some a \<Rightarrow> arm_handler a) e c w"
  shows "thumb_ok e c instr w"
proof -
  obtain a where a: "thumb_reference instr = Some a" "\<forall>n < 32. bit w n \<longleftrightarrow> bit (encode a) n" using assms(2) by (auto split: option.splits)
  have eq: "w = encode a" using a(2) by (simp add: bit_eq_iff)
  have c: "cond w = 0xE" using assms(1) cond_bits(1) by blast
  then have "cond w \<noteq> 0xF" by simp
  note table = GenerateDispatchTable_mnemonic [OF this, of "LookupHandler :: Instr \<Rightarrow> 'd handler" LegacyHandler]
  show ?thesis unfolding thumb_ok_def a(1) option.case default_dispatch_table_def table
    using c eq assms(3) [unfolded a(1) option.case] by blast
qed

lemmas mnemonic_at_eval = mnemonic_at_def [unfolded compiled_table] pattern_matches_def

text \<open>A field compared with a constant, bit by bit.\<close>

lemma field_eq_bits:
  assumes "position + bits \<le> 16"
  shows "BitField_Value position bits (i :: u16) = k \<longleftrightarrow> (\<forall>n < 16. bit k n \<longleftrightarrow> n < bits \<and> bit i (position + n))"
  using assms by (auto simp: bit_eq_iff bit_BitField_Value)

lemma All_less_16: "(\<forall>n < 16. P n) \<longleftrightarrow>
  P 0 \<and> P 1 \<and> P 2 \<and> P 3 \<and> P 4 \<and> P 5 \<and> P 6 \<and> P 7 \<and> P 8 \<and> P 9 \<and> P 10 \<and> P 11 \<and> P 12 \<and> P 13 \<and> P 14 \<and> P (15 :: nat)"
  by (simp add: numeral_eq_Suc All_less_Suc) blast

lemma if_dropE: "(if b then x else y) = z \<Longrightarrow> (b \<Longrightarrow> x = z \<Longrightarrow> P) \<Longrightarrow> (y = z \<Longrightarrow> P) \<Longrightarrow> P"
  by (simp split: if_splits)

lemmas thumb_fields = t_idx_rd_low_def t_idx_rm_def t_idx_rn_def t_idx_rd_high_def
  idx_rm_upperbit_def idx_rd_upperbit_def immed_mid_5_def immed_mid_5_lower3_def immed_mid_5_upper2_def
  immed_low_7_def immed_low_8_def register_list_def

lemma bit_mult_2: "bit (x * 2 :: u32) n \<longleftrightarrow> 1 \<le> n \<and> n < 32 \<and> bit x (n - 1)"
  using bit_double_iff [of x n] by (auto simp: mult.commute)

lemmas thumb_bit_simps = bit_mult_2 bit_or_iff bit_push_bit_iff bit_and_iff bit_unsigned_iff bit_BitField_Value

definition translated :: "'d env \<Rightarrow> 'd ctx \<Rightarrow> ThumbInstr \<Rightarrow> DecodedThumbInstr res \<Rightarrow> bool" where
  "translated e c instr r \<longleftrightarrow> (\<forall>d w. r = Inr d \<longrightarrow> arm_equivalent d = Some w \<longrightarrow> thumb_ok e c instr w)"

lemma translatedI: "arm_equivalent d = Some w \<Longrightarrow> thumb_ok e c instr w \<Longrightarrow> translated e c instr (Inr d)"
  by (simp add: translated_def)

lemma translated_SomeI:
  "Some (Inr d) = Some r \<Longrightarrow> arm_equivalent d = Some w \<Longrightarrow> thumb_ok e c instr w \<Longrightarrow> translated e c instr r"
  by (auto simp: translated_def)

lemma opcode_bits:
  "opcode_upper5 i = k \<longleftrightarrow> (\<forall>n < 16. bit k n \<longleftrightarrow> n < 5 \<and> bit i (11 + n))"
  "opcode_upper7 i = k \<longleftrightarrow> (\<forall>n < 16. bit k n \<longleftrightarrow> n < 7 \<and> bit i (9 + n))"
  "opcode_upper8 i = k \<longleftrightarrow> (\<forall>n < 16. bit k n \<longleftrightarrow> n < 8 \<and> bit i (8 + n))"
  "opcode_upper9 i = k \<longleftrightarrow> (\<forall>n < 16. bit k n \<longleftrightarrow> n < 9 \<and> bit i (7 + n))"
  "opcode_upper10 i = k \<longleftrightarrow> (\<forall>n < 16. bit k n \<longleftrightarrow> n < 10 \<and> bit i (6 + n))"
  by (simp_all add: arm_fields field_eq_bits)

lemmas thumb_reference_eval = thumb_reference_def thumb_bits_def bits_nat_def upt_rec thumb_alu_def
  thumb_register_offset_def thumb_high_def Let_def

lemma bit_thumb_field: "bit (thumb_field instr hi lo) n \<longleftrightarrow> n < hi + 1 - lo \<and> n < 16 \<and> bit instr (lo + n)"
  by (auto simp: thumb_field_def bit_unsigned_iff bit_take_bit_iff bit_drop_bit_eq dest: bit_imp_le_length)

lemma thumb_register_number: "unat (thumb_field instr 10 8) = unat (BitField_Value 8 3 instr)" "unat (BitField_Value 8 3 instr) < 8"
proof -
  have "bit (BitField_Value 8 3 instr) n = bit (take_bit 3 (drop_bit 8 instr)) n" if "n < 16" for n
    using that by (auto simp: bit_BitField_Value bit_take_bit_iff bit_drop_bit_eq)
  then have "BitField_Value 8 3 instr = take_bit 3 (drop_bit 8 instr)" by (intro bit_word_eqI) simp
  then show "unat (thumb_field instr 10 8) = unat (BitField_Value 8 3 instr)" by (simp add: thumb_field_def unsigned_ucast_eq unsigned_take_bit_eq)
  show "unat (BitField_Value 8 3 instr) < 8" using unat_BitField_Value_less [of 8 3 instr] by simp
qed

lemma bit_of_bool_word: "bit (of_bool b :: u32) n \<longleftrightarrow> b \<and> n = 0"
  by (auto simp: bit_of_bool_iff)

lemmas encode_bits = All_less_32 All_less_16 bit_thumb_field thumb_register_number encode_registers_def data_opcode_def thumb_high_rd_def
  bit_drop_bit_eq bit_of_bool_word


text \<open>The three instructions that end in the dispatcher by masks.\<close>

lemma masked_iff: "(w :: u32) AND m = v \<longleftrightarrow> (\<forall>n < 32. bit v n \<longleftrightarrow> bit w n \<and> bit m n)"
  by (auto simp: bit_eq_iff bit_and_iff)

lemma LegacyHandler_0110:
  assumes "\<not> bit w 24 \<and> bit w 25 \<and> bit w 26 \<and> \<not> bit w 27"
  shows "LegacyHandler e c w = Handler01xx e c w"
proof -
  have "opcode_prim w = 6"
    unfolding opcode_prim_def using assms
    by (intro bit_word_eqI) (auto simp: bit_BitField_Value less_Suc_eq numeral_eq_Suc)
  then show ?thesis by (simp add: LegacyHandler_def handlers_arm_prim_def)
qed

lemmas mask_bits = masked_iff All_less_32 All_less_16

lemma legacy_media:
  assumes "cond w \<noteq> 0xF"
  shows "w AND 0xFFF0FF0 = 0x6BF0F30 \<Longrightarrow> LegacyHandler e c w = on_cpu HandlerRev e c w"
    and "w AND 0xFFF03F0 = 0x6AF0070 \<Longrightarrow> LegacyHandler e c w = on_cpu HandlerSxtb e c w"
    and "w AND 0xFFF03F0 = 0x6EF0070 \<Longrightarrow> LegacyHandler e c w = on_cpu HandlerUxtb e c w"
  subgoal unfolding mask_bits using assms
    by (subst LegacyHandler_0110) (simp_all add: Handler01xx_def mask_bits)
  subgoal unfolding mask_bits using assms
    by (subst LegacyHandler_0110) (simp_all add: Handler01xx_def mask_bits)
  subgoal unfolding mask_bits using assms
    by (subst LegacyHandler_0110) (simp_all add: Handler01xx_def mask_bits)
  done

lemma translated_if:
  "(\<not> b \<Longrightarrow> translated e c instr r) \<Longrightarrow> translated e c instr (if b then Inl x else r)"
  by (simp add: translated_def)

lemmas translate_simps = thumb_bit_simps thumb_fields

lemma translated_124:
  "DecodeThumb_1 instr = Some r \<Longrightarrow> translated e c instr r"
  "DecodeThumb_2 instr = Some r \<Longrightarrow> translated e c instr r"
  "DecodeThumb_4 instr = Some r \<Longrightarrow> translated e c instr r"
  unfolding DecodeThumb_1_def DecodeThumb_2_def DecodeThumb_4_def Let_def opcode_bits All_less_16
  by ((elim if_dropE; (erule translated_SomeI, simp add: arm_only_def, rule thumb_okI, simp add: translate_simps,
        simp add: thumb_reference_eval, simp add: encode_bits translate_simps, simp add: translate_simps,
        simp add: mnemonic_at_eval thumb_reference_eval | simp))+)

lemma translated_5: "DecodeThumb_5 instr = Some r \<Longrightarrow> translated e c instr r"
  unfolding DecodeThumb_5_def Let_def opcode_bits All_less_16
  apply (elim if_dropE; (erule translated_SomeI, simp add: arm_only_def, rule thumb_okI, simp add: translate_simps,
        simp add: thumb_reference_eval, simp add: encode_bits translate_simps, simp add: translate_simps,
        simp add: mnemonic_at_eval thumb_reference_eval)?)
   apply (simp only: option.inject, hypsubst, intro translated_if translatedI, simp add: arm_only_def,
      rule thumb_okI, simp add: translate_simps, simp add: thumb_reference_eval, simp add: encode_bits translate_simps, simp add: translate_simps,
      simp add: mnemonic_at_eval thumb_reference_eval)
  apply simp
  done

lemma translated_3: "DecodeThumb_3 instr = Some r \<Longrightarrow> translated e c instr r"
  unfolding DecodeThumb_3_def Let_def opcode_bits All_less_16
  apply (elim if_dropE; (erule translated_SomeI, simp add: arm_only_def, rule thumb_okI, simp add: translate_simps,
        simp add: thumb_reference_eval, simp add: encode_bits translate_simps, simp add: translate_simps,
        simp add: mnemonic_at_eval thumb_reference_eval)?)
     apply (subst legacy_media(1), simp add: cond_bits(2) translate_simps, simp add: mask_bits translate_simps, simp)
    apply (subst legacy_media(2), simp add: cond_bits(2) translate_simps, simp add: mask_bits translate_simps, simp)
   apply (subst legacy_media(3), simp add: cond_bits(2) translate_simps, simp add: mask_bits translate_simps, simp)
  apply simp
  done

text \<open>The two instructions that may read the program counter, and may set it.\<close>

definition flags_ok :: "ThumbInstr \<Rightarrow> DecodedThumbInstr res \<Rightarrow> bool" where
  "flags_ok instr r \<longleftrightarrow> (\<forall>d. r = Inr d \<longrightarrow> arm_equivalent d \<noteq> None \<longrightarrow>
    (may_read_pc d \<longleftrightarrow> thumb_bits instr 15 8 \<in> {0x44, 0x46}) \<and> (may_modify_pc d \<longleftrightarrow> may_read_pc d \<and> thumb_high_rd instr = 15))"

lemma high_rd: "ucast (t_idx_rd_low instr) OR push_bit 3 (ucast (idx_rd_upperbit instr)) = thumb_high_rd instr"
  by (intro bit_word_eqI) (auto simp: thumb_high_rd_def bit_thumb_field thumb_bit_simps t_idx_rd_low_def idx_rd_upperbit_def)

lemma flags_low: "thumb_bits instr 15 8 \<notin> {0x44, 0x46} \<Longrightarrow> flags_ok instr (Inr (arm_only w))"
  by (simp add: flags_ok_def arm_only_def)

lemma flags_SomeI: "Some (Inr (arm_only w)) = Some r \<Longrightarrow> thumb_bits instr 15 8 \<notin> {0x44, 0x46} \<Longrightarrow> flags_ok instr r"
  using flags_low by auto

lemma flags_pieces:
  "DecodeThumb_1 instr = Some r \<Longrightarrow> flags_ok instr r"
  "DecodeThumb_2 instr = Some r \<Longrightarrow> flags_ok instr r"
  "DecodeThumb_3 instr = Some r \<Longrightarrow> flags_ok instr r"
  "DecodeThumb_4 instr = Some r \<Longrightarrow> flags_ok instr r"
  "DecodeThumb_5 instr = Some r \<Longrightarrow> flags_ok instr r"
  unfolding DecodeThumb_1_def DecodeThumb_2_def DecodeThumb_3_def DecodeThumb_4_def DecodeThumb_5_def Let_def opcode_bits All_less_16 high_rd
  by ((elim if_dropE; (erule flags_SomeI, simp add: thumb_bits_def bits_nat_def upt_rec
        | auto simp: flags_ok_def arm_only_def thumb_bits_def bits_nat_def upt_rec split: if_splits)?)+)

text \<open>C8: Thumb instructions are run as the ARM instructions they stand for. Whenever \<open>DecodeThumb\<close> translates an instruction,
  the word it gives is the encoding of the ARM instruction that the Thumb opcode map assigns to it, with the same registers,
  immediates and offsets, setting the flags or not, under condition AL. \<open>DispatchThumb\<close> runs the handler of that instruction
  on the word and goes on two bytes further; for ADD and MOV of high registers the program counter reads four bytes ahead
  and can be the destination. Instructions without a translation, among them CMN and ASR by a register, are not meant.\<close>
theorem thumb_translation:
  assumes "DecodeThumb instr = Inr d" and "arm_equivalent d = Some w"
  shows "\<exists>a. thumb_reference instr = Some a \<and> w = encode a \<and> cond w = 0xE \<and>
    DispatchThumb default_dispatch_table e c instr =
      (if thumb_bits instr 15 8 \<in> {0x44, 0x46}
       then bindE (arm_handler a e (put_reg 15 (reg (cpu c) 15 - 4) c) w) (\<lambda>(c1, _).
         Inr (c1, if thumb_high_rd instr = 15 then reg (cpu c1) 15 else reg (cpu c) 15 + 2))
       else bindE (arm_handler a e c w) (\<lambda>(c1, _). Inr (c1, reg (cpu c1) 15 + 2)))"
proof -
  have "translated e' c' instr (DecodeThumb instr)" for e' :: "'a env" and c'
    by (auto simp: DecodeThumb_def translated_def [of _ _ _ "Inr _"] split: option.split
        dest: translated_124 translated_3 translated_5)
  then have ok: "thumb_ok e' c' instr w" for e' :: "'a env" and c' using assms by (simp add: translated_def)
  obtain a where a: "thumb_reference instr = Some a" "w = encode a" "cond w = 0xE" using ok [of e c] by (auto simp: thumb_ok_def split: option.splits)
  have run: "default_dispatch_table (BuildDispatchTableKey w) e c' w = arm_handler a e c' w" for c'
    using ok [of e c'] a(1) by (auto simp: thumb_ok_def)
  have "flags_ok instr (DecodeThumb instr)"
    by (auto simp: DecodeThumb_def flags_ok_def [of _ "Inr \<lparr>arm_equivalent = None, may_read_pc = False, may_modify_pc = False\<rparr>"]
        split: option.split dest: flags_pieces)
  then have flags: "may_read_pc d \<longleftrightarrow> thumb_bits instr 15 8 \<in> {0x44, 0x46}" "may_modify_pc d \<longleftrightarrow> may_read_pc d \<and> thumb_high_rd instr = 15"
    using assms by (simp_all add: flags_ok_def)
  have "DispatchThumb default_dispatch_table e c instr =
      (if thumb_bits instr 15 8 \<in> {0x44, 0x46}
       then bindE (arm_handler a e (put_reg 15 (reg (cpu c) 15 - 4) c) w) (\<lambda>(c1, _).
         Inr (c1, if thumb_high_rd instr = 15 then reg (cpu c1) 15 else reg (cpu c) 15 + 2))
       else bindE (arm_handler a e c w) (\<lambda>(c1, _). Inr (c1, reg (cpu c1) 15 + 2)))"
    unfolding DispatchThumb_def assms(1) ForwardThumbToARM_def ForwardThumbToARMMayReadPC_def run Let_def
    using flags by (simp add: assms(2) run bindE_def del: insert_iff split: sum.split prod.split)
  with a show ?thesis by blast
qed

theorem thumb_translation_witness:
  "\<forall>e c. DispatchThumb default_dispatch_table e c 0x18D1 =
    bindE (LookupHandler I_ADD e c 0xE0921003) (\<lambda>(c1, _). Inr (c1, reg (cpu c1) 15 + 2))"
proof (intro allI)
  fix e c
  have "DecodeThumb 0x18D1 = Inr (arm_only 0xE0921003)" by code_simp
  moreover have "thumb_reference 0x18D1 = Some (DataProcessing I_ADD True 2 1 (ShiftByImmediate 3 0 0))" by code_simp
  moreover have "thumb_bits 0x18D1 15 8 = 0x18" by code_simp
  ultimately show "DispatchThumb default_dispatch_table e c 0x18D1 =
    bindE (LookupHandler I_ADD e c 0xE0921003) (\<lambda>(c1, _). Inr (c1, reg (cpu c1) 15 + 2))"
    using thumb_translation [of "0x18D1" _ _ e c] by (fastforce simp: arm_only_def)
qed

text \<open>CMN and ASR by a register are in the opcode map, but have no translation, and no case in the dispatcher.\<close>

theorem thumb_without_translation:
  assumes "drop_bit 6 instr \<in> {0b0100001011, 0b0100000100}"
  shows "thumb_reference instr \<noteq> None" "DispatchThumb table e c instr = Inl (UnknownThumbInstruction instr)"
proof -
  have b: "bit instr (6 + n) \<longleftrightarrow> bit (drop_bit 6 instr) n" for n by (simp add: bit_drop_bit_eq)
  note b = b [of 9] b [of 8] b [of 7] b [of 6] b [of 5] b [of 4] b [of 3] b [of 2] b [of 1] b [of 0]
  consider "drop_bit 6 instr = 0b0100001011" | "drop_bit 6 instr = 0b0100000100" using assms by blast
  then have bits: "\<not> bit instr 15" "bit instr 14" "\<not> bit instr 13" "\<not> bit instr 12" "\<not> bit instr 11" "\<not> bit instr 10"
    "bit instr 9 \<longleftrightarrow> bit instr 7" "bit instr 8 \<longleftrightarrow> \<not> bit instr 7" "bit instr 6 \<longleftrightarrow> bit instr 7"
    by (cases; (use b in simp))+
  show "thumb_reference instr \<noteq> None" using bits by (simp add: thumb_reference_eval)
  have "DecodeThumb instr = Inr \<lparr>arm_equivalent = None, may_read_pc = False, may_modify_pc = False\<rparr>"
    unfolding DecodeThumb_def DecodeThumb_1_def DecodeThumb_2_def DecodeThumb_3_def DecodeThumb_4_def DecodeThumb_5_def Let_def
      opcode_bits All_less_16 using bits by simp
  moreover have "opcode_upper5 instr \<noteq> 0b10100" "opcode_upper5 instr \<noteq> 0b01001" "opcode_upper9 instr \<noteq> 0b010001111"
    "opcode_upper9 instr \<noteq> 0b010001110" "opcode_upper7 instr \<noteq> 0b1011110"
    unfolding opcode_bits All_less_16 using bits by simp_all
  moreover have "opcode_upper4 instr \<noteq> 0b1101" "opcode_upper3 instr \<noteq> 0b111"
    using bits unfolding opcode_upper4_def opcode_upper3_def by (simp_all add: field_eq_bits All_less_16)
  ultimately show "DispatchThumb table e c instr = Inl (UnknownThumbInstruction instr)"
    by (simp add: DispatchThumb_def HandlerStubThumb_def)
qed

section \<open>Long branches\<close>

lemma DecodeThumb_111:
  assumes "bit instr 15" "bit instr 14" "bit instr 13"
  shows "DecodeThumb instr = Inr \<lparr>arm_equivalent = None, may_read_pc = False, may_modify_pc = False\<rparr>"
proof -
  have f: "opcode_upper5 instr = k \<Longrightarrow> bit k 4 \<and> bit k 3 \<and> bit k 2"
    "opcode_upper7 instr = k \<Longrightarrow> bit k 6 \<and> bit k 5 \<and> bit k 4"
    "opcode_upper8 instr = k \<Longrightarrow> bit k 7 \<and> bit k 6 \<and> bit k 5"
    "opcode_upper9 instr = k \<Longrightarrow> bit k 8 \<and> bit k 7 \<and> bit k 6"
    "opcode_upper10 instr = k \<Longrightarrow> bit k 9 \<and> bit k 8 \<and> bit k 7" for k
    using assms unfolding opcode_bits by auto
  have n: "\<not> (bit k 4 \<and> bit k 3 \<and> bit k 2) \<Longrightarrow> opcode_upper5 instr \<noteq> k"
    "\<not> (bit k 6 \<and> bit k 5 \<and> bit k 4) \<Longrightarrow> opcode_upper7 instr \<noteq> k"
    "\<not> (bit k 7 \<and> bit k 6 \<and> bit k 5) \<Longrightarrow> opcode_upper8 instr \<noteq> k"
    "\<not> (bit k 8 \<and> bit k 7 \<and> bit k 6) \<Longrightarrow> opcode_upper9 instr \<noteq> k"
    "\<not> (bit k 9 \<and> bit k 8 \<and> bit k 7) \<Longrightarrow> opcode_upper10 instr \<noteq> k" for k
    using f [of k] by blast+
  show ?thesis
    by (simp add: DecodeThumb_def DecodeThumb_1_def DecodeThumb_2_def DecodeThumb_3_def DecodeThumb_4_def
        DecodeThumb_5_def n)
qed

lemma DispatchThumb_branch:
  assumes "bit instr 15" "bit instr 14" "bit instr 13"
  shows "DispatchThumb table e c instr = thumb_branch c instr"
proof -
  have "opcode_upper5 instr \<noteq> 0b10100" "opcode_upper5 instr \<noteq> 0b01001"
    using assms unfolding opcode_bits All_less_16 by simp_all
  moreover have "opcode_upper4 instr \<noteq> 0b1101" "opcode_upper3 instr = 0b111"
    using assms unfolding opcode_upper4_def opcode_upper3_def
    by (simp_all add: field_eq_bits All_less_16)
  ultimately show ?thesis
    by (simp add: DispatchThumb_def DecodeThumb_111 [OF assms])
qed

text \<open>The offset of a long branch: the signed 22-bit number the two halves encode, in halfwords.\<close>

definition bl_offset :: "ThumbInstr \<Rightarrow> ThumbInstr \<Rightarrow> int" where
  "bl_offset i1 i2 = 2 * signed_take_bit 21 (2048 * (uint i1 mod 2048) + uint i2 mod 2048)"

lemma bl_offset_bits:
  "bit (bl_offset i1 i2) n \<longleftrightarrow>
    (if n = 0 then False else if n < 12 then bit i2 (n - 1) else bit i1 (min 10 (n - 12)))"
proof -
  let ?a = "uint i1 mod 2048" and ?b = "uint i2 mod 2048"
  have "2048 * ?a + ?b = push_bit 11 (take_bit 11 (uint i1)) OR take_bit 11 (uint i2)"
  proof -
    have "push_bit 11 (take_bit 11 (uint i1)) OR take_bit 11 (uint i2) = push_bit 11 (take_bit 11 (uint i1)) + take_bit 11 (uint i2)"
      by (rule disjunctive_add [symmetric]) (simp add: bit_push_bit_iff bit_take_bit_iff)
    then show ?thesis by (simp add: push_bit_eq_mult take_bit_eq_mod)
  qed
  then have imm: "bit (2048 * ?a + ?b) m \<longleftrightarrow> (if m < 11 then bit i2 m else m < 22 \<and> bit i1 (m - 11))" for m
    by (auto simp: bit_or_iff bit_push_bit_iff bit_take_bit_iff bit_uint_iff dest: bit_imp_le_length)
  have "bit (bl_offset i1 i2) n \<longleftrightarrow> 0 < n \<and> bit (2048 * ?a + ?b) (min 21 (n - 1))"
    by (cases n) (auto simp: bl_offset_def bit_double_iff bit_signed_take_bit_iff)
  then show ?thesis
    unfolding imm by (auto simp: min_def)
qed

lemma bl_target:
  "push_bit 12 (scast (signed_immed_11 i1)) + push_bit 1 (ucast (unsigned_immed_11 i2))
    = (word_of_int (bl_offset i1 i2) :: u32)"
proof -
  have s: "bit (signed_immed_11 i1) m \<longleftrightarrow> bit i1 (min 10 m)" if "m < 16" for m
    using that by (cases "m = 10") (auto simp: signed_immed_11_def bit_BitField_ValueS min_def)
  have h: "bit (scast (signed_immed_11 i1) :: u32) m \<longleftrightarrow> bit i1 (min 10 m)" if "m < 32" for m
    using that s [of m] s [of 15] by (auto simp: bit_signed_iff min_def)
  have l: "bit (unsigned_immed_11 i2) m \<longleftrightarrow> m < 11 \<and> bit i2 m" for m
    by (simp add: unsigned_immed_11_def bit_BitField_Value)
  have "push_bit 12 (scast (signed_immed_11 i1)) + push_bit 1 (ucast (unsigned_immed_11 i2))
      = (push_bit 12 (scast (signed_immed_11 i1)) OR push_bit 1 (ucast (unsigned_immed_11 i2)) :: u32)"
    by (rule disjunctive_add) (simp only: bit_push_bit_iff bit_unsigned_iff l, auto)
  also have "\<dots> = word_of_int (bl_offset i1 i2)"
  proof (rule bit_word_eqI)
    fix n assume n: "n < LENGTH(32)"
    have "bit (push_bit 12 (scast (signed_immed_11 i1)) OR push_bit 1 (ucast (unsigned_immed_11 i2)) :: u32) n
        \<longleftrightarrow> (if n = 0 then False else if n < 12 then bit i2 (n - 1) else bit i1 (min 10 (n - 12)))"
      unfolding bit_or_iff bit_push_bit_iff bit_unsigned_iff l using n h [of "n - 12"] by auto
    also have "\<dots> \<longleftrightarrow> bit (word_of_int (bl_offset i1 i2) :: u32) n"
      using n by (simp only: bit_word_of_int_iff bl_offset_bits) simp
    finally show "bit (push_bit 12 (scast (signed_immed_11 i1)) OR push_bit 1 (ucast (unsigned_immed_11 i2)) :: u32) n
        = bit (word_of_int (bl_offset i1 i2) :: u32) n" .
  qed
  finally show ?thesis .
qed

lemma thumb_branch_cases:
  assumes "bit instr 12"
  shows "BitField_Value 11 2 (instr :: u16) = (if bit instr 11 then 0b11 else 0b10)" "BitField_Value 12 1 instr \<noteq> 0"
proof -
  have "BitField_Value 11 2 instr = k \<longleftrightarrow> (\<forall>n < 16. bit k n \<longleftrightarrow> n < 2 \<and> bit instr (11 + n))" for k
    by (rule field_eq_bits) simp
  then show "BitField_Value 11 2 instr = (if bit instr 11 then 0b11 else 0b10)"
    using assms by (simp only: All_less_16) simp
  have "BitField_Value 12 1 instr = 0 \<longleftrightarrow> (\<forall>n < 16. bit (0 :: u16) n \<longleftrightarrow> n < 1 \<and> bit instr (12 + n))"
    by (rule field_eq_bits) simp
  then show "BitField_Value 12 1 instr \<noteq> 0" using assms by (simp only: All_less_16) simp
qed

text \<open>A Thumb BL is a call. Running the two halves of a BL one after the other at \<open>pc\<close> jumps to
  \<open>pc + 4\<close> plus the signed 22-bit halfword offset they encode, leaves the address of the instruction after
  the pair with the Thumb bit set in the link register, stays in Thumb state, and changes no other
  register, no memory and no monitor.\<close>
theorem thumb_bl_pair:
  assumes hi: "drop_bit 11 i1 = 0b11110" and lo: "drop_bit 11 i2 = 0b11111" and pc: "pc = PC (cpu c)"
  shows "\<exists>c1 c2. DispatchThumb table e c i1 = Inr (c1, pc + 2)
    \<and> DispatchThumb table e (put_reg PC_idx (pc + 2) c1) i2 = Inr (c2, pc + 4 + word_of_int (bl_offset i1 i2))
    \<and> LR (cpu c2) = (pc + 4) OR 1 \<and> psr_thumb (cpsr (cpu c2))
    \<and> (\<forall>i < 14. reg (cpu c2) i = reg (cpu c) i) \<and> mem c2 = mem c \<and> monitor_address c2 = monitor_address c"
proof -
  have b: "bit i (11 + n) \<longleftrightarrow> bit (drop_bit 11 i) n" for i :: u16 and n by (simp add: bit_drop_bit_eq)
  have i1: "bit i1 15" "bit i1 14" "bit i1 13" "bit i1 12" "\<not> bit i1 11"
    using b [of i1 4] b [of i1 3] b [of i1 2] b [of i1 1] b [of i1 0] unfolding hi by simp_all
  have i2: "bit i2 15" "bit i2 14" "bit i2 13" "bit i2 12" "bit i2 11"
    using b [of i2 4] b [of i2 3] b [of i2 2] b [of i2 1] b [of i2 0] unfolding lo by simp_all
  let ?c1 = "put_reg LR_idx (pc + 4 + push_bit 12 (scast (signed_immed_11 i1))) c"
  have 1: "DispatchThumb table e c i1 = Inr (?c1, pc + 2)"
    using i1 pc by (simp add: DispatchThumb_branch thumb_branch_def thumb_branch_cases)
  let ?c' = "put_reg PC_idx (pc + 2) ?c1"
  let ?c2 = "map_cpu (set_thumb True) (put_reg LR_idx ((pc + 4) OR 1) ?c')"
  have "LR (cpu ?c') = pc + 4 + push_bit 12 (scast (signed_immed_11 i1))" "PC (cpu ?c') = pc + 2"
    by (simp_all add: LR_def PC_def)
  moreover have "DispatchThumb table e ?c' i2 = thumb_branch ?c' i2" by (rule DispatchThumb_branch [OF i2(1-3)])
  ultimately have "DispatchThumb table e ?c' i2 =
      Inr (?c2, pc + 4 + (push_bit 12 (scast (signed_immed_11 i1)) + push_bit 1 (ucast (unsigned_immed_11 i2))))"
    using i2(5) unfolding thumb_branch_def Let_def thumb_branch_cases(1) [OF i2(4)] if_P [OF thumb_branch_cases(2) [OF i2(4)]]
    by (simp add: thumb_branch_cases(2) [OF i2(4), unfolded One_nat_def] add.assoc)
  then have 2: "DispatchThumb table e ?c' i2 = Inr (?c2, pc + 4 + word_of_int (bl_offset i1 i2))"
    unfolding bl_target .
  have "LR (cpu ?c2) = (pc + 4) OR 1" "psr_thumb (cpsr (cpu ?c2))" "\<forall>i < 14. reg (cpu ?c2) i = reg (cpu c) i"
    "mem ?c2 = mem c" "monitor_address ?c2 = monitor_address c"
    by (simp_all add: LR_def psr_thumb_def bit_BitField_AssignBool)
  with 1 2 show ?thesis by blast
qed

theorem thumb_bl_pair_witness:
  "\<forall>table e. \<exists>c1 c2. DispatchThumb table e example_ctx 0xF7FF = Inr (c1, 0x1002)
    \<and> DispatchThumb table e (put_reg PC_idx 0x1002 c1) 0xFFFE = Inr (c2, 0x1000)"
proof (intro allI)
  fix table e
  have "drop_bit 11 (0xF7FF :: u16) = 0b11110" "drop_bit 11 (0xFFFE :: u16) = 0b11111" by simp_all
  moreover have "0x1000 = PC (cpu example_ctx)" by (simp add: example_ctx_def example_state_def PC_def)
  moreover have "word_of_int (bl_offset 0xF7FF 0xFFFE) = (- 4 :: u32)" by code_simp
  ultimately show "\<exists>c1 c2. DispatchThumb table e example_ctx 0xF7FF = Inr (c1, 0x1002)
    \<and> DispatchThumb table e (put_reg PC_idx 0x1002 c1) 0xFFFE = Inr (c2, 0x1000)"
    using thumb_bl_pair [of "0xF7FF" "0xFFFE" "0x1000" example_ctx table e] by auto
qed

end
