(* ===== verification/StepCorrect.thy ===== *)
theory StepCorrect
  imports Step ThumbCorrect
begin

text \<open>
  Properties of whole steps: every handler the dispatch table can select obeys the condition field of its
  instruction, and programs placed in memory for concrete runs.
\<close>

section \<open>Conditional execution\<close>

text \<open>A handler leaves the context alone when the condition of the instruction fails.\<close>

definition cpu_guarded :: "cpu_handler \<Rightarrow> bool" where
  "cpu_guarded h \<longleftrightarrow> (\<forall>s instr r. EvalCond s (cond instr) = Inr False \<longrightarrow> h s instr = Inr r \<longrightarrow> r = (s, NextInstr s))"

definition guarded :: "'d handler \<Rightarrow> bool" where
  "guarded h \<longleftrightarrow> (\<forall>e c instr r. EvalCond (cpu c) (cond instr) = Inr False \<longrightarrow> h e c instr = Inr r \<longrightarrow>
    r = (c, NextInstr (cpu c)))"

lemma when_cond_False: "EvalCond s (cond instr) = Inr False \<Longrightarrow> when_cond s instr body = Inr (s, NextInstr s)"
  by (simp add: when_cond_def)

lemma ctx_when_cond_False:
  "EvalCond (cpu c) (cond instr) = Inr False \<Longrightarrow> ctx_when_cond c instr body = Inr (c, NextInstr (cpu c))"
  by (simp add: ctx_when_cond_def)

lemma guarded_on_cpu: "cpu_guarded h \<Longrightarrow> guarded (on_cpu h)"
  by (fastforce simp: guarded_def cpu_guarded_def on_cpu_def bindE_eq_Inr)

lemma guarded_on_fpu: "(\<And>f. cpu_guarded (h f)) \<Longrightarrow> guarded (on_fpu h)"
  by (fastforce simp: guarded_def cpu_guarded_def on_fpu_def on_cpu_def bindE_eq_Inr)

lemma HandlerStub_Inl [simp]: "HandlerStub instr \<noteq> Inr r"
  by (simp add: HandlerStub_def)

lemmas guard_simps = cpu_guarded_def when_cond_False media_op_def

lemma alu_guarded:
  "cpu_guarded HandlerMov" "cpu_guarded HandlerMvn" "cpu_guarded HandlerBic" "cpu_guarded HandlerEor"
  "cpu_guarded HandlerAnd" "cpu_guarded HandlerOrr" "cpu_guarded HandlerTeq" "cpu_guarded HandlerTst"
  "cpu_guarded HandlerAdd" "cpu_guarded HandlerAdc" "cpu_guarded HandlerSbc" "cpu_guarded HandlerRsc"
  "cpu_guarded HandlerSub" "cpu_guarded HandlerRsb" "cpu_guarded HandlerCmp" "cpu_guarded HandlerCmn"
  by (simp_all add: guard_simps HandlerMov_def HandlerMvn_def HandlerBic_def HandlerEor_def HandlerAnd_def
      HandlerOrr_def HandlerTeq_def HandlerTst_def HandlerAdd_def HandlerAdc_def HandlerSbc_def HandlerRsc_def
      HandlerSub_def HandlerRsb_def HandlerCmp_def HandlerCmn_def)

lemma mul_guarded:
  "cpu_guarded HandlerMul" "cpu_guarded HandlerMla" "cpu_guarded HandlerSmulxx" "cpu_guarded HandlerUmaal"
  "cpu_guarded HandlerSmull" "cpu_guarded HandlerUmull" "cpu_guarded HandlerSmlaxx" "cpu_guarded HandlerSmlal"
  "cpu_guarded HandlerUmlal" "cpu_guarded Handler00x0"
  by (simp_all add: guard_simps HandlerMul_def HandlerMla_def HandlerSmulxx_def HandlerUmaal_def HandlerSmull_def
      HandlerUmull_def HandlerSmlaxx_def HandlerSmlal_def HandlerUmlal_def Handler00x0_def)

lemma media_guarded:
  "cpu_guarded HandlerUadd8" "cpu_guarded HandlerUqadd8" "cpu_guarded HandlerUhadd8" "cpu_guarded (HandlerXsub8 b)"
  "cpu_guarded HandlerQsub8" "cpu_guarded HandlerUqsub8" "cpu_guarded HandlerSel" "cpu_guarded HandlerUsat"
  "cpu_guarded HandlerSsat" "cpu_guarded HandlerUxtb16" "cpu_guarded HandlerUxtb" "cpu_guarded HandlerUxtab"
  "cpu_guarded HandlerSxtb" "cpu_guarded HandlerUxtah" "cpu_guarded HandlerSxtab" "cpu_guarded HandlerSxtah"
  "cpu_guarded HandlerPkhbt" "cpu_guarded HandlerPkhtb" "cpu_guarded HandlerRev" "cpu_guarded HandlerRev16"
  "cpu_guarded HandlerClz"
  by (simp_all add: guard_simps HandlerUadd8_def HandlerUqadd8_def HandlerUhadd8_def HandlerXsub8_def HandlerQsub8_def
      HandlerUqsub8_def HandlerSel_def HandlerUsat_def HandlerSsat_def HandlerUxtb16_def HandlerUxtb_def
      HandlerUxtab_def HandlerSxtb_def HandlerUxtah_def HandlerSxtab_def HandlerSxtah_def HandlerPkhbt_def
      HandlerPkhtb_def HandlerRev_def HandlerRev16_def HandlerClz_def)

lemma system_guarded:
  "cpu_guarded (HandlerBranch b)" "cpu_guarded (HandlerBranchExchange b)" "cpu_guarded HandlerMRS"
  "cpu_guarded HandlerMSR" "cpu_guarded HandlerMRC" "cpu_guarded HandlerMCR" "cpu_guarded HandlerFMDRR"
  "cpu_guarded HandlerFMRDD" "cpu_guarded HandlerVFPRegisterTransfer" "cpu_guarded (HandlerVFPDataProcessing b f)"
  by (simp_all add: guard_simps HandlerBranch_def HandlerBranchExchange_def HandlerMRS_def HandlerMSR_def HandlerMRC_def
      HandlerMCR_def HandlerFMDRR_def HandlerFMRDD_def HandlerVFPRegisterTransfer_def HandlerVFPDataProcessing_def
      vfp_data_processing_def)

lemma memory_guarded:
  "guarded (HandlerAddrMode3 a)" "guarded (HandlerMemoryAccess b st)" "guarded (HandlerLDM_STM b)"
  "guarded HandlerLdrex" "guarded HandlerStrex" "guarded HandlerLdrexb" "guarded HandlerStrexb"
  "guarded HandlerLdrexh" "guarded HandlerStrexh" "guarded HandlerLdrexd" "guarded HandlerStrexd"
  "guarded LoadStoreFloatSingle" "guarded LoadStoreFloatMultiple" "guarded HandlerSWI"
  by (simp_all add: guarded_def ctx_when_cond_False HandlerAddrMode3_def HandlerMemoryAccess_def HandlerLDM_STM_def
      HandlerLdrex_def HandlerStrex_def HandlerLdrexb_def HandlerStrexb_def HandlerLdrexh_def HandlerStrexh_def
      HandlerLdrex_width_def HandlerStrex_width_def HandlerLdrexd_def HandlerStrexd_def LoadStoreFloatSingle_def
      LoadStoreFloatMultiple_def HandlerSWI_def)

lemmas handlers_guarded = alu_guarded mul_guarded media_guarded system_guarded memory_guarded

definition nop :: "'d ctx \<Rightarrow> ('d ctx \<times> u32) res \<Rightarrow> bool" where
  "nop c r \<longleftrightarrow> (case r of Inl _ \<Rightarrow> True | Inr x \<Rightarrow> x = (c, NextInstr (cpu c)))"

lemma nop_Inl: "nop c (Inl e)" "nop c (HandlerStub instr)"
  by (simp_all add: nop_def HandlerStub_def)

lemma nop_if: "(P \<Longrightarrow> nop c a) \<Longrightarrow> (\<not> P \<Longrightarrow> nop c b) \<Longrightarrow> nop c (if P then a else b)"
  by simp

lemma guarded_nop: "guarded h \<longleftrightarrow> (\<forall>e c instr. EvalCond (cpu c) (cond instr) = Inr False \<longrightarrow> nop c (h e c instr))"
  unfolding guarded_def nop_def by (auto split: sum.split)

lemma nop_guarded: "guarded h \<Longrightarrow> EvalCond (cpu c) (cond instr) = Inr False \<Longrightarrow> nop c (h e c instr)"
  by (simp add: guarded_nop)

lemma nop_if_iff: "nop c (if P then a else b) \<longleftrightarrow> (P \<longrightarrow> nop c a) \<and> (\<not> P \<longrightarrow> nop c b)"
  by simp

lemmas cpu_handlers_guarded = alu_guarded mul_guarded media_guarded system_guarded

lemmas nop_handlers = nop_if_iff nop_Inl cpu_handlers_guarded [THEN guarded_on_cpu, THEN nop_guarded]
  memory_guarded [THEN nop_guarded]

lemma vfp_guarded: "guarded (on_fpu (HandlerVFPDataProcessing b))"
  by (rule guarded_on_fpu) (rule system_guarded)

lemma dispatchers_guarded:
  "guarded Handler0001" "guarded Handler0011" "guarded Handler1110" "guarded (HandlerVFP b)" "guarded HandlerUnreached"
  unfolding guarded_nop Handler0001_def Handler0011_def Handler1110_def HandlerVFP_def HandlerUnreached_def
  by (simp_all add: nop_handlers vfp_guarded [THEN nop_guarded])

lemma Handler01xx_guarded: "guarded Handler01xx"
proof -
  have "cond instr \<noteq> 0xF" if "EvalCond s (cond instr) = Inr False" for s instr
    using that by (auto simp: EvalCond_def Let_def)
  then show ?thesis
    unfolding guarded_nop Handler01xx_def by (simp add: nop_handlers)
qed

lemma LegacyHandler_guarded: "guarded (LegacyHandler :: 'd handler)"
proof -
  have "unat (opcode_prim instr) < length (handlers_arm_prim :: 'd handler list)" for instr
    using unat_BitField_Value_less [of 24 4 instr] by (simp add: opcode_prim_def handlers_arm_prim_def)
  moreover have "\<forall>h \<in> set (handlers_arm_prim :: 'd handler list). guarded h"
    by (simp add: handlers_arm_prim_def handlers_guarded dispatchers_guarded Handler01xx_guarded guarded_on_cpu)
  ultimately have "guarded ((handlers_arm_prim :: 'd handler list) ! unat (opcode_prim instr))" for instr
    using nth_mem by blast
  then show ?thesis unfolding guarded_nop LegacyHandler_def by blast
qed

lemma LookupHandler_guarded: "guarded (LookupHandler i)"
  by (cases i) (simp_all add: guarded_on_cpu handlers_guarded dispatchers_guarded LegacyHandler_guarded)

lemma default_dispatch_table_guarded: "guarded (default_dispatch_table k :: 'd handler)"
proof -
  have "default_dispatch_table k = (LegacyHandler :: 'd handler) \<or> (\<exists>i. default_dispatch_table k = (LookupHandler i :: 'd handler))"
    by (auto simp: default_dispatch_table_def GenerateDispatchTable_eq split: option.split)
  then show ?thesis using LegacyHandler_guarded LookupHandler_guarded by metis
qed

text \<open>The word at the program counter, as fetched by \<open>StepWithDispatchTable\<close> in ARM state.\<close>

definition fetched :: "'d env \<Rightarrow> 'd ctx \<Rightarrow> (ARMInstr \<times> 'd ctx) res" where
  "fetched e c = bindE (page_table_of c) (\<lambda>pt. bindE (TranslateVirtualAddress pt (PC (cpu c))) (\<lambda>p. fetch e W32 p c))"

lemma fetched_frame: "fetched e c = Inr (w, c') \<Longrightarrow> cpu c' = cpu c \<and> monitor_address c' = monitor_address c"
  by (auto simp: fetched_def fetch_def bindE_eq_Inr split: prod.splits)

lemma Step_ARM:
  assumes "\<not> psr_thumb (cpsr (cpu c))" and "fetched e c = Inr (instr, c1)" and "cond instr \<noteq> 0xF"
  shows "Step e c = bindE (default_dispatch_table (BuildDispatchTableKey instr) e c1 instr) (\<lambda>(c, pc). Inr (put_reg PC_idx pc c))"
proof -
  from assms(2) obtain pt p where "page_table_of c = Inr pt" "TranslateVirtualAddress pt (PC (cpu c)) = Inr p"
    "fetch e W32 p c = Inr (instr, c1)" by (auto simp: fetched_def bindE_eq_Inr)
  then show ?thesis using assms(1,3) by (simp add: Step_def StepWithDispatchTable_def)
qed

text \<open>C26: every conditional instruction obeys its condition field. In ARM state, if the condition of the
  instruction at the PC fails, then a step, if it does not throw, only fetches and advances the PC by four:
  whichever of the handlers the instruction is dispatched to, no register, no flag, no monitor and no memory
  is changed.\<close>
theorem failed_condition_is_nop:
  assumes "\<not> psr_thumb (cpsr (cpu c))" and "fetched e c = Inr (instr, c1)"
    and "EvalCond (cpu c) (cond instr) = Inr False"
    and "Step e c = Inr c'"
  shows "c' = put_reg PC_idx (PC (cpu c) + 4) c1 \<and> cpu c1 = cpu c"
proof -
  have c1: "cpu c1 = cpu c" using fetched_frame [OF assms(2)] by simp
  have "cond instr \<noteq> 0xF" using assms(3) by (auto simp: EvalCond_def Let_def)
  then have "bindE (default_dispatch_table (BuildDispatchTableKey instr) e c1 instr) (\<lambda>(c, pc). Inr (put_reg PC_idx pc c)) = Inr c'"
    using Step_ARM [OF assms(1,2)] assms(4) by simp
  moreover have "nop c1 (default_dispatch_table (BuildDispatchTableKey instr) e c1 instr)"
    by (rule nop_guarded [OF default_dispatch_table_guarded]) (simp add: c1 assms(3))
  ultimately show ?thesis
    by (auto simp: nop_def c1 NextInstr_def bindE_eq_Inr split: sum.splits)
qed

section \<open>A program in memory\<close>

text \<open>One page of FCRAM mapped at \<open>0x1000\<close>, with the word \<open>w\<close> at its start, and the PC there.\<close>

definition example_page_table :: page_table where
  "example_page_table = PageTable_init\<lparr>physical_addresses := (\<lambda>_. unmapped)(1 := 0x20000000)\<rparr>"

definition example_program :: "u32 \<Rightarrow> unit ctx" where
  "example_program w = example_ctx\<lparr>mem := example_mem
    \<lparr>bus_data := (\<lambda>_. store_le (\<lambda>_. 0) 0 4 w), subscribers := [example_page_table]\<rparr>\<rparr>"

text \<open>An environment without devices or kernel, and with integers in place of floating-point numbers.\<close>

definition example_fp :: "('f::{plus,minus,times,uminus,zero,equal,ord}) fp_ops" where
  "example_fp = \<lparr>fp_fma = (\<lambda>a b c. a * b + c), fp_neg = uminus, fp_add = (+), fp_sub = (-), fp_mul = (*),
    fp_div = (\<lambda>a b. a), fp_sqrt = (\<lambda>a. a), fp_less = (<), fp_equal = (=), fp_greater_equal = (\<ge>), fp_greater = (>),
    fp_zero = 0, fp_of_uint = (\<lambda>_. 0), fp_of_sint = (\<lambda>_. 0), fp_nextafter_uint = (\<lambda>_. 0), fp_nextafter_sint = (\<lambda>_. 0),
    fp_trunc_uint = (\<lambda>_. Inr 0), fp_trunc_sint = (\<lambda>_. Inr 0)\<rparr>"

definition example_env :: "unit env" where
  "example_env = \<lparr>hdl = example_handlers,
    fpu_ops = \<lparr>single_ops = example_fp, double_ops = example_fp, double_to_single = ucast, single_to_double = ucast\<rparr>,
    yield_for_svc = (\<lambda>_ c. Inr c)\<rparr>"

lemma example_fetched:
  "fetched example_env (example_program w) = Inr (w, example_program w)"
proof -
  have "find_bus 0x20000000 = Some FCRAM" by code_simp
  then have "ReadLegacy example_handlers W32 0x20000000 (mem (example_program w)) = Inr (w, mem (example_program w))"
    using load_store_le [of 4 "\<lambda>_. 0" 0 w] take_bit_word_eq_self [of 32 w]
    by (simp add: ReadLegacy_def MemoryBus_Read_def data_read_def IsMemoryBus_def example_program_def example_mem_def)
  moreover have "TranslateVirtualAddress example_page_table 0x1000 = Inr 0x20000000"
    by (simp add: TranslateVirtualAddress_def example_page_table_def unmapped_def)
  ultimately show ?thesis
    by (simp add: fetched_def fetch_def page_table_of_def example_program_def example_ctx_def example_state_def PC_def example_env_def)
qed

lemma mnemonic_I_ADD:
  assumes "cond w \<noteq> 0xF" "map (bit w) [4, 5, 6, 7] = [False, False, False, False]"
    "map (bit w) [20, 21, 22, 23, 24, 25, 26, 27] = [s, False, False, True, False, False, False, False]"
  shows "default_dispatch_table (BuildDispatchTableKey w) = LookupHandler I_ADD"
  unfolding default_dispatch_table_def GenerateDispatchTable_mnemonic [OF assms(1)] assms(2,3)
  by (simp add: mnemonic_at_eval)

text \<open>\<open>ADDEQ r1, r1, r2\<close> with the zero flag clear.\<close>

theorem failed_condition_is_nop_witness:
  "Step example_env (example_program 0x00811002) = Inr (put_reg PC_idx 0x1004 (example_program 0x00811002))"
proof -
  let ?w = "0x00811002 :: u32" and ?c = "example_program 0x00811002"
  have c: "cpu ?c = example_state" by (simp add: example_program_def example_ctx_def)
  have cond: "EvalCond (cpu ?c) (cond ?w) = Inr False" unfolding c by code_simp
  have thumb: "\<not> psr_thumb (cpsr (cpu ?c))" unfolding c by code_simp
  have "cond ?w \<noteq> 0xF" by code_simp
  then have h: "default_dispatch_table (BuildDispatchTableKey ?w) = (LookupHandler I_ADD :: unit handler)"
    by (rule mnemonic_I_ADD [where s = False]) simp_all
  have "Step example_env ?c = Inr (put_reg PC_idx (NextInstr (cpu ?c)) ?c)"
    unfolding Step_ARM [OF thumb example_fetched \<open>cond ?w \<noteq> 0xF\<close>] h
    by (simp add: on_cpu_def HandlerAdd_def when_cond_False [OF cond])
  from failed_condition_is_nop [OF thumb example_fetched cond this] this show ?thesis
    by (simp add: c NextInstr_def PC_def example_state_def)
qed

end
