(* ===== verification/WordMemory.thy ===== *)
theory WordMemory
  imports StepCorrect
begin

text \<open>
  Word memory as an interface: what reading and writing words promises, proved for the virtual memory of a
  context, and what follows for load and store multiple and for the exclusive accesses.
\<close>

section \<open>The interface\<close>

text \<open>
  \<open>loc a s\<close> is the physical address of the word at \<open>a\<close>, where there is plain memory; words at physical
  addresses four bytes apart do not overlap.
\<close>

definition apart :: "u32 \<Rightarrow> u32 \<Rightarrow> bool" where
  "apart p q \<longleftrightarrow> uint p + 4 \<le> uint q \<or> uint q + 4 \<le> uint p"

lemma apart_sym: "apart p q \<longleftrightarrow> apart q p"
  by (auto simp: apart_def)

locale word_memory =
  fixes rd :: "u32 \<Rightarrow> 's \<Rightarrow> (u32 \<times> 's) res"
    and wr :: "u32 \<Rightarrow> u32 \<Rightarrow> 's \<Rightarrow> 's res"
    and loc :: "u32 \<Rightarrow> 's \<Rightarrow> u32 option"
  assumes wr_rd: "loc a s = Some p \<Longrightarrow> \<exists>s'. wr a v s = Inr s' \<and> rd a s' = Inr (v, s')"
    and wr_loc: "wr a v s = Inr s' \<Longrightarrow> loc a s = Some p \<Longrightarrow> loc b s' = loc b s"
    and wr_other: "wr a v s = Inr s' \<Longrightarrow> loc a s = Some p \<Longrightarrow> loc b s = Some q \<Longrightarrow> apart p q \<Longrightarrow>
      rd b s = Inr (x, s) \<Longrightarrow> rd b s' = Inr (x, s')"
begin

text \<open>Writing a list of words; \<open>ps\<close> are their physical addresses.\<close>

definition wr_list :: "(u32 \<times> u32) list \<Rightarrow> 's \<Rightarrow> 's res" where
  "wr_list avs = foldE (\<lambda>(a, v). wr a v) avs"

lemma wr_list_frame:
  assumes "wr_list avs s = Inr s'" and "\<forall>(a, v) \<in> set avs. \<exists>p. loc a s = Some p \<and> apart p q"
    and "loc b s = Some q" and "rd b s = Inr (x, s)"
  shows "rd b s' = Inr (x, s') \<and> loc b s' = Some q"
  using assms
proof (induction avs arbitrary: s)
  case Nil
  then show ?case by (simp add: wr_list_def)
next
  case (Cons av avs)
  obtain a v where av: "av = (a, v)" by (cases av)
  from Cons.prems(1) obtain s1 where s1: "wr a v s = Inr s1" "wr_list avs s1 = Inr s'"
    by (auto simp: wr_list_def av bindE_eq_Inr)
  obtain p where p: "loc a s = Some p" "apart p q" using Cons.prems(2) by (auto simp: av)
  note kept = wr_loc [OF s1(1) p(1)]
  show ?case
  proof (rule Cons.IH [OF s1(2)])
    show "\<forall>(a, v) \<in> set avs. \<exists>p. loc a s1 = Some p \<and> apart p q" using Cons.prems(2) by (auto simp: kept)
    show "loc b s1 = Some q" using Cons.prems(3) kept by simp
    show "rd b s1 = Inr (x, s1)" using wr_other [OF s1(1) p(1) Cons.prems(3) p(2) Cons.prems(4)] .
  qed
qed

text \<open>Words written to locations pairwise apart are all read back.\<close>

lemma wr_list_read_back:
  assumes "\<forall>(a, v) \<in> set avs. loc a s \<noteq> None"
    and "sorted_wrt (\<lambda>a b. \<forall>p q. loc a s = Some p \<and> loc b s = Some q \<longrightarrow> apart p q) (map fst avs)"
  shows "\<exists>s'. wr_list avs s = Inr s' \<and> (\<forall>(a, v) \<in> set avs. rd a s' = Inr (v, s'))"
  using assms
proof (induction avs arbitrary: s)
  case Nil
  then show ?case by (simp add: wr_list_def)
next
  case (Cons av avs)
  obtain a v where av: "av = (a, v)" by (cases av)
  obtain p where p: "loc a s = Some p" using Cons.prems(1) by (auto simp: av)
  obtain s1 where s1: "wr a v s = Inr s1" "rd a s1 = Inr (v, s1)" using wr_rd [OF p] by blast
  note kept = wr_loc [OF s1(1) p]
  obtain s' where s': "wr_list avs s1 = Inr s'" "\<forall>(a, v) \<in> set avs. rd a s' = Inr (v, s')"
    using Cons.IH [of s1] Cons.prems by (auto simp: av kept)
  have "\<forall>(b, w) \<in> set avs. \<exists>q. loc b s1 = Some q \<and> apart q p"
  proof clarify
    fix b w assume b: "(b, w) \<in> set avs"
    then obtain q where q: "loc b s = Some q" using Cons.prems(1) by auto
    moreover have "apart p q" using Cons.prems(2) b p q by (force simp: av)
    ultimately show "\<exists>q. loc b s1 = Some q \<and> apart q p" by (simp add: kept apart_sym)
  qed
  from wr_list_frame [OF s'(1) this _ s1(2)] have "rd a s' = Inr (v, s')" by (simp add: kept p)
  moreover have "wr_list (av # avs) s = Inr s'" using s1(1) s'(1) by (simp add: wr_list_def av)
  ultimately show ?case using s'(2) by (auto simp: av)
qed

end

section \<open>Virtual memory provides it\<close>

definition virt_loc :: "u32 \<Rightarrow> 'd ctx \<Rightarrow> u32 option" where
  "virt_loc a c = (case page_table_of c of
      Inl _ \<Rightarrow> None
    | Inr pt \<Rightarrow> (case TranslateVirtualAddress pt a of
          Inl _ \<Rightarrow> None
        | Inr p \<Rightarrow> if pt_inv pt \<and> plain_access W32 p (mem c) then Some p else None))"

lemma virt_loc_eq_Some:
  "virt_loc a c = Some p \<longleftrightarrow> (\<exists>pt. page_table_of c = Inr pt \<and> TranslateVirtualAddress pt a = Inr p \<and> pt_inv pt
    \<and> plain_access W32 p (mem c))"
  by (auto simp: virt_loc_def split: sum.splits if_splits)

lemma plain_unhooked:
  "TranslateVirtualAddress pt a = Inr p \<Longrightarrow> plain_access w p m \<Longrightarrow> unhooked pt a m"
  by (auto simp: unhooked_def plain_access_def)

lemma virt_access:
  assumes "virt_loc a c = Some p"
  shows "ReadVirtualMemory e W32 a c = bindE (ReadLegacy (hdl e) W32 p (mem c)) (\<lambda>(v, m). Inr (v, c\<lparr>mem := m\<rparr>))"
    and "WriteVirtualMemory e W32 a v c = bindE (WriteLegacy (hdl e) W32 p v (mem c)) (\<lambda>m. Inr (c\<lparr>mem := m\<rparr>))"
proof -
  from assms obtain pt where pt: "page_table_of c = Inr pt" "TranslateVirtualAddress pt a = Inr p" "pt_inv pt"
    "plain_access W32 p (mem c)" by (auto simp: virt_loc_eq_Some)
  note VM = VM_access_translated [OF pt(3) plain_unhooked [OF pt(2,4)], of "hdl e" W32]
  show "ReadVirtualMemory e W32 a c = bindE (ReadLegacy (hdl e) W32 p (mem c)) (\<lambda>(v, m). Inr (v, c\<lparr>mem := m\<rparr>))"
    "WriteVirtualMemory e W32 a v c = bindE (WriteLegacy (hdl e) W32 p v (mem c)) (\<lambda>m. Inr (c\<lparr>mem := m\<rparr>))"
    using VM by (simp_all add: ReadVirtualMemory_def WriteVirtualMemory_def pt(1,2))
qed

lemma plain_access_kept:
  assumes "plain_access w a m" and "WriteLegacy h w a v m = Inr m'"
  shows "plain_access w' a' m' = plain_access w' a' m"
proof -
  obtain b off where "phys_loc a = Some (b, off)" using plain_loc [OF assms(1)] by blast
  then have "data_write b off w v m = Inr m'" using assms by (simp add: WriteLegacy_plain)
  then show ?thesis by (rule plain_access_write)
qed

lemma trunc_W32 [simp]: "trunc_width W32 v = v"
  by (simp add: trunc_width_def take_bit_word_eq_self)

lemma virt_write_cases:
  assumes "virt_loc a c = Some p" and "WriteVirtualMemory e W32 a v c = Inr c'"
  obtains m' where "WriteLegacy (hdl e) W32 p v (mem c) = Inr m'" "c' = c\<lparr>mem := m'\<rparr>"
    "ReadLegacy (hdl e) W32 p m' = Inr (v, m')" "virt_loc b c' = virt_loc b c"
    "\<And>q x. plain_access W32 q (mem c) \<Longrightarrow> apart p q \<Longrightarrow> ReadLegacy (hdl e) W32 q (mem c) = Inr (x, mem c) \<Longrightarrow>
      ReadLegacy (hdl e) W32 q m' = Inr (x, m')"
proof -
  from assms(1) have plain: "plain_access W32 p (mem c)" by (auto simp: virt_loc_eq_Some)
  obtain m' where m': "WriteLegacy (hdl e) W32 p v (mem c) = Inr m'" "c' = c\<lparr>mem := m'\<rparr>"
    using assms(2) virt_access(2) [OF assms(1), of e v] by (auto simp: bindE_eq_Inr)
  from plain_write_read [OF plain, of "hdl e" v] m'(1)
  have w: "ReadLegacy (hdl e) W32 p m' = Inr (v, m')" "subscribers m' = subscribers (mem c)"
    "\<forall>a' w'. plain_access w' a' (mem c) \<and> (uint p + int (nbytes W32) \<le> uint a' \<or> uint a' + int (nbytes w') \<le> uint p)
        \<longrightarrow> (\<exists>x. ReadLegacy (hdl e) w' a' (mem c) = Inr (x, mem c) \<and> ReadLegacy (hdl e) w' a' m' = Inr (x, m'))"
    by auto
  have "page_table_of c' = page_table_of c" by (simp add: page_table_of_def m'(2) w(2))
  then have "virt_loc b c' = virt_loc b c"
    by (simp add: virt_loc_def m'(2) plain_access_kept [OF plain m'(1)] split: sum.split)
  moreover have "ReadLegacy (hdl e) W32 q m' = Inr (x, m')"
    if "plain_access W32 q (mem c)" "apart p q" "ReadLegacy (hdl e) W32 q (mem c) = Inr (x, mem c)" for q x
    using w(3) that by (fastforce simp: apart_def)
  ultimately show thesis using that m' w(1) by blast
qed

interpretation vm: word_memory "ReadVirtualMemory e W32" "WriteVirtualMemory e W32" virt_loc for e :: "'d env"
proof
  fix a v p and s :: "'d ctx"
  assume loc: "virt_loc a s = Some p"
  then have plain: "plain_access W32 p (mem s)" by (auto simp: virt_loc_eq_Some)
  then obtain m' where "WriteLegacy (hdl e) W32 p v (mem s) = Inr m'" using plain_write_read by blast
  then have w: "WriteVirtualMemory e W32 a v s = Inr (s\<lparr>mem := m'\<rparr>)" by (simp add: virt_access(2) [OF loc])
  then show "\<exists>s'. WriteVirtualMemory e W32 a v s = Inr s' \<and> ReadVirtualMemory e W32 a s' = Inr (v, s')"
  proof (rule virt_write_cases [OF loc, where b = a])
    fix m assume m: "ReadLegacy (hdl e) W32 p m = Inr (v, m)" "s\<lparr>mem := m'\<rparr> = s\<lparr>mem := m\<rparr>"
      "virt_loc a (s\<lparr>mem := m'\<rparr>) = virt_loc a s"
    then have "ReadVirtualMemory e W32 a (s\<lparr>mem := m\<rparr>) = Inr (v, s\<lparr>mem := m\<rparr>)"
      using loc virt_access(1) [of a "s\<lparr>mem := m\<rparr>" p e] by simp
    then show ?thesis using w m(2) by auto
  qed
next
  fix a v p b and s s' :: "'d ctx"
  assume "WriteVirtualMemory e W32 a v s = Inr s'" and "virt_loc a s = Some p"
  then show "virt_loc b s' = virt_loc b s" by (metis virt_write_cases)
next
  fix a v p b q x and s s' :: "'d ctx"
  assume w: "WriteVirtualMemory e W32 a v s = Inr s'" and a: "virt_loc a s = Some p" and b: "virt_loc b s = Some q"
    and "apart p q" and r: "ReadVirtualMemory e W32 b s = Inr (x, s)"
  from w show "ReadVirtualMemory e W32 b s' = Inr (x, s')"
  proof (rule virt_write_cases [OF a, where b = b])
    fix m assume s': "s' = s\<lparr>mem := m\<rparr>" and kept: "virt_loc b s' = virt_loc b s"
      and other: "\<And>q x. plain_access W32 q (mem s) \<Longrightarrow> apart p q \<Longrightarrow> ReadLegacy (hdl e) W32 q (mem s) = Inr (x, mem s) \<Longrightarrow>
        ReadLegacy (hdl e) W32 q m = Inr (x, m)"
    have "plain_access W32 q (mem s)" using b by (auto simp: virt_loc_eq_Some)
    moreover from r have "ReadLegacy (hdl e) W32 q (mem s) = Inr (x, mem s)"
    proof -
      obtain y m2 where "ReadLegacy (hdl e) W32 q (mem s) = Inr (y, m2)" "y = x" "s\<lparr>mem := m2\<rparr> = s"
        using r virt_access(1) [OF b, of e] by (auto simp: bindE_eq_Inr split: prod.splits)
      then show ?thesis by (cases s) auto
    qed
    ultimately have "ReadLegacy (hdl e) W32 q m = Inr (x, m)" using other \<open>apart p q\<close> by blast
    then show ?thesis using virt_access(1) [of b s' q e] kept b by (simp add: s')
  qed
qed

section \<open>Load and store multiple\<close>

lemma foldE_filter: "(\<And>x s. \<not> P x \<Longrightarrow> f x s = Inr s) \<Longrightarrow> foldE f xs s = foldE f (filter P xs) s"
proof (induction xs arbitrary: s)
  case (Cons x xs)
  then have "foldE f xs = foldE f (filter P xs)" by (intro ext) simp
  with Cons.prems show ?case by simp
qed simp

lemma ldm_stm_step_skip: "\<not> bit (addr4_registers instr) i \<Longrightarrow> ldm_stm_step Load e instr i st = Inr st"
  by (simp add: ldm_stm_step_def)

text \<open>The registers of a list, in the order they are transferred, and the words of a block.\<close>

definition reg_list :: "ARMInstr \<Rightarrow> nat list" where
  "reg_list instr = filter (bit (addr4_registers instr)) [0 ..< 16]"

fun block :: "u32 \<Rightarrow> u32 list \<Rightarrow> (u32 \<times> u32) list" where
  "block a [] = []"
| "block a (v # vs) = (a, v) # block (a + 4) vs"

lemma stm_loop:
  assumes "\<forall>i \<in> set rs. i \<noteq> PC_idx \<and> bit (addr4_registers instr) i" and "\<not> InPrivilegedMode (cpu c)"
  shows "foldE (ldm_stm_step False e instr) rs \<lparr>ldm_ctx = c, ldm_addr = ad, ldm_addr2 = a, ldm_next_pc = pc\<rparr> =
    bindE (vm.wr_list e (block a (map (reg (cpu c)) rs)) c) (\<lambda>c'.
      Inr \<lparr>ldm_ctx = c', ldm_addr = ad + of_nat (length rs) * addr4_step instr,
           ldm_addr2 = a + 4 * of_nat (length rs), ldm_next_pc = pc\<rparr>)"
  using assms
proof (induction rs arbitrary: c ad a)
  case Nil
  then show ?case by (simp add: vm.wr_list_def)
next
  case (Cons i rs)
  have step: "ldm_stm_step False e instr i \<lparr>ldm_ctx = c, ldm_addr = ad, ldm_addr2 = a, ldm_next_pc = pc\<rparr> =
    bindE (WriteVirtualMemory e W32 a (reg (cpu c) i) c) (\<lambda>c.
      Inr \<lparr>ldm_ctx = c, ldm_addr = ad + addr4_step instr, ldm_addr2 = a + 4, ldm_next_pc = pc\<rparr>)"
    using Cons.prems by (simp add: ldm_stm_step_def ldm_stm_access_def FetchReg_def bindE_assoc)
  show ?case
  proof (cases "WriteVirtualMemory e W32 a (reg (cpu c) i) c")
    case (Inl x)
    then show ?thesis by (simp add: step vm.wr_list_def)
  next
    case (Inr c1)
    have cpu: "cpu c1 = cpu c" using WriteVirtualMemory_frame [OF Inr] by simp
    have "foldE (ldm_stm_step False e instr) (i # rs) \<lparr>ldm_ctx = c, ldm_addr = ad, ldm_addr2 = a, ldm_next_pc = pc\<rparr> =
      foldE (ldm_stm_step False e instr) rs \<lparr>ldm_ctx = c1, ldm_addr = ad + addr4_step instr, ldm_addr2 = a + 4, ldm_next_pc = pc\<rparr>"
      by (simp add: step Inr)
    also have "\<dots> = bindE (vm.wr_list e (block (a + 4) (map (reg (cpu c)) rs)) c1) (\<lambda>c'.
      Inr \<lparr>ldm_ctx = c', ldm_addr = ad + addr4_step instr + of_nat (length rs) * addr4_step instr,
           ldm_addr2 = a + 4 + 4 * of_nat (length rs), ldm_next_pc = pc\<rparr>)"
      using Cons.IH [of c1] Cons.prems by (simp add: cpu)
    finally show ?thesis by (simp add: vm.wr_list_def Inr algebra_simps)
  qed
qed

text \<open>Loading from a block that holds the given words.\<close>

lemma ReadVirtualMemory_map_cpu:
  "ReadVirtualMemory e w a c = Inr (v, c) \<Longrightarrow> ReadVirtualMemory e w a (map_cpu f c) = Inr (v, map_cpu f c)"
  by (cases c) (auto simp: ReadVirtualMemory_def page_table_of_def map_cpu_def bindE_eq_Inr split: if_splits)

fun put_regs :: "(nat \<times> u32) list \<Rightarrow> arm_state \<Rightarrow> arm_state" where
  "put_regs [] s = s"
| "put_regs ((i, v) # ivs) s = put_regs ivs (set_reg i v s)"

lemma put_regs_reg: "reg (put_regs ivs s) j = (case map_of (rev ivs) j of None \<Rightarrow> reg s j | Some v \<Rightarrow> v)"
  by (induction ivs s rule: put_regs.induct) (auto simp: map_add_def split: option.split)

lemma ldm_loop:
  assumes "\<forall>i \<in> set rs. i \<noteq> PC_idx \<and> bit (addr4_registers instr) i" and "length vs = length rs"
    and "\<forall>(b, v) \<in> set (block a vs). ReadVirtualMemory e W32 b c = Inr (v, c)"
  shows "foldE (ldm_stm_step True e instr) rs \<lparr>ldm_ctx = c, ldm_addr = ad, ldm_addr2 = a, ldm_next_pc = pc\<rparr> =
      Inr \<lparr>ldm_ctx = map_cpu (put_regs (zip rs vs)) c, ldm_addr = ad + of_nat (length rs) * addr4_step instr,
           ldm_addr2 = a + 4 * of_nat (length rs), ldm_next_pc = pc\<rparr>"
  using assms
proof (induction rs arbitrary: c ad a vs)
  case Nil
  then show ?case by (cases c) (simp add: map_cpu_def)
next
  case (Cons i rs)
  then obtain v ws where vs: "vs = v # ws" by (cases vs) auto
  have "ReadVirtualMemory e W32 a c = Inr (v, c)" using Cons.prems(3) by (simp add: vs)
  then have "foldE (ldm_stm_step True e instr) (i # rs) \<lparr>ldm_ctx = c, ldm_addr = ad, ldm_addr2 = a, ldm_next_pc = pc\<rparr> =
      foldE (ldm_stm_step True e instr) rs \<lparr>ldm_ctx = put_reg i v c, ldm_addr = ad + addr4_step instr, ldm_addr2 = a + 4, ldm_next_pc = pc\<rparr>"
    using Cons.prems(1) by (simp add: ldm_stm_step_def ldm_stm_access_def)
  also have "\<dots> = Inr \<lparr>ldm_ctx = map_cpu (put_regs (zip rs ws)) (put_reg i v c),
           ldm_addr = ad + addr4_step instr + of_nat (length rs) * addr4_step instr,
           ldm_addr2 = a + 4 + 4 * of_nat (length rs), ldm_next_pc = pc\<rparr>"
    using Cons.prems by (intro Cons.IH) (auto simp: vs intro!: ReadVirtualMemory_map_cpu)
  also have "map_cpu (put_regs (zip rs ws)) (put_reg i v c) = map_cpu (put_regs (zip (i # rs) vs)) c"
    by (simp add: vs map_cpu_def)
  finally show ?case by (simp add: algebra_simps)
qed

lemma block_nth: "(b, v) \<in> set (block a vs) \<longleftrightarrow> (\<exists>k < length vs. b = a + 4 * of_nat k \<and> v = vs ! k)"
proof (induction vs arbitrary: a)
  case (Cons x vs)
  show ?case by (auto simp: Cons.IH Ex_less_Suc2 less_Suc_eq_0_disj algebra_simps)
qed simp

lemma fst_block: "map fst (block a vs) = map (\<lambda>k. a + 4 * of_nat k) [0 ..< length vs]"
proof (induction vs arbitrary: a)
  case (Cons x vs)
  show ?case unfolding block.simps list.map Cons.IH by (simp add: map_upt_Suc algebra_simps del: upt_Suc)
qed simp

text \<open>A block of \<open>n\<close> words at \<open>a\<close> that lies in consecutive plain memory from \<open>p\<close>.\<close>

definition plain_block :: "u32 \<Rightarrow> u32 \<Rightarrow> nat \<Rightarrow> 'd ctx \<Rightarrow> bool" where
  "plain_block a p n c \<longleftrightarrow> uint p + 4 * int n \<le> 2 ^ 32 \<and>
    (\<forall>k < n. virt_loc (a + 4 * of_nat k) c = Some (p + 4 * of_nat k))"

lemma uint_plus_words: "uint p + 4 * int n \<le> 2 ^ 32 \<Longrightarrow> k < n \<Longrightarrow> uint (p + 4 * of_nat k :: u32) = uint p + 4 * int k"
proof -
  assume *: "uint p + 4 * int n \<le> 2 ^ 32" "k < n"
  have k: "(4 * of_nat k :: u32) = word_of_int (4 * int k)" by simp
  have "uint (4 * of_nat k :: u32) = 4 * int k"
  proof -
    have "4 * int k < 2 ^ 32" using * uint_ge_0 [of p] by linarith
    then show ?thesis unfolding k uint_word_of_int by (intro mod_pos_pos_trivial) simp_all
  qed
  with * show ?thesis by (simp add: uint_plus_if')
qed

lemma plain_block_apart:
  assumes "plain_block a p n c"
  shows "sorted_wrt (\<lambda>a b. \<forall>p q. virt_loc a c = Some p \<and> virt_loc b c = Some q \<longrightarrow> apart p q)
    (map (\<lambda>k. a + 4 * of_nat k) [0 ..< n])"
  using assms by (auto simp: sorted_wrt_iff_nth_less plain_block_def apart_def uint_plus_words)

lemma stm_block:
  assumes "plain_block a p (length vs) c"
  shows "\<exists>c'. vm.wr_list e (block a vs) c = Inr c' \<and>
    (\<forall>(b, v) \<in> set (block a vs). ReadVirtualMemory e W32 b c' = Inr (v, c'))"
proof (rule vm.wr_list_read_back)
  show "\<forall>(a, v) \<in> set (block a vs). virt_loc a c \<noteq> None"
    using assms by (auto simp: plain_block_def block_nth)
  show "sorted_wrt (\<lambda>a b. \<forall>p q. virt_loc a c = Some p \<and> virt_loc b c = Some q \<longrightarrow> apart p q) (map fst (block a vs))"
    unfolding fst_block by (rule plain_block_apart [OF assms])
qed

lemma wr_list_cpu: "vm.wr_list e avs c = Inr c' \<Longrightarrow> cpu c' = cpu c"
proof (induction avs arbitrary: c)
  case (Cons av avs)
  then show ?case
    by (cases av) (auto simp: vm.wr_list_def bindE_eq_Inr dest!: WriteVirtualMemory_frame)
qed (simp add: vm.wr_list_def)

lemma foldE_reg_list: "foldE (ldm_stm_step Load e instr) [0 ..< 16] st = foldE (ldm_stm_step Load e instr) (reg_list instr) st"
  unfolding reg_list_def by (rule foldE_filter) (rule ldm_stm_step_skip)

lemma reg_list_empty: "reg_list instr \<noteq> [] \<Longrightarrow> addr4_registers instr \<noteq> 0"
  by (auto simp: reg_list_def)


text \<open>The two instructions on a block of the stack.\<close>

lemma stmdb_block:
  fixes c :: "'d ctx"
  assumes rn: "idx_rn i \<noteq> PC_idx" and rs: "\<forall>r \<in> set (reg_list i). r \<noteq> PC_idx \<and> bit (addr4_registers i) r" "reg_list i \<noteq> []"
    and mode: "addr4_P i" "\<not> addr4_U i" "addr4_W i" and user: "\<not> InPrivilegedMode (cpu c)"
    and cond: "EvalCond (cpu c) (cond i) = Inr True" and a: "a = reg (cpu c) (idx_rn i) - 4 * of_nat (length (reg_list i))"
    and stack: "plain_block a p (length (reg_list i)) c"
  shows "\<exists>c0. HandlerLDM_STM False e c i = Inr (put_reg (idx_rn i) a c0, NextInstr (cpu c)) \<and> cpu c0 = cpu c
    \<and> (\<forall>(b, v) \<in> set (block a (map (reg (cpu c)) (reg_list i))). ReadVirtualMemory e W32 b c0 = Inr (v, c0))"
proof -
  obtain c0 where c0: "vm.wr_list e (block a (map (reg (cpu c)) (reg_list i))) c = Inr c0"
    "\<forall>(b, v) \<in> set (block a (map (reg (cpu c)) (reg_list i))). ReadVirtualMemory e W32 b c0 = Inr (v, c0)"
    using stm_block [of a p "map (reg (cpu c)) (reg_list i)" c e] stack by auto
  have start: "ldm_start i (reg (cpu c) (idx_rn i)) = a"
    by (simp add: ldm_start_def mode registers_accessed_def reg_list_def addr4_step_def a)
  have "foldE (ldm_stm_step False e i) (reg_list i) \<lparr>ldm_ctx = c, ldm_addr = reg (cpu c) (idx_rn i), ldm_addr2 = a, ldm_next_pc = NextInstr (cpu c)\<rparr>
      = Inr \<lparr>ldm_ctx = c0, ldm_addr = a, ldm_addr2 = a + 4 * of_nat (length (reg_list i)), ldm_next_pc = NextInstr (cpu c)\<rparr>"
    unfolding stm_loop [OF rs(1) user] c0(1) by (simp add: mode addr4_step_def a)
  then have "HandlerLDM_STM False e c i = Inr (put_reg (idx_rn i) a c0, NextInstr (cpu c))"
    using rn by (simp add: HandlerLDM_STM_def ctx_when_cond_True [OF cond] reg_list_empty [OF rs(2)] FetchReg_def foldE_reg_list start mode Let_def)
  then show ?thesis using c0(2) wr_list_cpu [OF c0(1)] by blast
qed

lemma ldmia_block:
  fixes c :: "'d ctx"
  assumes rn: "idx_rn i \<noteq> PC_idx" and rs: "\<forall>r \<in> set (reg_list i). r \<noteq> PC_idx \<and> bit (addr4_registers i) r" "reg_list i \<noteq> []"
    and mode: "\<not> addr4_P i" "addr4_U i" "addr4_W i" "\<not> addr4_S i"
    and cond: "EvalCond (cpu c) (cond i) = Inr True" and a: "a = reg (cpu c) (idx_rn i)"
    and reads: "\<forall>(b, v) \<in> set (block a (map f (reg_list i))). ReadVirtualMemory e W32 b c = Inr (v, c)"
  shows "\<exists>c2. HandlerLDM_STM True e c i = Inr (c2, NextInstr (cpu c))
    \<and> (\<forall>r. reg (cpu c2) r = (if r = idx_rn i then a + 4 * of_nat (length (reg_list i))
        else if r \<in> set (reg_list i) then f r else reg (cpu c) r))"
proof -
  let ?ivs = "zip (reg_list i) (map f (reg_list i))" and ?top = "a + 4 * of_nat (length (reg_list i))"
  have "foldE (ldm_stm_step True e i) (reg_list i) \<lparr>ldm_ctx = c, ldm_addr = a, ldm_addr2 = a, ldm_next_pc = NextInstr (cpu c)\<rparr>
    = Inr \<lparr>ldm_ctx = map_cpu (put_regs ?ivs) c, ldm_addr = ?top, ldm_addr2 = ?top, ldm_next_pc = NextInstr (cpu c)\<rparr>"
    by (subst ldm_loop [OF rs(1) _ reads]) (simp_all add: mode addr4_step_def)
  then have "HandlerLDM_STM True e c i = Inr (put_reg (idx_rn i) ?top (map_cpu (put_regs ?ivs) c), NextInstr (cpu c))"
    using rn by (simp add: HandlerLDM_STM_def ctx_when_cond_True [OF cond] reg_list_empty [OF rs(2)] mode FetchReg_def foldE_reg_list
      a [symmetric] ldm_start_def Let_def)
  moreover have "reg (put_regs ?ivs (cpu c)) r = (if r \<in> set (reg_list i) then f r else reg (cpu c) r)" for r
  proof -
    have "rev ?ivs = zip (rev (reg_list i)) (map f (rev (reg_list i)))" by (simp add: zip_rev [symmetric] rev_map)
    then show ?thesis by (simp add: put_regs_reg map_of_zip_map)
  qed
  ultimately show ?thesis by auto
qed

text \<open>C25: push and pop. \<open>STMDB Rn!, {...}\<close> on a stack in plain memory does not fail, lowers \<open>Rn\<close> by four bytes per
  register, and leaves the other registers alone; whatever happens to the registers in between, as long as
  \<open>Rn\<close> is back at that value and memory is unchanged, \<open>LDMIA Rn!, {...}\<close> with the same list restores \<open>Rn\<close> and
  every listed register, and touches no other.\<close>
theorem push_pop_roundtrip:
  fixes c :: "'d ctx"
  assumes rn: "idx_rn pop = idx_rn push" "idx_rn push \<noteq> PC_idx" "idx_rn push \<notin> set (reg_list push)"
    and list: "addr4_registers pop = addr4_registers push" "reg_list push \<noteq> []" "PC_idx \<notin> set (reg_list push)"
    and modes: "addr4_P push" "\<not> addr4_U push" "addr4_W push" "\<not> addr4_P pop" "addr4_U pop" "addr4_W pop" "\<not> addr4_S pop"
    and user: "\<not> InPrivilegedMode (cpu c)"
    and cond: "EvalCond (cpu c) (cond push) = Inr True"
    and stack: "plain_block (reg (cpu c) (idx_rn push) - 4 * of_nat (length (reg_list push))) p (length (reg_list push)) c"
  shows "\<exists>c1. HandlerLDM_STM False e c push = Inr (c1, NextInstr (cpu c))
    \<and> cpu c1 = set_reg (idx_rn push) (reg (cpu c) (idx_rn push) - 4 * of_nat (length (reg_list push))) (cpu c)
    \<and> (\<forall>s. reg s (idx_rn push) = reg (cpu c1) (idx_rn push) \<and> EvalCond s (cond pop) = Inr True \<longrightarrow>
        (\<exists>c2. HandlerLDM_STM True e (c1\<lparr>cpu := s\<rparr>) pop = Inr (c2, NextInstr s)
          \<and> (\<forall>i. reg (cpu c2) i = (if i \<in> set (reg_list push) \<or> i = idx_rn push then reg (cpu c) i else reg s i))))"
proof -
  let ?rs = "reg_list push" and ?rn = "idx_rn push"
  let ?a = "reg (cpu c) ?rn - 4 * of_nat (length ?rs)"
  have rs: "reg_list pop = ?rs" by (simp add: reg_list_def list)
  have listed: "\<forall>i \<in> set ?rs. i \<noteq> PC_idx \<and> bit (addr4_registers push) i" using list(3) by (auto simp: reg_list_def)
  obtain c0 where c0: "HandlerLDM_STM False e c push = Inr (put_reg ?rn ?a c0, NextInstr (cpu c))" "cpu c0 = cpu c"
    "\<forall>(b, v) \<in> set (block ?a (map (reg (cpu c)) ?rs)). ReadVirtualMemory e W32 b c0 = Inr (v, c0)"
    using stmdb_block [OF rn(2) listed list(2) modes(1-3) user cond refl stack] by blast
  have pop: "\<exists>c2. HandlerLDM_STM True e ((put_reg ?rn ?a c0)\<lparr>cpu := s\<rparr>) pop = Inr (c2, NextInstr s)
      \<and> (\<forall>i. reg (cpu c2) i = (if i \<in> set ?rs \<or> i = ?rn then reg (cpu c) i else reg s i))"
    if s: "reg s ?rn = ?a" "EvalCond s (cond pop) = Inr True" for s
  proof -
    let ?c = "(put_reg ?rn ?a c0)\<lparr>cpu := s\<rparr>"
    have c: "?c = map_cpu (\<lambda>_. s) c0" by (simp add: map_cpu_def)
    have "\<forall>(b, v) \<in> set (block ?a (map (reg (cpu c)) (reg_list pop))). ReadVirtualMemory e W32 b ?c = Inr (v, ?c)"
      unfolding c rs using c0(3) by (auto intro!: ReadVirtualMemory_map_cpu)
    then show ?thesis
      using ldmia_block [of pop ?c ?a "reg (cpu c)" e] rn list modes s listed by (auto simp: rs)
  qed
  show ?thesis
    by (rule exI [of _ "put_reg ?rn ?a c0"]) (use c0(1,2) pop in simp)
qed

text \<open>A stack at the end of sixteen bytes of FCRAM, in user mode.\<close>

definition example_stack :: "unit ctx" where
  "example_stack = put_reg 13 0x1010 (example_program 0)"

lemma example_virt_loc:
  "virt_loc 0x1008 (map_cpu f (example_program w)) = Some 0x20000008"
  "virt_loc 0x100C (map_cpu f (example_program w)) = Some 0x2000000C"
proof -
  have "LookupMemoryBackedPage 0x20000000 = Some (FCRAM, 0)" by code_simp
  then have inv: "pt_inv example_page_table"
    by (auto simp: pt_inv_def example_page_table_def PageTable_init_def)
  have tr: "TranslateVirtualAddress example_page_table 0x1008 = Inr 0x20000008"
    "TranslateVirtualAddress example_page_table 0x100C = Inr 0x2000000C"
    by (simp_all add: TranslateVirtualAddress_def example_page_table_def unmapped_def)
  have "find_bus 0x20000008 = Some FCRAM" "find_bus 0x2000000C = Some FCRAM" by code_simp+
  then have "plain_access W32 0x20000008 (mem (example_program w))" "plain_access W32 0x2000000C (mem (example_program w))"
    by (simp_all add: plain_access_def example_program_def example_mem_def IsMemoryBus_def)
  moreover have "page_table_of (map_cpu f (example_program w)) = Inr example_page_table"
    by (simp add: page_table_of_def example_program_def example_ctx_def)
  ultimately show "virt_loc 0x1008 (map_cpu f (example_program w)) = Some 0x20000008"
    "virt_loc 0x100C (map_cpu f (example_program w)) = Some 0x2000000C"
    using inv tr by (simp_all add: virt_loc_eq_Some)
qed

text \<open>\<open>PUSH {r0, r1}\<close> and \<open>POP {r0, r1}\<close>, with both registers cleared in between.\<close>

theorem push_pop_roundtrip_witness:
  "\<exists>c1 c2. HandlerLDM_STM False example_env example_stack 0xE92D0003 = Inr (c1, 0x1004)
    \<and> HandlerLDM_STM True example_env (put_reg 0 0 (put_reg 1 0 c1)) 0xE8BD0003 = Inr (c2, 0x1004)
    \<and> reg (cpu c2) 0 = 5 \<and> reg (cpu c2) 1 = 7 \<and> reg (cpu c2) 13 = 0x1010"
proof -
  let ?push = "0xE92D0003 :: u32" and ?pop = "0xE8BD0003 :: u32"
  have rn: "idx_rn ?push = 13" "idx_rn ?pop = 13" by code_simp+
  have list: "reg_list ?push = [0, 1]" "addr4_registers ?pop = addr4_registers ?push" by code_simp+
  have modes: "addr4_P ?push" "\<not> addr4_U ?push" "addr4_W ?push" "\<not> addr4_P ?pop" "addr4_U ?pop" "addr4_W ?pop" "\<not> addr4_S ?pop"
    by code_simp+
  have cpu: "cpu example_stack = set_reg 13 0x1010 example_state"
    by (simp add: example_stack_def example_program_def example_ctx_def)
  have always: "EvalCond s (cond ?push) = Inr True" "EvalCond s (cond ?pop) = Inr True" for s
    proof -
    have "cond ?push = 14" "cond ?pop = 14" by code_simp+
    then show "EvalCond s (cond ?push) = Inr True" "EvalCond s (cond ?pop) = Inr True"
      by (simp_all add: EvalCond_def)
  qed
  have user: "\<not> InPrivilegedMode (cpu example_stack)" unfolding cpu by code_simp
  have "plain_block 0x1008 0x20000008 2 example_stack"
    using example_virt_loc by (auto simp: plain_block_def example_stack_def less_2_cases_iff)
  then have stack: "plain_block (reg (cpu example_stack) (idx_rn ?push) - 4 * of_nat (length (reg_list ?push))) 0x20000008
    (length (reg_list ?push)) example_stack"
    by (simp add: rn list cpu numeral_2_eq_2)
  obtain c1 where c1: "HandlerLDM_STM False example_env example_stack ?push = Inr (c1, NextInstr (cpu example_stack))"
    "cpu c1 = set_reg 13 0x1008 (cpu example_stack)"
    "\<And>s. reg s 13 = reg (cpu c1) 13 \<Longrightarrow> (\<exists>c2. HandlerLDM_STM True example_env (c1\<lparr>cpu := s\<rparr>) ?pop = Inr (c2, NextInstr s)
          \<and> (\<forall>i. reg (cpu c2) i = (if i \<in> {0, 1} \<or> i = 13 then reg (cpu example_stack) i else reg s i)))"
    using push_pop_roundtrip [OF _ _ _ list(2) _ _ modes user always(1) stack, of example_env] always(2)
    by (auto simp: rn list cpu)
  let ?s = "set_reg 0 0 (set_reg 1 0 (cpu c1))"
  have upd: "put_reg 0 0 (put_reg 1 0 c1) = c1\<lparr>cpu := ?s\<rparr>" by (simp add: map_cpu_def)
  have nxt: "NextInstr ?s = 0x1004" by (simp add: NextInstr_def PC_def c1(2) cpu example_state_def)
  obtain c2 where "HandlerLDM_STM True example_env (c1\<lparr>cpu := ?s\<rparr>) ?pop = Inr (c2, NextInstr ?s)"
    "\<forall>i. reg (cpu c2) i = (if i \<in> {0, 1} \<or> i = 13 then reg (cpu example_stack) i else reg ?s i)"
    using c1(3) [of ?s] by auto
  then have "HandlerLDM_STM True example_env (put_reg 0 0 (put_reg 1 0 c1)) ?pop = Inr (c2, 0x1004)"
    "reg (cpu c2) 0 = 5" "reg (cpu c2) 1 = 7" "reg (cpu c2) 13 = 0x1010"
    unfolding upd nxt by (simp_all add: cpu example_state_def)
  with c1(1) show ?thesis by (auto simp: NextInstr_def PC_def cpu example_state_def)
qed

section \<open>Exclusive accesses\<close>

lemma Prepare_after_Mark:
  "monitor_address c = Some (a AND monitor_address_mask) \<Longrightarrow> PrepareExclusiveStore a c = Inr (True, c\<lparr>monitor_address := None\<rparr>)"
  by (simp add: PrepareExclusiveStore_def)

lemma virt_loc_monitor [simp]: "virt_loc a (c\<lparr>monitor_address := m\<rparr>) = virt_loc a c"
  by (simp add: virt_loc_def page_table_of_def split: sum.split)

lemma Ldrex_marks:
  assumes "HandlerLdrex e c l = Inr (c1, pc)" and "EvalCond (cpu c) (cond l) = Inr True"
  shows "monitor_address c1 = Some (FetchReg (cpu c) (idx_rn l) AND monitor_address_mask)"
  using assms by (auto simp: HandlerLdrex_def HandlerLdrex_width_def ctx_when_cond_True bindE_eq_Inr Let_def MarkExclusive_def
    dest!: ReadVirtualMemory_frame)

lemma Strex_unmarked:
  assumes "monitor_address c = None" and "EvalCond (cpu c) (cond i) = Inr True" and "idx_rd i \<noteq> PC_idx"
  shows "HandlerStrex e c i = Inr (put_reg (idx_rd i) 1 c, NextInstr (cpu c))"
  using assms by (simp add: HandlerStrex_def HandlerStrex_width_def ctx_when_cond_True Let_def PrepareExclusiveStore_def
    NextInstr_def PC_def)

text \<open>C24: an exclusive store succeeds exactly once per exclusive load. After \<open>LDREX\<close> from an address, and as long as
  nothing clears the monitor, a \<open>STREX\<close> to that address (in plain memory) writes its word, returns 0 in \<open>Rd\<close>
  and clears the monitor; every \<open>STREX\<close> after it, to whatever address and with whatever registers, returns 1
  and changes neither memory nor monitor.\<close>
theorem exclusive_store_once:
  assumes ld: "HandlerLdrex e c l = Inr (c1, pc)" "EvalCond (cpu c) (cond l) = Inr True"
    and addr: "FetchReg (cpu c2) (idx_rn i) = FetchReg (cpu c) (idx_rn l)"
    and st: "monitor_address c2 = monitor_address c1" "EvalCond (cpu c2) (cond i) = Inr True" "idx_rd i \<noteq> PC_idx"
    and plain: "virt_loc (FetchReg (cpu c2) (idx_rn i)) c2 = Some p"
  shows "\<exists>c3. HandlerStrex e c2 i = Inr (c3, NextInstr (cpu c2)) \<and> cpu c3 = set_reg (idx_rd i) 0 (cpu c2)
    \<and> ReadVirtualMemory e W32 (FetchReg (cpu c2) (idx_rn i)) c3 = Inr (FetchReg (cpu c2) (idx_rm i), c3)
    \<and> (\<forall>s j. EvalCond s (cond j) = Inr True \<and> idx_rd j \<noteq> PC_idx \<longrightarrow>
        HandlerStrex e (c3\<lparr>cpu := s\<rparr>) j = Inr (put_reg (idx_rd j) 1 (c3\<lparr>cpu := s\<rparr>), NextInstr s))"
proof -
  let ?a = "FetchReg (cpu c2) (idx_rn i)" and ?v = "FetchReg (cpu c2) (idx_rm i)"
  let ?c = "c2\<lparr>monitor_address := None\<rparr>"
  have prep: "PrepareExclusiveStore ?a c2 = Inr (True, ?c)"
    using Ldrex_marks [OF ld] st(1) addr by (intro Prepare_after_Mark) simp
  obtain c3 where c3: "WriteVirtualMemory e W32 ?a ?v ?c = Inr c3" "ReadVirtualMemory e W32 ?a c3 = Inr (?v, c3)"
    using vm.wr_rd [of ?a ?c p e ?v] plain by auto
  have frame: "cpu c3 = cpu c2" "monitor_address c3 = None" using WriteVirtualMemory_frame [OF c3(1)] by simp_all
  have "HandlerStrex e c2 i = Inr (put_reg (idx_rd i) 0 c3, NextInstr (cpu c2))"
    using st(3) by (simp add: HandlerStrex_def HandlerStrex_width_def ctx_when_cond_True [OF st(2)] prep c3(1) frame Let_def
      NextInstr_def PC_def)
  moreover have "ReadVirtualMemory e W32 ?a (put_reg (idx_rd i) 0 c3) = Inr (?v, put_reg (idx_rd i) 0 c3)"
    by (rule ReadVirtualMemory_map_cpu [OF c3(2)])
  moreover have "HandlerStrex e ((put_reg (idx_rd i) 0 c3)\<lparr>cpu := s\<rparr>) j =
      Inr (put_reg (idx_rd j) 1 ((put_reg (idx_rd i) 0 c3)\<lparr>cpu := s\<rparr>), NextInstr s)"
    if "EvalCond s (cond j) = Inr True" "idx_rd j \<noteq> PC_idx" for s j
    using Strex_unmarked [of "(put_reg (idx_rd i) 0 c3)\<lparr>cpu := s\<rparr>" j e] that frame by simp
  ultimately show ?thesis using frame by (intro exI [of _ "put_reg (idx_rd i) 0 c3"]) simp
qed

lemma virt_read_plain: "virt_loc a c = Some p \<Longrightarrow> \<exists>v. ReadVirtualMemory e W32 a c = Inr (v, c)"
proof -
  assume loc: "virt_loc a c = Some p"
  then have plain: "plain_access W32 p (mem c)" by (auto simp: virt_loc_eq_Some)
  obtain b off where b: "phys_loc p = Some (b, off)" "off + nbytes W32 \<le> unat (bus_size b)"
    using plain_loc [OF plain] by blast
  then obtain v where "data_read b off W32 (mem c) = Inr v" by (auto simp: data_read_def)
  then show ?thesis using loc by (simp add: virt_access(1) [OF loc] ReadLegacy_plain [OF plain b(1)])
qed

text \<open>\<open>LDREX r2, [r3]\<close>, then \<open>STREX r4, r0, [r3]\<close> twice, with \<open>r3\<close> at \<open>0x1008\<close>.\<close>

theorem exclusive_store_once_witness:
  "\<exists>c1 c3. HandlerLdrex example_env (put_reg 3 0x1008 (example_program 0)) 0xE1932F9F = Inr (c1, 0x1004)
    \<and> HandlerStrex example_env c1 0xE1834F90 = Inr (c3, 0x1004)
    \<and> reg (cpu c3) 4 = 0 \<and> ReadVirtualMemory example_env W32 0x1008 c3 = Inr (5, c3)
    \<and> HandlerStrex example_env c3 0xE1834F90 = Inr (put_reg 4 1 c3, 0x1004)"
proof -
  let ?ld = "0xE1932F9F :: u32" and ?st = "0xE1834F90 :: u32" and ?c = "put_reg 3 0x1008 (example_program 0)"
  have idx: "idx_rn ?ld = 3" "idx_rd ?ld = 2" "idx_rn ?st = 3" "idx_rd ?st = 4" "idx_rm ?st = 0" by code_simp+
  have "cond ?ld = 14" "cond ?st = 14" by code_simp+
  then have always: "EvalCond s (cond ?ld) = Inr True" "EvalCond s (cond ?st) = Inr True" for s by (simp_all add: EvalCond_def)
  have cpu: "cpu ?c = set_reg 3 0x1008 example_state" by (simp add: example_program_def example_ctx_def)
  let ?m = "MarkExclusive 0x1008 ?c"
  have loc: "virt_loc 0x1008 ?m = Some 0x20000008" using example_virt_loc(1) by (simp add: MarkExclusive_def)
  obtain v where v: "ReadVirtualMemory example_env W32 0x1008 ?m = Inr (v, ?m)" using virt_read_plain [OF loc] by blast
  let ?c1 = "put_reg 2 v ?m"
  have regs: "reg example_state 0 = 5" "reg example_state 15 = 0x1000" by (simp_all add: example_state_def)
  have cpu_m: "cpu ?m = set_reg 3 0x1008 example_state" by (simp add: MarkExclusive_def example_program_def example_ctx_def)
  have ld: "HandlerLdrex example_env ?c ?ld = Inr (?c1, 0x1004)"
    by (simp add: HandlerLdrex_def HandlerLdrex_width_def ctx_when_cond_True [OF always(1)] idx FetchReg_def cpu v Let_def cpu_m
      NextInstr_def PC_def regs)
  have loc1: "virt_loc (FetchReg (cpu ?c1) (idx_rn ?st)) ?c1 = Some 0x20000008"
    using loc by (simp add: idx FetchReg_def cpu_m virt_loc_def cong: sum.case_cong)
  show ?thesis
  proof -
    have a: "FetchReg (cpu ?c1) (idx_rn ?st) = FetchReg (cpu ?c) (idx_rn ?ld)" "idx_rd ?st \<noteq> PC_idx"
      by (simp_all add: idx FetchReg_def cpu cpu_m)
    obtain c3 where c3: "HandlerStrex example_env ?c1 ?st = Inr (c3, NextInstr (cpu ?c1))" "cpu c3 = set_reg 4 0 (cpu ?c1)"
      "ReadVirtualMemory example_env W32 (FetchReg (cpu ?c1) 3) c3 = Inr (FetchReg (cpu ?c1) 0, c3)"
      "HandlerStrex example_env (c3\<lparr>cpu := cpu c3\<rparr>) ?st = Inr (put_reg 4 1 (c3\<lparr>cpu := cpu c3\<rparr>), NextInstr (cpu c3))"
      using exclusive_store_once [OF ld always(1) a(1) refl always(2) a(2) loc1] always(2) a(2) by (auto simp: idx)
    have upd: "c3\<lparr>cpu := cpu c3\<rparr> = c3" by simp
    have "NextInstr (cpu ?c1) = 0x1004" "NextInstr (cpu c3) = 0x1004" "FetchReg (cpu ?c1) 3 = 0x1008"
      "FetchReg (cpu ?c1) 0 = 5" "reg (cpu c3) 4 = 0"
      by (simp_all add: c3(2) cpu_m NextInstr_def PC_def FetchReg_def regs)
    with ld c3 upd show ?thesis by metis
  qed
qed

text \<open>The address monitor drops the top four bits of addresses. Its mask has seven hexadecimal digits, so an
  exclusive store to an address \<open>0x10000000\<close> above the one that was loaded exclusively passes for a match.\<close>
theorem monitor_confuses_addresses:
  "PrepareExclusiveStore (a + 0x10000000) (MarkExclusive a c) = Inr (True, c\<lparr>monitor_address := None\<rparr>)"
proof -
  have k: "(0xffffff8 :: u32) = mask 28 AND 0xffffff8" by code_simp
  have masked28: "x AND 0xffffff8 = take_bit 28 x AND 0xffffff8" for x :: u32
    unfolding take_bit_eq_mask and.assoc k [symmetric] ..
  have "take_bit 28 (a + 0x10000000) = take_bit 28 a"
    by transfer (simp add: take_bit_eq_mod mod_mod_cancel)
  then show ?thesis
    using masked28 [of a] masked28 [of "a + 0x10000000"]
    by (simp add: PrepareExclusiveStore_def MarkExclusive_def monitor_address_mask_def)
qed

end
