(* ===== verification/MemoryHooks.thy ===== *)
theory MemoryHooks
  imports PhysicalMemory
begin

text \<open>
  Memory hooks (\<open>memory.cpp\<close>, \<open>memory.h\<close>): setting, generating and clearing the read and write hooks of
  physical memory, and the lookup of contiguous host memory that refuses hooked ranges. The hooks of a page
  are a list; a page with hooks loses its host backing in the page tables of the processors.
\<close>

section \<open>Definitions\<close>

datatype HookKind = Hook_Read | Hook_Write | Hook_ReadWrite

definition HasReadHook :: "HookKind \<Rightarrow> bool" where
  "HasReadHook kind \<longleftrightarrow> kind = Hook_Read \<or> kind = Hook_ReadWrite"

definition HasWriteHook :: "HookKind \<Rightarrow> bool" where
  "HasWriteHook kind \<longleftrightarrow> kind = Hook_Write \<or> kind = Hook_ReadWrite"

text \<open>\<open>GetHookList\<close> for reading and, as the list is a reference in the code, for assigning.\<close>

definition GetHookList :: "HookKind \<Rightarrow> 'd physmem \<Rightarrow> bus \<Rightarrow> nat \<Rightarrow> hook list" where
  "GetHookList kind m = (if kind = Hook_Write then write_hooks m else read_hooks m)"

definition PutHookList :: "HookKind \<Rightarrow> bus \<Rightarrow> nat \<Rightarrow> hook list \<Rightarrow> 'd physmem \<Rightarrow> 'd physmem" where
  "PutHookList kind b page hs m =
    (if kind = Hook_Write
     then m\<lparr>write_hooks := (write_hooks m)(b := (write_hooks m b)(page := hs))\<rparr>
     else m\<lparr>read_hooks := (read_hooks m)(b := (read_hooks m b)(page := hs))\<rparr>)"

definition HasAnyHooks :: "'d physmem \<Rightarrow> bus \<Rightarrow> nat \<Rightarrow> bool" where
  "HasAnyHooks m b page \<longleftrightarrow> write_hooks m b page \<noteq> [] \<or> read_hooks m b page \<noteq> []"

abbreviation range_end :: "hook \<Rightarrow> u32" where
  "range_end h \<equiv> range_start h + range_bytes h"

text \<open>
  The update of a page's list in the loop of \<open>SetHook\<close>: \<open>pre\<close> are the hooks the search passes, \<open>before\<close> is the last
  of them and \<open>after\<close> the first of \<open>post\<close>; \<open>new_range\<close> is the range of a new entry.
\<close>

definition insert_hook :: "u32 \<Rightarrow> u32 \<Rightarrow> hook \<Rightarrow> hook list \<Rightarrow> hook list res" where
  "insert_hook start num_bytes new_hook hs =
    (let pre = takeWhile (\<lambda>h. range_start h < start) hs;
         post = dropWhile (\<lambda>h. range_start h < start) hs;
         meets_after = (post \<noteq> [] \<and> range_start (hd post) = start + num_bytes)
     in if pre \<noteq> [] \<and> start < range_end (last pre) then Inl HookError
        else if post \<noteq> [] \<and> range_start (hd post) < start + num_bytes then Inl HookError
        else if pre \<noteq> [] \<and> range_end (last pre) = start then
          let before = last pre; before = before\<lparr>range_bytes := range_bytes before + num_bytes\<rparr>
          in Inr (butlast pre @
               (if meets_after
                then before\<lparr>range_bytes := range_bytes before + range_bytes (hd post)\<rparr> # tl post
                else before # post))
        else if meets_after then
          let after = hd post
          in Inr (pre @ after\<lparr>range_start := range_start after - num_bytes, range_bytes := range_bytes after + num_bytes\<rparr>
               # tl post)
        else Inr (pre @ new_hook # post))"

text \<open>The new entry; its start compares an address with an offset into the bus.\<close>

definition new_bus_hook :: "bus \<Rightarrow> nat \<Rightarrow> u32 \<Rightarrow> u32 \<Rightarrow> nat \<Rightarrow> hook" where
  "new_bus_hook b page start num_bytes handler =
    (let hook_start = max start (push_bit 12 (of_nat page))
     in \<lparr>range_start = hook_start,
         range_bytes = min (bus_start b + (of_nat page + 1) * 0x1000) (start + num_bytes) - hook_start,
         hook_handler = handler\<rparr>)"

definition page_address :: "bus \<Rightarrow> nat \<Rightarrow> u32" where
  "page_address b page = push_bit 12 (of_nat page) + bus_start b"

definition mapE :: "('a \<Rightarrow> 'b res) \<Rightarrow> 'a list \<Rightarrow> 'b list res" where
  "mapE f xs = foldE (\<lambda>x ys. bindE (f x) (\<lambda>y. Inr (ys @ [y]))) xs []"

definition SetHook_page :: "HookKind \<Rightarrow> bus \<Rightarrow> u32 \<Rightarrow> u32 \<Rightarrow> nat \<Rightarrow> nat \<Rightarrow> 'd physmem \<Rightarrow> 'd physmem res" where
  "SetHook_page kind b start num_bytes handler page m =
    (if unat (bus_size b) div 4096 \<le> page then Inl UndefinedBehaviour
     else let already_unbacked = HasAnyHooks m b page
          in bindE (insert_hook start num_bytes (new_bus_hook b page start num_bytes handler) (GetHookList kind m b page)) (\<lambda>hs.
             let m = PutHookList kind b page hs m
             in if already_unbacked then Inr m
                else bindE (mapE (OnUnbackedByHostMemory (page_address b page)) (subscribers m)) (\<lambda>subs.
                     Inr (m\<lparr>subscribers := subs\<rparr>))))"

text \<open>The pages of the loops of \<open>SetHook\<close> and \<open>ClearHook\<close>.\<close>

definition hook_pages :: "bus \<Rightarrow> u32 \<Rightarrow> u32 \<Rightarrow> nat list" where
  "hook_pages b start num_bytes =
    [unat (drop_bit 12 (start - bus_start b)) ..< unat (drop_bit 12 (start - bus_start b + 0x1000 + num_bytes - 1))]"

definition SetHook :: "HookKind \<Rightarrow> u32 \<Rightarrow> u32 \<Rightarrow> nat \<Rightarrow> 'd physmem \<Rightarrow> 'd physmem res" where
  "SetHook kind start num_bytes handler m =
    (if \<not> start < start + num_bytes then Inl ContractViolation
     else case find_bus start of
         None \<Rightarrow> Inr m
       | Some b \<Rightarrow> foldE (SetHook_page kind b start num_bytes handler) (hook_pages b start num_bytes) m)"

definition Overlaps :: "hook \<Rightarrow> u32 \<Rightarrow> u32 \<Rightarrow> bool" where
  "Overlaps h start num_bytes \<longleftrightarrow> \<not> (range_end h \<le> start \<or> start + num_bytes \<le> range_start h)"

text \<open>
  The loop of \<open>clear\<close> in \<open>ClearHook\<close>, over the list from \<open>bus_hook\<close> on. After a split the loop looks at the
  shortened hook again. The \<open>ValidateContract\<close>s hold by the assignments before them.
\<close>

function clear_hooks :: "u32 \<Rightarrow> u32 \<Rightarrow> hook list \<Rightarrow> hook list" where
  "clear_hooks start num_bytes [] = []"
| "clear_hooks start num_bytes (h # hs) =
    (if Overlaps h start num_bytes then
       if range_start h < start \<and> start + num_bytes < range_end h then
         clear_hooks start num_bytes
           (h\<lparr>range_bytes := start - range_start h\<rparr>
            # \<lparr>range_start = start + num_bytes, range_bytes = range_end h - (start + num_bytes), hook_handler = hook_handler h\<rparr>
            # hs)
       else if range_start h < start then
         h\<lparr>range_bytes := start - range_start h\<rparr> # clear_hooks start num_bytes hs
       else if start + num_bytes < range_end h then
         let diff = start + num_bytes - range_start h
         in h\<lparr>range_start := range_start h + diff, range_bytes := range_bytes h - diff\<rparr> # clear_hooks start num_bytes hs
       else clear_hooks start num_bytes hs
     else h # clear_hooks start num_bytes hs)"
  by pat_completeness auto

text \<open>A split leaves two hooks that do not overlap the cleared range, so the loop ends.\<close>

termination clear_hooks
  by (relation "measure (\<lambda>(start, n, hs). sum_list (map (\<lambda>h. if Overlaps h start n then 3 else 1) hs))")
    (auto simp: Overlaps_def)

definition clear_list :: "HookKind \<Rightarrow> bus \<Rightarrow> u32 \<Rightarrow> u32 \<Rightarrow> nat \<Rightarrow> 'd physmem \<Rightarrow> 'd physmem res" where
  "clear_list kind b start num_bytes page m =
    (if GetHookList kind m b page = [] then Inl HookError
     else Inr (PutHookList kind b page (clear_hooks start num_bytes (GetHookList kind m b page)) m))"

definition ClearHook_page :: "HookKind \<Rightarrow> bus \<Rightarrow> u32 \<Rightarrow> u32 \<Rightarrow> nat \<Rightarrow> 'd physmem \<Rightarrow> 'd physmem res" where
  "ClearHook_page kind b start num_bytes page m =
    (if unat (bus_size b) div 4096 \<le> page then Inl UndefinedBehaviour
     else bindE (if HasReadHook kind then clear_list Hook_Read b start num_bytes page m else Inr m) (\<lambda>m.
          bindE (if HasWriteHook kind then clear_list Hook_Write b start num_bytes page m else Inr m) (\<lambda>m.
          Inr (if HasAnyHooks m b page then m
               else m\<lparr>subscribers := map (OnBackedByHostMemory (GetMemoryBackedPageFor b (page_address b page))
                      (page_address b page)) (subscribers m)\<rparr>))))"

definition ClearHook :: "HookKind \<Rightarrow> u32 \<Rightarrow> u32 \<Rightarrow> 'd physmem \<Rightarrow> 'd physmem res" where
  "ClearHook kind start num_bytes m = (case find_bus start of
      None \<Rightarrow> Inr m
    | Some b \<Rightarrow> foldE (ClearHook_page kind b start num_bytes) (hook_pages b start num_bytes) m)"

text \<open>\<open>GenerateHooks\<close> asks \<open>callback\<close> for the handler of every page of a range.\<close>

definition GenerateHooks ::
  "HookKind \<Rightarrow> u32 \<Rightarrow> u32 \<Rightarrow> (u32 \<Rightarrow> nat option) \<Rightarrow> 'd physmem \<Rightarrow> 'd physmem res" where
  "GenerateHooks kind start num_bytes callback m =
    (let end_page_index = drop_bit 12 ((start AND 0xfff) + 0x1000 + num_bytes - 1)
     in foldE (\<lambda>page_index m.
          let page_start = push_bit 12 (drop_bit 12 start + of_nat page_index);
              hook_range_start = (if page_index = 0 then start else page_start);
              hook_range_end = (if Suc page_index = unat end_page_index then start + num_bytes else page_start + 0x1000)
          in case callback page_start of
               None \<Rightarrow> Inr m
             | Some hook \<Rightarrow> SetHook kind hook_range_start (hook_range_end - hook_range_start) hook m)
        [0 ..< unat end_page_index] m)"

text \<open>
  \<open>LookupContiguousMemoryBackedPage<AccessMode>\<close>: the host memory behind a range, with its size, unless a hook of
  that kind overlaps it. Both page indices are \<open>int32_t\<close>; \<open>contiguous_test\<close> is the body of the loop over them.
\<close>

definition contiguous_test :: "HookKind \<Rightarrow> u32 \<Rightarrow> u32 \<Rightarrow> bus \<Rightarrow> 'd physmem \<Rightarrow> nat \<Rightarrow> unit res" where
  "contiguous_test AccessMode address num_bytes b m idx =
    (let page = bus_page b (push_bit 12 (drop_bit 12 address + of_nat idx))
     in if unat (bus_size b) div 4096 \<le> page then Inl UndefinedBehaviour
        else if HasReadHook AccessMode \<and> (\<exists>h \<in> set (read_hooks m b page). Overlaps h address num_bytes)
        then Inl HookError
        else if HasWriteHook AccessMode \<and> (\<exists>h \<in> set (write_hooks m b page). Overlaps h address num_bytes)
        then Inl HookError
        else Inr ())"

definition LookupContiguousMemoryBackedPage ::
  "HookKind \<Rightarrow> u32 \<Rightarrow> u32 \<Rightarrow> 'd physmem \<Rightarrow> ((bus \<times> u32) \<times> u32) res" where
  "LookupContiguousMemoryBackedPage AccessMode address num_bytes m =
    (if num_bytes = 0 then Inl ContractViolation
     else case find_bus address of
         None \<Rightarrow> Inl (UnknownPhysical address)
       | Some b \<Rightarrow>
           if bus_end b < address + num_bytes then Inl InvalidOperation
           else let last_page_index = sint (drop_bit 12 ((address AND 0xfff) + num_bytes - 1))
                in bindE (foldE (\<lambda>idx _. contiguous_test AccessMode address num_bytes b m idx)
                       [0 ..< nat (last_page_index + 1)] ()) (\<lambda>_.
                     Inr ((b, address - bus_start b), num_bytes)))"

end
