(* ===== verification/HooksCorrect.thy ===== *)
theory HooksCorrect
  imports MemoryHooks
begin

text \<open>
  Correctness of the memory hooks: the lists of hooks stay ordered and disjoint, setting and clearing change exactly
  the bytes of their range, hooked pages have no host backing in the page tables, so that no access bypasses a hook,
  and contiguous host memory is only given out without hooks. Hooks of neighbouring ranges are merged whatever their
  handlers, and a page that is mapped while it has hooks is backed: both are stated as theorems.
\<close>

section \<open>The list of hooks of a page\<close>

text \<open>
  \<open>memory.h\<close> promises that the hooks of a page do not overlap and are in the order of their addresses. Ranges are
  read as integers; none is empty or reaches past the end of the address space.
\<close>

abbreviation hook_lo :: "hook \<Rightarrow> int" where
  "hook_lo h \<equiv> uint (range_start h)"

abbreviation hook_hi :: "hook \<Rightarrow> int" where
  "hook_hi h \<equiv> uint (range_start h) + uint (range_bytes h)"

definition hooks_ok :: "hook list \<Rightarrow> bool" where
  "hooks_ok hs \<longleftrightarrow> (\<forall>h \<in> set hs. hook_lo h < hook_hi h \<and> hook_hi h < 4294967296)
    \<and> sorted_wrt (\<lambda>h h'. hook_hi h \<le> hook_lo h') hs"

definition hook_at :: "hook list \<Rightarrow> u32 \<Rightarrow> nat option" where
  "hook_at hs x = map_option hook_handler (find (\<lambda>h. hook_lo h \<le> uint x \<and> uint x < hook_hi h) hs)"

lemma hooks_ok_simps [simp]:
  "hooks_ok []"
  "hooks_ok (h # hs) \<longleftrightarrow> hook_lo h < hook_hi h \<and> hook_hi h < 4294967296 \<and> (\<forall>h' \<in> set hs. hook_hi h \<le> hook_lo h') \<and> hooks_ok hs"
  by (auto simp: hooks_ok_def)

lemma hooks_ok_append:
  "hooks_ok (xs @ ys) \<longleftrightarrow> hooks_ok xs \<and> hooks_ok ys \<and> (\<forall>h \<in> set xs. \<forall>h' \<in> set ys. hook_hi h \<le> hook_lo h')"
  by (auto simp: hooks_ok_def sorted_wrt_append)

lemma uint_range_end: "hook_hi h < 4294967296 \<Longrightarrow> uint (range_end h) = hook_hi h"
  by (simp add: uint_add_u32)

lemma hook_at_simps [simp]:
  "hook_at [] x = None"
  "hook_at (h # hs) x = (if hook_lo h \<le> uint x \<and> uint x < hook_hi h then Some (hook_handler h) else hook_at hs x)"
  by (simp_all add: hook_at_def)

lemma hook_at_append: "hook_at (xs @ ys) x = (case hook_at xs x of None \<Rightarrow> hook_at ys x | Some k \<Rightarrow> Some k)"
  by (induction xs) simp_all

lemma hook_at_None: "hook_at hs x = None \<longleftrightarrow> (\<forall>h \<in> set hs. \<not> (hook_lo h \<le> uint x \<and> uint x < hook_hi h))"
  by (induction hs) auto

text \<open>Non-empty ranges that do not wrap around.\<close>

definition hook_range :: "u32 \<Rightarrow> u32 \<Rightarrow> bool" where
  "hook_range start n \<longleftrightarrow> uint start < uint start + uint n \<and> uint start + uint n < 4294967296"

lemma hook_range_less: "start < start + n \<longleftrightarrow> hook_range start n"
  using uint_u32_bounds [of start] uint_u32_bounds [of n]
  by (auto simp: hook_range_def word_less_def uint_add_u32)

lemma hook_range_sum: "hook_range start n \<Longrightarrow> uint (start + n) = uint start + uint n"
  by (simp add: hook_range_def uint_add_u32)

section \<open>Clearing\<close>

text \<open>What is left of one hook: the loop treats the hooks of a list one by one.\<close>

definition cut :: "u32 \<Rightarrow> u32 \<Rightarrow> hook \<Rightarrow> hook list" where
  "cut start n h =
    (let left = h\<lparr>range_bytes := start - range_start h\<rparr>;
         right = h\<lparr>range_start := start + n, range_bytes := range_end h - (start + n)\<rparr>
     in if \<not> Overlaps h start n then [h]
        else (if range_start h < start then [left] else []) @ (if start + n < range_end h then [right] else []))"

lemma clear_hooks_cut: "clear_hooks start n hs = concat (map (cut start n) hs)"
proof (induction start n hs rule: clear_hooks.induct)
  case (2 start n h hs)
  let ?right = "\<lparr>range_start = start + n, range_bytes = range_end h - (start + n), hook_handler = hook_handler h\<rparr>"
  have right: "h\<lparr>range_start := start + n, range_bytes := range_end h - (start + n)\<rparr> = ?right" by (cases h) simp
  have diff: "range_start h + (start + n - range_start h) = start + n"
    "range_bytes h - (start + n - range_start h) = range_end h - (start + n)" by simp_all
  have kept: "cut start n (h\<lparr>range_bytes := start - range_start h\<rparr>) = [h\<lparr>range_bytes := start - range_start h\<rparr>]"
    "cut start n ?right = [?right]"
    by (simp_all add: cut_def Overlaps_def)
  show ?case
    using 2 kept by (simp add: cut_def [of start n h] Let_def diff right)
qed simp

lemma cut_range:
  assumes "hook_lo h < hook_hi h" "hook_hi h < 4294967296" "hook_range start n"
  shows "hooks_ok (cut start n h)" "h' \<in> set (cut start n h) \<Longrightarrow> hook_lo h \<le> hook_lo h' \<and> hook_hi h' \<le> hook_hi h"
    "hook_at (cut start n h) x =
      (if uint start \<le> uint x \<and> uint x < uint start + uint n then None else hook_at [h] x)"
proof -
  note arith = cut_def Let_def Overlaps_def word_le_def word_less_def uint_range_end [OF assms(2)] hook_range_sum [OF assms(3)] uint_sub_u32
  show "hooks_ok (cut start n h)" using assms by (auto simp: arith hook_range_def)
  show "h' \<in> set (cut start n h) \<Longrightarrow> hook_lo h \<le> hook_lo h' \<and> hook_hi h' \<le> hook_hi h"
    using assms by (auto simp: arith hook_range_def split: if_splits)
  show "hook_at (cut start n h) x = (if uint start \<le> uint x \<and> uint x < uint start + uint n then None else hook_at [h] x)"
    using assms by (auto simp: arith hook_range_def hook_at_append)
qed

lemma clear_hooks_spec:
  assumes "hooks_ok hs" "hook_range start n"
  shows "hooks_ok (clear_hooks start n hs)"
    "hook_at (clear_hooks start n hs) x = (if uint start \<le> uint x \<and> uint x < uint start + uint n then None else hook_at hs x)"
proof -
  have "hooks_ok (clear_hooks start n hs) \<and> (\<forall>h' \<in> set (clear_hooks start n hs). \<exists>h \<in> set hs. hook_lo h \<le> hook_lo h')"
    using assms(1)
  proof (induction hs)
    case (Cons h hs)
    then have h: "hook_lo h < hook_hi h" "hook_hi h < 4294967296" by simp_all
    note cut = cut_range [OF h assms(2)]
    have IH: "hooks_ok (clear_hooks start n hs)" "\<forall>h' \<in> set (clear_hooks start n hs). \<exists>h \<in> set hs. hook_lo h \<le> hook_lo h'"
      using Cons by simp_all
    have split: "clear_hooks start n (h # hs) = cut start n h @ clear_hooks start n hs" by (simp add: clear_hooks_cut)
    have "hook_hi p \<le> hook_lo q" if "p \<in> set (cut start n h)" "q \<in> set (clear_hooks start n hs)" for p q
      using cut(2) [OF that(1)] IH(2) that(2) Cons.prems by fastforce
    then show ?case using cut(1,2) IH unfolding split hooks_ok_append by (auto dest: cut(2))
  qed (simp add: clear_hooks_cut)
  then show "hooks_ok (clear_hooks start n hs)" ..
  show "hook_at (clear_hooks start n hs) x = (if uint start \<le> uint x \<and> uint x < uint start + uint n then None else hook_at hs x)"
    using assms(1)
  proof (induction hs)
    case (Cons h hs)
    then have h: "hook_lo h < hook_hi h" "hook_hi h < 4294967296" by simp_all
    have split: "clear_hooks start n (h # hs) = cut start n h @ clear_hooks start n hs" by (simp add: clear_hooks_cut)
    show ?case using Cons unfolding split hook_at_append cut_range(3) [OF h assms(2)] by simp
  qed (simp add: clear_hooks_cut)
qed

section \<open>Setting\<close>

text \<open>The four ways a list changes.\<close>

lemma insert_hook_cases:
  assumes ok: "hooks_ok hs" and range: "hook_range start n" and ins: "insert_hook start n nw hs = Inr hs'"
  obtains (new) pre post where "hs = pre @ post" "hs' = pre @ nw # post"
      "\<forall>h \<in> set pre. hook_hi h \<le> uint start" "\<forall>h \<in> set post. uint start + uint n \<le> hook_lo h"
    | (before) pre h post where "hs = pre @ h # post" "hs' = pre @ h\<lparr>range_bytes := range_bytes h + n\<rparr> # post"
      "hook_hi h = uint start" "\<forall>h \<in> set post. uint start + uint n \<le> hook_lo h"
    | (both) pre h h2 post where "hs = pre @ h # h2 # post"
      "hs' = pre @ h\<lparr>range_bytes := range_bytes h + n + range_bytes h2\<rparr> # post"
      "hook_hi h = uint start" "hook_lo h2 = uint start + uint n"
    | (after) pre h post where "hs = pre @ h # post"
      "hs' = pre @ h\<lparr>range_start := range_start h - n, range_bytes := range_bytes h + n\<rparr> # post"
      "\<forall>h \<in> set pre. hook_hi h \<le> uint start" "hook_lo h = uint start + uint n"
proof -
  obtain pre post where hs: "hs = pre @ post" and tw: "takeWhile (\<lambda>h. range_start h < start) hs = pre"
    and dw: "dropWhile (\<lambda>h. range_start h < start) hs = post"
    by (metis takeWhile_dropWhile_id)
  have ok': "hooks_ok pre" "hooks_ok post" using ok by (simp_all add: hs hooks_ok_append)
  note ins = ins [unfolded insert_hook_def tw dw Let_def]
  have no: "\<not> (pre \<noteq> [] \<and> start < range_end (last pre))" "\<not> (post \<noteq> [] \<and> range_start (hd post) < start + n)"
    using ins by (auto split: if_splits)
  have post: "\<forall>h \<in> set post. uint start + uint n \<le> hook_lo h"
  proof (cases post)
    case (Cons h post')
    then have "uint start + uint n \<le> hook_lo h" using no(2) range by (simp add: word_less_def hook_range_sum)
    then show ?thesis using ok'(2) unfolding Cons by fastforce
  qed simp
  have pre: "\<forall>h \<in> set pre. hook_hi h \<le> uint start"
  proof (cases pre rule: rev_cases)
    case (snoc pre' h)
    then have "hook_hi h \<le> uint start" using no(1) ok'(1) by (simp add: hooks_ok_append word_less_def uint_range_end)
    then show ?thesis using ok'(1) unfolding snoc hooks_ok_append by fastforce
  qed simp
  show thesis
  proof (cases "pre \<noteq> [] \<and> range_end (last pre) = start")
    case bef: True
    then obtain pre' h where p: "pre = pre' @ [h]" by (metis rev_exhaust)
    then have h: "hook_hi h = uint start" using bef ok'(1) uint_range_end [of h] by (simp add: hooks_ok_append)
    have bef': "range_end h = start" using bef p by simp
    show thesis
    proof (cases "post \<noteq> [] \<and> range_start (hd post) = start + n")
      case aft: True
      then obtain h2 post' where q: "post = h2 # post'" by (cases post) auto
      have "hook_lo h2 = uint start + uint n" using aft q range by (simp add: hook_range_sum)
      moreover have "hs' = pre' @ h\<lparr>range_bytes := range_bytes h + n + range_bytes h2\<rparr> # post'"
        using ins no aft bef' by (simp add: p q)
      ultimately show thesis using h by (intro both) (simp_all add: hs p q)
    next
      case False
      then have "hs' = pre' @ h\<lparr>range_bytes := range_bytes h + n\<rparr> # post" using ins no bef' by (auto simp: p)
      then show thesis using h post by (intro before) (simp_all add: hs p)
    qed
  next
    case not_before: False
    show thesis
    proof (cases "post \<noteq> [] \<and> range_start (hd post) = start + n")
      case aft: True
      then obtain h post' where q: "post = h # post'" by (cases post) auto
      have "hook_lo h = uint start + uint n" using aft q range by (simp add: hook_range_sum)
      moreover have "hs' = pre @ h\<lparr>range_start := range_start h - n, range_bytes := range_bytes h + n\<rparr> # post'"
        using ins no aft not_before by (auto simp: q)
      ultimately show thesis using pre by (intro after) (simp_all add: hs q)
    next
      case False
      then have "hs' = pre @ nw # post" using ins no not_before by auto
      then show thesis using pre post by (intro new) (simp_all add: hs)
    qed
  qed
qed

text \<open>
  A range is set exactly when it meets no hook; then the bytes of the range, up to the end of its part on the page,
  are hooked in addition, and the list stays well-formed.
\<close>

lemma insert_hook_spec:
  assumes ok: "hooks_ok hs" and range: "hook_range start n" and ins: "insert_hook start n nw hs = Inr hs'"
    and nw: "range_start nw = start" "uint start < hook_hi nw" "hook_hi nw \<le> uint start + uint n" and x: "hook_hi nw = uint start + uint n \<or> uint x < hook_hi nw"
  shows "hooks_ok hs'" "hook_at hs' x = None \<longleftrightarrow> hook_at hs x = None \<and> \<not> (uint start \<le> uint x \<and> uint x < uint start + uint n)"
    "uint start \<le> uint x \<and> uint x < uint start + uint n \<Longrightarrow> hook_at hs x = None"
proof -
  note [simp] = hooks_ok_append hook_at_None ball_Un
  have "hooks_ok hs' \<and> (hook_at hs' x = None \<longleftrightarrow> hook_at hs x = None \<and> \<not> (uint start \<le> uint x \<and> uint x < uint start + uint n))
    \<and> (uint start \<le> uint x \<and> uint x < uint start + uint n \<longrightarrow> hook_at hs x = None)"
    using ok range ins
  proof (cases rule: insert_hook_cases)
    case (new pre post)
    then show ?thesis using ok range nw x by (force simp: hook_range_def)
  next
    case (before pre h post)
    have "uint (range_bytes h + n) = uint (range_bytes h) + uint n"
      using before(3) range uint_u32_bounds [of "range_start h"] by (simp add: uint_add_u32 hook_range_def)
    with before ok range show ?thesis by (force simp: hook_range_def)
  next
    case (both pre h h2 post)
    have "uint (range_bytes h + n) = uint (range_bytes h) + uint n"
      using both(3) range uint_u32_bounds [of "range_start h"] by (simp add: uint_add_u32 hook_range_def)
    moreover have "hook_hi h2 < 4294967296" using ok both(1) by simp
    ultimately have "uint (range_bytes h + n + range_bytes h2) = uint (range_bytes h) + uint n + uint (range_bytes h2)"
      using both(3,4) uint_u32_bounds [of "range_start h"] by (simp add: uint_add_u32)
    with both ok range show ?thesis by (force simp: hook_range_def)
  next
    case (after pre h post)
    have "hook_hi h < 4294967296" using ok after(1) by simp
    then have "uint (range_bytes h + n) = uint (range_bytes h) + uint n" "uint (range_start h - n) = uint start"
      using after(4) uint_u32_bounds [of start] by (simp_all add: uint_add_u32 uint_sub_u32)
    with after ok range show ?thesis by (force simp: hook_range_def)
  qed
  then show "hooks_ok hs'" "hook_at hs' x = None \<longleftrightarrow> hook_at hs x = None \<and> \<not> (uint start \<le> uint x \<and> uint x < uint start + uint n)"
    "uint start \<le> uint x \<and> uint x < uint start + uint n \<Longrightarrow> hook_at hs x = None" by simp_all
qed

section \<open>Pages of a bus\<close>

lemma page_below: "page < unat (bus_size b) div 4096 \<Longrightarrow> 4096 * int page + 4096 \<le> uint (bus_size b)"
proof -
  assume "page < unat (bus_size b) div 4096"
  then have "4096 * page + 4096 \<le> unat (bus_size b)" by (simp add: less_eq_div_iff_mult_less_eq Suc_le_eq [symmetric])
  then have "int (4096 * page + 4096) \<le> int (unat (bus_size b))" by (simp only: of_nat_le_iff)
  then show ?thesis by simp
qed

lemma uint_page_address:
  assumes "page < unat (bus_size b) div 4096"
  shows "uint (push_bit 12 (of_nat page) :: u32) = 4096 * int page" "uint (page_address b page) = uint (bus_start b) + 4096 * int page"
proof -
  have "4096 * int page < uint (bus_size b)" using page_below [OF assms] by simp
  then have bound: "uint (bus_start b) + 4096 * int page < 4294967296" using bus_top [of b] by linarith
  have "(push_bit 12 (of_nat page) :: u32) = word_of_int (4096 * int page)" by (simp add: push_bit_eq_mult)
  then show p: "uint (push_bit 12 (of_nat page) :: u32) = 4096 * int page"
    using bound uint_u32_bounds [of "bus_start b"] by (simp only:) (intro word_of_int_inverse [OF refl]; simp)
  then show "uint (page_address b page) = uint (bus_start b) + 4096 * int page"
    using bound by (simp add: page_address_def uint_add_u32)
qed

lemma page_address_props:
  assumes page: "page < unat (bus_size b) div 4096"
  shows "4096 dvd uint (page_address b page)" "find_bus (page_address b page) = Some b"
    "4096 dvd uint p \<Longrightarrow> find_bus p = Some b \<Longrightarrow> bus_page b p = page \<Longrightarrow> p = page_address b page"
    "bus_page b (page_address b page) = page"
proof -
  note addr = uint_page_address(2) [OF page]
  show dvd: "4096 dvd uint (page_address b page)" using bus_aligned(1) [of b] by (simp add: addr)
  have "4096 * int page < uint (bus_size b)" using page_below [OF page] by simp
  then show "find_bus (page_address b page) = Some b"
    using bus_top [of b] uint_u32_bounds [of "bus_start b"]
    by (simp add: find_bus_eq_Some IsInside_def bus_end_def word_le_def word_less_def uint_add_u32 addr)
  show "bus_page b (page_address b page) = page"
  proof -
    have "uint (page_address b page - bus_start b) = 4096 * int page" by (simp add: uint_sub_u32 addr)
    then have "int (bus_page b (page_address b page)) = int page" by (simp only: uint_page(2))
    then show ?thesis by (simp only: of_nat_eq_iff)
  qed
  assume p: "4096 dvd uint p" "find_bus p = Some b" "bus_page b p = page"
  have "uint (bus_start b) \<le> uint p" using p(2) by (simp add: find_bus_eq_Some IsInside_def word_le_def)
  then have "uint (p - bus_start b) = uint p - uint (bus_start b)" by (simp add: uint_sub_u32)
  moreover have "int page = uint (p - bus_start b) div 4096" using p(3) uint_page(2) by metis
  ultimately have "uint p = uint (bus_start b) + 4096 * int page"
    using p(1) bus_aligned(1) [of b] by (auto elim!: dvdE)
  then show "p = page_address b page" by (simp add: word_uint_eq_iff addr)
qed

lemma bus_start_above: "uint (bus_size b) \<le> uint (bus_start b)"
  by (cases b) simp_all

lemma new_bus_hook_range:
  assumes b: "find_bus start = Some b" and range: "hook_range start n"
    and page: "page \<in> set (hook_pages b start n)" "page < unat (bus_size b) div 4096"
  shows "range_start (new_bus_hook b page start n k) = start"
    "hook_hi (new_bus_hook b page start n k) = min (uint (page_address b page) + 4096) (uint start + uint n)"
    "uint start < hook_hi (new_bus_hook b page start n k)"
proof -
  note addr = uint_page_address [OF page(2)]
  have inside: "uint (bus_start b) \<le> uint start" using b by (simp add: find_bus_eq_Some IsInside_def word_le_def)
  have size: "4096 * int page + 4096 \<le> uint (bus_size b)" by (rule page_below [OF page(2)])
  then have "uint (push_bit 12 (of_nat page) :: u32) < uint start" using addr(1) bus_start_above [of b] inside by linarith
  then have hs: "max start (push_bit 12 (of_nat page)) = start" by (simp add: max_def word_le_def)
  then show start: "range_start (new_bus_hook b page start n k) = start" by (simp add: new_bus_hook_def)
  have "bus_start b + (of_nat page + 1) * 0x1000 = page_address b page + 0x1000"
    by (simp add: page_address_def push_bit_eq_mult algebra_simps)
  then have bytes: "range_bytes (new_bus_hook b page start n k) = min (page_address b page + 0x1000) (start + n) - start"
    by (simp only: new_bus_hook_def Let_def hs hook.select_convs)
  have last: "uint (page_address b page + 0x1000) = uint (page_address b page) + 4096"
    using size bus_top [of b] by (simp add: uint_add_u32 addr(2))
  have first: "uint start < uint (page_address b page) + 4096"
  proof -
    have "unat (drop_bit 12 (start - bus_start b)) \<le> page" using page(1) by (simp add: hook_pages_def)
    then have "uint (start - bus_start b) div 4096 \<le> int page" by (metis uint_page(2) of_nat_le_iff)
    then show ?thesis using inside by (simp add: uint_sub_u32 addr(2))
  qed
  have "uint (min (page_address b page + 0x1000) (start + n)) = min (uint (page_address b page) + 4096) (uint start + uint n)"
    by (simp only: min_def word_le_def last hook_range_sum [OF range] split: if_split) simp
  then show hi: "hook_hi (new_bus_hook b page start n k) = min (uint (page_address b page) + 4096) (uint start + uint n)"
    using first range by (simp add: start bytes uint_sub_u32 hook_range_def)
  show "uint start < hook_hi (new_bus_hook b page start n k)" unfolding hi using first range by (simp add: hook_range_def)
qed

section \<open>Hooks of a memory\<close>

definition mem_hooks_ok :: "'d physmem \<Rightarrow> bool" where
  "mem_hooks_ok m \<longleftrightarrow> (\<forall>b page. hooks_ok (read_hooks m b page) \<and> hooks_ok (write_hooks m b page))"

lemma hooks_ok_Get: "mem_hooks_ok m \<Longrightarrow> hooks_ok (GetHookList kind m b page)"
  by (simp add: mem_hooks_ok_def GetHookList_def)

lemma mem_hooks_ok_Put: "mem_hooks_ok m \<Longrightarrow> hooks_ok hs \<Longrightarrow> mem_hooks_ok (PutHookList kind b page hs m)"
  by (simp add: mem_hooks_ok_def PutHookList_def)

lemma mem_hooks_ok_subscribers [simp]: "mem_hooks_ok (m\<lparr>subscribers := s\<rparr>) = mem_hooks_ok m"
  by (simp add: mem_hooks_ok_def)

lemma SetHook_page_hooks_ok:
  assumes "find_bus start = Some b" "hook_range start n" "page \<in> set (hook_pages b start n)"
    and "mem_hooks_ok m" and set: "SetHook_page kind b start n k page m = Inr m'"
  shows "mem_hooks_ok m'"
proof -
  have page: "page < unat (bus_size b) div 4096" using set by (auto simp: SetHook_page_def split: if_splits)
  note new = new_bus_hook_range [OF assms(1-3) page, of k]
  from set page obtain hs where
    hs: "insert_hook start n (new_bus_hook b page start n k) (GetHookList kind m b page) = Inr hs"
    and m': "\<exists>subs. m' = (PutHookList kind b page hs m)\<lparr>subscribers := subs\<rparr>"
    unfolding SetHook_page_def Let_def
    by (auto simp: bindE_eq_Inr split: if_splits) (metis physmem.surjective physmem.update_convs(4))
  have "uint (0 :: u32) < hook_hi (new_bus_hook b page start n k)" using le_less_trans [OF uint_ge_0 new(3)] by simp
  moreover have "hook_hi (new_bus_hook b page start n k) \<le> uint start + uint n" by (simp only: new(2) min.cobounded2)
  ultimately have "hooks_ok hs"
    using insert_hook_spec(1) [OF hooks_ok_Get [OF assms(4)] assms(2) hs new(1,3)] by blast
  then show ?thesis using m' assms(4) by (auto intro: mem_hooks_ok_Put)
qed


lemma ClearHook_page_cases:
  assumes "ClearHook_page kind b start n page m = Inr m'"
  obtains m1 m2 where "page < unat (bus_size b) div 4096"
    "(if HasReadHook kind then clear_list Hook_Read b start n page m else Inr m) = Inr m1"
    "(if HasWriteHook kind then clear_list Hook_Write b start n page m1 else Inr m1) = Inr m2"
    "m' = (if HasAnyHooks m2 b page then m2
      else m2\<lparr>subscribers := map (OnBackedByHostMemory (GetMemoryBackedPageFor b (page_address b page)) (page_address b page)) (subscribers m2)\<rparr>)"
proof -
  have page: "\<not> unat (bus_size b) div 4096 \<le> page" using assms by (auto simp: ClearHook_page_def)
  obtain m1 where m1: "(if HasReadHook kind then clear_list Hook_Read b start n page m else Inr m) = Inr m1"
    using assms page unfolding ClearHook_page_def by (auto simp: bindE_eq_Inr)
  obtain m2 where m2: "(if HasWriteHook kind then clear_list Hook_Write b start n page m1 else Inr m1) = Inr m2"
    using assms page unfolding ClearHook_page_def m1 by (auto simp: bindE_eq_Inr)
  show thesis
  proof (rule that)
    show "page < unat (bus_size b) div 4096" using page by simp
    show "m' = (if HasAnyHooks m2 b page then m2
      else m2\<lparr>subscribers := map (OnBackedByHostMemory (GetMemoryBackedPageFor b (page_address b page)) (page_address b page)) (subscribers m2)\<rparr>)"
      using assms page unfolding ClearHook_page_def m1 by (simp add: m2)
  qed (rule m1 m2)+
qed

lemma clear_list_hooks_ok: "clear_list kind b start n page m = Inr m' \<Longrightarrow> hook_range start n \<Longrightarrow> mem_hooks_ok m \<Longrightarrow> mem_hooks_ok m'"
  by (auto simp: clear_list_def split: if_splits intro!: mem_hooks_ok_Put clear_hooks_spec(1) hooks_ok_Get)

lemma ClearHook_page_hooks_ok:
  "ClearHook_page kind b start n page m = Inr m' \<Longrightarrow> hook_range start n \<Longrightarrow> mem_hooks_ok m \<Longrightarrow> mem_hooks_ok m'"
  by (erule ClearHook_page_cases) (auto dest!: clear_list_hooks_ok split: if_splits)

lemma SetHook_cases:
  assumes "SetHook kind start n k m = Inr m'"
  obtains "m' = m" | b where "hook_range start n" "find_bus start = Some b"
    "foldE (SetHook_page kind b start n k) (hook_pages b start n) m = Inr m'"
  using assms by (auto simp: SetHook_def hook_range_less split: if_splits option.splits)

lemma SetHook_hooks_ok: "SetHook kind start n k m = Inr m' \<Longrightarrow> mem_hooks_ok m \<Longrightarrow> mem_hooks_ok m'"
  by (erule SetHook_cases) (auto elim!: foldE_invariant intro: SetHook_page_hooks_ok)

lemma ClearHook_hooks_ok: "ClearHook kind start n m = Inr m' \<Longrightarrow> hook_range start n \<Longrightarrow> mem_hooks_ok m \<Longrightarrow> mem_hooks_ok m'"
  by (auto simp: ClearHook_def split: option.splits elim!: foldE_invariant intro: ClearHook_page_hooks_ok)

section \<open>Hooked pages have no host backing\<close>

definition pt_complete :: "page_table \<Rightarrow> bool" where
  "pt_complete pt \<longleftrightarrow> (\<forall>i. physical_addresses pt i \<noteq> unmapped \<longrightarrow>
    (\<exists>v \<in> set (virtual_addresses_for pt (page_index (physical_addresses pt i))). page_index v = i))"

definition page_hooked :: "'d physmem \<Rightarrow> u32 \<Rightarrow> bool" where
  "page_hooked m p \<longleftrightarrow> (\<exists>b. find_bus p = Some b \<and> HasAnyHooks m b (bus_page b p))"

definition pt_backing_ok :: "'d physmem \<Rightarrow> page_table \<Rightarrow> bool" where
  "pt_backing_ok m pt \<longleftrightarrow> pt_inv pt \<and> pt_complete pt \<and>
    (\<forall>i. host_memory pt i \<noteq> None \<longrightarrow> \<not> page_hooked m (physical_addresses pt i))"

definition backing_ok :: "'d physmem \<Rightarrow> bool" where
  "backing_ok m \<longleftrightarrow> (\<forall>pt \<in> set (subscribers m). pt_backing_ok m pt)"

lemma mapE_eq_Inr: "mapE f xs = Inr ys \<Longrightarrow> \<forall>y \<in> set ys. \<exists>x \<in> set xs. f x = Inr y"
proof -
  have "\<forall>y \<in> set ys. y \<in> set zs \<or> (\<exists>x \<in> set xs. f x = Inr y)"
    if "foldE (\<lambda>x ys. bindE (f x) (\<lambda>y. Inr (ys @ [y]))) xs zs = Inr ys" for zs
    using that by (induction xs arbitrary: zs) (auto simp: bindE_eq_Inr, fastforce)
  then show "mapE f xs = Inr ys \<Longrightarrow> \<forall>y \<in> set ys. \<exists>x \<in> set xs. f x = Inr y" by (force simp: mapE_def)
qed

text \<open>A page of a bus is hooked or not regardless of what happens to the hooks of other pages.\<close>

definition same_hooks :: "bus \<Rightarrow> nat \<Rightarrow> 'd physmem \<Rightarrow> 'd physmem \<Rightarrow> bool" where
  "same_hooks b page m m' \<longleftrightarrow> (\<forall>b' page'. (b', page') \<noteq> (b, page) \<longrightarrow> HasAnyHooks m' b' page' = HasAnyHooks m b' page')"

lemma page_hooked_same:
  assumes "same_hooks b page m m'" "page < unat (bus_size b) div 4096" "4096 dvd uint p" "p \<noteq> page_address b page"
  shows "page_hooked m' p = page_hooked m p"
proof (cases "find_bus p")
  case (Some b')
  then have "(b', bus_page b' p) \<noteq> (b, page)" using assms(4) page_address_props(3) [OF assms(2,3)] by auto
  then have "HasAnyHooks m' b' (bus_page b' p) = HasAnyHooks m b' (bus_page b' p)"
    using assms(1) unfolding same_hooks_def by blast
  with Some show ?thesis by (simp add: page_hooked_def)
qed (simp add: page_hooked_def)

lemma page_hooked_at:
  assumes "page < unat (bus_size b) div 4096"
  shows "page_hooked m (page_address b page) = HasAnyHooks m b page"
  using page_address_props(2,4) [OF assms] by (simp add: page_hooked_def)

text \<open>The host page of a virtual page goes when the page that is hooked is unbacked.\<close>

lemma pt_backing_Unbacked:
  assumes ok: "pt_backing_ok m pt" and same: "same_hooks b page m m'" and page: "page < unat (bus_size b) div 4096"
    and un: "OnUnbackedByHostMemory (page_address b page) pt = Inr pt'"
  shows "pt_backing_ok m' pt'"
proof -
  note f = OnUnbacked_fields [OF un]
  have inv: "pt_inv pt'" using ok un pt_inv_OnUnbacked by (auto simp: pt_backing_ok_def)
  have complete: "pt_complete pt" using ok by (simp add: pt_backing_ok_def)
  have "\<not> page_hooked m' (physical_addresses pt i)" if host: "host_memory pt' i \<noteq> None" for i
  proof -
    have old: "host_memory pt i \<noteq> None" and not: "\<not> (\<exists>v \<in> set (virtual_addresses_for pt (page_index (page_address b page))). page_index v = i)"
      using host by (auto simp: f(3) split: if_splits)
    have mapped: "physical_addresses pt i \<noteq> unmapped" "4096 dvd uint (physical_addresses pt i)"
      using ok old by (auto simp: pt_backing_ok_def pt_inv_def)
    then have "physical_addresses pt i \<noteq> page_address b page" using complete not unfolding pt_complete_def by metis
    then show ?thesis using page_hooked_same [OF same page mapped(2)] ok old by (auto simp: pt_backing_ok_def)
  qed
  then show ?thesis using inv complete by (simp add: pt_backing_ok_def pt_complete_def f(1,2))
qed

lemma pt_backing_kept:
  assumes ok: "pt_backing_ok m pt" and same: "same_hooks b page m m'" and page: "page < unat (bus_size b) div 4096"
    and "HasAnyHooks m' b page \<Longrightarrow> HasAnyHooks m b page"
  shows "pt_backing_ok m' pt"
proof -
  have "page_hooked m' p \<Longrightarrow> page_hooked m p" if "4096 dvd uint p" for p
    using page_hooked_same [OF same page that] page_hooked_at [OF page] assms(4) by metis
  then show ?thesis using ok by (fastforce simp: pt_backing_ok_def pt_inv_def)
qed

lemma pt_backing_Backed:
  assumes ok: "pt_backing_ok m pt" and page: "page < unat (bus_size b) div 4096"
    and "IsMemoryBus b" and "\<not> HasAnyHooks m b page"
  shows "pt_backing_ok m (OnBackedByHostMemory (GetMemoryBackedPageFor b (page_address b page)) (page_address b page) pt)"
proof -
  let ?a = "page_address b page"
  note a = page_address_props [OF page]
  have inv: "pt_inv pt" using ok by (simp add: pt_backing_ok_def)
  have look: "LookupMemoryBackedPage ?a = GetMemoryBackedPageFor b ?a" using a(2) assms(3) by (simp add: LookupMemoryBackedPage_def)
  have "pt_inv (OnBackedByHostMemory (GetMemoryBackedPageFor b ?a) ?a pt)"
    using pt_inv_OnBacked [OF inv a(1)] look by (simp add: GetMemoryBackedPageFor_def)
  moreover have "\<not> page_hooked m (physical_addresses pt (page_index v))" if "v \<in> set (virtual_addresses_for pt (page_index ?a))" for v
  proof -
    have "physical_addresses pt (page_index v) \<noteq> unmapped" "page_index (physical_addresses pt (page_index v)) = page_index ?a"
      using inv that by (simp_all add: pt_inv_def)
    moreover from this have "4096 dvd uint (physical_addresses pt (page_index v))" using inv unfolding pt_inv_def by blast
    ultimately have "physical_addresses pt (page_index v) = ?a" using a(1) by (intro same_page)
    then show ?thesis using assms(4) by (simp add: page_hooked_at [OF page])
  qed
  ultimately show ?thesis
    using ok by (auto simp: pt_backing_ok_def pt_complete_def OnBacked_fields split: if_splits)
qed

lemma same_hooks_Put: "same_hooks b page m (PutHookList kind b page hs m)"
  by (auto simp: same_hooks_def HasAnyHooks_def PutHookList_def)

lemma same_hooks_trans: "same_hooks b page m m1 \<Longrightarrow> same_hooks b page m1 m2 \<Longrightarrow> same_hooks b page m m2"
  by (simp add: same_hooks_def)

lemma PutHookList_subscribers [simp]: "subscribers (PutHookList kind b page hs m) = subscribers m"
  by (simp add: PutHookList_def)

lemma pt_backing_subscribers [simp]: "pt_backing_ok (m\<lparr>subscribers := s\<rparr>) = pt_backing_ok m"
  by (intro ext) (simp add: pt_backing_ok_def page_hooked_def HasAnyHooks_def)

lemma SetHook_page_backing:
  assumes ok: "backing_ok m" and set: "SetHook_page kind b start n k page m = Inr m'"
  shows "backing_ok m'"
proof -
  have page: "page < unat (bus_size b) div 4096" using set by (auto simp: SetHook_page_def split: if_splits)
  from set page obtain hs where
    m': "(if HasAnyHooks m b page then Inr (PutHookList kind b page hs m)
      else bindE (mapE (OnUnbackedByHostMemory (page_address b page)) (subscribers m)) (\<lambda>subs.
             Inr ((PutHookList kind b page hs m)\<lparr>subscribers := subs\<rparr>))) = Inr m'"
    unfolding SetHook_page_def Let_def by (auto simp: bindE_eq_Inr cong: if_cong)
  let ?m = "PutHookList kind b page hs m"
  show ?thesis
  proof (cases "HasAnyHooks m b page")
    case True
    with m' have "m' = ?m" by simp
    with ok show ?thesis
      by (auto simp: backing_ok_def intro: pt_backing_kept [OF _ same_hooks_Put page True])
  next
    case False
    with m' obtain subs where subs: "mapE (OnUnbackedByHostMemory (page_address b page)) (subscribers m) = Inr subs"
      and eq: "m' = ?m\<lparr>subscribers := subs\<rparr>" by (auto simp: bindE_eq_Inr)
    have "pt_backing_ok ?m pt'" if "pt' \<in> set subs" for pt'
      using mapE_eq_Inr [OF subs] that ok pt_backing_Unbacked [OF _ same_hooks_Put page] by (fastforce simp: backing_ok_def)
    then show ?thesis by (simp add: backing_ok_def eq)
  qed
qed

lemma clear_list_backing:
  assumes "clear_list kind b start n page m = Inr m1" "page < unat (bus_size b) div 4096" "backing_ok m"
  shows "backing_ok m1"
proof -
  obtain hs where m1: "m1 = PutHookList kind b page hs m" and "GetHookList kind m b page \<noteq> []"
    using assms(1) by (auto simp: clear_list_def split: if_splits)
  then have any: "HasAnyHooks m b page" by (auto simp: HasAnyHooks_def GetHookList_def split: if_splits)
  show ?thesis using assms(3) by (auto simp: backing_ok_def m1 intro: pt_backing_kept [OF _ same_hooks_Put assms(2) any])
qed

lemma ClearHook_page_backing:
  assumes "backing_ok m" "IsMemoryBus b" and clear: "ClearHook_page kind b start n page m = Inr m'"
  shows "backing_ok m'"
  using clear
proof (rule ClearHook_page_cases)
  fix m1 m2
  assume page: "page < unat (bus_size b) div 4096"
    and steps: "(if HasReadHook kind then clear_list Hook_Read b start n page m else Inr m) = Inr m1"
      "(if HasWriteHook kind then clear_list Hook_Write b start n page m1 else Inr m1) = Inr m2"
    and m': "m' = (if HasAnyHooks m2 b page then m2
      else m2\<lparr>subscribers := map (OnBackedByHostMemory (GetMemoryBackedPageFor b (page_address b page)) (page_address b page)) (subscribers m2)\<rparr>)"
  have "backing_ok m2" using steps assms(1) by (auto split: if_splits intro: clear_list_backing [OF _ page])
  then show ?thesis by (auto simp: m' backing_ok_def intro: pt_backing_Backed [OF _ page assms(2)])
qed

lemma pt_complete_Insert:
  assumes "pt_complete pt" "valid_range v n" "PageTable_Insert v p n pt = Inr pt'"
    and free: "\<forall>i \<in> range_pages v n. physical_addresses pt i = unmapped"
  shows "pt_complete pt'"
  unfolding pt_complete_def
proof (intro allI impI)
  fix i assume mapped: "physical_addresses pt' i \<noteq> unmapped"
  note spec = PageTable_Insert_spec [OF assms(2), of p pt, unfolded assms(3)]
  have phys: "physical_addresses pt' i = (if i \<in> range_pages v n then p + of_nat (i - page_index v) * 0x1000 else physical_addresses pt i)"
    using spec by simp
  have virt: "set (virtual_addresses_for pt' pp) = set (virtual_addresses_for pt pp) \<union>
      {push_bit 12 (of_nat (page_index v + k)) |k. k < unat n div 4096 \<and> page_index (p + of_nat k * 0x1000) = pp}" for pp
    using spec by auto
  show "\<exists>w \<in> set (virtual_addresses_for pt' (page_index (physical_addresses pt' i))). page_index w = i"
  proof (cases "i \<in> range_pages v n")
    case True
    then have i: "i = page_index v + (i - page_index v)" "i - page_index v < unat n div 4096" by (auto simp: range_pages_def)
    then have "page_index (push_bit 12 (of_nat i)) = i" using page_range_arith(4) [OF assms(2)] by (intro page_index_page) linarith
    moreover have "push_bit 12 (of_nat i) \<in> set (virtual_addresses_for pt' (page_index (physical_addresses pt' i)))"
      unfolding virt using i True phys by (intro UnI2 CollectI exI [of _ "i - page_index v"]) simp
    ultimately show ?thesis by blast
  next
    case False
    then show ?thesis using assms(1) mapped phys unfolding pt_complete_def virt by auto
  qed
qed

lemma pt_backing_Insert:
  assumes ok: "pt_backing_ok m pt" and v: "valid_range v n" and p: "valid_range p n"
    and free: "\<forall>i \<in> range_pages v n. physical_addresses pt i = unmapped"
    and unhooked: "\<forall>k < unat n div 4096. \<not> page_hooked m (p + of_nat k * 0x1000)"
    and ins: "PageTable_Insert v p n pt = Inr pt'"
  shows "pt_backing_ok m pt'"
proof -
  have inv: "pt_inv pt" "pt_complete pt" using ok by (simp_all add: pt_backing_ok_def)
  note spec = PageTable_Insert_spec [OF v, of p pt, unfolded ins]
  have phys: "physical_addresses pt' i = (if i \<in> range_pages v n then p + of_nat (i - page_index v) * 0x1000 else physical_addresses pt i)" for i
    using spec by simp
  have host: "i \<notin> range_pages v n \<Longrightarrow> host_memory pt' i = host_memory pt i" for i using spec by simp
  have "\<not> page_hooked m (physical_addresses pt' i)" if "host_memory pt' i \<noteq> None" for i
  proof (cases "i \<in> range_pages v n")
    case True
    then have "i - page_index v < unat n div 4096" by (auto simp: range_pages_def)
    then show ?thesis using unhooked True by (simp add: phys)
  next
    case False
    then show ?thesis using that ok by (simp add: phys host pt_backing_ok_def)
  qed
  then show ?thesis
    using pt_inv_Insert [OF inv(1) v p free ins] pt_complete_Insert [OF inv(2) v ins free] by (simp add: pt_backing_ok_def)
qed

text \<open>
  The states of memory with its processors: hooks are set and cleared on memory busses, unhooked memory is mapped
  at free addresses, and the contents of memory and devices change.
\<close>

inductive hook_reachable :: "'d physmem \<Rightarrow> bool" where
  init: "(\<And>b page. \<not> HasAnyHooks m b page) \<Longrightarrow> set (subscribers m) \<subseteq> {PageTable_init} \<Longrightarrow> hook_reachable m"
| set: "hook_reachable m \<Longrightarrow> SetHook kind start n k m = Inr m' \<Longrightarrow> hook_reachable m'"
| clear: "hook_reachable m \<Longrightarrow> hook_range start n \<Longrightarrow> (\<And>b. find_bus start = Some b \<Longrightarrow> IsMemoryBus b) \<Longrightarrow>
    ClearHook kind start n m = Inr m' \<Longrightarrow> hook_reachable m'"
| map: "hook_reachable m \<Longrightarrow> j < length (subscribers m) \<Longrightarrow> valid_range v n \<Longrightarrow> valid_range p n \<Longrightarrow>
    \<forall>i \<in> range_pages v n. physical_addresses (subscribers m ! j) i = unmapped \<Longrightarrow>
    \<forall>k < unat n div 4096. \<not> page_hooked m (p + of_nat k * 0x1000) \<Longrightarrow>
    PageTable_Insert v p n (subscribers m ! j) = Inr pt \<Longrightarrow> hook_reachable (m\<lparr>subscribers := (subscribers m)[j := pt]\<rparr>)"
| data: "hook_reachable m \<Longrightarrow> hook_reachable (m\<lparr>bus_data := bytes, devices := d\<rparr>)"

lemma hook_reachable_ok: "hook_reachable m \<Longrightarrow> mem_hooks_ok m \<and> backing_ok m"
proof (induction rule: hook_reachable.induct)
  case (init m)
  have "pt_complete PageTable_init" by (simp add: pt_complete_def PageTable_init_def)
  with init show ?case
    by (auto simp: mem_hooks_ok_def HasAnyHooks_def backing_ok_def pt_backing_ok_def pt_inv_init page_hooked_def)
next
  case (set m kind start n k m')
  then have "backing_ok m'" by (elim SetHook_cases) (auto elim!: foldE_invariant intro: SetHook_page_backing)
  with set show ?case by (auto intro: SetHook_hooks_ok)
next
  case (clear m start n kind m')
  then have "backing_ok m'"
    by (auto simp: ClearHook_def split: option.splits elim!: foldE_invariant intro: ClearHook_page_backing)
  with clear show ?case by (auto intro: ClearHook_hooks_ok)
next
  case (map m j v n p pt)
  then have "pt_backing_ok m (subscribers m ! j)" by (simp add: backing_ok_def)
  then have "pt_backing_ok m pt" using map pt_backing_Insert by blast
  then show ?case using map.IH set_update_subset_insert [of "subscribers m" j pt] by (auto simp: backing_ok_def)
next
  case (data m bytes d)
  then show ?case
    by (simp add: mem_hooks_ok_def backing_ok_def pt_backing_ok_def page_hooked_def HasAnyHooks_def)
qed

text \<open>The promise of \<open>memory.h\<close> about hooks. However hooks are set and cleared, the hooks of a page are non-empty ranges
  in the order of their addresses, and no two of them overlap.\<close>
theorem hooks_ordered_disjoint:
  assumes "hook_reachable m" and "hs = read_hooks m b page \<or> hs = write_hooks m b page" and "i < j" and "j < length hs"
  shows "0 < uint (range_bytes (hs ! i))
    \<and> uint (range_start (hs ! i)) + uint (range_bytes (hs ! i)) \<le> uint (range_start (hs ! j))"
proof -
  have "hooks_ok hs" using hook_reachable_ok [OF assms(1)] assms(2) by (auto simp: mem_hooks_ok_def)
  then show ?thesis using assms(3,4) by (force simp: hooks_ok_def sorted_wrt_iff_nth_less)
qed

lemma unhooked_cached:
  assumes ok: "pt_backing_ok m pt" and host: "LookupHostMemory pt a \<noteq> None"
  shows "unhooked pt a m"
  unfolding unhooked_def
proof (intro allI impI, elim conjE)
  fix p b
  let ?pa = "physical_addresses pt (page_index a)"
  assume p: "TranslateVirtualAddress pt a = Inr p" "find_bus p = Some b"
  have pa: "?pa \<noteq> unmapped" "4096 dvd uint ?pa" "LookupMemoryBackedPage ?pa \<noteq> None" "\<not> page_hooked m ?pa"
    using ok host by (auto simp: pt_backing_ok_def pt_inv_def LookupHostMemory_def)
  then obtain c where c: "find_bus ?pa = Some c" by (auto simp: LookupMemoryBackedPage_def split: option.splits)
  have eq: "p = ?pa + (a AND 0xfff)" using p(1) pa(1) by (simp add: TranslateVirtualAddress_def)
  note on = page_on_bus [OF pa(2) c low_bits_less, of a, folded eq]
  have "b = c" using on(1) p(2) by simp
  moreover have "bus_page c p = bus_page c ?pa"
  proof -
    have "uint (p - bus_start c) = uint (?pa - bus_start c) + uint (a AND 0xfff)" using arg_cong [OF on(2), of int] by simp
    moreover have "4096 dvd uint (?pa - bus_start c)"
      using pa(2) bus_aligned(1) [of c] by (simp add: uint_sub_u32)
    ultimately have "int (bus_page c p) = int (bus_page c ?pa)"
      unfolding uint_page(2) using low_bits_less [of a] by (auto elim!: dvdE)
    then show ?thesis by (simp only: of_nat_eq_iff)
  qed
  ultimately show "read_hooks m b (bus_page b p) = [] \<and> write_hooks m b (bus_page b p) = []"
    using pa(4) c by (simp add: page_hooked_def HasAnyHooks_def)
qed

text \<open>C13: no access bypasses a hook. In every state that setting and clearing hooks and mapping unhooked memory lead
  to, an access by virtual address does what the bus access at its translation does, which runs the hooks of the page
  first: the cached host page is gone as long as the page has a hook.\<close>
theorem accesses_run_hooks:
  assumes "hook_reachable m" and "pt \<in> set (subscribers m)"
  shows "VM_Read h pt w a m = bindE (TranslateVirtualAddress pt a) (\<lambda>p. ReadLegacy h w p m)
    \<and> VM_Write h pt w a v m = bindE (TranslateVirtualAddress pt a) (\<lambda>p. WriteLegacy h w p v m)"
proof (cases "LookupHostMemory pt a")
  case (Some page)
  have ok: "pt_backing_ok m pt" using hook_reachable_ok [OF assms(1)] assms(2) by (simp add: backing_ok_def)
  then have inv: "pt_inv pt" by (simp add: pt_backing_ok_def)
  show ?thesis by (rule VM_access_translated [OF inv unhooked_cached [OF ok]]) (simp add: Some)
qed (simp add: VM_Read_def VM_Write_def)

section \<open>What is hooked\<close>

lemma GetHookList_Put:
  "kind = Hook_Write \<longleftrightarrow> kind' = Hook_Write \<Longrightarrow> GetHookList kind (PutHookList kind' b page hs m) b' page' =
    (if b' = b \<and> page' = page then hs else GetHookList kind m b' page')"
  by (auto simp: GetHookList_def PutHookList_def)

lemma GetHookList_subscribers [simp]: "GetHookList kind (m\<lparr>subscribers := s\<rparr>) = GetHookList kind m"
  by (simp add: GetHookList_def)

lemma SetHook_page_list:
  assumes "SetHook_page kind b start n k page m = Inr m'"
  shows "insert_hook start n (new_bus_hook b page start n k) (GetHookList kind m b page) = Inr (GetHookList kind m' b page)"
    "page' \<noteq> page \<Longrightarrow> GetHookList kind m' b page' = GetHookList kind m b page'"
  using assms by (auto simp: SetHook_page_def Let_def bindE_eq_Inr GetHookList_Put split: if_splits)

lemma SetHook_pages_list:
  assumes "foldE (SetHook_page kind b start n k) ps m = Inr m'" and "distinct ps"
  shows "page \<in> set ps \<Longrightarrow>
      insert_hook start n (new_bus_hook b page start n k) (GetHookList kind m b page) = Inr (GetHookList kind m' b page)"
    "page \<notin> set ps \<Longrightarrow> GetHookList kind m' b page = GetHookList kind m b page"
  using assms
proof (induction ps arbitrary: m)
  case (Cons p ps)
  {
    case 1
    then obtain m1 where m1: "SetHook_page kind b start n k p m = Inr m1" "foldE (SetHook_page kind b start n k) ps m1 = Inr m'"
      by (auto simp: bindE_eq_Inr)
    then show ?case using 1 Cons.IH [of m1] SetHook_page_list [OF m1(1)] by (cases "page = p") auto
  next
    case 2
    then obtain m1 where m1: "SetHook_page kind b start n k p m = Inr m1" "foldE (SetHook_page kind b start n k) ps m1 = Inr m'"
      by (auto simp: bindE_eq_Inr)
    then show ?case using 2 Cons.IH(2) [of m1] SetHook_page_list(2) [OF m1(1), of page] by auto
  }
qed simp_all

lemma clear_list_list:
  assumes "clear_list kind' b start n page m = Inr m'" "kind = Hook_Read \<or> kind = Hook_Write" "kind' = Hook_Read \<or> kind' = Hook_Write"
  shows "GetHookList kind m' b page' =
    (if kind = kind' \<and> page' = page then clear_hooks start n (GetHookList kind m b page') else GetHookList kind m b page')"
  using assms by (auto simp: clear_list_def GetHookList_def PutHookList_def split: if_splits)


definition clears :: "HookKind \<Rightarrow> HookKind \<Rightarrow> bool" where
  "clears kind k \<longleftrightarrow> (k = Hook_Read \<and> HasReadHook kind) \<or> (k = Hook_Write \<and> HasWriteHook kind)"

lemma ClearHook_page_list:
  assumes "ClearHook_page kind b start n page m = Inr m'" "k = Hook_Read \<or> k = Hook_Write"
  shows "GetHookList k m' b page' =
    (if clears kind k \<and> page' = page then clear_hooks start n (GetHookList k m b page') else GetHookList k m b page')"
proof -
  obtain m1 m2 where m1: "(if HasReadHook kind then clear_list Hook_Read b start n page m else Inr m) = Inr m1"
    and m2: "(if HasWriteHook kind then clear_list Hook_Write b start n page m1 else Inr m1) = Inr m2"
    and m': "m' = m2 \<or> (\<exists>s. m' = m2\<lparr>subscribers := s\<rparr>)"
    using assms(1) by (rule ClearHook_page_cases) (auto split: if_split_asm)
  have "GetHookList k m' b page' = GetHookList k m2 b page'" using m' by auto
  also have "\<dots> = (if HasWriteHook kind \<and> k = Hook_Write \<and> page' = page
      then clear_hooks start n (GetHookList k m1 b page') else GetHookList k m1 b page')"
    using m2 assms(2) clear_list_list [of Hook_Write b start n page m1 m2 k page'] by (auto split: if_splits)
  also have "GetHookList k m1 b page' = (if HasReadHook kind \<and> k = Hook_Read \<and> page' = page
      then clear_hooks start n (GetHookList k m b page') else GetHookList k m b page')"
    using m1 assms(2) clear_list_list [of Hook_Read b start n page m m1 k page'] by (auto split: if_splits)
  finally show ?thesis using assms(2) by (auto simp: clears_def)
qed

lemma ClearHook_pages_list:
  assumes "foldE (ClearHook_page kind b start n) ps m = Inr m'" and "distinct ps" and "k = Hook_Read \<or> k = Hook_Write"
  shows "GetHookList k m' b page =
    (if clears kind k \<and> page \<in> set ps then clear_hooks start n (GetHookList k m b page) else GetHookList k m b page)"
  using assms(1,2)
proof (induction ps arbitrary: m)
  case (Cons p ps)
  then obtain m1 where m1: "ClearHook_page kind b start n p m = Inr m1" "foldE (ClearHook_page kind b start n) ps m1 = Inr m'"
    by (auto simp: bindE_eq_Inr)
  then show ?case using Cons.prems(2) Cons.IH [OF m1(2)] ClearHook_page_list [OF m1(1) assms(3), of page] by auto
qed simp

lemma hook_pages_distinct: "distinct (hook_pages b start n)"
  by (simp add: hook_pages_def)

lemma SetHook_page_bound:
  "foldE (SetHook_page kind b start n k) ps m = Inr m' \<Longrightarrow> page \<in> set ps \<Longrightarrow> page < unat (bus_size b) div 4096"
  by (induction ps arbitrary: m) (auto simp: bindE_eq_Inr SetHook_page_def split: if_splits)

text \<open>C35: What setting a hook does. \<open>SetHook\<close> succeeds only when no hook of that kind meets the range; then exactly the
  bytes of the range are hooked in addition, in every page the range touches. \<open>ClearHook\<close> of a range then unhooks
  exactly its bytes and keeps the handlers of all others, so clearing what was set restores which bytes are hooked.\<close>
theorem set_and_clear_hooks:
  assumes m: "hook_reachable m" and set: "SetHook kind start n k m = Inr m1" and clear: "ClearHook kind start n m1 = Inr m2"
    and b: "find_bus start = Some b" and kind: "kind = Hook_Read \<or> kind = Hook_Write"
    and page: "page \<in> set (hook_pages b start n)" and x: "uint x < uint (page_address b page) + 4096"
  shows "(hook_at (GetHookList kind m1 b page) x = None \<longleftrightarrow>
      hook_at (GetHookList kind m b page) x = None \<and> \<not> (uint start \<le> uint x \<and> uint x < uint start + uint n))
    \<and> (uint start \<le> uint x \<and> uint x < uint start + uint n \<longrightarrow> hook_at (GetHookList kind m b page) x = None)
    \<and> hook_at (GetHookList kind m2 b page) x =
      (if uint start \<le> uint x \<and> uint x < uint start + uint n then None else hook_at (GetHookList kind m1 b page) x)
    \<and> (hook_at (GetHookList kind m2 b page) x = None \<longleftrightarrow> hook_at (GetHookList kind m b page) x = None)"
proof -
  have range: "hook_range start n" and fold: "foldE (SetHook_page kind b start n k) (hook_pages b start n) m = Inr m1"
    using set b by (auto simp: SetHook_def hook_range_less split: if_splits)
  have bound: "page < unat (bus_size b) div 4096" by (rule SetHook_page_bound [OF fold page])
  note new = new_bus_hook_range [OF b range page bound, of k]
  note ins = SetHook_pages_list(1) [OF fold hook_pages_distinct page]
  have ok: "hooks_ok (GetHookList kind m b page)" "hooks_ok (GetHookList kind m1 b page)"
    using hook_reachable_ok [OF m] SetHook_hooks_ok [OF set] by (simp_all add: hooks_ok_Get)
  have le: "hook_hi (new_bus_hook b page start n k) \<le> uint start + uint n" by (simp only: new(2) min.cobounded2)
  have x': "hook_hi (new_bus_hook b page start n k) = uint start + uint n \<or> uint x < hook_hi (new_bus_hook b page start n k)"
    using x by (simp only: new(2)) linarith
  note covered = insert_hook_spec(2,3) [OF ok(1) range ins new(1,3) le x']
  have 1: "hook_at (GetHookList kind m1 b page) x = None \<longleftrightarrow>
      hook_at (GetHookList kind m b page) x = None \<and> \<not> (uint start \<le> uint x \<and> uint x < uint start + uint n)"
    and 2: "uint start \<le> uint x \<and> uint x < uint start + uint n \<Longrightarrow> hook_at (GetHookList kind m b page) x = None"
    using covered by simp_all
  have "GetHookList kind m2 b page = clear_hooks start n (GetHookList kind m1 b page)"
    using ClearHook_pages_list [of kind b start n "hook_pages b start n" m1 m2 kind page] hook_pages_distinct clear b page kind
    by (auto simp: ClearHook_def clears_def HasReadHook_def HasWriteHook_def)
  then have 3: "hook_at (GetHookList kind m2 b page) x =
      (if uint start \<le> uint x \<and> uint x < uint start + uint n then None else hook_at (GetHookList kind m1 b page) x)"
    using clear_hooks_spec(2) [OF ok(2) range] by simp
  show ?thesis using 1 2 3 by auto
qed


section \<open>Examples\<close>

text \<open>A write hook of sixteen bytes at the start of FCRAM, on the memory of two processors that map nothing.\<close>

definition example_hook :: "u32 \<Rightarrow> nat \<Rightarrow> hook" where
  "example_hook a k = \<lparr>range_start = a, range_bytes = 0x10, hook_handler = k\<rparr>"

lemma fcram_hook_pages: "hook_pages FCRAM 0x20000000 0x10 = [0]" "hook_pages FCRAM 0x20000010 0x10 = [0]" "hook_pages FCRAM 0x20000020 0x10 = [0]"
  by code_simp+

lemma fcram_bus: "find_bus 0x20000000 = Some FCRAM" "find_bus 0x20000010 = Some FCRAM" "find_bus 0x20000020 = Some FCRAM"
  by code_simp+

lemma fcram_new_hook:
  "new_bus_hook FCRAM 0 0x20000000 0x10 k = example_hook 0x20000000 k"
  "new_bus_hook FCRAM 0 0x20000010 0x10 k = example_hook 0x20000010 k"
  "new_bus_hook FCRAM 0 0x20000020 0x10 k = example_hook 0x20000020 k"
  by (simp_all add: new_bus_hook_def Let_def example_hook_def)

lemma SetHook_empty:
  "SetHook Hook_Write 0x20000000 0x10 k example_mem =
    Inr (PutHookList Hook_Write FCRAM 0 [example_hook 0x20000000 k] example_mem)"
  by (simp add: SetHook_def fcram_bus fcram_hook_pages SetHook_page_def HasAnyHooks_def GetHookList_def example_mem_def insert_hook_def
    fcram_new_hook mapE_def PutHookList_def OnUnbackedByHostMemory_def PageTable_init_def)

lemma SetHook_again:
  "SetHook Hook_Write a 0x10 k (PutHookList Hook_Write FCRAM 0 [h] example_mem) = Inr m" if
  "find_bus a = Some FCRAM" "a < a + 0x10" "hook_pages FCRAM a 0x10 = [0]"
  "insert_hook a 0x10 (new_bus_hook FCRAM 0 a 0x10 k) [h] = Inr hs" "m = PutHookList Hook_Write FCRAM 0 hs example_mem"
  using that by (simp add: SetHook_def SetHook_page_def HasAnyHooks_def GetHookList_def PutHookList_def)

lemma example_mem_hook_reachable: "hook_reachable example_mem"
  by (rule hook_reachable.init) (simp_all add: example_mem_def HasAnyHooks_def)

lemma example_two_hooks:
  "SetHook Hook_Write 0x20000020 0x10 2 (PutHookList Hook_Write FCRAM 0 [example_hook 0x20000000 1] example_mem) =
    Inr (PutHookList Hook_Write FCRAM 0 [example_hook 0x20000000 1, example_hook 0x20000020 2] example_mem)"
  by (rule SetHook_again) (simp_all add: fcram_bus fcram_hook_pages fcram_new_hook insert_hook_def, simp_all add: example_hook_def)

theorem hooks_ordered_disjoint_witness:
  "uint (range_start (example_hook 0x20000000 1)) + uint (range_bytes (example_hook 0x20000000 1))
    \<le> uint (range_start (example_hook 0x20000020 2))"
proof -
  have r: "hook_reachable (PutHookList Hook_Write FCRAM 0 [example_hook 0x20000000 1, example_hook 0x20000020 2] example_mem)"
    using hook_reachable.set [OF hook_reachable.set [OF example_mem_hook_reachable SetHook_empty] example_two_hooks] .
  show ?thesis using hooks_ordered_disjoint [OF r, of "[example_hook 0x20000000 1, example_hook 0x20000020 2]" FCRAM 0 0 1]
    by (simp add: PutHookList_def)
qed

text \<open>Adjacent hooks are merged without looking at their handlers: after a hook with handler 1, a hook for the next
  sixteen bytes with handler 2 is swallowed, and writes there run handler 1.\<close>
theorem adjacent_hook_loses_handler:
  "\<exists>m1 m2. SetHook Hook_Write 0x20000000 0x10 1 example_mem = Inr m1 \<and> SetHook Hook_Write 0x20000010 0x10 2 m1 = Inr m2
    \<and> hook_at (write_hooks m2 FCRAM 0) 0x20000010 = Some 1 \<and> 2 \<notin> hook_handler ` set (write_hooks m2 FCRAM 0)"
proof -
  let ?hs = "[example_hook 0x20000000 1\<lparr>range_bytes := 0x20\<rparr>]"
  have "insert_hook 0x20000010 0x10 (new_bus_hook FCRAM 0 0x20000010 0x10 2) [example_hook 0x20000000 1] = Inr ?hs"
    by (simp add: insert_hook_def example_hook_def)
  then have "SetHook Hook_Write 0x20000010 0x10 2 (PutHookList Hook_Write FCRAM 0 [example_hook 0x20000000 1] example_mem) =
    Inr (PutHookList Hook_Write FCRAM 0 ?hs example_mem)"
    by (intro SetHook_again) (simp_all add: fcram_bus fcram_hook_pages)
  then show ?thesis by (simp add: SetHook_empty) (simp add: PutHookList_def example_hook_def)
qed

theorem set_and_clear_hooks_witness:
  "\<exists>m1 m2. SetHook Hook_Write 0x20000000 0x10 1 example_mem = Inr m1 \<and> ClearHook Hook_Write 0x20000000 0x10 m1 = Inr m2
    \<and> hook_at (write_hooks m1 FCRAM 0) 0x20000008 = Some 1 \<and> hook_at (write_hooks m2 FCRAM 0) 0x20000008 = None"
proof -
  let ?m = "PutHookList Hook_Write FCRAM 0 [example_hook 0x20000000 1] example_mem"
  obtain m2 where m2: "ClearHook Hook_Write 0x20000000 0x10 ?m = Inr m2"
    by (simp add: ClearHook_def fcram_bus fcram_hook_pages ClearHook_page_def HasReadHook_def HasWriteHook_def clear_list_def
      GetHookList_def) (simp add: PutHookList_def)
  have "(0 :: nat) \<in> set (hook_pages FCRAM 0x20000000 0x10)" by (simp add: fcram_hook_pages)
  from set_and_clear_hooks [OF example_mem_hook_reachable SetHook_empty m2 fcram_bus(1) _ this, of "0x20000008"] m2
  have "hook_at (write_hooks m2 FCRAM 0) 0x20000008 = None" by (simp add: GetHookList_def page_address_def)
  moreover have "hook_at (write_hooks ?m FCRAM 0) 0x20000008 = Some 1" by (simp add: PutHookList_def example_hook_def)
  ultimately show ?thesis using SetHook_empty m2 by blast
qed

text \<open>A hook on a page that is mapped: the write at \<open>0x00100004\<close> runs handler 1 first.\<close>

theorem accesses_run_hooks_witness:
  "\<exists>pt m. PageTable_Insert 0x00100000 0x20000000 0x2000 PageTable_init = Inr pt
    \<and> SetHook Hook_Write 0x20000000 0x10 1 (example_mem\<lparr>subscribers := [pt]\<rparr>) = Inr m
    \<and> (\<forall>h v. VM_Write h (subscribers m ! 0) W32 0x00100004 v m =
        bindE (hook_OnWrite h 1 0x20000004 4 v m) (data_write FCRAM 4 W32 v))"
proof -
  let ?m0 = "example_mem\<lparr>subscribers := [PageTable_init]\<rparr>"
  obtain pt where pt: "PageTable_Insert 0x00100000 0x20000000 0x2000 PageTable_init = Inr pt"
    and phys: "physical_addresses pt 256 = 0x20000000"
    and host: "host_memory pt 256 = (if LookupMemoryBackedPage 0x20000000 \<noteq> None
        then LookupMemoryBackedPage 0x20000000 else host_memory PageTable_init 256)"
    and virt: "virtual_addresses_for pt 0x20000 = virtual_addresses_for PageTable_init 0x20000
        @ map (\<lambda>k. push_bit 12 (of_nat (page_index 0x00100000 + k)))
            (filter (\<lambda>k. page_index (0x20000000 + of_nat k * 0x1000) = 0x20000) [0 ..< unat (0x2000 :: u32) div 4096])"
    using PageTable_Insert_spec [OF example_range(1), of "0x20000000" PageTable_init]
    by (auto simp: example_range(3))
  have "map (\<lambda>k. push_bit 12 (of_nat (page_index 0x00100000 + k)) :: u32)
      (filter (\<lambda>k. page_index (0x20000000 + of_nat k * 0x1000) = 0x20000) [0 ..< unat (0x2000 :: u32) div 4096]) = [0x00100000]"
    by (simp add: upt_rec)
  then have virt: "virtual_addresses_for pt 0x20000 = [0x00100000]" using virt by (simp add: PageTable_init_def)
  have backed: "host_memory pt 256 \<noteq> None"
  proof -
    have "LookupMemoryBackedPage 0x20000000 = Some (FCRAM, 0)" by code_simp
    with host show ?thesis by simp
  qed
  have m0: "hook_reachable ?m0" by (rule hook_reachable.init) (simp_all add: example_mem_def HasAnyHooks_def)
  have "hook_reachable (?m0\<lparr>subscribers := (subscribers ?m0)[0 := pt]\<rparr>)"
  proof (rule hook_reachable.map [OF m0 _ example_range(1,2)])
    show "\<forall>i \<in> range_pages 0x00100000 0x2000. physical_addresses (subscribers ?m0 ! 0) i = unmapped"
      by (simp add: PageTable_init_def)
    show "\<forall>k < unat (0x2000 :: u32) div 4096. \<not> page_hooked ?m0 (0x20000000 + of_nat k * 0x1000)"
      by (simp add: page_hooked_def HasAnyHooks_def example_mem_def)
  qed (simp_all add: pt)
  then have m1: "hook_reachable (example_mem\<lparr>subscribers := [pt]\<rparr>)" by simp
  let ?pt = "pt\<lparr>host_memory := (host_memory pt)(256 := None)\<rparr>"
  let ?m = "PutHookList Hook_Write FCRAM 0 [example_hook 0x20000000 1] (example_mem\<lparr>subscribers := [?pt]\<rparr>)"
  have "OnUnbackedByHostMemory (page_address FCRAM 0) pt = Inr ?pt"
    using backed by (simp add: OnUnbackedByHostMemory_def page_address_def virt)
  then have set: "SetHook Hook_Write 0x20000000 0x10 1 (example_mem\<lparr>subscribers := [pt]\<rparr>) = Inr ?m"
    by (simp add: SetHook_def fcram_bus fcram_hook_pages SetHook_page_def HasAnyHooks_def GetHookList_def example_mem_def insert_hook_def
      fcram_new_hook mapE_def PutHookList_def)
  have tr: "TranslateVirtualAddress ?pt 0x00100004 = Inr 0x20000004"
    by (simp add: TranslateVirtualAddress_def phys unmapped_def)
  have bus: "find_bus 0x20000004 = Some FCRAM" by code_simp
  have trunc: "trunc_width W32 v = v" for v by (simp add: trunc_width_def take_bit_word_eq_self)
  have "VM_Write h ?pt W32 0x00100004 v ?m = bindE (hook_OnWrite h 1 0x20000004 4 v ?m) (data_write FCRAM 4 W32 v)" for h v
    using accesses_run_hooks [OF hook_reachable.set [OF m1 set], of ?pt h W32 "0x00100004" v]
    by (simp add: tr WriteLegacy_def bus IsMemoryBus_def MemoryBus_Write_def trunc)
      (simp add: PutHookList_def example_hook_def trunc)
  with pt set show ?thesis by auto
qed

text \<open>Mapping a page that has hooks bypasses them. The page table caches the host memory of the page without looking at
  its hooks, so after a write hook on a page of FCRAM that no processor has mapped yet, a processor that maps it
  writes to it directly.\<close>
theorem mapping_bypasses_hooks:
  "\<exists>m pt. SetHook Hook_Write 0x20000000 0x10 1 example_mem = Inr m
    \<and> PageTable_Insert 0x00100000 0x20000000 0x2000 PageTable_init = Inr pt
    \<and> write_hooks m FCRAM 0 \<noteq> []
    \<and> (\<forall>h v. VM_Write h pt W32 0x00100004 v m = data_write FCRAM 4 W32 v m)"
proof -
  obtain pt where pt: "PageTable_Insert 0x00100000 0x20000000 0x2000 PageTable_init = Inr pt"
    and host: "host_memory pt 256 = (if LookupMemoryBackedPage 0x20000000 \<noteq> None
        then LookupMemoryBackedPage 0x20000000 else host_memory PageTable_init 256)"
    using PageTable_Insert_spec [OF example_range(1), of "0x20000000" PageTable_init]
    by (auto simp: example_range(3))
  have "LookupMemoryBackedPage 0x20000000 = Some (FCRAM, 0)" by code_simp
  then have "LookupHostMemory pt 0x00100004 = Some (FCRAM, 0)" using host by (simp add: LookupHostMemory_def)
  then have "VM_Write h pt W32 0x00100004 v m = data_write FCRAM 4 W32 v m" for h v and m :: "unit physmem"
    by (simp add: VM_Write_def HostPage_Write_def)
  then show ?thesis using pt by (simp add: SetHook_empty) (simp add: PutHookList_def)
qed

section \<open>Contiguous host memory\<close>

lemma foldE_unit: "foldE (\<lambda>x _. f x) xs () = Inr () \<Longrightarrow> x \<in> set xs \<Longrightarrow> f x = Inr ()"
  by (induction xs) (auto simp: bindE_eq_Inr)

lemma contiguous_pages:
  assumes inside: "find_bus a = Some b" and range: "hook_range a n" and fits: "\<not> bus_end b < a + n"
    and page: "page \<in> set (hook_pages b a n)"
  shows "\<exists>i < nat (sint (drop_bit 12 ((a AND 0xfff) + n - 1 :: u32)) + 1). page = bus_page b (push_bit 12 (drop_bit 12 a + of_nat i))"
proof -
  obtain s where s: "uint (bus_start b) = 4096 * s" using bus_aligned(1) [of b] by (auto elim: dvdE)
  define q r where "q = uint a div 4096" and "r = uint a mod 4096"
  have a: "uint a = 4096 * q + r" "0 \<le> r" "r < 4096" by (simp_all add: q_def r_def)
  have low: "uint (a AND 0xfff) = r"
  proof -
    have "(0xfff :: u32) = mask 12" by (simp add: mask_numeral)
    then have "a AND 0xfff = take_bit 12 a" by (simp only: take_bit_eq_mask)
    then show ?thesis by (simp only: unsigned_take_bit_eq) (simp add: take_bit_eq_mod r_def)
  qed
  have start: "uint (bus_start b) \<le> uint a" using inside by (simp add: find_bus_eq_Some IsInside_def word_le_def)
  have top: "uint a + uint n \<le> uint (bus_start b) + uint (bus_size b)" "uint (bus_start b) + uint (bus_size b) < 4294967296"
    using fits bus_top [of b] by (simp_all add: word_less_def bus_end_def hook_range_sum [OF range] uint_add_u32 [of "bus_start b"])
  have n: "0 < uint n" using range by (simp add: hook_range_def)
  have q0: "0 \<le> q" using uint_ge_0 [of a] by (simp add: q_def pos_imp_zdiv_nonneg_iff)
  then have rn: "r + uint n < 4294967296" using top a by linarith
  define d where "d = (r + uint n - 1) div 4096"
  have "uint ((a AND 0xfff) + n - 1) = r + uint n - 1"
    using rn n a by (simp add: uint_sub_u32 uint_add_u32 low)
  then have d: "uint (drop_bit 12 ((a AND 0xfff) + n - 1)) = d" by (simp only: uint_page(1) d_def)
  have d_bound: "0 \<le> d" "4096 * d \<le> r + uint n - 1" using a n by (simp_all add: d_def)
  have sd: "sint (drop_bit 12 ((a AND 0xfff) + n - 1)) = d"
    using d d_bound top a start s uint_u32_bounds [of n] by (simp add: sint_uint signed_take_bit_int_eq_self del: drop_bit_word_numeral)
  have lo: "int (unat (drop_bit 12 (a - bus_start b))) = q - s"
    unfolding uint_page(2) using start a by (simp add: uint_sub_u32 s)
  have "uint (a - bus_start b + 0x1000 + n - 1) = uint a - uint (bus_start b) + 4096 + uint n - 1"
    using start top n bus_start_above [of b] by (simp add: uint_sub_u32 uint_add_u32)
  then have hi: "int (unat (drop_bit 12 (a - bus_start b + 0x1000 + n - 1))) = q - s + 1 + d"
    unfolding uint_page(2) using a by (simp add: s d_def)
  define i where "i = nat (int page - (q - s))"
  have "unat (drop_bit 12 (a - bus_start b)) \<le> page" "page < unat (drop_bit 12 (a - bus_start b + 0x1000 + n - 1))"
    using page by (simp_all only: hook_pages_def set_upt atLeastLessThan_iff)
  then have "int (unat (drop_bit 12 (a - bus_start b))) \<le> int page" "int page < int (unat (drop_bit 12 (a - bus_start b + 0x1000 + n - 1)))"
    by (simp_all only: of_nat_le_iff of_nat_less_iff)
  then have "q - s \<le> int page" "int page < q - s + 1 + d" by (simp_all only: lo hi)
  then have i: "int i = int page - (q - s)" "int i \<le> d" by (simp_all add: i_def)
  have bound: "4096 * (q + int i) \<le> uint a + uint n" 
  proof -
    have "4096 * int i \<le> 4096 * d" using i(2) by simp
    then show ?thesis unfolding a(1) distrib_left using d_bound(2) by linarith
  qed
  have "push_bit 12 (drop_bit 12 a + of_nat i) = (word_of_int (4096 * (uint (drop_bit 12 a) + int i)) :: u32)"
    by (simp add: push_bit_eq_mult)
  then have "push_bit 12 (drop_bit 12 a + of_nat i) = (word_of_int (4096 * (q + int i)) :: u32)"
    by (simp only: uint_page(1) q_def)
  then have "uint (push_bit 12 (drop_bit 12 a + of_nat i)) = 4096 * (q + int i)"
    using bound top q0 by (simp only:) (intro word_of_int_inverse [OF refl]; simp)
  moreover have "s \<le> q" using start a s by linarith
  ultimately have "uint (push_bit 12 (drop_bit 12 a + of_nat i) - bus_start b) = 4096 * (q + int i - s)"
    by (simp add: uint_sub_u32 s)
  then have "int (bus_page b (push_bit 12 (drop_bit 12 a + of_nat i))) = int page"
    by (simp only: uint_page(2)) (simp add: i(1))
  then have "page = bus_page b (push_bit 12 (drop_bit 12 a + of_nat i))" by (simp only: of_nat_eq_iff)
  moreover have "i < nat (d + 1)" using i(2) d_bound by linarith
  ultimately show ?thesis unfolding sd by blast
qed


text \<open>C36: direct access to host memory is only given to unhooked memory. When \<open>LookupContiguousMemoryBackedPage\<close> returns for a
  range that does not wrap around, the whole range lies in the data of one bus, the pointer is that of its first byte,
  and no hook of the requested kind, in any page the range touches, overlaps it.\<close>
theorem contiguous_memory_unhooked:
  assumes look: "LookupContiguousMemoryBackedPage AccessMode address n m = Inr (page, num_bytes)"
    and range: "address < address + n"
  shows "\<exists>b. find_bus address = Some b \<and> page = (b, address - bus_start b) \<and> num_bytes = n
    \<and> unat (address - bus_start b) + unat n \<le> unat (bus_size b)
    \<and> (\<forall>p \<in> set (hook_pages b address n).
        (HasReadHook AccessMode \<longrightarrow> (\<forall>h \<in> set (read_hooks m b p). \<not> Overlaps h address n)) \<and>
        (HasWriteHook AccessMode \<longrightarrow> (\<forall>h \<in> set (write_hooks m b p). \<not> Overlaps h address n)))"
proof -
  have r: "hook_range address n" using range by (simp add: hook_range_less)
  note look = look [unfolded LookupContiguousMemoryBackedPage_def Let_def]
  have "n \<noteq> 0" using look by (rule contrapos_pn) simp
  obtain b where bus: "find_bus address = Some b" using look \<open>n \<noteq> 0\<close> by (cases "find_bus address") simp_all
  have fits: "\<not> bus_end b < address + n" using look \<open>n \<noteq> 0\<close> bus by (rule_tac notI) simp
  let ?fold = "foldE (\<lambda>i _. contiguous_test AccessMode address n b m i) [0 ..< nat (sint (drop_bit 12 ((address AND 0xfff) + n - 1)) + 1)] ()"
  have b: "find_bus address = Some b" "\<not> bus_end b < address + n" "?fold = Inr ()" "page = (b, address - bus_start b)" "num_bytes = n"
    using look \<open>n \<noteq> 0\<close> bus fits by (cases ?fold; simp)+
  have "(HasReadHook AccessMode \<longrightarrow> (\<forall>h \<in> set (read_hooks m b p). \<not> Overlaps h address n)) \<and>
        (HasWriteHook AccessMode \<longrightarrow> (\<forall>h \<in> set (write_hooks m b p). \<not> Overlaps h address n))"
    if p: "p \<in> set (hook_pages b address n)" for p
  proof -
    obtain i where i: "i < nat (sint (drop_bit 12 ((address AND 0xfff) + n - 1)) + 1)"
      "p = bus_page b (push_bit 12 (drop_bit 12 address + of_nat i))"
      using contiguous_pages [OF b(1) r b(2) p] by blast
    then have "contiguous_test AccessMode address n b m i = Inr ()" using foldE_unit [OF b(3)] by simp
    then show ?thesis unfolding i(2) by (auto simp: contiguous_test_def Let_def split: if_splits)
  qed
  moreover have "unat (address - bus_start b) + unat n \<le> unat (bus_size b)"
  proof -
    have "uint (bus_start b) \<le> uint address" using b(1) by (simp add: find_bus_eq_Some IsInside_def word_le_def)
    then have "uint (address - bus_start b) + uint n \<le> uint (bus_size b)"
      using b(2) bus_top [of b] by (simp add: word_less_def bus_end_def hook_range_sum [OF r] uint_add_u32 [of "bus_start b"] uint_sub_u32)
    then have "int (unat (address - bus_start b) + unat n) \<le> int (unat (bus_size b))" by simp
    then show ?thesis by (simp only: of_nat_le_iff)
  qed
  ultimately show ?thesis using b by blast
qed

text \<open>Sixteen bytes of FCRAM.\<close>

theorem contiguous_memory_unhooked_witness:
  "LookupContiguousMemoryBackedPage Hook_ReadWrite 0x20000010 0x10 example_mem = Inr ((FCRAM, 0x10), 0x10)
    \<and> filter (\<lambda>h. Overlaps h 0x20000010 0x10) (read_hooks example_mem FCRAM 0) = []"
proof -
  have look: "LookupContiguousMemoryBackedPage Hook_ReadWrite 0x20000010 0x10 example_mem = Inr ((FCRAM, 0x10), 0x10)"
    by (simp add: LookupContiguousMemoryBackedPage_def contiguous_test_def fcram_bus bus_end_def example_mem_def)
  from contiguous_memory_unhooked [OF look] look show ?thesis
    by (auto simp: fcram_bus fcram_hook_pages HasReadHook_def filter_empty_conv)
qed

end
