(* ===== verification/ShaderCode.thy ===== *)
theory ShaderCode
  imports BitFields
begin

text \<open>
  The instructions of the shader units (\<open>nihstro/shader_bytecode.h\<close>): operation codes with their kinds, the fields of the
  instruction formats, and the patterns that select and negate the components of operands.
\<close>

section \<open>Operation codes\<close>

datatype OpCodeId =
    OP_ADD | OP_DP3 | OP_DP4 | OP_DPH | OP_EX2 | OP_LG2 | OP_MUL | OP_SGE | OP_SLT | OP_FLR | OP_MAX | OP_MIN | OP_RCP | OP_RSQ
  | OP_MOVA | OP_MOV | OP_DPHI | OP_SGEI | OP_SLTI | OP_NOP | OP_END | OP_BREAKC | OP_CALL | OP_CALLC | OP_CALLU | OP_IFU | OP_IFC
  | OP_LOOP | OP_EMIT | OP_SETEMIT | OP_JMPC | OP_JMPU | OP_CMP | OP_MADI | OP_MAD | OP_OTHER u32

definition opcode_ids :: "(u32 \<times> OpCodeId) list" where
  "opcode_ids = [(0x00, OP_ADD), (0x01, OP_DP3), (0x02, OP_DP4), (0x03, OP_DPH), (0x05, OP_EX2), (0x06, OP_LG2), (0x08, OP_MUL),
    (0x09, OP_SGE), (0x0A, OP_SLT), (0x0B, OP_FLR), (0x0C, OP_MAX), (0x0D, OP_MIN), (0x0E, OP_RCP), (0x0F, OP_RSQ), (0x12, OP_MOVA),
    (0x13, OP_MOV), (0x18, OP_DPHI), (0x1A, OP_SGEI), (0x1B, OP_SLTI), (0x21, OP_NOP), (0x22, OP_END), (0x23, OP_BREAKC),
    (0x24, OP_CALL), (0x25, OP_CALLC), (0x26, OP_CALLU), (0x27, OP_IFU), (0x28, OP_IFC), (0x29, OP_LOOP), (0x2A, OP_EMIT),
    (0x2B, OP_SETEMIT), (0x2C, OP_JMPC), (0x2D, OP_JMPU), (0x2E, OP_CMP), (0x30, OP_MADI), (0x38, OP_MAD)]"

definition opcode_id :: "u32 \<Rightarrow> OpCodeId" where
  "opcode_id op = (case map_of opcode_ids op of Some i \<Rightarrow> i | None \<Rightarrow> OP_OTHER op)"

definition EffectiveOpCode :: "u32 \<Rightarrow> OpCodeId" where
  "EffectiveOpCode op =
    (if op AND NOT 0x7 = 0x38 then OP_MAD
     else if op AND NOT 0x7 = 0x30 then OP_MADI
     else if op AND NOT 0x1 = 0x2E then OP_CMP
     else opcode_id op)"

datatype OpCodeType = TrivialOp | ArithmeticOp | ConditionalOp | UniformFlowControlOp | SetEmitOp | MultiplyAddOp | UnknownOp

text \<open>Of the subtype only \<open>SrcInversed\<close> matters to the interpreter: the operands are swapped in the encoding.\<close>

definition info_table :: "(OpCodeType \<times> bool) list" where
  "info_table =
    (let arith = (ArithmeticOp, False); inversed = (ArithmeticOp, True); unknown = (UnknownOp, False) in
     [arith, arith, arith, arith, unknown, arith, arith, unknown, arith, arith, arith, arith, arith, arith, arith, arith,
      unknown, unknown, arith, arith, unknown, unknown, unknown, unknown, inversed, unknown, inversed, inversed,
      unknown, unknown, unknown, unknown, unknown, (TrivialOp, False), (TrivialOp, False), (ConditionalOp, False),
      (ConditionalOp, False), (ConditionalOp, False), (UniformFlowControlOp, False), (UniformFlowControlOp, False),
      (ConditionalOp, False), (UniformFlowControlOp, False), (TrivialOp, False), (SetEmitOp, False), (ConditionalOp, False),
      (ConditionalOp, False), arith, arith] @ replicate 8 (MultiplyAddOp, True) @ replicate 8 (MultiplyAddOp, False))"

definition opcode :: "u32 \<Rightarrow> u32" where "opcode w = BitField_Value 0x1a 6 w"

definition opcode_type :: "u32 \<Rightarrow> OpCodeType" where "opcode_type w = fst (info_table ! unat (opcode w))"
definition src_inversed :: "u32 \<Rightarrow> bool" where "src_inversed w = snd (info_table ! unat (opcode w))"

section \<open>Instruction formats\<close>

definition operand_desc_id :: "u32 \<Rightarrow> u32" where "operand_desc_id w = BitField_Value 0x00 7 w"
definition common_src2 :: "u32 \<Rightarrow> u32" where "common_src2 w = BitField_Value 0x07 5 w"
definition common_src1 :: "u32 \<Rightarrow> u32" where "common_src1 w = BitField_Value 0x0c 7 w"
definition common_src2i :: "u32 \<Rightarrow> u32" where "common_src2i w = BitField_Value 0x07 7 w"
definition common_src1i :: "u32 \<Rightarrow> u32" where "common_src1i w = BitField_Value 0x0e 5 w"
definition address_register_index :: "u32 \<Rightarrow> u32" where "address_register_index w = BitField_Value 0x13 2 w"
definition compare_op_y :: "u32 \<Rightarrow> u32" where "compare_op_y w = BitField_Value 0x15 3 w"
definition compare_op_x :: "u32 \<Rightarrow> u32" where "compare_op_x w = BitField_Value 0x18 3 w"
definition common_dest :: "u32 \<Rightarrow> u32" where "common_dest w = BitField_Value 0x15 5 w"

definition num_instructions :: "u32 \<Rightarrow> u32" where "num_instructions w = BitField_Value 0x00 8 w"
definition dest_offset :: "u32 \<Rightarrow> u32" where "dest_offset w = BitField_Value 0x0a 0xc w"
definition flow_op :: "u32 \<Rightarrow> u32" where "flow_op w = BitField_Value 0x16 2 w"
definition bool_uniform_id :: "u32 \<Rightarrow> u32" where "bool_uniform_id w = BitField_Value 0x16 4 w"
definition int_uniform_id :: "u32 \<Rightarrow> u32" where "int_uniform_id w = BitField_Value 0x16 2 w"
definition refy :: "u32 \<Rightarrow> bool" where "refy w = BitField_ToBool 0x18 w"
definition refx :: "u32 \<Rightarrow> bool" where "refx w = BitField_ToBool 0x19 w"

definition mad_operand_desc_id :: "u32 \<Rightarrow> u32" where "mad_operand_desc_id w = BitField_Value 0x00 5 w"
definition mad_src3 :: "u32 \<Rightarrow> u32" where "mad_src3 w = BitField_Value 0x05 5 w"
definition mad_src2 :: "u32 \<Rightarrow> u32" where "mad_src2 w = BitField_Value 0x0a 7 w"
definition mad_src1 :: "u32 \<Rightarrow> u32" where "mad_src1 w = BitField_Value 0x11 5 w"
definition mad_src3i :: "u32 \<Rightarrow> u32" where "mad_src3i w = BitField_Value 0x05 7 w"
definition mad_src2i :: "u32 \<Rightarrow> u32" where "mad_src2i w = BitField_Value 0x0c 5 w"
definition mad_address_register_index :: "u32 \<Rightarrow> u32" where "mad_address_register_index w = BitField_Value 0x16 2 w"
definition mad_dest :: "u32 \<Rightarrow> u32" where "mad_dest w = BitField_Value 0x18 5 w"

definition GetSrc1 :: "bool \<Rightarrow> u32 \<Rightarrow> u32" where "GetSrc1 is_inverted w = (if \<not> is_inverted then common_src1 w else common_src1i w)"
definition GetSrc2 :: "bool \<Rightarrow> u32 \<Rightarrow> u32" where "GetSrc2 is_inverted w = (if \<not> is_inverted then common_src2 w else common_src2i w)"
definition mad_GetSrc2 :: "bool \<Rightarrow> u32 \<Rightarrow> u32" where "mad_GetSrc2 is_inverted w = (if \<not> is_inverted then mad_src2 w else mad_src2i w)"
definition mad_GetSrc3 :: "bool \<Rightarrow> u32 \<Rightarrow> u32" where "mad_GetSrc3 is_inverted w = (if \<not> is_inverted then mad_src3 w else mad_src3i w)"

section \<open>Swizzle patterns\<close>

definition dest_mask :: "u32 \<Rightarrow> u32" where "dest_mask sw = BitField_Value 0 4 sw"

definition DestComponentEnabled :: "u32 \<Rightarrow> nat \<Rightarrow> bool" where
  "DestComponentEnabled sw i \<longleftrightarrow> dest_mask sw AND drop_bit i 0x8 \<noteq> 0"

definition negate_src1 :: "u32 \<Rightarrow> bool" where "negate_src1 sw = BitField_ToBool 4 sw"
definition negate_src2 :: "u32 \<Rightarrow> bool" where "negate_src2 sw = BitField_ToBool 13 sw"
definition negate_src3 :: "u32 \<Rightarrow> bool" where "negate_src3 sw = BitField_ToBool 22 sw"

definition GetSelectorSrc1 :: "u32 \<Rightarrow> nat \<Rightarrow> nat" where "GetSelectorSrc1 sw i = unat (BitField_Value ([11, 9, 7, 5] ! i) 2 sw)"
definition GetSelectorSrc2 :: "u32 \<Rightarrow> nat \<Rightarrow> nat" where "GetSelectorSrc2 sw i = unat (BitField_Value ([20, 18, 16, 14] ! i) 2 sw)"
definition GetSelectorSrc3 :: "u32 \<Rightarrow> nat \<Rightarrow> nat" where "GetSelectorSrc3 sw i = unat (BitField_Value ([29, 27, 25, 23] ! i) 2 sw)"

section \<open>Bounds of the fields\<close>

lemma opcode_bound: "unat (opcode w) < 64"
  unfolding opcode_def using unat_BitField_Value_less [of "0x1a" 6 w] by simp

lemma info_table_length [simp]: "length info_table = 64"
  by (simp add: info_table_def Let_def)

lemma selector_bounds: "GetSelectorSrc1 sw i < 4" if "i < 4" for sw
  unfolding GetSelectorSrc1_def using that unat_BitField_Value_less [of "[11, 9, 7, 5] ! i" 2 sw]
  by (auto simp: less_Suc_eq numeral_eq_Suc)

lemma dest_bounds: "unat (common_dest w) < 32" "unat (mad_dest w) < 32"
  unfolding common_dest_def mad_dest_def
  using unat_BitField_Value_less [of "0x15" 5 w] unat_BitField_Value_less [of "0x18" 5 w] by simp_all

lemma dest_enabled: "i < 4 \<Longrightarrow> DestComponentEnabled sw i \<longleftrightarrow> bit sw (3 - i)"
proof -
  assume "i < 4"
  then have "i = 0 \<or> i = 1 \<or> i = 2 \<or> i = 3" by linarith
  then have m: "drop_bit i (8 :: u32) = 2 ^ (3 - i)" by (elim disjE) simp_all
  show ?thesis using \<open>i < 4\<close> unfolding DestComponentEnabled_def m and_exp_eq_0_iff_not_bit by (auto simp: dest_mask_def bit_BitField_Value)
qed

end
