(* ===== verification/ShaderInterpreter.thy ===== *)
theory ShaderInterpreter
  imports ShaderCode
begin

text \<open>
  The interpreter of vertex shaders (\<open>video_core/shader_interpreter.cpp\<close>): registers, operands with swizzling, the
  arithmetic instructions, and the flow of control with its stack of calls, branches and loops. The arithmetic of the
  host's \<open>float\<close> is a parameter; \<open>platform/gpu/float.hpp\<close> builds the type \<open>float24\<close> on it.
\<close>

section \<open>Numbers\<close>

text \<open>
  Operations of \<open>float\<close>: the value of an integer literal, sum, product, \<open>1.0f / x\<close>, \<open>1.0f / sqrt(x)\<close>, the comparisons, the test
  for NaN, and the conversion to \<open>int32_t\<close>, which is undefined when the value does not fit.
\<close>

record 'f float32 =
  float_of :: "int \<Rightarrow> 'f"
  float_add :: "'f \<Rightarrow> 'f \<Rightarrow> 'f"
  float_mul :: "'f \<Rightarrow> 'f \<Rightarrow> 'f"
  float_recip :: "'f \<Rightarrow> 'f"
  float_rsqrt :: "'f \<Rightarrow> 'f"
  float_less :: "'f \<Rightarrow> 'f \<Rightarrow> bool"
  float_le :: "'f \<Rightarrow> 'f \<Rightarrow> bool"
  float_eq :: "'f \<Rightarrow> 'f \<Rightarrow> bool"
  float_isnan :: "'f \<Rightarrow> bool"
  float_to_s32 :: "'f \<Rightarrow> u32 option"

text \<open>The product of \<open>float24\<close>: zero times infinity is zero.\<close>

definition f24_mul :: "'f float32 \<Rightarrow> 'f \<Rightarrow> 'f \<Rightarrow> 'f" where
  "f24_mul fl a b =
    (if (float_eq fl a (float_of fl 0) \<or> float_eq fl b (float_of fl 0)) \<and> \<not> float_isnan fl a \<and> \<not> float_isnan fl b
     then float_of fl 0 else float_mul fl a b)"

section \<open>State\<close>

record CallStackElement =
  final_address :: u32
  return_address :: u32
  repeat_counter :: u8
  loop_increment :: u8
  loop_begin_address :: u32

text \<open>
  A register is the list of its four components. An entry of the table of inputs is the attribute it points to, or \<open>None\<close> for
  \<open>dummy_register\<close>. The top of the call stack is the head of the list.
\<close>

record 'f engine =
  input_register_table :: "nat option list"
  dummy_register :: 'f
  input_attr :: "'f list list"
  program_counter :: u32
  output_registers :: "'f list list"
  temporary_registers :: "'f list list"
  conditional_code :: "bool list"
  address_registers :: "u32 list"
  call_stack :: "CallStackElement list"
  max_offset :: u32
  max_opdesc_id :: u32

record 'f shader_context =
  shader_memory :: "u32 list"
  swizzle_data :: "u32 list"
  uniforms_f :: "'f list list"
  uniforms_b :: "bool list"
  uniforms_i :: "u8 list list"
  shader_num_output_attributes :: u32
  vs_output_register_mask :: u32
  shader_output_semantics :: "u32 list"

section \<open>Arithmetic\<close>

text \<open>
  \<open>LookupSourceRegister\<close> and the access to a component. The number of a register may have been moved past the uniforms by an
  address register, and \<open>dummy_register\<close> has only one component.
\<close>

definition source_component :: "'f shader_context \<Rightarrow> 'f engine \<Rightarrow> u32 \<Rightarrow> nat \<Rightarrow> 'f res" where
  "source_component ctx e r c =
    (if r < 0x10 then (case input_register_table e ! unat r of
         None \<Rightarrow> if c = 0 then Inr (dummy_register e) else Inl UndefinedBehaviour
       | Some a \<Rightarrow> Inr (input_attr e ! a ! c))
     else if r < 0x20 then Inr (temporary_registers e ! unat (r - 0x10) ! c)
     else if unat (r - 0x20) < length (uniforms_f ctx) then Inr (uniforms_f ctx ! unat (r - 0x20) ! c)
     else Inl UndefinedBehaviour)"

definition four :: "(nat \<Rightarrow> 'a res) \<Rightarrow> 'a list res" where
  "four f = bindE (f 0) (\<lambda>x. bindE (f 1) (\<lambda>y. bindE (f 2) (\<lambda>z. bindE (f 3) (\<lambda>w. Inr [x, y, z, w]))))"

definition read_source :: "'f float32 \<Rightarrow> 'f shader_context \<Rightarrow> 'f engine \<Rightarrow> u32 \<Rightarrow> (nat \<Rightarrow> nat) \<Rightarrow> bool \<Rightarrow> 'f list res" where
  "read_source fl ctx e r selector negate =
    bindE (four (\<lambda>i. source_component ctx e r (selector i))) (\<lambda>v.
    Inr (if negate then map (\<lambda>x. f24_mul fl x (float_of fl (- 1))) v else v))"

text \<open>The enabled components of the destination are written.\<close>

definition write_components :: "u32 \<Rightarrow> (nat \<Rightarrow> 'f) \<Rightarrow> 'f list \<Rightarrow> 'f list" where
  "write_components sw v old = map (\<lambda>i. if DestComponentEnabled sw i then v i else old ! i) [0..<4]"

definition write_dest :: "u32 \<Rightarrow> u32 \<Rightarrow> (nat \<Rightarrow> 'f) \<Rightarrow> 'f engine \<Rightarrow> 'f engine" where
  "write_dest dest sw v e =
    (if dest < 0x10 then e\<lparr>output_registers := (output_registers e)[unat dest := write_components sw v (output_registers e ! unat dest)]\<rparr>
     else if dest < 0x20
     then e\<lparr>temporary_registers := (temporary_registers e)[unat (dest - 0x10) := write_components sw v (temporary_registers e ! unat (dest - 0x10))]\<rparr>
     else e)"

definition address_offset :: "u32 \<Rightarrow> 'f engine \<Rightarrow> u32" where
  "address_offset i e = (if i = 0 then 0 else address_registers e ! unat (i - 1))"

definition compare :: "'f float32 \<Rightarrow> u32 \<Rightarrow> 'f \<Rightarrow> 'f \<Rightarrow> bool option" where
  "compare fl op a b =
    (if op = 0 then Some (float_eq fl a b)
     else if op = 1 then Some (\<not> float_eq fl a b)
     else if op = 2 then Some (float_less fl a b)
     else if op = 3 then Some (float_le fl a b)
     else if op = 4 then Some (float_less fl b a)
     else if op = 5 then Some (float_le fl b a)
     else None)"

definition set_condition :: "nat \<Rightarrow> bool option \<Rightarrow> 'f engine \<Rightarrow> 'f engine" where
  "set_condition i r e = (case r of None \<Rightarrow> e | Some b \<Rightarrow> e\<lparr>conditional_code := (conditional_code e)[i := b]\<rparr>)"

definition move_address :: "'f float32 \<Rightarrow> u32 \<Rightarrow> 'f list \<Rightarrow> nat \<Rightarrow> 'f engine \<Rightarrow> 'f engine res" where
  "move_address fl sw src1 i e =
    (if \<not> DestComponentEnabled sw i then Inr e
     else case float_to_s32 fl (src1 ! i) of
       None \<Rightarrow> Inl UndefinedBehaviour
     | Some a \<Rightarrow> Inr (e\<lparr>address_registers := (address_registers e)[i := a]\<rparr>))"

definition dot_product :: "'f float32 \<Rightarrow> nat \<Rightarrow> 'f list \<Rightarrow> 'f list \<Rightarrow> 'f" where
  "dot_product fl n a b = fold (\<lambda>i dot. float_add fl dot (f24_mul fl (a ! i) (b ! i))) [0..<n] (float_of fl 0)"

text \<open>Operations that are not handled are logged; they have no effect.\<close>

definition arithmetic_op :: "'f float32 \<Rightarrow> u32 \<Rightarrow> u32 \<Rightarrow> 'f list \<Rightarrow> 'f list \<Rightarrow> 'f engine \<Rightarrow> 'f engine res" where
  "arithmetic_op fl w sw src1 src2 e =
    (let write = (\<lambda>v. Inr (write_dest (common_dest w) sw v e)) in
     case EffectiveOpCode (opcode w) of
       OP_ADD \<Rightarrow> write (\<lambda>i. float_add fl (src1 ! i) (src2 ! i))
     | OP_MUL \<Rightarrow> write (\<lambda>i. f24_mul fl (src1 ! i) (src2 ! i))
     | OP_MAX \<Rightarrow> write (\<lambda>i. if float_less fl (src2 ! i) (src1 ! i) then src1 ! i else src2 ! i)
     | OP_MIN \<Rightarrow> write (\<lambda>i. if float_less fl (src1 ! i) (src2 ! i) then src1 ! i else src2 ! i)
     | OP_DP3 \<Rightarrow> write (\<lambda>i. dot_product fl 3 src1 src2)
     | OP_DP4 \<Rightarrow> write (\<lambda>i. dot_product fl 4 src1 src2)
     | OP_RCP \<Rightarrow> write (\<lambda>i. float_recip fl (src1 ! 0))
     | OP_RSQ \<Rightarrow> write (\<lambda>i. float_rsqrt fl (src1 ! 0))
     | OP_MOVA \<Rightarrow> bindE (move_address fl sw src1 0 e) (move_address fl sw src1 1)
     | OP_MOV \<Rightarrow> write (\<lambda>i. src1 ! i)
     | OP_CMP \<Rightarrow> Inr (set_condition 1 (compare fl (compare_op_y w) (src1 ! 1) (src2 ! 1))
         (set_condition 0 (compare fl (compare_op_x w) (src1 ! 0) (src2 ! 0)) e))
     | _ \<Rightarrow> Inr e)"

definition interpret_arithmetic :: "'f float32 \<Rightarrow> 'f shader_context \<Rightarrow> u32 \<Rightarrow> 'f engine \<Rightarrow> 'f engine res" where
  "interpret_arithmetic fl ctx w e =
    (let sw = swizzle_data ctx ! unat (operand_desc_id w) in
     if src_inversed w then Inl ProcessExit
     else
       bindE (read_source fl ctx e (GetSrc1 False w + address_offset (address_register_index w) e) (GetSelectorSrc1 sw) (negate_src1 sw)) (\<lambda>src1.
       bindE (read_source fl ctx e (GetSrc2 False w) (GetSelectorSrc2 sw) (negate_src2 sw)) (\<lambda>src2.
       arithmetic_op fl w sw src1 src2 (e\<lparr>max_opdesc_id := max (max_opdesc_id e) (1 + operand_desc_id w)\<rparr>))))"

definition interpret_multiply_add :: "'f float32 \<Rightarrow> 'f shader_context \<Rightarrow> u32 \<Rightarrow> 'f engine \<Rightarrow> 'f engine res" where
  "interpret_multiply_add fl ctx w e =
    (let is_inverted = (EffectiveOpCode (opcode w) = OP_MADI) in
     if \<not> is_inverted \<and> EffectiveOpCode (opcode w) \<noteq> OP_MAD then Inl RuntimeError
     else
       let sw = swizzle_data ctx ! unat (mad_operand_desc_id w); offset = address_offset (mad_address_register_index w) e in
       bindE (read_source fl ctx e (mad_src1 w) (GetSelectorSrc1 sw) (negate_src1 sw)) (\<lambda>src1.
       bindE (read_source fl ctx e (mad_GetSrc2 is_inverted w + (if is_inverted then 0 else offset)) (GetSelectorSrc2 sw) (negate_src2 sw)) (\<lambda>src2.
       bindE (read_source fl ctx e (mad_GetSrc3 is_inverted w + (if is_inverted then offset else 0)) (GetSelectorSrc3 sw) (negate_src3 sw)) (\<lambda>src3.
       Inr (write_dest (mad_dest w) sw (\<lambda>i. float_add fl (f24_mul fl (src1 ! i) (src2 ! i)) (src3 ! i)) e)))))"

definition LegacyInterpretShaderOpcode :: "'f float32 \<Rightarrow> 'f shader_context \<Rightarrow> u32 \<Rightarrow> 'f engine \<Rightarrow> 'f engine res" where
  "LegacyInterpretShaderOpcode fl ctx w e =
    (if opcode_type w = ArithmeticOp then interpret_arithmetic fl ctx w e
     else if opcode_type w = MultiplyAddOp then interpret_multiply_add fl ctx w e
     else Inr e)"

section \<open>Flow of control\<close>

definition evaluate_condition :: "u32 \<Rightarrow> 'f engine \<Rightarrow> bool" where
  "evaluate_condition w e =
    (let x = (refx w = conditional_code e ! 0); y = (refy w = conditional_code e ! 1); op = flow_op w in
     if op = 0 then x \<or> y else if op = 1 then x \<and> y else if op = 2 then x else y)"

text \<open>The program counter is set one instruction before the target, because it is incremented after each instruction.\<close>

definition call :: "u32 \<Rightarrow> u32 \<Rightarrow> u32 \<Rightarrow> u8 \<Rightarrow> u8 \<Rightarrow> 'f engine \<Rightarrow> 'f engine res" where
  "call offset n return_offset repeat_count increment e =
    (if 16 \<le> length (call_stack e) then Inl RuntimeError
     else Inr (e\<lparr>program_counter := offset - 1, call_stack :=
       \<lparr>final_address = offset + n, return_address = return_offset, repeat_counter = repeat_count, loop_increment = increment,
        loop_begin_address = offset\<rparr> # call_stack e\<rparr>))"

definition jump :: "u32 \<Rightarrow> 'f engine \<Rightarrow> 'f engine" where
  "jump offset e = e\<lparr>program_counter := offset - 1\<rparr>"

definition branch :: "bool \<Rightarrow> u32 \<Rightarrow> 'f engine \<Rightarrow> 'f engine res" where
  "branch condition w e =
    (let pc = program_counter e; dest = dest_offset w; n = num_instructions w in
     if condition then call (pc + 1) (dest - (pc + 1)) (dest + n) 0 0 e else call dest n (dest + n) 0 0 e)"

definition flow_instruction :: "'f shader_context \<Rightarrow> u32 \<Rightarrow> 'f engine \<Rightarrow> ('f engine \<times> bool) res" where
  "flow_instruction ctx w e =
    (let pc = program_counter e; dest = dest_offset w; n = num_instructions w;
         uniform = uniforms_b ctx ! unat (bool_uniform_id w); cond = evaluate_condition w e;
         continue = (\<lambda>r. bindE r (\<lambda>e. Inr (e, False)))
     in case opcode_id (opcode w) of
       OP_END \<Rightarrow> Inr (e, True)
     | OP_JMPC \<Rightarrow> Inr (if cond then jump dest e else e, False)
     | OP_JMPU \<Rightarrow> Inr (if uniform = (n AND 1 = 0) then jump dest e else e, False)
     | OP_CALL \<Rightarrow> continue (call dest n (pc + 1) 0 0 e)
     | OP_CALLU \<Rightarrow> continue (if uniform then call dest n (pc + 1) 0 0 e else Inr e)
     | OP_CALLC \<Rightarrow> continue (if cond then call dest n (pc + 1) 0 0 e else Inr e)
     | OP_IFU \<Rightarrow> continue (branch uniform w e)
     | OP_IFC \<Rightarrow> continue (branch cond w e)
     | OP_LOOP \<Rightarrow>
         let i = uniforms_i ctx ! unat (int_uniform_id w) in
         continue (call (pc + 1) (dest - pc) (dest + 1) (i ! 0) (i ! 2) (e\<lparr>address_registers := (address_registers e)[2 := ucast (i ! 1)]\<rparr>))
     | _ \<Rightarrow> Inr (e, False))"

text \<open>
  One pass of the loop of \<open>ProcessShaderCode\<close>. At the end of the scope on top of the stack, the scope is left or begun again;
  otherwise an instruction is executed. The second component tells whether the program has ended.
\<close>

definition leave_scope :: "CallStackElement \<Rightarrow> CallStackElement list \<Rightarrow> 'f engine \<Rightarrow> 'f engine res" where
  "leave_scope t rest e =
    (let a = sint (address_registers e ! 2) + uint (loop_increment t) in
     if 2 ^ 31 \<le> a then Inl UndefinedBehaviour
     else
       let e1 = e\<lparr>address_registers := (address_registers e)[2 := word_of_int a]\<rparr> in
       Inr (if repeat_counter t = 0 then e1\<lparr>program_counter := return_address t, call_stack := rest\<rparr>
            else e1\<lparr>program_counter := loop_begin_address t, call_stack := t\<lparr>repeat_counter := repeat_counter t - 1\<rparr> # rest\<rparr>))"

definition execute_instruction :: "'f float32 \<Rightarrow> 'f shader_context \<Rightarrow> 'f engine \<Rightarrow> ('f engine \<times> bool) res" where
  "execute_instruction fl ctx e =
    (if length (shader_memory ctx) \<le> unat (program_counter e) then Inl UndefinedBehaviour
     else
       let w = shader_memory ctx ! unat (program_counter e);
           e1 = e\<lparr>max_offset := max (max_offset e) (program_counter e + 1)\<rparr>
       in bindE (if opcode_type w = ArithmeticOp \<or> opcode_type w = MultiplyAddOp
                 then bindE (LegacyInterpretShaderOpcode fl ctx w e1) (\<lambda>e. Inr (e, False))
                 else flow_instruction ctx w e1) (\<lambda>(e2, exit_loop).
          Inr (e2\<lparr>program_counter := program_counter e2 + 1\<rparr>, exit_loop)))"

definition shader_step :: "'f float32 \<Rightarrow> 'f shader_context \<Rightarrow> 'f engine \<Rightarrow> ('f engine \<times> bool) res" where
  "shader_step fl ctx e = (case call_stack e of
      t # rest \<Rightarrow> if program_counter e = final_address t then bindE (leave_scope t rest e) (\<lambda>e. Inr (e, False)) else execute_instruction fl ctx e
    | [] \<Rightarrow> execute_instruction fl ctx e)"

text \<open>\<open>None\<close> means that the program does not end.\<close>

partial_function (option) ProcessShaderCode :: "'f float32 \<Rightarrow> 'f shader_context \<Rightarrow> 'f engine \<Rightarrow> 'f engine res option" where
  "ProcessShaderCode fl ctx e = (case shader_step fl ctx e of
      Inl err \<Rightarrow> Some (Inl err)
    | Inr (e1, exit_loop) \<Rightarrow> if exit_loop then Some (Inr e1) else ProcessShaderCode fl ctx e1)"

section \<open>Running a shader\<close>

text \<open>The attributes of a vertex are assigned to input registers; a later attribute replaces an earlier one in the same register.\<close>

definition attribute_register :: "u64 \<Rightarrow> nat \<Rightarrow> nat" where
  "attribute_register register_map i = unat (BitField_Value (4 * i) 4 register_map)"

definition Reset :: "'f float32 \<Rightarrow> u64 \<Rightarrow> 'f list list \<Rightarrow> nat \<Rightarrow> 'f engine \<Rightarrow> 'f engine" where
  "Reset fl register_map attrs num_attributes e =
    e\<lparr>dummy_register := float_of fl 0, input_attr := attrs, input_register_table :=
      fold (\<lambda>i t. if i < num_attributes then t[attribute_register register_map i := Some i] else t) [0..<16] (replicate 16 None)\<rparr>"

text \<open>
  The vertex that leaves the shader, as its 32 numbers; a number that was never written is \<open>None\<close>. The mask of output
  registers is searched for as many registers as there are attributes.
\<close>

definition emit_component :: "'f float32 \<Rightarrow> u32 \<Rightarrow> 'f list \<Rightarrow> nat \<Rightarrow> 'f option list \<Rightarrow> 'f option list" where
  "emit_component fl semantics v c ret =
    (let s = BitField_Value (8 * c) 5 semantics in ret[unat s := Some (if s \<noteq> 31 then v ! c else float_of fl 0)])"

function emit_outputs :: "'f float32 \<Rightarrow> 'f shader_context \<Rightarrow> 'f engine \<Rightarrow> nat \<Rightarrow> nat \<Rightarrow> 'f option list \<Rightarrow> 'f option list res" where
  "emit_outputs fl ctx e output_reg output_attrib ret =
    (if \<not> output_attrib < unat (BitField_Value 0 3 (shader_num_output_attributes ctx)) then Inr ret
     else if 32 \<le> output_reg then Inl UndefinedBehaviour
     else if \<not> bit (BitField_Value 0 16 (vs_output_register_mask ctx)) output_reg then emit_outputs fl ctx e (output_reg + 1) output_attrib ret
     else emit_outputs fl ctx e (output_reg + 1) (output_attrib + 1)
       (fold (emit_component fl (shader_output_semantics ctx ! output_attrib) (output_registers e ! output_reg)) [0..<4] ret))"
  by pat_completeness auto
termination
  by (relation "measure (\<lambda>(fl, ctx, e, output_reg, output_attrib, ret). 32 - output_reg)") auto

declare emit_outputs.simps [simp del]

definition start_engine :: "u32 \<Rightarrow> 'f engine \<Rightarrow> 'f engine" where
  "start_engine entry_point e = e\<lparr>program_counter := entry_point, max_offset := 0, max_opdesc_id := 0,
    conditional_code := [False, False], address_registers := [0, 0, 0], call_stack := []\<rparr>"

definition Run :: "'f float32 \<Rightarrow> 'f shader_context \<Rightarrow> u32 \<Rightarrow> 'f engine \<Rightarrow> ('f option list \<times> 'f engine) res option" where
  "Run fl ctx entry_point e = map_option (\<lambda>r. bindE r (\<lambda>e1.
    bindE (emit_outputs fl ctx e1 0 0 (replicate 32 None)) (\<lambda>ret. Inr (ret, e1))))
    (ProcessShaderCode fl ctx (start_engine entry_point e))"

end
