(* ===== verification/ShaderCorrect.thy ===== *)
theory ShaderCorrect
  imports ShaderInterpreter
begin

text \<open>
  What the interpreter of vertex shaders does with whole programs: every instruction keeps the shape of the registers, blocks
  of arithmetic run in order and leave the program counter and the open scopes alone, a call comes back to the instruction
  after it, and a loop makes the number of rounds its integer uniform asks for.
\<close>

section \<open>Registers keep their shape\<close>

definition vectors :: "nat \<Rightarrow> 'f list list \<Rightarrow> bool" where
  "vectors n rs \<longleftrightarrow> length rs = n \<and> (\<forall>r \<in> set rs. length r = 4)"

definition engine_ok :: "'f engine \<Rightarrow> bool" where
  "engine_ok e \<longleftrightarrow> length (input_register_table e) = 16 \<and> (\<forall>a. Some a \<in> set (input_register_table e) \<longrightarrow> a < length (input_attr e))
    \<and> (\<forall>r \<in> set (input_attr e). length r = 4) \<and> vectors 16 (output_registers e) \<and> vectors 16 (temporary_registers e)
    \<and> length (conditional_code e) = 2 \<and> length (address_registers e) = 3 \<and> length (call_stack e) \<le> 16"

lemma write_components_length [simp]: "length (write_components sw v old) = 4" by (simp add: write_components_def)

lemma vectors_update: "vectors n rs \<Longrightarrow> length r = 4 \<Longrightarrow> vectors n (rs[i := r])"
  unfolding vectors_def by (auto dest: set_update_subset_insert [THEN subsetD])

lemma engine_ok_write_dest: "engine_ok e \<Longrightarrow> engine_ok (write_dest d sw v e)"
  by (simp add: write_dest_def engine_ok_def vectors_update)

lemma engine_ok_set_condition: "engine_ok e \<Longrightarrow> engine_ok (set_condition i r e)"
  by (auto simp: set_condition_def engine_ok_def split: option.split)

lemma engine_ok_move_address: "move_address fl sw v i e = Inr e' \<Longrightarrow> engine_ok e \<Longrightarrow> engine_ok e'"
  by (auto simp: move_address_def engine_ok_def split: if_splits option.splits)

lemma engine_ok_fields [simp]:
  "engine_ok (e\<lparr>max_opdesc_id := a\<rparr>) = engine_ok e" "engine_ok (e\<lparr>max_offset := b\<rparr>) = engine_ok e"
  "engine_ok (e\<lparr>program_counter := c\<rparr>) = engine_ok e"
  by (simp_all add: engine_ok_def)

lemma engine_ok_address [simp]: "engine_ok (e\<lparr>address_registers := (address_registers e)[i := a]\<rparr>) = engine_ok e"
  by (simp add: engine_ok_def)

lemma engine_ok_arithmetic_op: "arithmetic_op fl w sw a b e = Inr e' \<Longrightarrow> engine_ok e \<Longrightarrow> engine_ok e'"
  by (auto simp: arithmetic_op_def Let_def bindE_eq_Inr engine_ok_write_dest engine_ok_set_condition split: OpCodeId.splits
      dest: engine_ok_move_address)

lemma engine_ok_legacy: "LegacyInterpretShaderOpcode fl ctx w e = Inr e' \<Longrightarrow> engine_ok e \<Longrightarrow> engine_ok e'"
  by (auto simp: LegacyInterpretShaderOpcode_def interpret_arithmetic_def interpret_multiply_add_def Let_def bindE_eq_Inr engine_ok_write_dest
      split: if_splits dest: engine_ok_arithmetic_op)

lemma engine_ok_call: "call a n r c i e = Inr e' \<Longrightarrow> engine_ok e \<Longrightarrow> engine_ok e'"
  by (auto simp: call_def engine_ok_def split: if_splits)

lemma engine_ok_branch: "branch b w e = Inr e' \<Longrightarrow> engine_ok e \<Longrightarrow> engine_ok e'"
  by (auto simp: branch_def Let_def split: if_splits dest: engine_ok_call)

lemma engine_ok_flow: "flow_instruction ctx w e = Inr (e', b) \<Longrightarrow> engine_ok e \<Longrightarrow> engine_ok e'"
  by (auto simp: flow_instruction_def Let_def bindE_eq_Inr jump_def split: OpCodeId.splits if_splits dest: engine_ok_call engine_ok_branch)

lemma engine_ok_leave: "leave_scope t rest e = Inr e' \<Longrightarrow> call_stack e = t # rest \<Longrightarrow> engine_ok e \<Longrightarrow> engine_ok e'"
  by (auto simp: leave_scope_def Let_def engine_ok_def split: if_splits)

lemma engine_ok_execute: "execute_instruction fl ctx e = Inr (e', b) \<Longrightarrow> engine_ok e \<Longrightarrow> engine_ok e'"
  by (auto simp: execute_instruction_def Let_def bindE_eq_Inr split: if_splits dest: engine_ok_legacy engine_ok_flow)

lemma engine_ok_step: "shader_step fl ctx e = Inr (e', b) \<Longrightarrow> engine_ok e \<Longrightarrow> engine_ok e'"
  by (auto simp: shader_step_def bindE_eq_Inr split: list.splits if_splits dest: engine_ok_execute engine_ok_leave)

section \<open>Blocks of arithmetic\<close>

text \<open>Arithmetic neither reads nor changes the program counter and the call stack.\<close>

definition with_frame :: "u32 \<Rightarrow> CallStackElement list \<Rightarrow> 'f engine \<Rightarrow> 'f engine" where
  "with_frame pc st e = e\<lparr>program_counter := pc, call_stack := st\<rparr>"

definition map_res :: "('a \<Rightarrow> 'b) \<Rightarrow> 'a res \<Rightarrow> 'b res" where
  "map_res f r = bindE r (\<lambda>x. Inr (f x))"

lemma map_res_simps [simp]: "map_res f (Inl err) = Inl err" "map_res f (Inr x) = Inr (f x)"
  by (simp_all add: map_res_def)

lemma map_res_bindE: "map_res f (bindE r g) = bindE r (\<lambda>x. map_res f (g x))"
  by (simp add: map_res_def bindE_assoc)

lemma with_frame_fields [simp]:
  "input_register_table (with_frame pc st e) = input_register_table e" "dummy_register (with_frame pc st e) = dummy_register e"
  "input_attr (with_frame pc st e) = input_attr e" "temporary_registers (with_frame pc st e) = temporary_registers e"
  "output_registers (with_frame pc st e) = output_registers e" "conditional_code (with_frame pc st e) = conditional_code e"
  "address_registers (with_frame pc st e) = address_registers e" "max_offset (with_frame pc st e) = max_offset e"
  "max_opdesc_id (with_frame pc st e) = max_opdesc_id e" "program_counter (with_frame pc st e) = pc" "call_stack (with_frame pc st e) = st"
  "with_frame pc st (with_frame pc' st' e) = with_frame pc st e"
  by (simp_all add: with_frame_def)

lemma with_frame_id [simp]: "with_frame (program_counter e) (call_stack e) e = e"
  by (cases e) (simp add: with_frame_def)

lemma with_frame_pc [simp]: "(with_frame pc st e)\<lparr>program_counter := q\<rparr> = with_frame q st e"
  by (simp add: with_frame_def)

lemma with_frame_updates:
  "(with_frame pc st e)\<lparr>max_opdesc_id := a\<rparr> = with_frame pc st (e\<lparr>max_opdesc_id := a\<rparr>)"
  "(with_frame pc st e)\<lparr>max_offset := a\<rparr> = with_frame pc st (e\<lparr>max_offset := a\<rparr>)"
  "(with_frame pc st e)\<lparr>address_registers := b\<rparr> = with_frame pc st (e\<lparr>address_registers := b\<rparr>)"
  by (simp_all add: with_frame_def)

lemma source_component_frame [simp]: "source_component ctx (with_frame pc st e) r c = source_component ctx e r c"
  by (simp add: source_component_def split: option.split)

lemma read_source_frame [simp]: "read_source fl ctx (with_frame pc st e) r sel neg = read_source fl ctx e r sel neg"
  by (simp add: read_source_def)

lemma write_dest_frame: "write_dest d sw v (with_frame pc st e) = with_frame pc st (write_dest d sw v e)"
  by (cases e) (simp add: write_dest_def with_frame_def)

lemma set_condition_frame: "set_condition i r (with_frame pc st e) = with_frame pc st (set_condition i r e)"
  by (cases e) (simp add: set_condition_def with_frame_def split: option.split)

lemma move_address_frame: "move_address fl sw v i (with_frame pc st e) = map_res (with_frame pc st) (move_address fl sw v i e)"
  by (cases e) (simp add: move_address_def with_frame_def split: option.split)

lemma arithmetic_op_frame: "arithmetic_op fl w sw a b (with_frame pc st e) = map_res (with_frame pc st) (arithmetic_op fl w sw a b e)"
proof -
  have "bindE (map_res (with_frame pc st) r) (move_address fl sw a 1) = map_res (with_frame pc st) (bindE r (move_address fl sw a 1))" for r
    by (cases r) (simp_all add: move_address_frame)
  then show ?thesis by (simp add: arithmetic_op_def Let_def write_dest_frame set_condition_frame move_address_frame split: OpCodeId.split)
qed

lemma legacy_frame: "LegacyInterpretShaderOpcode fl ctx w (with_frame pc st e) = map_res (with_frame pc st) (LegacyInterpretShaderOpcode fl ctx w e)"
  by (simp add: LegacyInterpretShaderOpcode_def interpret_arithmetic_def interpret_multiply_add_def Let_def address_offset_def map_res_bindE
      with_frame_updates arithmetic_op_frame write_dest_frame)

lemma legacy_keeps_frame:
  assumes "LegacyInterpretShaderOpcode fl ctx w e = Inr e'"
  shows "program_counter e' = program_counter e" "call_stack e' = call_stack e"
proof -
  have "map_res (with_frame (program_counter e) (call_stack e)) (LegacyInterpretShaderOpcode fl ctx w e) = LegacyInterpretShaderOpcode fl ctx w e"
    unfolding legacy_frame [symmetric] by simp
  then have "with_frame (program_counter e) (call_stack e) e' = e'" by (simp add: assms)
  then show "program_counter e' = program_counter e" "call_stack e' = call_stack e" by (metis with_frame_fields(10,11))+
qed

definition arithmetic_word :: "u32 \<Rightarrow> bool" where
  "arithmetic_word w \<longleftrightarrow> opcode_type w = ArithmeticOp \<or> opcode_type w = MultiplyAddOp"

text \<open>The effect of the instruction at an address, and of a block of instructions, on the registers.\<close>

definition arithmetic_at :: "'f float32 \<Rightarrow> 'f shader_context \<Rightarrow> u32 \<Rightarrow> 'f engine \<Rightarrow> 'f engine res" where
  "arithmetic_at fl ctx a e = LegacyInterpretShaderOpcode fl ctx (shader_memory ctx ! unat a) (e\<lparr>max_offset := max (max_offset e) (a + 1)\<rparr>)"

primrec run_block :: "'f float32 \<Rightarrow> 'f shader_context \<Rightarrow> u32 \<Rightarrow> nat \<Rightarrow> 'f engine \<Rightarrow> 'f engine res" where
  "run_block fl ctx a 0 e = Inr e"
| "run_block fl ctx a (Suc n) e = bindE (arithmetic_at fl ctx a e) (run_block fl ctx (a + 1) n)"

lemma arithmetic_at_frame: "arithmetic_at fl ctx a (with_frame pc st e) = map_res (with_frame pc st) (arithmetic_at fl ctx a e)"
  by (simp add: arithmetic_at_def with_frame_updates legacy_frame)

lemma run_block_frame: "run_block fl ctx a n (with_frame pc st e) = map_res (with_frame pc st) (run_block fl ctx a n e)"
proof (induction n arbitrary: a e)
  case (Suc n)
  show ?case by (cases "arithmetic_at fl ctx a e") (simp_all add: arithmetic_at_frame Suc.IH)
qed simp

definition arithmetic_block :: "'f shader_context \<Rightarrow> u32 \<Rightarrow> nat \<Rightarrow> bool" where
  "arithmetic_block ctx a n \<longleftrightarrow> unat a + n \<le> length (shader_memory ctx) \<and> length (shader_memory ctx) \<le> 1024
    \<and> (\<forall>i < n. arithmetic_word (shader_memory ctx ! (unat a + i)))"

text \<open>What the interpreter does from a state, given by the registers, the program counter and the call stack.\<close>

definition resume :: "'f float32 \<Rightarrow> 'f shader_context \<Rightarrow> u32 \<Rightarrow> CallStackElement list \<Rightarrow> 'f engine res \<Rightarrow> 'f engine res option" where
  "resume fl ctx pc st r = (case r of Inl err \<Rightarrow> Some (Inl err) | Inr e \<Rightarrow> ProcessShaderCode fl ctx (with_frame pc st e))"

lemma resume_simps [simp]:
  "resume fl ctx pc st (Inl err) = Some (Inl err)" "resume fl ctx pc st (Inr e) = ProcessShaderCode fl ctx (with_frame pc st e)"
  by (simp_all add: resume_def)

definition in_scope :: "u32 \<Rightarrow> CallStackElement list \<Rightarrow> bool" where
  "in_scope pc st \<longleftrightarrow> (case st of [] \<Rightarrow> True | t # _ \<Rightarrow> pc \<noteq> final_address t)"

lemma step_in_scope: "in_scope pc st \<Longrightarrow> shader_step fl ctx (with_frame pc st e) = execute_instruction fl ctx (with_frame pc st e)"
  by (auto simp: shader_step_def in_scope_def split: list.split)

lemma process_arithmetic:
  assumes "in_scope a st" "arithmetic_block ctx a (Suc n)"
  shows "ProcessShaderCode fl ctx (with_frame a st e) = resume fl ctx (a + 1) st (arithmetic_at fl ctx a e)"
proof -
  have w: "arithmetic_word (shader_memory ctx ! unat a)" "unat a < length (shader_memory ctx)"
    using assms(2) by (auto simp: arithmetic_block_def)
  have "execute_instruction fl ctx (with_frame a st e) = map_res (\<lambda>e. (with_frame (a + 1) st e, False)) (arithmetic_at fl ctx a e)"
  proof (cases "arithmetic_at fl ctx a e")
    case (Inr e')
    show ?thesis using w Inr by (simp add: execute_instruction_def arithmetic_word_def arithmetic_at_def with_frame_updates legacy_frame)
  qed (use w in \<open>simp add: execute_instruction_def arithmetic_word_def arithmetic_at_def with_frame_updates legacy_frame\<close>)
  then show ?thesis unfolding ProcessShaderCode.simps [of fl ctx "with_frame a st e"] step_in_scope [OF assms(1)]
    by (cases "arithmetic_at fl ctx a e") simp_all
qed

lemma arithmetic_block_Suc:
  assumes "arithmetic_block ctx a (Suc n)"
  shows "arithmetic_block ctx (a + 1) n" "unat (a + 1) = unat a + 1"
proof -
  have "unat a + 1 < 2 ^ 32" using assms by (simp add: arithmetic_block_def)
  then show "unat (a + 1) = unat a + 1" by (simp add: unat_word_ariths)
  then show "arithmetic_block ctx (a + 1) n" using assms by (auto simp: arithmetic_block_def)
qed

lemma process_block:
  assumes "arithmetic_block ctx a n" "\<forall>i < n. in_scope (a + of_nat i) st"
  shows "ProcessShaderCode fl ctx (with_frame a st e) = resume fl ctx (a + of_nat n) st (run_block fl ctx a n e)"
  using assms
proof (induction n arbitrary: a e)
  case (Suc n)
  have "in_scope a st" using Suc.prems(2) by (auto dest: spec [of _ 0])
  moreover have "\<forall>i < n. in_scope (a + 1 + of_nat i) st" using Suc.prems(2) by (auto simp: add.assoc dest: spec [of _ "Suc _"])
  ultimately show ?case using Suc.IH [OF arithmetic_block_Suc(1) [OF Suc.prems(1)]]
    by (cases "arithmetic_at fl ctx a e") (simp_all add: process_arithmetic [OF _ Suc.prems(1)] add.assoc)
qed simp

section \<open>Scopes\<close>

text \<open>The end of a pass through a scope: the loop counter grows.\<close>

definition bump :: "u8 \<Rightarrow> 'f engine \<Rightarrow> 'f engine res" where
  "bump inc e = (let a = sint (address_registers e ! 2) + uint inc in
    if 2 ^ 31 \<le> a then Inl UndefinedBehaviour else Inr (e\<lparr>address_registers := (address_registers e)[2 := word_of_int a]\<rparr>))"

primrec loop_rounds :: "'f float32 \<Rightarrow> 'f shader_context \<Rightarrow> u32 \<Rightarrow> nat \<Rightarrow> u8 \<Rightarrow> nat \<Rightarrow> 'f engine \<Rightarrow> 'f engine res" where
  "loop_rounds fl ctx a n inc 0 e = Inr e"
| "loop_rounds fl ctx a n inc (Suc k) e = bindE (run_block fl ctx a n e) (\<lambda>e. bindE (bump inc e) (loop_rounds fl ctx a n inc k))"

lemma bump_0 [simp]: "bump 0 e = Inr e"
  using sint_lt [of "address_registers e ! 2"] by (simp add: bump_def)

lemma no_rounds [simp]: "bindE r (loop_rounds fl ctx a n inc 0) = r"
  by (cases r) simp_all

lemma process_leave:
  "ProcessShaderCode fl ctx (with_frame (final_address t) (t # rest) e) =
    (if repeat_counter t = 0 then resume fl ctx (return_address t) rest (bump (loop_increment t) e)
     else resume fl ctx (loop_begin_address t) (t\<lparr>repeat_counter := repeat_counter t - 1\<rparr> # rest) (bump (loop_increment t) e))"
proof -
  let ?e = "with_frame (final_address t) (t # rest) e"
  have "shader_step fl ctx ?e = map_res (\<lambda>e. (if repeat_counter t = 0 then with_frame (return_address t) rest e
      else with_frame (loop_begin_address t) (t\<lparr>repeat_counter := repeat_counter t - 1\<rparr> # rest) e, False)) (bump (loop_increment t) e)"
    by (simp add: shader_step_def leave_scope_def bump_def Let_def with_frame_def)
  then show ?thesis unfolding ProcessShaderCode.simps [of fl ctx ?e]
    by (cases "bump (loop_increment t) e") simp_all
qed

lemma in_scope_block:
  assumes "n < 2 ^ 32" "final_address t = a + of_nat n"
  shows "\<forall>i < n. in_scope (a + of_nat i) (t # rest)"
proof (intro allI impI)
  fix i assume "i < n"
  then have "(of_nat i :: u32) \<noteq> of_nat n" using assms(1) by (simp add: word_of_nat_eq_iff take_bit_nat_eq_self)
  then show "in_scope (a + of_nat i) (t # rest)" by (simp add: in_scope_def assms(2))
qed

lemma process_rounds:
  assumes block: "arithmetic_block ctx a n" and t: "loop_begin_address t = a" "final_address t = a + of_nat n"
  shows "ProcessShaderCode fl ctx (with_frame a (t # rest) e) =
    resume fl ctx (return_address t) rest (loop_rounds fl ctx a n (loop_increment t) (unat (repeat_counter t) + 1) e)"
  using t
proof (induction "unat (repeat_counter t)" arbitrary: t e)
  case (0 t e)
  have n: "n < 2 ^ 32" using block by (simp add: arithmetic_block_def)
  have "repeat_counter t = 0" using 0 by (simp add: unat_eq_0)
  then show ?case using process_leave [of fl ctx t rest] 0(3) process_block [OF block in_scope_block [OF n 0(3), of rest], of fl e]
    by (cases "run_block fl ctx a n e") simp_all
next
  case (Suc k t e)
  have n: "n < 2 ^ 32" using block by (simp add: arithmetic_block_def)
  let ?t = "t\<lparr>repeat_counter := repeat_counter t - 1\<rparr>"
  have c: "repeat_counter t \<noteq> 0" "unat (repeat_counter ?t) = k" using Suc(2) by (auto simp: unat_eq_0 [symmetric] unat_minus_one)
  have IH: "ProcessShaderCode fl ctx (with_frame a (?t # rest) e1)
      = resume fl ctx (return_address t) rest (loop_rounds fl ctx a n (loop_increment t) (unat (repeat_counter t)) e1)" for e1
    using Suc(1) [of ?t e1] c(2) Suc(2-4) by (simp del: loop_rounds.simps)
  note block_run = process_block [OF block in_scope_block [OF n Suc(4), of rest], of fl e]
  show ?case
  proof (cases "run_block fl ctx a n e")
    case (Inr b)
    have "ProcessShaderCode fl ctx (with_frame (a + of_nat n) (t # rest) b) = resume fl ctx a (?t # rest) (bump (loop_increment t) b)"
      using process_leave [of fl ctx t rest b] c(1) Suc(3,4) by simp
    then show ?thesis using Inr block_run IH by (cases "bump (loop_increment t) b") simp_all
  qed (use block_run in simp)
qed

section \<open>Flow instructions\<close>

lemma process_flow:
  assumes "in_scope pc st" "unat pc < length (shader_memory ctx)" "w = shader_memory ctx ! unat pc" "\<not> arithmetic_word w"
    and "flow_instruction ctx w (with_frame pc st (e\<lparr>max_offset := max (max_offset e) (pc + 1)\<rparr>)) = Inr (e', b)"
  shows "ProcessShaderCode fl ctx (with_frame pc st e) =
    (if b then Some (Inr (e'\<lparr>program_counter := program_counter e' + 1\<rparr>)) else ProcessShaderCode fl ctx (e'\<lparr>program_counter := program_counter e' + 1\<rparr>))"
proof -
  have "execute_instruction fl ctx (with_frame pc st e) = Inr (e'\<lparr>program_counter := program_counter e' + 1\<rparr>, b)"
    using assms(2-5) by (simp add: execute_instruction_def arithmetic_word_def with_frame_updates)
  then show ?thesis unfolding ProcessShaderCode.simps [of fl ctx "with_frame pc st e"] step_in_scope [OF assms(1)] by simp
qed

lemma flow_entries:
  "fst (info_table ! 0x22) = TrivialOp" "fst (info_table ! 0x24) = ConditionalOp" "fst (info_table ! 0x29) = UniformFlowControlOp"
  by code_simp+

lemma flow_types:
  "opcode w = 0x22 \<Longrightarrow> \<not> arithmetic_word w \<and> opcode_id (opcode w) = OP_END"
  "opcode w = 0x24 \<Longrightarrow> \<not> arithmetic_word w \<and> opcode_id (opcode w) = OP_CALL"
  "opcode w = 0x29 \<Longrightarrow> \<not> arithmetic_word w \<and> opcode_id (opcode w) = OP_LOOP"
  by (simp_all add: arithmetic_word_def opcode_type_def flow_entries opcode_id_def opcode_ids_def)

lemma process_end:
  assumes "in_scope pc st" "unat pc < length (shader_memory ctx)" "opcode (shader_memory ctx ! unat pc) = 0x22"
  shows "ProcessShaderCode fl ctx (with_frame pc st e) = Some (Inr (with_frame (pc + 1) st (e\<lparr>max_offset := max (max_offset e) (pc + 1)\<rparr>)))"
  using process_flow [OF assms(1,2) refl] flow_types(1) [OF assms(3)] by (simp add: flow_instruction_def Let_def)

definition call_at :: "'f shader_context \<Rightarrow> u32 \<Rightarrow> bool" where
  "call_at ctx a \<longleftrightarrow> unat a < length (shader_memory ctx) \<and> opcode (shader_memory ctx ! unat a) = 0x24"

definition called :: "'f shader_context \<Rightarrow> u32 \<Rightarrow> u32" where "called ctx a = dest_offset (shader_memory ctx ! unat a)"
definition called_end :: "'f shader_context \<Rightarrow> u32 \<Rightarrow> u32" where "called_end ctx a = called ctx a + num_instructions (shader_memory ctx ! unat a)"

definition visit :: "u32 \<Rightarrow> 'f engine \<Rightarrow> 'f engine" where
  "visit a e = e\<lparr>max_offset := max (max_offset e) (a + 1)\<rparr>"

definition call_frame :: "'f shader_context \<Rightarrow> u32 \<Rightarrow> CallStackElement" where
  "call_frame ctx a = \<lparr>final_address = called_end ctx a, return_address = a + 1, repeat_counter = 0, loop_increment = 0,
    loop_begin_address = called ctx a\<rparr>"

lemma process_enter:
  assumes "in_scope pc st" "call_at ctx pc" "length st < 16"
  shows "ProcessShaderCode fl ctx (with_frame pc st e) = ProcessShaderCode fl ctx (with_frame (called ctx pc) (call_frame ctx pc # st) (visit pc e))"
proof -
  let ?w = "shader_memory ctx ! unat pc"
  have w: "opcode ?w = 0x24" "unat pc < length (shader_memory ctx)" using assms(2) by (simp_all add: call_at_def)
  have "flow_instruction ctx ?w (with_frame pc st (visit pc e)) = Inr (with_frame (called ctx pc - 1) (call_frame ctx pc # st) (visit pc e), False)"
    using flow_types(2) [OF w(1)] assms(3) by (simp add: flow_instruction_def Let_def call_def with_frame_def call_frame_def called_def called_end_def)
  from process_flow [OF assms(1) w(2) refl _ this [unfolded visit_def]] flow_types(2) [OF w(1)] show ?thesis by (simp add: visit_def)
qed

text \<open>At the end of the routine the interpreter goes back.\<close>

lemma process_return:
  "ProcessShaderCode fl ctx (with_frame (called_end ctx pc) (call_frame ctx pc # st) e) = ProcessShaderCode fl ctx (with_frame (pc + 1) st e)"
  using process_leave [of fl ctx "call_frame ctx pc" st e] by (simp add: call_frame_def)

text \<open>
  The effect of a routine on the registers: \<open>executes fl ctx d a b e r\<close> says that the instructions from \<open>a\<close> up to \<open>b\<close>, which
  are arithmetic and calls nested no deeper than \<open>d\<close>, take the registers \<open>e\<close> to \<open>r\<close>.
\<close>

inductive executes :: "'f float32 \<Rightarrow> 'f shader_context \<Rightarrow> nat \<Rightarrow> u32 \<Rightarrow> u32 \<Rightarrow> 'f engine \<Rightarrow> 'f engine res \<Rightarrow> bool" for fl ctx where
  finished: "executes fl ctx d b b e (Inr e)"
| arithmetic: "a \<noteq> b \<Longrightarrow> arithmetic_block ctx a 1 \<Longrightarrow> arithmetic_at fl ctx a e = Inr e1 \<Longrightarrow> executes fl ctx d (a + 1) b e1 r \<Longrightarrow>
    executes fl ctx d a b e r"
| fault: "a \<noteq> b \<Longrightarrow> arithmetic_block ctx a 1 \<Longrightarrow> arithmetic_at fl ctx a e = Inl err \<Longrightarrow> executes fl ctx d a b e (Inl err)"
| nested: "a \<noteq> b \<Longrightarrow> call_at ctx a \<Longrightarrow> executes fl ctx d (called ctx a) (called_end ctx a) (visit a e) (Inr e1) \<Longrightarrow>
    executes fl ctx (Suc d) (a + 1) b e1 r \<Longrightarrow> executes fl ctx (Suc d) a b e r"
| nested_fault: "a \<noteq> b \<Longrightarrow> call_at ctx a \<Longrightarrow> executes fl ctx d (called ctx a) (called_end ctx a) (visit a e) (Inl err) \<Longrightarrow>
    executes fl ctx (Suc d) a b e (Inl err)"

lemma process_executes:
  assumes "executes fl ctx d a b e r" "final_address t = b" "length st + d < 16"
  shows "ProcessShaderCode fl ctx (with_frame a (t # st) e) = resume fl ctx b (t # st) r"
  using assms
proof (induction arbitrary: t st)
  case (finished d b e)
  show ?case by simp
next
  case (arithmetic a b e e1 d r)
  have "in_scope a (t # st)" using arithmetic by (simp add: in_scope_def)
  from process_arithmetic [OF this, where n = 0 and ctx = ctx and fl = fl and e = e] arithmetic show ?case by simp
next
  case (fault a b e err d)
  have "in_scope a (t # st)" using fault by (simp add: in_scope_def)
  from process_arithmetic [OF this, where n = 0 and ctx = ctx and fl = fl and e = e] fault show ?case by simp
next
  case (nested a b d e e1 r)
  have "in_scope a (t # st)" "length (t # st) < 16" using nested by (simp_all add: in_scope_def)
  note enter = process_enter [OF this(1) nested.hyps(2) this(2), of fl e]
  have "ProcessShaderCode fl ctx (with_frame (called ctx a) (call_frame ctx a # t # st) (visit a e)) = ProcessShaderCode fl ctx (with_frame (a + 1) (t # st) e1)"
    using nested.IH(1) [of "call_frame ctx a" "t # st"] nested.prems(2) process_return [of fl ctx a "t # st" e1] by (simp add: call_frame_def)
  then show ?case using enter nested.IH(2) [OF nested.prems] by simp
next
  case (nested_fault a b d e err)
  have "in_scope a (t # st)" "length (t # st) < 16" using nested_fault by (simp_all add: in_scope_def)
  note enter = process_enter [OF this(1) nested_fault.hyps(2) this(2), of fl e]
  then show ?case using nested_fault.IH [of "call_frame ctx a" "t # st"] nested_fault.prems(2) by (simp add: call_frame_def)
qed

lemma process_call:
  assumes "in_scope pc st" "call_at ctx pc" "length st + d < 16" "executes fl ctx d (called ctx pc) (called_end ctx pc) (visit pc e) r"
  shows "ProcessShaderCode fl ctx (with_frame pc st e) = resume fl ctx (pc + 1) st r"
proof -
  have "length st < 16" using assms(3) by simp
  note enter = process_enter [OF assms(1,2) this, of fl e]
  have "ProcessShaderCode fl ctx (with_frame (called ctx pc) (call_frame ctx pc # st) (visit pc e)) = resume fl ctx (called_end ctx pc) (call_frame ctx pc # st) r"
    by (rule process_executes [OF assms(4) _ assms(3)]) (simp add: call_frame_def)
  then show ?thesis using enter process_return [of fl ctx pc st] by (cases r) simp_all
qed

text \<open>A routine without calls is a block.\<close>

lemma block_executes:
  assumes "arithmetic_block ctx a n"
  shows "executes fl ctx d a (a + of_nat n) e (run_block fl ctx a n e)"
  using assms
proof (induction n arbitrary: a e)
  case 0
  show ?case by (simp add: finished)
next
  case (Suc n)
  have n: "Suc n < 2 ^ 32" using Suc.prems by (simp add: arithmetic_block_def)
  have "(of_nat (Suc n) :: u32) \<noteq> 0" using n by (simp add: of_nat_0_eq_iff unat_of_nat word_unat_eq_iff del: of_nat_Suc)
  then have a: "a \<noteq> a + of_nat (Suc n)" by (simp del: of_nat_Suc)
  have first: "arithmetic_block ctx a 1" using Suc.prems by (auto simp: arithmetic_block_def)
  show ?case
  proof (cases "arithmetic_at fl ctx a e")
    case (Inl err)
    then show ?thesis using fault [OF a first Inl] by simp
  next
    case (Inr e1)
    have "executes fl ctx d (a + 1) (a + of_nat (Suc n)) e1 (run_block fl ctx (a + 1) n e1)"
      using Suc.IH [OF arithmetic_block_Suc(1) [OF Suc.prems], of e1] by (simp add: add.assoc)
    from arithmetic [OF a first Inr this] show ?thesis using Inr by simp
  qed
qed

lemma process_loop:
  assumes "in_scope pc st" "unat pc < length (shader_memory ctx)" "w = shader_memory ctx ! unat pc" "opcode w = 0x29" "length st < 16"
    and i: "i = uniforms_i ctx ! unat (int_uniform_id w)"
    and block: "arithmetic_block ctx (pc + 1) (unat (dest_offset w - pc))"
  shows "ProcessShaderCode fl ctx (with_frame pc st e) = resume fl ctx (dest_offset w + 1) st
    (loop_rounds fl ctx (pc + 1) (unat (dest_offset w - pc)) (i ! 2) (unat (i ! 0) + 1)
      (e\<lparr>max_offset := max (max_offset e) (pc + 1), address_registers := (address_registers e)[2 := ucast (i ! 1)]\<rparr>))"
proof -
  let ?e = "e\<lparr>max_offset := max (max_offset e) (pc + 1)\<rparr>"
  let ?e1 = "?e\<lparr>address_registers := (address_registers e)[2 := ucast (i ! 1)]\<rparr>"
  let ?t = "\<lparr>final_address = pc + 1 + (dest_offset w - pc), return_address = dest_offset w + 1, repeat_counter = i ! 0, loop_increment = i ! 2,
    loop_begin_address = pc + 1\<rparr>"
  have "flow_instruction ctx w (with_frame pc st ?e) = Inr (with_frame pc (?t # st) ?e1, False)"
    using flow_types(3) [OF assms(4)] assms(5) by (simp add: flow_instruction_def Let_def call_def i with_frame_def)
  from process_flow [OF assms(1-3) _ this] flow_types(3) [OF assms(4)]
  have "ProcessShaderCode fl ctx (with_frame pc st e) = ProcessShaderCode fl ctx (with_frame (pc + 1) (?t # st) ?e1)"
    by simp
  then show ?thesis using process_rounds [OF block, of ?t fl st] by simp
qed

section \<open>Properties\<close>

text \<open>
  Whole numbers in place of the host's numbers, and two programs for the examples: a loop around an addition to a temporary
  register, and a call of a routine that makes the same addition, calls a second routine that makes it, and makes it again.
\<close>

definition whole_numbers :: "int float32" where
  "whole_numbers = \<lparr>float_of = (\<lambda>i. i), float_add = (+), float_mul = (*), float_recip = (\<lambda>x. 1 div x), float_rsqrt = (\<lambda>x. x),
    float_less = (<), float_le = (\<le>), float_eq = (=), float_isnan = (\<lambda>_. False), float_to_s32 = (\<lambda>x. Some (word_of_int x))\<rparr>"

definition loop_program :: "int shader_context" where
  "loop_program = \<lparr>shader_memory = [0xA4000400, 0x02010880, 0x88000000], swizzle_data = [0x6C36F], uniforms_f = replicate 96 [0, 0, 0, 0],
    uniforms_b = replicate 16 False, uniforms_i = [[2, 5, 1, 0]], shader_num_output_attributes = 0, vs_output_register_mask = 0,
    shader_output_semantics = []\<rparr>"

definition call_program :: "int shader_context" where
  "call_program = loop_program\<lparr>shader_memory := [0x90000803, 0x88000000, 0x02010880, 0x90001401, 0x02010880, 0x02010880]\<rparr>"

definition idle_engine :: "int engine" where
  "idle_engine = \<lparr>input_register_table = replicate 16 None, dummy_register = 0, input_attr = [], program_counter = 0,
    output_registers = replicate 16 [0, 0, 0, 0], temporary_registers = [0, 0, 0, 0] # replicate 15 [10, 20, 30, 40],
    conditional_code = [False, False], address_registers = [0, 0, 0], call_stack = [], max_offset = 0, max_opdesc_id = 0\<rparr>"

lemma loop_program_result:
  "case loop_rounds whole_numbers loop_program 1 1 1 3 (idle_engine\<lparr>max_offset := 1, address_registers := [0, 0, 5]\<rparr>) of
      Inl _ \<Rightarrow> False
    | Inr e \<Rightarrow> temporary_registers e ! 0 = [30, 60, 90, 120] \<and> address_registers e ! 2 = 8"
  by code_simp

definition add_at :: "u32 \<Rightarrow> int engine \<Rightarrow> int engine" where
  "add_at a e = projr (arithmetic_at whole_numbers call_program a e)"

definition call_result :: "int engine" where
  "call_result = add_at 4 (add_at 5 (visit 3 (add_at 2 (visit 0 idle_engine))))"

lemma call_program_steps:
  "\<not> isl (arithmetic_at whole_numbers call_program 2 (visit 0 idle_engine))"
  "\<not> isl (arithmetic_at whole_numbers call_program 5 (visit 3 (add_at 2 (visit 0 idle_engine))))"
  "\<not> isl (arithmetic_at whole_numbers call_program 4 (add_at 5 (visit 3 (add_at 2 (visit 0 idle_engine)))))"
  "temporary_registers call_result ! 0 = [30, 60, 90, 120]"
  by code_simp+

lemma program_words:
  "length (shader_memory loop_program) = 3" "length (shader_memory call_program) = 6"
  "shader_memory loop_program ! 0 = 0xA4000400" "shader_memory loop_program ! 2 = 0x88000000"
  "shader_memory call_program ! 0 = 0x90000803" "shader_memory call_program ! Suc 0 = 0x88000000" "shader_memory call_program ! 3 = 0x90001401"
  "uniforms_i loop_program ! 0 = [2, 5, 1, 0]"
  by (simp_all add: loop_program_def call_program_def)

lemma program_fields:
  "opcode 0xA4000400 = 0x29" "opcode 0x88000000 = 0x22" "opcode 0x90000803 = 0x24" "opcode 0x90001401 = 0x24"
  "dest_offset 0xA4000400 = 1" "int_uniform_id 0xA4000400 = 0"
  "dest_offset 0x90000803 = 2" "num_instructions 0x90000803 = 3" "dest_offset 0x90001401 = 5" "num_instructions 0x90001401 = 1"
  by code_simp+

lemma program_blocks: "arithmetic_block loop_program 1 1" "a \<in> {2, 4, 5} \<Longrightarrow> arithmetic_block call_program a 1"
proof -
  have "arithmetic_word 0x02010880" by code_simp
  then show "arithmetic_block loop_program 1 1" "a \<in> {2, 4, 5} \<Longrightarrow> arithmetic_block call_program a 1"
    by (auto simp: arithmetic_block_def loop_program_def call_program_def)
qed

lemma call_program_calls:
  "call_at call_program 0" "called call_program 0 = 2" "called_end call_program 0 = 5"
  "call_at call_program 3" "called call_program 3 = 5" "called_end call_program 3 = 6"
  by (simp_all add: call_at_def called_def called_end_def program_words program_fields)

lemma call_program_executes: "executes whole_numbers call_program 1 2 5 (visit 0 idle_engine) (Inr call_result)"
proof -
  have step: "\<not> isl (arithmetic_at whole_numbers call_program a e) \<Longrightarrow> arithmetic_at whole_numbers call_program a e = Inr (add_at a e)" for a e
    by (simp add: add_at_def)
  let ?e = "add_at 2 (visit 0 idle_engine)"
  have "executes whole_numbers call_program 0 (called call_program 3) (called_end call_program 3) (visit 3 ?e) (Inr (add_at 5 (visit 3 ?e)))"
    unfolding call_program_calls by (rule arithmetic [OF _ program_blocks(2) step [OF call_program_steps(2)]]) (simp_all add: finished)
  moreover have "executes whole_numbers call_program (Suc 0) 4 5 (add_at 5 (visit 3 ?e)) (Inr call_result)"
    unfolding call_result_def by (rule arithmetic [OF _ program_blocks(2) step [OF call_program_steps(3)]]) (simp_all add: finished)
  ultimately have "executes whole_numbers call_program (Suc 0) 3 5 ?e (Inr call_result)"
    using nested [of 3 5 call_program whole_numbers 0 ?e] call_program_calls(4) by simp
  then have "executes whole_numbers call_program (Suc 0) 2 5 (visit 0 idle_engine) (Inr call_result)"
    using arithmetic [OF _ program_blocks(2) step [OF call_program_steps(1)], of 5 "Suc 0"] by simp
  then show ?thesis by simp
qed

lemma call_program_ends:
  "ProcessShaderCode whole_numbers call_program (with_frame 1 [] e) =
    Some (Inr (with_frame 2 [] (e\<lparr>max_offset := max (max_offset e) 2\<rparr>)))"
  using process_end [of 1 "[]" call_program whole_numbers e] by (simp add: in_scope_def program_words program_fields)

lemma call_program_runs:
  "\<exists>e'. ProcessShaderCode whole_numbers call_program (start_engine 0 idle_engine) = Some (Inr e')"
proof -
  have "start_engine 0 idle_engine = with_frame 0 [] idle_engine" by (simp add: start_engine_def idle_engine_def with_frame_def)
  moreover have "ProcessShaderCode whole_numbers call_program (with_frame 0 [] idle_engine)
      = ProcessShaderCode whole_numbers call_program (with_frame 1 [] call_result)"
    using process_call [of 0 "[]" call_program 1 whole_numbers idle_engine "Inr call_result"] call_program_executes call_program_calls
    by (simp add: in_scope_def)
  ultimately show ?thesis by (simp add: call_program_ends)
qed

lemma process_engine_ok:
  "ProcessShaderCode fl ctx e = Some r \<Longrightarrow> engine_ok e \<longrightarrow> (\<forall>e'. r = Inr e' \<longrightarrow> engine_ok e')"
proof (induction fl ctx e r rule: ProcessShaderCode.raw_induct [rotated 1, consumes 1, case_names step])
  case (step f fl ctx e r)
  show ?case
  proof (cases "shader_step fl ctx e")
    case (Inl err)
    then show ?thesis using step(2) by auto
  next
    case (Inr p)
    obtain e1 b where p: "p = (e1, b)" by (cases p)
    show ?thesis
    proof (intro impI)
      assume "engine_ok e"
      then have e1: "engine_ok e1" using engine_ok_step Inr p by blast
      show "\<forall>e'. r = Inr e' \<longrightarrow> engine_ok e'"
      proof (cases b)
        case True
        then show ?thesis using step(2) Inr p e1 by auto
      next
        case False
        then have "f fl ctx e1 = Some r" using step(2) Inr p by simp
        from step(1) [OF this] e1 show ?thesis by simp
      qed
    qed
  qed
qed

text \<open>However a shader runs, when it comes to its end the sixteen output and the sixteen temporary registers still have four
  components each, every input register names an attribute of the vertex, and at most sixteen scopes are open.\<close>

theorem shader_registers_shaped:
  assumes "engine_ok e" "ProcessShaderCode fl ctx (start_engine entry e) = Some (Inr e')"
  shows "engine_ok e'"
proof (rule process_engine_ok [OF assms(2), rule_format, OF _ refl])
  show "engine_ok (start_engine entry e)" using assms(1) by (simp add: engine_ok_def start_engine_def)
qed

theorem shader_registers_shaped_witness:
  "\<exists>e'. ProcessShaderCode whole_numbers call_program (start_engine 0 idle_engine) = Some (Inr e') \<and> engine_ok e'"
proof -
  have "engine_ok idle_engine" by (simp add: engine_ok_def vectors_def idle_engine_def)
  then show ?thesis using shader_registers_shaped [of idle_engine whole_numbers call_program 0] call_program_runs by blast
qed

text \<open>C21: A call of a routine that consists of arithmetic instructions and of calls of such routines, nested no deeper than the
  stack of sixteen scopes allows. The call runs the routine on the registers and goes on after the calling instruction, with
  the scopes that were open before; when the routine fails, so does the program.\<close>

theorem shader_call_returns:
  assumes "in_scope pc st" "call_at ctx pc" "length st + d < 16"
    and "executes fl ctx d (called ctx pc) (called_end ctx pc) (visit pc e) r"
  shows "ProcessShaderCode fl ctx (with_frame pc st e) =
    (case r of Inl err \<Rightarrow> Some (Inl err) | Inr e' \<Rightarrow> ProcessShaderCode fl ctx (with_frame (pc + 1) st e'))"
  using process_call [OF assms] by (simp add: resume_def)

theorem shader_call_returns_witness:
  "case ProcessShaderCode whole_numbers call_program (with_frame 0 [] idle_engine) of
      Some (Inr e) \<Rightarrow> temporary_registers e ! 0 = [30, 60, 90, 120] \<and> program_counter e = 2 \<and> call_stack e = []
    | _ \<Rightarrow> False"
  using shader_call_returns [of 0 "[]" call_program 1 whole_numbers idle_engine "Inr call_result"] call_program_executes call_program_calls
    call_program_steps(4) by (simp add: in_scope_def call_program_ends)

text \<open>C20: A program that is a loop over arithmetic instructions, followed by \<open>END\<close>, ends. The body runs once more than the first
  component of the integer uniform says, the loop counter starts at the second component and grows by the third.\<close>

theorem shader_loop_ends:
  assumes "w = shader_memory ctx ! unat pc" "opcode w = 0x29" "i = uniforms_i ctx ! unat (int_uniform_id w)"
    and "n = unat (dest_offset w - pc)" "arithmetic_block ctx (pc + 1) n" "unat pc < length (shader_memory ctx)"
    and "unat (dest_offset w + 1) < length (shader_memory ctx)" "opcode (shader_memory ctx ! unat (dest_offset w + 1)) = 0x22"
  shows "ProcessShaderCode fl ctx (with_frame pc [] e) = Some (case loop_rounds fl ctx (pc + 1) n (i ! 2) (unat (i ! 0) + 1)
        (e\<lparr>max_offset := max (max_offset e) (pc + 1), address_registers := (address_registers e)[2 := ucast (i ! 1)]\<rparr>) of
      Inl err \<Rightarrow> Inl err
    | Inr e' \<Rightarrow> Inr (with_frame (dest_offset w + 2) [] (e'\<lparr>max_offset := max (max_offset e') (dest_offset w + 2)\<rparr>)))"
proof -
  have "in_scope q []" for q by (simp add: in_scope_def)
  from process_loop [OF this assms(6,1,2) _ assms(3)] process_end [OF this assms(7,8)] assms(4,5) show ?thesis
    by (simp add: resume_def add.assoc split: sum.split)
qed

theorem shader_loop_ends_witness:
  "case ProcessShaderCode whole_numbers loop_program (with_frame 0 [] idle_engine) of
      Some (Inr e) \<Rightarrow> temporary_registers e ! 0 = [30, 60, 90, 120] \<and> address_registers e ! 2 = 8 \<and> program_counter e = 3
    | _ \<Rightarrow> False"
proof -
  have "max_offset idle_engine = 0" "address_registers idle_engine = [0, 0, 0]" by (simp_all add: idle_engine_def)
  then show ?thesis
    using shader_loop_ends [of "0xA4000400" loop_program 0 "[2, 5, 1, 0]" 1 whole_numbers idle_engine] program_blocks(1) loop_program_result
    by (auto simp: program_words program_fields split: sum.splits)
qed

end
