(* ===== verification/PrimitiveAssembly.thy ===== *)
theory PrimitiveAssembly
  imports Prelude
begin

text \<open>
  The assembly of triangles from the vertices of a draw call (\<open>video_core/primitive_assembly.cpp\<close>). The triangles are collected
  in a list in the order in which the handler gets them. A vertex of the buffer that was never written is \<open>None\<close>.
\<close>

datatype TriangleTopology = TopologyList | TopologyStrip | TopologyFan | TopologyListIndexed

record 'v assembler =
  topology :: TriangleTopology
  buffer_index :: nat
  buffer :: "'v option list"
  strip_ready :: bool

definition Configure :: "TriangleTopology \<Rightarrow> 'v assembler \<Rightarrow> 'v assembler" where
  "Configure t a = a\<lparr>topology := t, buffer_index := 0, strip_ready := False\<rparr>"

definition PrimitiveAssembler :: "'v assembler" where
  "PrimitiveAssembler = Configure TopologyList \<lparr>topology = TopologyList, buffer_index = 0, buffer = [None, None], strip_ready = False\<rparr>"

type_synonym 'v triangle = "'v option \<times> 'v option \<times> 'v"

definition SubmitVertex :: "'v \<Rightarrow> 'v assembler \<Rightarrow> 'v assembler \<times> 'v triangle list" where
  "SubmitVertex v a =
    (if topology a = TopologyList \<or> topology a = TopologyListIndexed
     then if buffer_index a < 2
       then (a\<lparr>buffer := (buffer a)[buffer_index a := Some v], buffer_index := buffer_index a + 1\<rparr>, [])
       else (a\<lparr>buffer_index := 0\<rparr>, [(buffer a ! 0, buffer a ! 1, v)])
     else
       let ts = (if strip_ready a then [(buffer a ! 0, buffer a ! 1, v)] else []);
           a1 = a\<lparr>buffer := (buffer a)[buffer_index a := Some v]\<rparr>
       in (if topology a = TopologyStrip
           then a1\<lparr>strip_ready := strip_ready a \<or> buffer_index a = 1, buffer_index := (if buffer_index a = 0 then 1 else 0)\<rparr>
           else a1\<lparr>buffer_index := 1, strip_ready := True\<rparr>, ts))"

definition submit_all :: "'v list \<Rightarrow> 'v assembler \<Rightarrow> 'v assembler \<times> 'v triangle list" where
  "submit_all vs a = fold (\<lambda>v (a, ts). let (a', t) = SubmitVertex v a in (a', ts @ t)) vs (a, [])"

lemma submit_all_Nil [simp]: "submit_all [] a = (a, [])" by (simp add: submit_all_def)

lemma submit_all_snoc: "submit_all (vs @ [v]) a = (let (a1, ts) = submit_all vs a; (a2, t) = SubmitVertex v a1 in (a2, ts @ t))"
  by (simp add: submit_all_def case_prod_beta)

section \<open>Lists\<close>

definition list_triangles :: "'v list \<Rightarrow> 'v triangle list" where
  "list_triangles vs = map (\<lambda>i. (Some (vs ! (3 * i)), Some (vs ! (3 * i + 1)), vs ! (3 * i + 2))) [0..<length vs div 3]"

lemma list_state:
  assumes "length (buffer a) = 2" "t = TopologyList \<or> t = TopologyListIndexed"
  shows "\<exists>a'. submit_all vs (Configure t a) = (a', list_triangles vs) \<and> topology a' = t \<and> length (buffer a') = 2
    \<and> buffer_index a' = length vs mod 3 \<and> (\<forall>j < length vs mod 3. buffer a' ! j = Some (vs ! (length vs - length vs mod 3 + j)))"
proof (induction vs rule: rev_induct)
  case Nil
  show ?case using assms(1) by (auto simp: Configure_def list_triangles_def)
next
  case (snoc v vs)
  let ?n = "length vs"
  obtain a' where a': "submit_all vs (Configure t a) = (a', list_triangles vs)" "topology a' = t" "length (buffer a') = 2" "buffer_index a' = ?n mod 3"
    "\<forall>j < ?n mod 3. buffer a' ! j = Some (vs ! (?n - ?n mod 3 + j))" using snoc.IH by blast
  have keep: "list_triangles (vs @ [v]) = list_triangles vs" if "?n mod 3 \<noteq> 2"
  proof -
    have "Suc ?n div 3 = ?n div 3" using that by presburger
    then show ?thesis by (auto simp: list_triangles_def nth_append)
  qed
  show ?case
  proof (cases "?n mod 3 = 2")
    case True
    then have n: "Suc ?n mod 3 = 0" "Suc ?n div 3 = Suc (?n div 3)" "?n = 3 * (?n div 3) + 2" by presburger+
    have "buffer a' ! 0 = Some (vs ! (3 * (?n div 3)))" "buffer a' ! 1 = Some (vs ! (3 * (?n div 3) + 1))"
      using a'(5) [unfolded minus_mod_eq_mult_div, rule_format, of 0] a'(5) [unfolded minus_mod_eq_mult_div, rule_format, of 1] True by simp_all
    moreover have "list_triangles (vs @ [v]) = list_triangles vs @ [(Some (vs ! (3 * (?n div 3))), Some (vs ! (3 * (?n div 3) + 1)), v)]"
      using n(2,3) by (auto simp: list_triangles_def nth_append)
    ultimately show ?thesis using a'(1-4) True n(1) assms(2) by (auto simp: submit_all_snoc SubmitVertex_def)
  next
    case False
    then have n: "Suc ?n mod 3 = Suc (?n mod 3)" "?n mod 3 < 2" "Suc ?n - Suc (?n mod 3) = ?n - ?n mod 3" by presburger+
    have "j < Suc (?n mod 3) \<Longrightarrow> (buffer a')[?n mod 3 := Some v] ! j = Some ((vs @ [v]) ! (?n - ?n mod 3 + j))" for j
      using a'(3,5) n(2) by (cases "j = ?n mod 3") (auto simp: nth_append)
    then show ?thesis using a'(1-4) n keep [OF False] assms(2) by (auto simp: submit_all_snoc SubmitVertex_def)
  qed
qed

section \<open>Strips\<close>

definition strip_triangles :: "'v list \<Rightarrow> 'v triangle list" where
  "strip_triangles vs = map (\<lambda>i. if even i then (Some (vs ! i), Some (vs ! (i + 1)), vs ! (i + 2))
    else (Some (vs ! (i + 1)), Some (vs ! i), vs ! (i + 2))) [0..<length vs - 2]"

lemma strip_state:
  assumes "buffer a = [x, y]"
  shows "\<exists>a'. submit_all vs (Configure TopologyStrip a) = (a', strip_triangles vs) \<and> topology a' = TopologyStrip
    \<and> buffer_index a' = length vs mod 2 \<and> strip_ready a' = (2 \<le> length vs)
    \<and> buffer a' = (if vs = [] then [x, y] else if length vs = 1 then [Some (vs ! 0), y]
        else if even (length vs) then [Some (vs ! (length vs - 2)), Some (vs ! (length vs - 1))]
        else [Some (vs ! (length vs - 1)), Some (vs ! (length vs - 2))])"
proof (induction vs rule: rev_induct)
  case Nil
  show ?case using assms by (simp add: Configure_def strip_triangles_def)
next
  case (snoc v vs)
  then obtain a' where a': "submit_all vs (Configure TopologyStrip a) = (a', strip_triangles vs)" "topology a' = TopologyStrip"
    "buffer_index a' = length vs mod 2" "strip_ready a' = (2 \<le> length vs)"
    "buffer a' = (if vs = [] then [x, y] else if length vs = 1 then [Some (vs ! 0), y]
        else if even (length vs) then [Some (vs ! (length vs - 2)), Some (vs ! (length vs - 1))]
        else [Some (vs ! (length vs - 1)), Some (vs ! (length vs - 2))])" by blast
  show ?case
  proof (cases "2 \<le> length vs")
    case True
    then obtain m where m: "length vs = Suc (Suc m)" by (metis Suc_le_D numeral_2_eq_2 Suc_le_mono)
    have "strip_triangles (vs @ [v]) = strip_triangles vs @ [if even m then (Some (vs ! m), Some (vs ! (m + 1)), v) else (Some (vs ! (m + 1)), Some (vs ! m), v)]"
      using m by (auto simp: strip_triangles_def nth_append)
    then show ?thesis using a' m by (auto simp: submit_all_snoc SubmitVertex_def Let_def nth_append mod_Suc even_iff_mod_2_eq_zero)
  next
    case False
    then have "vs = [] \<or> (\<exists>u. vs = [u])" by (cases vs; cases "tl vs") auto
    then show ?thesis using a' by (auto simp: submit_all_snoc SubmitVertex_def Let_def strip_triangles_def)
  qed
qed

section \<open>Fans\<close>

text \<open>A fan hands out a triangle for the second vertex already, with whatever the buffer held.\<close>

definition fan_triangles :: "'v option \<Rightarrow> 'v list \<Rightarrow> 'v triangle list" where
  "fan_triangles stale vs = map (\<lambda>i. (Some (vs ! 0), if i = 0 then stale else Some (vs ! i), vs ! (i + 1))) [0..<length vs - 1]"

lemma fan_state:
  assumes "buffer a = [x, y]" "vs \<noteq> []"
  shows "\<exists>a'. submit_all vs (Configure TopologyFan a) = (a', fan_triangles y vs) \<and> topology a' = TopologyFan
    \<and> buffer_index a' = 1 \<and> strip_ready a' \<and> buffer a' = [Some (vs ! 0), if length vs = 1 then y else Some (last vs)]"
  using assms(2)
proof (induction vs rule: rev_induct)
  case (snoc v vs)
  show ?case
  proof (cases "vs = []")
    case True
    then show ?thesis using assms(1) submit_all_snoc [of "[]" v "Configure TopologyFan a"] by (simp add: SubmitVertex_def Configure_def Let_def fan_triangles_def)
  next
    case False
    then obtain a' where a': "submit_all vs (Configure TopologyFan a) = (a', fan_triangles y vs)" "topology a' = TopologyFan" "buffer_index a' = 1"
      "strip_ready a'" "buffer a' = [Some (vs ! 0), if length vs = 1 then y else Some (last vs)]" using snoc.IH by blast
    obtain m where m: "length vs = Suc m" using False by (cases vs) auto
    have "fan_triangles y (vs @ [v]) = fan_triangles y vs @ [(Some (vs ! 0), if m = 0 then y else Some (vs ! m), v)]"
      using m by (auto simp: fan_triangles_def nth_append)
    moreover have "last vs = vs ! m" using m False by (simp add: last_conv_nth)
    ultimately show ?thesis using a' m by (auto simp: submit_all_snoc SubmitVertex_def Let_def nth_append)
  qed
qed simp

section \<open>Properties\<close>

text \<open>C22: Triangles of a draw call. Of a list, each three vertices in a row are a triangle and a rest of fewer is dropped; of a
  strip, each vertex from the third on forms one with the two before it, which change places in every second triangle.\<close>

theorem triangles_assembled:
  assumes "length (buffer a) = 2"
  shows "snd (submit_all vs (Configure TopologyList a)) = list_triangles vs \<and> snd (submit_all vs (Configure TopologyListIndexed a)) = list_triangles vs
    \<and> snd (submit_all vs (Configure TopologyStrip a)) = strip_triangles vs"
proof -
  obtain x y where "buffer a = [x, y]" using assms by (auto simp: length_Suc_conv numeral_2_eq_2)
  then show ?thesis
    using list_state [OF assms, of TopologyList vs] list_state [OF assms, of TopologyListIndexed vs] strip_state [of a x y vs] by auto
qed

theorem triangles_assembled_witness:
  "snd (submit_all [1 :: nat, 2, 3, 4, 5] (Configure TopologyList PrimitiveAssembler)) = [(Some 1, Some 2, 3)]
    \<and> snd (submit_all [1 :: nat, 2, 3, 4] (Configure TopologyStrip PrimitiveAssembler)) = [(Some 1, Some 2, 3), (Some 3, Some 2, 4)]"
proof -
  have "length (buffer (PrimitiveAssembler :: nat assembler)) = 2" by (simp add: PrimitiveAssembler_def Configure_def)
  from triangles_assembled [OF this, of "[1, 2, 3, 4, 5]"] triangles_assembled [OF this, of "[1, 2, 3, 4]"] show ?thesis
    by (simp add: list_triangles_def strip_triangles_def upt_rec)
qed

text \<open>A fan of vertices yields one triangle too many: the first one joins the first two vertices with what the buffer held
  from an earlier draw call.\<close>

theorem fan_has_stale_triangle:
  assumes "buffer a = [x, y]"
  shows "snd (submit_all (u # v # vs) (Configure TopologyFan a)) = (Some u, y, v) # tl (fan_triangles y (u # v # vs))"
  using fan_state [OF assms, of "u # v # vs"] by (auto simp: fan_triangles_def upt_conv_Cons simp del: upt_Suc)

theorem fan_has_stale_triangle_witness:
  "snd (submit_all [4, 5, 6] (Configure TopologyFan \<lparr>topology = TopologyStrip, buffer_index = 0, buffer = [Some 1, Some (2 :: nat)], strip_ready = True\<rparr>))
    = [(Some 4, Some 2, 5), (Some 4, Some 5, 6)]"
  using fan_has_stale_triangle [of "\<lparr>topology = TopologyStrip, buffer_index = 0, buffer = [Some 1, Some (2 :: nat)], strip_ready = True\<rparr>" "Some 1" "Some 2" 4 5 "[6]"]
  by (simp add: fan_triangles_def upt_rec)

end
