(* ===== verification/Spec2Isabelle.thy ===== *)
theory Spec2Isabelle
  imports KernelCorrect KernelMemoryCorrect WordMemory HooksCorrect ThumbCorrect Controller ShaderCorrect PrimitiveAssembly
begin

text \<open>
  A verification of the core of Mikage, an emulator of the Nintendo 3DS: the ARM11 interpreter, the memory it works on,
  the control of its execution by a debugger, the kernel of the emulated operating system, and the stages of the graphics
  unit that turn vertices into triangles (\<open>src/source\<close>).

  \<^bold>\<open>The program.\<close> The kernel (\<open>os.cpp\<close>) dispatches a thread; the interpreter (\<open>interpreter.cpp\<close>) executes its instructions
  until a system call, which runs in the kernel again. Instructions read and write virtual memory through the page table of
  the processor (\<open>arm/processor_default.cpp\<close>), which caches host memory where physical memory (\<open>memory.h\<close>, \<open>memory.cpp\<close>) has
  no device and no hook. The kernel keeps the address space of each process and tells the processor of each change. Threads
  wait for kernel objects, and processes exchange messages, handles and buffers over sessions. The graphics unit runs a shader
  program on every vertex of a draw call and assembles triangles from the vertices that leave it.

  \<^bold>\<open>Interpreter.\<close>
  \<^item> \<open>Prelude\<close>: errors as values, the sequencing \<open>bindE\<close> and \<open>foldE\<close>, lemmas on words, bits and lists. Every exception, failed
    assertion and undefined behaviour of the code is a value of the type \<open>error\<close>.
  \<^item> \<open>BitFields\<close>, \<open>ArmState\<close>, \<open>ArmInstr\<close>: \<open>bit_field.h\<close> and \<open>arm.h\<close>, registers, status registers with banks, encodings.
  \<^item> \<open>InterpCore\<close>, \<open>AluHandlers\<close>, \<open>MulHandlers\<close>, \<open>MediaHandlers\<close>: flags, conditions, the shifter and the handlers that only
    change the state of the processor, one definition for each handler of \<open>interpreter.cpp\<close>. They are proved equal to reference
    definitions: sums with carry and overflow, bitwise results, 64-bit products, saturation, reversal, leading zeros.
  \<^item> \<open>ExecContext\<close>, \<open>LoadStore\<close>, \<open>SystemHandlers\<close>: handlers with memory, coprocessors and system calls. Stores followed by
    loads of several registers restore them; an exclusive store succeeds once.
  \<^item> \<open>Dispatch\<close>: the table of patterns (\<open>arm/arm_meta.hpp\<close>) and the table of 8192 handlers computed from it. The generated
    table decodes every instruction as the patterns say.
  \<^item> \<open>Thumb\<close>, \<open>ThumbCorrect\<close>: \<open>arm/thumb.cpp\<close>, refined against a reference decoder: every translation is the word the
    ARM instruction set gives the instruction, operands included, and runs its handler. Two instructions have none.
  \<^item> \<open>Step\<close>, \<open>StepCorrect\<close>: fetch, step and the loops around them. A failed condition changes nothing but the program counter.

  \<^bold>\<open>Memory.\<close>
  \<^item> \<open>Busses\<close>, \<open>PhysicalMemory\<close>, \<open>WordMemory\<close>: the busses with their memory, accesses with hooks and devices, bytes and words.
  \<^item> \<open>MemoryHooks\<close>, \<open>HooksCorrect\<close>: setting and clearing hooks. Accesses run the hooks of their page; the interface
    between memory and its subscribers is a locale interpreted on the page table.
  \<^item> \<open>PageTable\<close>: the page table as a cache. Its invariant holds in every state that mapping, unmapping and notifications
    reach; the host page fast path agrees with the bus on pages without hooks.

  \<^bold>\<open>Debugger.\<close> \<open>Controller\<close>: the handshake of \<open>interpreter.h\<close> as a step relation of two threads over shared flags, with the points
  at which they wait; stability of a pause, the assertions, the one deadlock, and the order of the event queue.

  \<^bold>\<open>Kernel.\<close>
  \<^item> \<open>OrderedMap\<close>: \<open>std::map\<close> as a sorted association list, blocks of addresses in such maps.
  \<^item> \<open>MemoryManager\<close>, \<open>MemoryManagerCorrect\<close>: the allocator of a region of physical memory. The locale
    \<open>region_allocator\<close> states what allocation, release and transfer promise of whose each byte is, and proves histories of
    requests; it is interpreted on the code's definitions. Allocation is first fit and complete.
  \<^item> \<open>VirtualMemory\<close>, \<open>VirtualMemoryCorrect\<close>: the address space of a process and the page table kept along with it. The
    processor translates exactly as the kernel resolves, after mapping and unmapping aligned ranges as long as no unmapping
    starts in a gap before a block, where it removes the wrong addresses.
  \<^item> \<open>KernelObjects\<close>, \<open>KernelScheduler\<close>: the objects threads wait for, observers, handle tables, queues, timers, timeouts and
    the system calls on them.
  \<^item> \<open>KernelInvariant\<close>, \<open>KernelCorrect\<close>: the graph of threads and the objects they wait for, kept by every operation, by rule
    induction over the system calls of these theories, interrupts and the passing of time (messages, arbiters and the
    closing of handles are not among the steps); no lost wake-ups on the objects \<open>object_ok\<close> admits, and the one that
    sessions lose; objects that go to one waiter, as a locale interpreted on one-shot events, mutexes and semaphores;
    timeouts; the dispatcher.
  \<^item> \<open>KernelSystem\<close>, \<open>KernelMemoryCorrect\<close>: the kernel with the memory of its processes: control of memory, shared memory,
    thread local storage, creation of threads. An allocation joins region, search and mapping.
  \<^item> \<open>KernelPorts\<close>, \<open>KernelIpc\<close>, \<open>KernelIpcCorrect\<close>: arbiters, closing of handles, ports, sessions, and messages with their
    translation (\<open>platform/ipc.hpp\<close>). Mapped buffers are shared byte for byte and taken back by the reply;
    a handle that is translated is a new one in the receiver's table and refers to the same object.

  \<^bold>\<open>Graphics.\<close>
  \<^item> \<open>ShaderCode\<close>, \<open>ShaderInterpreter\<close>: the encoding of shader instructions (\<open>nihstro/shader_bytecode.h\<close>) and their interpreter
    (\<open>shader_interpreter.cpp\<close>), with registers, swizzled operands, the stack of scopes and the vertex that leaves a run.
  \<^item> \<open>ShaderCorrect\<close>: every instruction keeps the shape of the registers; arithmetic leaves the flow of control alone; calls, nested
    ones included, come back after arithmetic routines; loops end after the number of rounds their uniform gives.
  \<^item> \<open>PrimitiveAssembly\<close>: the triangles of lists, strips and fans (\<open>primitive_assembly.cpp\<close>), for a whole sequence of vertices.

  \<^bold>\<open>Parameters.\<close> What lies outside the modelled code is an argument: the devices behind the proxy busses and the functions
  hooks call (\<open>handlers\<close>), the floating-point operations of the host (\<open>fpu\<close>, \<open>float32\<close>), the kernel as the interpreter sees it
  (\<open>env\<close>), which owners of memory still exist (\<open>alive\<close>), and the number of owners of a shared object (\<open>use_count\<close>, \<open>uses\<close>).

  \<^bold>\<open>Termination.\<close> Loops are recursive functions with measures, so that every definition is total: the loop that unmaps
  block by block decreases the number of blocks, the loops over a message its distance to the end, the loops over the
  chunks of a buffer the bytes that are left. There is no fuel, except that the loops that execute instructions, which run
  until the kernel intervenes, take the number of instructions. A shader may run forever: its loop is a partial function
  whose value is \<open>None\<close> when it does not end; programs that loop over arithmetic are proved to end. Integers have the
  width they have in the code; where a signed overflow or an access out of bounds is undefined in C++ the result is the
  error \<open>UndefinedBehaviour\<close>.

  \<^bold>\<open>Not modelled.\<close> Of the graphics unit, the command lists, the shader compilers and the rendering over Vulkan, whose
  results are those of a driver; the services in \<open>processes\<close>, which are input and output over host files and devices;
  loaders of file formats; the network protocol of the debugger; user interface, tools, logging and profiling. Of the
  kernel, the creation of processes from program images, DMA, process information and the decoding of system call numbers
  are left out.
\<close>

end
